(* ===== verification/Prelude.thy ===== *)
theory Prelude
  imports Main "HOL-Library.Word"
begin

text \<open>
  Shared ground of the development: the machine integer types of the C code, the
  outcome type of a piece of C code (it returns, or it stops at a failed assertion, at an
  explicit crash, at a null dereference, at a division by zero, or while it still waits for
  the hardware), the combinators that sequence such code, and a weakest precondition
  calculus for it.  The collections \<open>wp_simps\<close> and \<open>pres_intros\<close> are
  extended by every component theory with the rules of its own operations.
\<close>

unbundle bit_operations_syntax

section \<open>Machine integers and bytes\<close>

type_synonym u8 = "8 word"
type_synonym u16 = "16 word"
type_synonym u32 = "32 word"
type_synonym u64 = "64 word"

definition le16 :: "u8 \<Rightarrow> u8 \<Rightarrow> u16" where
  "le16 b0 b1 = (ucast b0 :: u16) OR push_bit 8 (ucast b1)"

definition le32 :: "u8 \<Rightarrow> u8 \<Rightarrow> u8 \<Rightarrow> u8 \<Rightarrow> u32" where
  "le32 b0 b1 b2 b3 =
     (ucast b0 :: u32) OR push_bit 8 (ucast b1) OR push_bit 16 (ucast b2) OR push_bit 24 (ucast b3)"

definition bytes16 :: "u16 \<Rightarrow> u8 list" where
  "bytes16 v = [ucast v, ucast (drop_bit 8 v)]"

definition bytes32 :: "u32 \<Rightarrow> u8 list" where
  "bytes32 v = [ucast v, ucast (drop_bit 8 v), ucast (drop_bit 16 v), ucast (drop_bit 24 v)]"

fun read_le32 :: "u8 list \<Rightarrow> u32" where
  "read_le32 (b0 # b1 # b2 # b3 # _) = le32 b0 b1 b2 b3"
| "read_le32 _ = 0"

lemma length_bytes32 [simp]: "length (bytes32 v) = 4"
  by (simp add: bytes32_def)

lemma length_bytes16 [simp]: "length (bytes16 v) = 2"
  by (simp add: bytes16_def)

lemma le16_bytes16: "le16 (ucast v) (ucast (drop_bit 8 v)) = v"
proof (rule bit_word_eqI)
  fix n
  assume "n < LENGTH(16)"
  then show "bit (le16 (ucast v) (ucast (drop_bit 8 v))) n = bit v n"
    by (cases "n < 8"; simp add: le16_def bit_simps; auto)
qed

lemma le32_bytes32:
  "le32 (ucast v) (ucast (drop_bit 8 v)) (ucast (drop_bit 16 v)) (ucast (drop_bit 24 v)) = v"
proof (rule bit_word_eqI)
  fix n
  assume "n < LENGTH(32)"
  then show "bit (le32 (ucast v) (ucast (drop_bit 8 v)) (ucast (drop_bit 16 v))
      (ucast (drop_bit 24 v))) n = bit v n"
    by (cases "n < 8"; cases "n < 16"; cases "n < 24"; simp add: le32_def bit_simps; auto)
qed

lemma read_le32_bytes32 [simp]: "read_le32 (bytes32 v @ xs) = v"
  by (simp add: bytes32_def le32_bytes32)

lemma and_self_or [simp]: "(x OR m) AND m = (m :: 'a::len word)"
  by (rule bit_word_eqI) (auto simp: bit_simps)

lemma and_not_self [simp]: "(x AND NOT m) AND m = (0 :: 'a::len word)"
  by (rule bit_word_eqI) (auto simp: bit_simps)

lemma unat_u64_less: "unat (x :: u64) < 2 ^ 64"
  using unsigned_less [where 'a = nat, of x] by simp

lemma unat_u32_less: "unat (x :: u32) < 2 ^ 32"
  using unsigned_less [where 'a = nat, of x] by simp

lemma unat_u8_less: "unat (x :: u8) < 256"
  using unsigned_less [where 'a = nat, of x] by simp

lemma unat_u16_less: "unat (x :: u16) < 65536"
  using unsigned_less [where 'a = nat, of x] by simp

lemma unat_ucast_up [simp]:
  "unat (ucast (b :: u8) :: u16) = unat b" "unat (ucast b :: u32) = unat b" "unat (ucast b :: u64) = unat b"
  "unat (ucast (h :: u16) :: u32) = unat h" "unat (ucast h :: u64) = unat h"
  "unat (ucast (w :: u32) :: u64) = unat w"
  using unat_u8_less [of b] unat_u16_less [of h] unat_u32_less [of w]
  by (simp_all add: unsigned_ucast_eq take_bit_eq_mod)

lemma unat_ucast_down32: "unat (x :: u64) < 2 ^ 32 \<Longrightarrow> unat (ucast x :: u32) = unat x"
  by (simp add: unsigned_ucast_eq take_bit_eq_mod)

lemma and_not_eq: "x AND m = 0 \<Longrightarrow> x AND NOT m = (x :: 'a::len word)"
proof -
  assume "x AND m = 0"
  moreover have "x = (x AND m) OR (x AND NOT m)" by (simp flip: bit.conj_disj_distrib)
  ultimately show ?thesis by simp
qed

lemma less_max_succ: "x < 0xFFFFFFFF \<Longrightarrow> x + 1 \<noteq> (0 :: u32)"
proof
  assume "x < 0xFFFFFFFF" and "x + 1 = 0"
  then have "x = - 1" by (simp add: eq_neg_iff_add_eq_0)
  with \<open>x < 0xFFFFFFFF\<close> show False by simp
qed

lemma four_dvd_and_3: "4 dvd n \<Longrightarrow> (of_nat n :: u32) AND 3 = 0"
proof -
  assume "4 dvd n"
  then obtain k where "n = 4 * k" by blast
  then have "(of_nat n :: u32) = push_bit 2 (of_nat k)" by (simp add: push_bit_eq_mult)
  moreover have "(3 :: u32) = mask 2" by (simp add: mask_eq_exp_minus_1)
  moreover have "push_bit 2 w AND mask 2 = 0" for w :: u32
    by (simp only: take_bit_eq_mask [symmetric] take_bit_push_bit) simp
  ultimately show ?thesis by (simp only:)
qed

lemma unat_u64_mult: "unat x * unat y < 2 ^ 64 \<Longrightarrow> unat (x * y :: u64) = unat x * unat y"
  using unat_mult_lem [of x y] by simp

lemma unat_u64_add: "unat x + unat y < 2 ^ 64 \<Longrightarrow> unat (x + y :: u64) = unat x + unat y"
  using unat_add_lem [of x y] by simp

lemma unat_u32_add: "unat x + unat y < 2 ^ 32 \<Longrightarrow> unat (x + y :: u32) = unat x + unat y"
  using unat_add_lem [of x y] by simp

section \<open>Outcomes and programs\<close>

text \<open>
  A piece of C code over a state of type \<open>'s\<close> either returns a value and a new state
  (\<open>Done\<close>) or stops (\<open>Halt\<close>).  The reasons to stop are the ones the code has:
  a failed \<open>UK_ASSERT\<close>, a \<open>UK_CRASH\<close> (or a panic log), the use of a null pointer or
  of a value with no defined meaning, an integer division by zero, an access outside a buffer,
  or a loop that never ends (the loop function, a \<open>partial_function\<close>, is undefined there).  \<open>Starved\<close> says that
  the code still waits for an answer of the hardware that the modelled environment does not
  give; it is the only reason that is no fault of the code.
\<close>

datatype halt =
  Assert_failed | Crashed | Null_deref | Div_by_zero | Out_of_bounds | Endless_loop | Starved

datatype ('a, 's) outcome = Done 'a 's | Halt halt 's

type_synonym ('s, 'a) prog = "'s \<Rightarrow> ('a, 's) outcome"

definition return :: "'a \<Rightarrow> ('s, 'a) prog" where
  "return x = (\<lambda>s. Done x s)"

definition bind :: "('s, 'a) prog \<Rightarrow> ('a \<Rightarrow> ('s, 'b) prog) \<Rightarrow> ('s, 'b) prog" where
  "bind m f = (\<lambda>s. case m s of Done x t \<Rightarrow> f x t | Halt h t \<Rightarrow> Halt h t)"

definition halt :: "halt \<Rightarrow> ('s, 'a) prog" where
  "halt h = (\<lambda>s. Halt h s)"

definition gets :: "('s \<Rightarrow> 'a) \<Rightarrow> ('s, 'a) prog" where
  "gets f = (\<lambda>s. Done (f s) s)"

definition modify :: "('s \<Rightarrow> 's) \<Rightarrow> ('s, unit) prog" where
  "modify f = (\<lambda>s. Done () (f s))"

definition UK_ASSERT :: "bool \<Rightarrow> ('s, unit) prog" where
  "UK_ASSERT b = (if b then return () else halt Assert_failed)"

definition the_or :: "halt \<Rightarrow> 'a option \<Rightarrow> ('s, 'a) prog" where
  "the_or h x = (case x of None \<Rightarrow> halt h | Some y \<Rightarrow> return y)"

definition cond :: "bool \<Rightarrow> ('s, unit) prog \<Rightarrow> ('s, unit) prog" where
  "cond b m = (if b then m else return ())"

text \<open>Statement sequences, a value pushed through a sequence, and \<open>for\<close> loops over a list.\<close>

primrec block :: "('s, unit) prog list \<Rightarrow> ('s, unit) prog" where
  "block [] = return ()"
| "block (m # ms) = bind m (\<lambda>_. block ms)"

primrec chain :: "'x \<Rightarrow> ('x \<Rightarrow> ('s, 'x) prog) list \<Rightarrow> ('s, 'x) prog" where
  "chain x [] = return x"
| "chain x (f # fs) = bind (f x) (\<lambda>y. chain y fs)"

primrec for_each :: "'i list \<Rightarrow> ('i \<Rightarrow> ('s, unit) prog) \<Rightarrow> ('s, unit) prog" where
  "for_each [] f = return ()"
| "for_each (i # is) f = bind (f i) (\<lambda>_. for_each is f)"

text \<open>\<open>a && b && \<dots>\<close> over calls that return a boolean: the first \<open>False\<close> ends it.\<close>

primrec all_ok :: "('s, bool) prog list \<Rightarrow> ('s, bool) prog" where
  "all_ok [] = return True"
| "all_ok (m # ms) = bind m (\<lambda>ok. if ok then all_ok ms else return False)"

text \<open>A program over a part of the state, run on the whole.\<close>

definition zoom ::
  "('s \<Rightarrow> 't) \<Rightarrow> ('t \<Rightarrow> 's \<Rightarrow> 's) \<Rightarrow> ('t, 'a) prog \<Rightarrow> ('s, 'a) prog" where
  "zoom part set_part m = (\<lambda>s. case m (part s) of
       Done x t \<Rightarrow> Done x (set_part t s)
     | Halt h t \<Rightarrow> Halt h (set_part t s))"

lemma return_run [simp]: "return x s = Done x s"
  by (simp add: return_def)

lemma halt_run [simp]: "halt h s = Halt h s"
  by (simp add: halt_def)

lemma gets_run [simp]: "gets f s = Done (f s) s"
  by (simp add: gets_def)

lemma modify_run [simp]: "modify f s = Done () (f s)"
  by (simp add: modify_def)

lemma bind_run: "bind m f s = (case m s of Done x t \<Rightarrow> f x t | Halt h t \<Rightarrow> Halt h t)"
  by (simp add: bind_def)

lemma bind_Done: "m s = Done x t \<Longrightarrow> bind m f s = f x t"
  by (simp add: bind_def)

lemma bind_return [simp]: "bind (return x) f = f x"
  by (simp add: bind_def return_def)

lemma bind_return_right [simp]: "bind m return = m"
  by (rule ext) (simp add: bind_def return_def split: outcome.split)

lemma bind_unit_right [simp]: "bind m (\<lambda>_. return ()) = (m :: ('s, unit) prog)"
  by (rule ext) (simp add: bind_def return_def split: outcome.split)

lemma bind_assoc: "bind (bind m f) g = bind m (\<lambda>x. bind (f x) g)"
  by (rule ext) (simp add: bind_def split: outcome.split)

lemma UK_ASSERT_True [simp]: "UK_ASSERT True = return ()"
  by (simp add: UK_ASSERT_def)

lemma UK_ASSERT_False [simp]: "UK_ASSERT False = halt Assert_failed"
  by (simp add: UK_ASSERT_def)

lemma the_or_simps [simp]: "the_or h (Some x) = return x" "the_or h None = halt h"
  by (simp_all add: the_or_def)

text \<open>The runs that return, taken apart.\<close>

named_theorems Done_iff "when a combinator returns"

lemma bind_Done_iff [Done_iff]:
  "bind m f s = Done x t \<longleftrightarrow> (\<exists>y u. m s = Done y u \<and> f y u = Done x t)"
  by (auto simp: bind_def split: outcome.splits)

lemma the_or_Done_iff [Done_iff]: "the_or h z s = Done x t \<longleftrightarrow> z = Some x \<and> t = s"
  by (cases z) auto

lemma UK_ASSERT_Done_iff [Done_iff]: "UK_ASSERT b s = Done x t \<longleftrightarrow> b \<and> t = s"
  by (cases b) auto

lemma cond_simps [simp]: "cond True m = m" "cond False m = return ()"
  by (simp_all add: cond_def)

section \<open>Weakest preconditions\<close>

text \<open>
  \<open>wp m Q E s\<close>: run from \<open>s\<close>, the code \<open>m\<close> either returns with \<open>Q\<close> or stops with
  \<open>E\<close>.  With \<open>E\<close> the constant \<open>False\<close> it says that the code returns.
\<close>

definition wp ::
  "('s, 'a) prog \<Rightarrow> ('a \<Rightarrow> 's \<Rightarrow> bool) \<Rightarrow> (halt \<Rightarrow> 's \<Rightarrow> bool) \<Rightarrow> 's \<Rightarrow> bool" where
  "wp m Q E s = (case m s of Done x t \<Rightarrow> Q x t | Halt h t \<Rightarrow> E h t)"

named_theorems wp_simps "weakest precondition equations"
named_theorems pres_intros "preservation rules of the operations"

lemma wp_return [wp_simps]: "wp (return x) Q E s = Q x s"
  by (simp add: wp_def)

lemma wp_halt [wp_simps]: "wp (halt h) Q E s = E h s"
  by (simp add: wp_def)

lemma wp_Done [wp_simps]: "wp (\<lambda>s. Done (f s) (g s)) Q E s = Q (f s) (g s)"
  by (simp add: wp_def)

lemma wp_gets [wp_simps]: "wp (gets f) Q E s = Q (f s) s"
  by (simp add: wp_def)

lemma wp_modify [wp_simps]: "wp (modify f) Q E s = Q () (f s)"
  by (simp add: wp_def)

lemma wp_zoom [wp_simps]:
  "wp (zoom part set_part m) Q E s =
     wp m (\<lambda>x t. Q x (set_part t s)) (\<lambda>h t. E h (set_part t s)) (part s)"
  by (simp add: wp_def zoom_def split: outcome.split)

lemma wp_bind [wp_simps]: "wp (bind m f) Q E s = wp m (\<lambda>x. wp (f x) Q E) E s"
  by (simp add: wp_def bind_def split: outcome.split)

lemma wp_UK_ASSERT [wp_simps]:
  "wp (UK_ASSERT b) Q E s = (if b then Q () s else E Assert_failed s)"
  by (simp add: UK_ASSERT_def wp_simps)

lemma wp_the_or [wp_simps]:
  "wp (the_or h x) Q E s = (case x of None \<Rightarrow> E h s | Some y \<Rightarrow> Q y s)"
  by (simp add: the_or_def wp_simps split: option.split)

lemma wp_if [wp_simps]: "wp (if b then m else n) Q E s = (if b then wp m Q E s else wp n Q E s)"
  by simp

lemma wp_cond [wp_simps]: "wp (cond b m) Q E s = (if b then wp m Q E s else Q () s)"
  by (simp add: cond_def wp_simps)

lemma wp_Let [wp_simps]: "wp (let x = e in f x) Q E s = wp (f e) Q E s"
  by simp

lemma wp_case_prod [wp_simps]:
  "wp (case p of (x, y) \<Rightarrow> f x y) Q E s = wp (f (fst p) (snd p)) Q E s"
  by (simp add: case_prod_beta)

lemma wp_case_option [wp_simps]:
  "wp (case z of None \<Rightarrow> m | Some y \<Rightarrow> f y) Q E s =
     (case z of None \<Rightarrow> wp m Q E s | Some y \<Rightarrow> wp (f y) Q E s)"
  by (simp split: option.split)

lemma wp_block [wp_simps]:
  "wp (block []) Q E s = Q () s"
  "wp (block (m # ms)) Q E s = wp m (\<lambda>_. wp (block ms) Q E) E s"
  by (simp_all add: wp_simps)

lemma wp_chain [wp_simps]:
  "wp (chain x []) Q E s = Q x s"
  "wp (chain x (f # fs)) Q E s = wp (f x) (\<lambda>y. wp (chain y fs) Q E) E s"
  by (simp_all add: wp_simps)

lemma wp_all_ok [wp_simps]:
  "wp (all_ok []) Q E s = Q True s"
  "wp (all_ok (m # ms)) Q E s =
     wp m (\<lambda>ok t. if ok then wp (all_ok ms) Q E t else Q False t) E s"
proof -
  have "(\<lambda>ok. wp (if ok then all_ok ms else return False) Q E) =
      (\<lambda>ok t. if ok then wp (all_ok ms) Q E t else Q False t)"
    by (rule ext)+ (simp add: wp_return)
  then show "wp (all_ok (m # ms)) Q E s =
      wp m (\<lambda>ok t. if ok then wp (all_ok ms) Q E t else Q False t) E s"
    by (simp only: all_ok.simps wp_bind)
qed (simp add: wp_return)

lemma wp_mono:
  assumes "wp m Q E s" and "\<And>x t. Q x t \<Longrightarrow> Q' x t" and "\<And>h t. E h t \<Longrightarrow> E' h t"
  shows "wp m Q' E' s"
  using assms by (auto simp: wp_def split: outcome.splits)

lemma wp_seq: "wp m Q E s \<Longrightarrow> (\<And>x t. Q x t \<Longrightarrow> wp (f x) R E t) \<Longrightarrow> wp (bind m f) R E s"
  unfolding wp_bind by (rule wp_mono)

lemma wp_DoneD: "wp m Q E s \<Longrightarrow> m s = Done x t \<Longrightarrow> Q x t"
  by (simp add: wp_def)

lemma wp_HaltD: "wp m Q E s \<Longrightarrow> m s = Halt h t \<Longrightarrow> E h t"
  by (simp add: wp_def)

lemma wp_conj: "wp m Q E s \<Longrightarrow> wp m Q' E' s \<Longrightarrow>
    wp m (\<lambda>x t. Q x t \<and> Q' x t) (\<lambda>h t. E h t \<and> E' h t) s"
  by (simp add: wp_def split: outcome.splits)

section \<open>Preservation of an invariant\<close>

text \<open>
  \<open>pres I m\<close>: the code \<open>m\<close> keeps \<open>I\<close>, whether it returns or stops.  The rules are
  compositional, so an operation made of others that keep \<open>I\<close> keeps it.
\<close>

definition pres :: "('s \<Rightarrow> bool) \<Rightarrow> ('s, 'a) prog \<Rightarrow> bool" where
  "pres I m = (\<forall>s. I s \<longrightarrow> wp m (\<lambda>_. I) (\<lambda>_. I) s)"

lemma presI: "(\<And>s. I s \<Longrightarrow> wp m (\<lambda>_. I) (\<lambda>_. I) s) \<Longrightarrow> pres I m"
  by (simp add: pres_def)

lemma presD: "pres I m \<Longrightarrow> I s \<Longrightarrow> wp m (\<lambda>_. I) (\<lambda>_. I) s"
  by (simp add: pres_def)

lemma pres_DoneD: "pres I m \<Longrightarrow> I s \<Longrightarrow> m s = Done x t \<Longrightarrow> I t"
  by (auto simp: pres_def wp_def)

lemma pres_return [pres_intros]: "pres I (return x)"
  by (simp add: pres_def wp_simps)

lemma pres_halt [pres_intros]: "pres I (halt h)"
  by (simp add: pres_def wp_simps)

lemma pres_gets [pres_intros]: "pres I (gets f)"
  by (simp add: pres_def wp_simps)

lemma pres_modify: "(\<And>s. I s \<Longrightarrow> I (f s)) \<Longrightarrow> pres I (modify f)"
  by (simp add: pres_def wp_simps)

lemma pres_bind [pres_intros]: "pres I m \<Longrightarrow> (\<And>x. pres I (f x)) \<Longrightarrow> pres I (bind m f)"
  unfolding pres_def wp_bind by (blast intro: wp_mono)

lemma pres_UK_ASSERT [pres_intros]: "pres I (UK_ASSERT b)"
  by (simp add: UK_ASSERT_def pres_return pres_halt)

lemma pres_the_or [pres_intros]: "pres I (the_or h x)"
  by (cases x) (simp_all add: pres_return pres_halt)

lemma pres_if [pres_intros]: "pres I m \<Longrightarrow> pres I n \<Longrightarrow> pres I (if b then m else n)"
  by simp

lemma pres_cond [pres_intros]: "pres I m \<Longrightarrow> pres I (cond b m)"
  by (simp add: cond_def pres_return)

lemma pres_case_prod [pres_intros]:
  "(\<And>x y. pres I (f x y)) \<Longrightarrow> pres I (case p of (x, y) \<Rightarrow> f x y)"
  by (cases p) simp

lemma pres_case_option [pres_intros]:
  "pres I m \<Longrightarrow> (\<And>y. pres I (f y)) \<Longrightarrow> pres I (case z of None \<Rightarrow> m | Some y \<Rightarrow> f y)"
  by (cases z) simp_all

lemma pres_Let [pres_intros]: "(\<And>x. pres I (f x)) \<Longrightarrow> pres I (let x = e in f x)"
  by simp

lemma pres_block_Nil [pres_intros]: "pres I (block [])"
  by (simp add: pres_return)

lemma pres_block_Cons [pres_intros]: "pres I m \<Longrightarrow> pres I (block ms) \<Longrightarrow> pres I (block (m # ms))"
  by (simp add: pres_bind)

lemma pres_chain_Nil [pres_intros]: "pres I (chain x [])"
  by (simp add: pres_return)

lemma pres_chain_Cons [pres_intros]:
  "pres I (f x) \<Longrightarrow> (\<And>y. pres I (chain y fs)) \<Longrightarrow> pres I (chain x (f # fs))"
  by (simp add: pres_bind)

lemma pres_all_ok_Nil [pres_intros]: "pres I (all_ok [])"
  by (simp add: pres_return)

lemma pres_all_ok_Cons [pres_intros]:
  "pres I m \<Longrightarrow> pres I (all_ok ms) \<Longrightarrow> pres I (all_ok (m # ms))"
  by (simp add: pres_bind pres_return)

lemma pres_for_each [pres_intros]: "(\<And>i. pres I (f i)) \<Longrightarrow> pres I (for_each is f)"
  by (induction "is") (simp_all add: pres_bind pres_return)

lemma pres_conj: "pres I m \<Longrightarrow> pres J m \<Longrightarrow> pres (\<lambda>s. I s \<and> J s) m"
  unfolding pres_def
  using wp_conj [where Q = "\<lambda>_. I" and E = "\<lambda>_. I" and Q' = "\<lambda>_. J" and E' = "\<lambda>_. J"]
  by blast

text \<open>
  \<open>upholds I m\<close>: whenever \<open>m\<close>, run where \<open>I\<close> holds, returns, \<open>I\<close> holds again.
  It is for invariants that are broken on the way and are restored before the code returns.
\<close>

definition upholds :: "('s \<Rightarrow> bool) \<Rightarrow> ('s, 'a) prog \<Rightarrow> bool" where
  "upholds I m = (\<forall>s. I s \<longrightarrow> wp m (\<lambda>_. I) (\<lambda>_ _. True) s)"

named_theorems upholds_intros "rules for invariants that hold when the code returns"

lemma upholdsI: "(\<And>s. I s \<Longrightarrow> wp m (\<lambda>_. I) (\<lambda>_ _. True) s) \<Longrightarrow> upholds I m"
  by (simp add: upholds_def)

lemma upholdsD: "upholds I m \<Longrightarrow> I s \<Longrightarrow> wp m (\<lambda>_. I) (\<lambda>_ _. True) s"
  by (simp add: upholds_def)

lemma upholds_DoneD: "upholds I m \<Longrightarrow> I s \<Longrightarrow> m s = Done x t \<Longrightarrow> I t"
  by (auto simp: upholds_def wp_def)

lemma upholds_pres: "pres I m \<Longrightarrow> upholds I m"
  by (auto simp: upholds_def pres_def intro: wp_mono)

lemma upholds_return [upholds_intros]: "upholds I (return x)"
  by (simp add: upholds_def wp_simps)

lemma upholds_halt [upholds_intros]: "upholds I (halt h)"
  by (simp add: upholds_def wp_simps)

lemma upholds_gets [upholds_intros]: "upholds I (gets f)"
  by (simp add: upholds_def wp_simps)

lemma upholds_modify: "(\<And>s. I s \<Longrightarrow> I (f s)) \<Longrightarrow> upholds I (modify f)"
  by (simp add: upholds_def wp_simps)

lemma upholds_bind [upholds_intros]:
  "upholds I m \<Longrightarrow> (\<And>x. upholds I (f x)) \<Longrightarrow> upholds I (bind m f)"
  unfolding upholds_def wp_bind by (blast intro: wp_mono)

lemma upholds_UK_ASSERT [upholds_intros]: "upholds I (UK_ASSERT b)"
  by (simp add: UK_ASSERT_def upholds_return upholds_halt)

lemma upholds_the_or [upholds_intros]: "upholds I (the_or h x)"
  by (cases x) (simp_all add: upholds_return upholds_halt)

lemma upholds_if [upholds_intros]:
  "(b \<Longrightarrow> upholds I m) \<Longrightarrow> (\<not> b \<Longrightarrow> upholds I n) \<Longrightarrow> upholds I (if b then m else n)"
  by simp

lemma upholds_cond [upholds_intros]: "(b \<Longrightarrow> upholds I m) \<Longrightarrow> upholds I (cond b m)"
  by (simp add: cond_def upholds_return)

lemma upholds_case_prod [upholds_intros]:
  "(\<And>x y. upholds I (f x y)) \<Longrightarrow> upholds I (case p of (x, y) \<Rightarrow> f x y)"
  by (cases p) simp

lemma upholds_case_option [upholds_intros]:
  "upholds I m \<Longrightarrow> (\<And>y. upholds I (f y)) \<Longrightarrow> upholds I (case z of None \<Rightarrow> m | Some y \<Rightarrow> f y)"
  by (cases z) simp_all

lemma upholds_Let [upholds_intros]: "(\<And>x. upholds I (f x)) \<Longrightarrow> upholds I (let x = e in f x)"
  by simp

lemma upholds_block [upholds_intros]:
  "upholds I (block [])" "upholds I m \<Longrightarrow> upholds I (block ms) \<Longrightarrow> upholds I (block (m # ms))"
  by (simp_all add: upholds_bind upholds_return)

lemma upholds_chain [upholds_intros]:
  "upholds I (chain x [])" "upholds I (f x) \<Longrightarrow> (\<And>y. upholds I (chain y fs)) \<Longrightarrow> upholds I (chain x (f # fs))"
  by (simp_all add: upholds_bind upholds_return)

lemma upholds_all_ok [upholds_intros]:
  "upholds I (all_ok [])" "upholds I m \<Longrightarrow> upholds I (all_ok ms) \<Longrightarrow> upholds I (all_ok (m # ms))"
  by (simp_all add: upholds_bind upholds_return)

lemma upholds_for_each [upholds_intros]: "(\<And>i. upholds I (f i)) \<Longrightarrow> upholds I (for_each is f)"
  by (induction "is") (simp_all add: upholds_bind upholds_return)

section \<open>Lists\<close>

text \<open>A block of a byte array, and the overwriting of a block (\<open>memcpy\<close> into an array).\<close>

definition slice :: "nat \<Rightarrow> nat \<Rightarrow> 'a list \<Rightarrow> 'a list" where
  "slice off n xs = take n (drop off xs)"

definition splice :: "nat \<Rightarrow> 'a list \<Rightarrow> 'a list \<Rightarrow> 'a list" where
  "splice off ys xs = take off xs @ ys @ drop (off + length ys) xs"

lemma length_splice [simp]: "off + length ys \<le> length xs \<Longrightarrow> length (splice off ys xs) = length xs"
  by (simp add: splice_def)

lemma length_slice [simp]: "off + n \<le> length xs \<Longrightarrow> length (slice off n xs) = n"
  by (simp add: slice_def)

lemma slice_splice [simp]:
  "off + length ys \<le> length xs \<Longrightarrow> n = length ys \<Longrightarrow> slice off n (splice off ys xs) = ys"
  by (simp add: slice_def splice_def)

end
