(* ===== verification/NameService.thy ===== *)
theory NameService
  imports Prelude
begin

text \<open>
  The device name service of \<^verbatim>\<open>eth/lib/devicenameservice.c\<close>: the list under the static
  pointer \<open>s_pThis\<close>, newest entry first, and its four operations.  The locale \<open>registry\<close>
  is the contract its callers (the USB functions, \<^verbatim>\<open>uspilibrary.c\<close>) use.
\<close>

section \<open>State and operations\<close>

record TDeviceInfo =
  pName :: string
  pDevice :: u64
  bBlockDevice :: bool

record TDeviceNameService =
  s_pThis :: bool
  m_pList :: "TDeviceInfo list"

definition DeviceNameService :: "(TDeviceNameService, unit) prog" where
  "DeviceNameService = block
     [modify (\<lambda>s. s\<lparr>m_pList := []\<rparr>),
      bind (gets s_pThis) (\<lambda>p. UK_ASSERT (\<not> p)),
      modify (\<lambda>s. s\<lparr>s_pThis := True\<rparr>)]"

definition DeviceNameService_destroy :: "(TDeviceNameService, unit) prog" where
  "DeviceNameService_destroy = modify (\<lambda>s. s\<lparr>m_pList := [], s_pThis := False\<rparr>)"

definition DeviceNameServiceAddDevice ::
  "string \<Rightarrow> u64 \<Rightarrow> bool \<Rightarrow> (TDeviceNameService, unit) prog" where
  "DeviceNameServiceAddDevice name dev bBlock =
     bind (UK_ASSERT (dev \<noteq> 0)) (\<lambda>_.
     modify (\<lambda>s. s\<lparr>m_pList := \<lparr>pName = name, pDevice = dev, bBlockDevice = bBlock\<rparr> # m_pList s\<rparr>))"

fun find_device :: "TDeviceInfo list \<Rightarrow> string \<Rightarrow> bool \<Rightarrow> (TDeviceNameService, u64) prog" where
  "find_device [] name bBlock = return 0"
| "find_device (pInfo # pNext) name bBlock =
     (if name = pName pInfo \<and> bBlockDevice pInfo = bBlock
      then bind (UK_ASSERT (pDevice pInfo \<noteq> 0)) (\<lambda>_. return (pDevice pInfo))
      else find_device pNext name bBlock)"

definition DeviceNameServiceGetDevice :: "string \<Rightarrow> bool \<Rightarrow> (TDeviceNameService, u64) prog" where
  "DeviceNameServiceGetDevice name bBlock =
     bind (gets m_pList) (\<lambda>l. find_device l name bBlock)"

definition DeviceNameServiceGet :: "(TDeviceNameService, unit) prog" where
  "DeviceNameServiceGet = bind (gets s_pThis) UK_ASSERT"

section \<open>The abstract registry\<close>

text \<open>What the list means: a map from a name and a kind to a device.\<close>

definition devices :: "TDeviceNameService \<Rightarrow> string \<times> bool \<rightharpoonup> u64" where
  "devices s = map_of (map (\<lambda>i. ((pName i, bBlockDevice i), pDevice i)) (m_pList s))"

definition registry_ok :: "TDeviceNameService \<Rightarrow> bool" where
  "registry_ok s \<longleftrightarrow> (\<forall>i \<in> set (m_pList s). pDevice i \<noteq> 0)"

definition map_or_0 :: "('k \<rightharpoonup> u64) \<Rightarrow> 'k \<Rightarrow> u64" where
  "map_or_0 m k = (case m k of None \<Rightarrow> 0 | Some d \<Rightarrow> d)"

lemma wp_AddDevice [wp_simps]:
  "wp (DeviceNameServiceAddDevice n d b) Q E s =
     (if d = 0 then E Assert_failed s
      else Q () (s\<lparr>m_pList := \<lparr>pName = n, pDevice = d, bBlockDevice = b\<rparr> # m_pList s\<rparr>))"
  by (simp add: DeviceNameServiceAddDevice_def wp_simps)

lemma find_device_map:
  "\<forall>i \<in> set l. pDevice i \<noteq> 0 \<Longrightarrow> find_device l n b s =
     Done (map_or_0 (map_of (map (\<lambda>i. ((pName i, bBlockDevice i), pDevice i)) l)) (n, b)) s"
  by (induction l n b rule: find_device.induct) (simp_all add: map_or_0_def bind_run)

lemma wp_GetDevice:
  "registry_ok s \<Longrightarrow> wp (DeviceNameServiceGetDevice n b) Q E s = Q (map_or_0 (devices s) (n, b)) s"
  by (simp add: DeviceNameServiceGetDevice_def wp_def bind_run find_device_map registry_ok_def
      devices_def)

section \<open>The contract\<close>

text \<open>
  A registry: an added entry is found under its key, other keys are not disturbed, and adding keeps
  the well-formedness the lookup needs.  The client facts follow from the laws alone.
\<close>

locale registry =
  fixes add :: "'k \<Rightarrow> u64 \<Rightarrow> ('s, unit) prog"
    and get :: "'k \<Rightarrow> ('s, u64) prog"
    and ok :: "'s \<Rightarrow> bool"
    and view :: "'s \<Rightarrow> 'k \<rightharpoonup> u64"
  assumes add_law: "ok s \<Longrightarrow> d \<noteq> 0 \<Longrightarrow> \<exists>s'. add k d s = Done () s' \<and> ok s' \<and> view s' = (view s)(k \<mapsto> d)"
    and get_law: "ok s \<Longrightarrow> get k s = Done (map_or_0 (view s) k) s"
begin

lemma add_get:
  assumes "ok s" and "d \<noteq> 0"
  shows "\<exists>s'. bind (add k d) (\<lambda>_. get k) s = Done d s'"
  using add_law [OF assms, of k] get_law by (auto simp: bind_run map_or_0_def)

lemma adds_view:
  assumes "ok s" and "\<forall>(k, d) \<in> set kds. d \<noteq> 0"
  shows "\<exists>s'. for_each kds (\<lambda>(k, d). add k d) s = Done () s' \<and> ok s' \<and> view s' = view s ++ map_of (rev kds)"
  using assms
proof (induction kds arbitrary: s)
  case (Cons kd kds)
  obtain k d where kd: "kd = (k, d)" by fastforce
  obtain s1 where s1: "add k d s = Done () s1" "ok s1" "view s1 = (view s)(k \<mapsto> d)"
    using add_law [of s d k] Cons.prems kd by auto
  obtain s2 where s2: "for_each kds (\<lambda>(k, d). add k d) s1 = Done () s2" "ok s2"
      "view s2 = view s1 ++ map_of (rev kds)"
    using Cons.IH [OF s1(2)] Cons.prems(2) by auto
  have "view s1 ++ map_of (rev kds) = view s ++ map_of (rev (kd # kds))"
    by (simp add: s1(3) kd map_add_def fun_eq_iff split: option.split)
  with s1(1) s2 kd show ?case by (simp add: bind_run)
qed simp

lemma adds_get:
  assumes "ok s" and "\<forall>(k, d) \<in> set kds. d \<noteq> 0"
  shows "\<exists>s'. bind (for_each kds (\<lambda>(k, d). add k d)) (\<lambda>_. get k) s =
     Done (map_or_0 (view s ++ map_of (rev kds)) k) s'"
  using adds_view [OF assms] get_law by (auto simp: bind_run)

end

interpretation names: registry
  "\<lambda>(n, b) d. DeviceNameServiceAddDevice n d b" "\<lambda>(n, b). DeviceNameServiceGetDevice n b"
  registry_ok devices
proof (unfold_locales, goal_cases)
  case (1 s d k)
  then show ?case
    by (cases k) (simp add: DeviceNameServiceAddDevice_def bind_run registry_ok_def devices_def)
next
  case (2 s k)
  then show ?case
    by (cases k)
      (simp add: DeviceNameServiceGetDevice_def bind_run find_device_map registry_ok_def devices_def)
qed

text \<open>
  The name service is a map in which later entries win: after any sequence of additions (with
  devices that are not null) to a fresh service, looking up a name and kind returns the device
  of the last addition under it, and null when there was none; no assertion fails.
\<close>

theorem name_service_last_added:
  assumes "\<forall>(k, d) \<in> set kds. d \<noteq> 0"
  shows "\<exists>s'. block [DeviceNameService,
            for_each kds (\<lambda>((n, b), d). DeviceNameServiceAddDevice n d b)]
           \<lparr>s_pThis = False, m_pList = l\<rparr> = Done () s' \<and>
         DeviceNameServiceGetDevice n b s' = Done (map_or_0 (map_of (rev kds)) (n, b)) s'"
proof -
  let ?s = "\<lparr>s_pThis = True, m_pList = []\<rparr>"
  have "registry_ok ?s" by (simp add: registry_ok_def)
  from names.adds_view [OF this assms] obtain s' where s': "registry_ok s'"
      "for_each kds (\<lambda>(k, d). case k of (n, b) \<Rightarrow> DeviceNameServiceAddDevice n d b) ?s = Done () s'"
      "devices s' = devices ?s ++ map_of (rev kds)"
    by (auto simp: case_prod_beta)
  moreover have "(\<lambda>(k, d). case k of (n, b) \<Rightarrow> DeviceNameServiceAddDevice n d b) =
      (\<lambda>((n, b), d). DeviceNameServiceAddDevice n d b)"
    by (simp add: fun_eq_iff)
  ultimately show ?thesis
    using names.get_law [OF s'(1), of "(n, b)"]
    by (simp add: DeviceNameService_def bind_run devices_def)
qed

theorem name_service_last_added_witness:
  "\<exists>s'. block [DeviceNameService, for_each [((''ueth0'', False), 5), ((''ueth0'', False), 7)]
            (\<lambda>((n, b), d). DeviceNameServiceAddDevice n d b)]
         \<lparr>s_pThis = False, m_pList = []\<rparr> = Done () s' \<and>
       DeviceNameServiceGetDevice ''ueth0'' False s' = Done 7 s'"
  using name_service_last_added [of "[((''ueth0'', False), 5), ((''ueth0'', False), 7)]" "[]" "''ueth0''" False]
  by (simp add: map_or_0_def)

end
