(* ===== verification/CString.thy ===== *)
theory CString
  imports Prelude
begin

text \<open>
  The string class of \<^verbatim>\<open>eth/lib/string.c\<close>: buffers obtained from \<open>malloc\<close>, the
  write pointer used while formatting, the \<open>printf\<close>-like formatter, and the conversion of
  numbers.  A buffer is a list of bytes of which \<open>None\<close> has not been written yet; an access
  outside of it, and the use of a byte that was never written, stop the model.
  \<open>live\<close> is no field of the code: it counts the buffers that operations on the object have taken
  from \<open>malloc\<close> less those they have given to \<open>free\<close>.
  \<open>printf_text\<close> is the abstract formatter, on plain strings;
  \<open>StringFormatV_contents\<close> shows that the buffer code computes it and never leaves
  its buffer.
\<close>

section \<open>C strings in buffers\<close>

definition NUL :: char where
  "NUL = CHR 0x00"

type_synonym buffer = "char option list"

fun cstr :: "buffer \<Rightarrow> string option" where
  "cstr [] = None"
| "cstr (None # _) = None"
| "cstr (Some c # b) = (if c = NUL then Some [] else map_option (\<lambda>s. c # s) (cstr b))"

definition malloc :: "u64 \<Rightarrow> buffer" where
  "malloc n = replicate (unat n) None"

record TString =
  m_pBuffer :: "buffer option"
  m_nSize :: u32
  m_pInPtr :: u64
  live :: int

text \<open>
  \<open>strcpy\<close> to an offset of a buffer, and the store of single characters.  A buffer that
  is not there, or too short, is an access outside of it.
\<close>

definition strcpy :: "nat \<Rightarrow> string \<Rightarrow> buffer \<Rightarrow> ('s, buffer) prog" where
  "strcpy off s b =
     (if off + length s + 1 \<le> length b then return (splice off (map Some (s @ [NUL])) b)
      else halt Out_of_bounds)"

definition the_buffer :: "(TString, buffer) prog" where
  "the_buffer = bind (gets m_pBuffer) (the_or Null_deref)"

definition put_byte :: "u64 \<Rightarrow> char \<Rightarrow> (TString, unit) prog" where
  "put_byte off c =
     bind the_buffer (\<lambda>b.
     if unat off < length b then modify (\<lambda>t. t\<lparr>m_pBuffer := Some (b[unat off := Some c])\<rparr>)
     else halt Out_of_bounds)"

text \<open>A buffer from \<open>malloc\<close> becomes that of the object; \<open>if (m_pBuffer != 0) free (m_pBuffer)\<close>.\<close>

definition new_buffer :: "buffer \<Rightarrow> TString \<Rightarrow> TString" where
  "new_buffer b t = t\<lparr>m_pBuffer := Some b, live := live t + 1\<rparr>"

definition free_buffer :: "TString \<Rightarrow> TString" where
  "free_buffer t = (if m_pBuffer t \<noteq> None then t\<lparr>live := live t - 1\<rparr> else t)"

lemma new_buffer_sel [simp]:
  "m_pBuffer (new_buffer b t) = Some b" "m_nSize (new_buffer b t) = m_nSize t" "m_pInPtr (new_buffer b t) = m_pInPtr t"
  "live (new_buffer b t) = live t + 1"
  by (simp_all add: new_buffer_def)

lemma free_buffer_sel [simp]:
  "m_pBuffer (free_buffer t) = m_pBuffer t" "m_nSize (free_buffer t) = m_nSize t" "m_pInPtr (free_buffer t) = m_pInPtr t"
  "live (free_buffer t) = live t - (if m_pBuffer t \<noteq> None then 1 else 0)"
  by (simp_all add: free_buffer_def)

section \<open>Construction, access, comparison\<close>

definition String0 :: "TString \<Rightarrow> TString" where
  "String0 t = t\<lparr>m_pBuffer := None, m_nSize := 0\<rparr>"

definition strlen :: "string \<Rightarrow> u64" where
  "strlen s = of_nat (length s)"

definition StringSet :: "string \<Rightarrow> (TString, string) prog" where
  "StringSet pString = bind (block
     [modify free_buffer,
      modify (\<lambda>t. t\<lparr>m_nSize := ucast (strlen pString + 1)\<rparr>),
      bind (gets (malloc \<circ> ucast \<circ> m_nSize)) (\<lambda>b.
      bind (strcpy 0 pString b) (\<lambda>b'. modify (new_buffer b')))])
     (\<lambda>_. return pString)"

definition String2 :: "string \<Rightarrow> (TString, unit) prog" where
  "String2 pString = block
     [modify (\<lambda>t. t\<lparr>m_nSize := ucast (strlen pString + 1)\<rparr>),
      bind (gets (malloc \<circ> ucast \<circ> m_nSize)) (\<lambda>b.
      bind (strcpy 0 pString b) (\<lambda>b'. modify (new_buffer b')))]"

definition String_destroy :: "(TString, unit) prog" where
  "String_destroy = modify (\<lambda>t. if m_pBuffer t \<noteq> None then free_buffer t\<lparr>m_pBuffer := None\<rparr> else t)"

definition StringGet :: "(TString, string) prog" where
  "StringGet =
     bind (gets m_pBuffer) (\<lambda>p. case p of
       Some b \<Rightarrow> the_or Out_of_bounds (cstr b)
     | None \<Rightarrow> return [])"

definition StringGetLength :: "(TString, u64) prog" where
  "StringGetLength =
     bind (gets m_pBuffer) (\<lambda>p. case p of
       None \<Rightarrow> return 0
     | Some b \<Rightarrow> bind (the_or Out_of_bounds (cstr b)) (\<lambda>s. return (strlen s)))"

definition StringAppend :: "string \<Rightarrow> (TString, unit) prog" where
  "StringAppend pString =
     bind (gets m_pBuffer) (\<lambda>p.
     bind (case p of None \<Rightarrow> return None
           | Some b \<Rightarrow> bind (the_or Out_of_bounds (cstr b)) (\<lambda>s. return (Some s))) (\<lambda>old.
     bind (modify (\<lambda>t. t\<lparr>m_nSize := ucast (1 + (case old of None \<Rightarrow> 0 | Some s \<Rightarrow> strlen s)
                                   + strlen pString)\<rparr>)) (\<lambda>_.
     bind (gets (malloc \<circ> ucast \<circ> m_nSize)) (\<lambda>b0.
     bind (strcpy 0 (case old of Some s \<Rightarrow> s | None \<Rightarrow> []) b0) (\<lambda>b1.
     bind (strcpy (case old of Some s \<Rightarrow> length s | None \<Rightarrow> 0) pString b1) (\<lambda>b2.
     modify (new_buffer b2 \<circ> free_buffer)))))))"

fun strcmp :: "string \<Rightarrow> string \<Rightarrow> int" where
  "strcmp [] [] = 0"
| "strcmp [] (d # _) = - 1"
| "strcmp (c # _) [] = 1"
| "strcmp (c # s) (d # t) =
     (if c = d then strcmp s t else if (of_char c :: nat) < of_char d then - 1 else 1)"

definition StringCompare :: "string \<Rightarrow> (TString, int) prog" where
  "StringCompare pString =
     bind the_buffer (\<lambda>b. bind (the_or Out_of_bounds (cstr b)) (\<lambda>s. return (strcmp s pString)))"

fun find_char :: "string \<Rightarrow> char \<Rightarrow> int \<Rightarrow> int" where
  "find_char [] chChar nPos = - 1"
| "find_char (c # p) chChar nPos = (if c = chChar then nPos else find_char p chChar (nPos + 1))"

definition StringFind :: "char \<Rightarrow> (TString, int) prog" where
  "StringFind chChar =
     bind the_buffer (\<lambda>b. bind (the_or Out_of_bounds (cstr b)) (\<lambda>s. return (find_char s chChar 0)))"

section \<open>Numbers\<close>

text \<open>The two loops of \<open>ntoa\<close>: the largest power of the base, then the digits from the top.\<close>

partial_function (option) ntoa_divisor :: "u64 \<Rightarrow> u64 \<Rightarrow> u64 \<Rightarrow> u64 option" where
  "ntoa_divisor ulNumber nBase ulDivisor =
     (if ulNumber div ulDivisor < nBase then Some ulDivisor
      else ntoa_divisor ulNumber nBase (ulDivisor * nBase))"

definition digit_char :: "u64 \<Rightarrow> bool \<Rightarrow> char" where
  "digit_char ulDigit bUpcase =
     char_of (unat (if ulDigit < 10 then 48 + ulDigit
                    else 48 + ulDigit + 7 + (if bUpcase then 0 else 0x20)))"

partial_function (option) ntoa_digits ::
    "u64 \<Rightarrow> u64 \<Rightarrow> u64 \<Rightarrow> u64 \<Rightarrow> bool \<Rightarrow> string option" where
  "ntoa_digits ulNumber ulDigit ulDivisor nBase bUpcase =
     (let n = ulNumber mod ulDivisor; d = ulDivisor div nBase in
      if d = 0 then Some [digit_char ulDigit bUpcase]
      else Option.bind (ntoa_digits n (n div d) d nBase bUpcase)
             (\<lambda>s. Some (digit_char ulDigit bUpcase # s)))"

definition ntoa :: "u64 \<Rightarrow> u64 \<Rightarrow> bool \<Rightarrow> string option" where
  "ntoa ulNumber nBase bUpcase =
     (case ntoa_divisor ulNumber nBase 1 of
        None \<Rightarrow> None
      | Some d \<Rightarrow> ntoa_digits ulNumber (ulNumber div d) d nBase bUpcase)"

definition MAX_NUMBER_LEN :: nat where "MAX_NUMBER_LEN = 11"

text \<open>\<open>NumBuf\<close> has room for \<open>MAX_NUMBER_LEN\<close> characters and the terminating zero.\<close>

definition ntoa_NumBuf :: "u64 \<Rightarrow> u64 \<Rightarrow> bool \<Rightarrow> ('s, string) prog" where
  "ntoa_NumBuf ulNumber nBase bUpcase =
     bind (the_or Endless_loop (ntoa ulNumber nBase bUpcase)) (\<lambda>s.
     if length s \<le> MAX_NUMBER_LEN then return s else halt Out_of_bounds)"

section \<open>The formatter\<close>

definition FORMAT_RESERVE :: u64 where "FORMAT_RESERVE = 64"

definition StringReserveSpace :: "u64 \<Rightarrow> (TString, unit) prog" where
  "StringReserveSpace nSpace =
     (if nSpace = 0 then return () else
      bind (gets m_pInPtr) (\<lambda>nOffset.
      bind (gets m_nSize) (\<lambda>size.
      if ucast size \<ge> nOffset + nSpace + 1 then return () else
      let nNewSize = nOffset + nSpace + 1 + FORMAT_RESERVE in
      bind (put_byte nOffset NUL) (\<lambda>_.
      bind the_buffer (\<lambda>b.
      bind (the_or Out_of_bounds (cstr b)) (\<lambda>s.
      bind (strcpy 0 s (malloc nNewSize)) (\<lambda>b'.
      modify (\<lambda>t. (new_buffer b' (free_buffer t))\<lparr>m_nSize := ucast nNewSize, m_pInPtr := nOffset\<rparr>))))))))"

primrec put_chars :: "nat \<Rightarrow> char \<Rightarrow> (TString, unit) prog" where
  "put_chars 0 chChar = return ()"
| "put_chars (Suc n) chChar =
     bind (gets m_pInPtr) (\<lambda>p.
     bind (put_byte p chChar) (\<lambda>_.
     bind (modify (\<lambda>t. t\<lparr>m_pInPtr := p + 1\<rparr>)) (\<lambda>_. put_chars n chChar)))"

definition StringPutChar :: "char \<Rightarrow> u64 \<Rightarrow> (TString, unit) prog" where
  "StringPutChar chChar nCount =
     bind (StringReserveSpace nCount) (\<lambda>_. put_chars (unat nCount) chChar)"

definition StringPutString :: "string \<Rightarrow> (TString, unit) prog" where
  "StringPutString pString =
     bind (StringReserveSpace (strlen pString)) (\<lambda>_.
     bind (gets m_pInPtr) (\<lambda>p.
     bind the_buffer (\<lambda>b.
     bind (strcpy (unat p) pString b) (\<lambda>b'.
     modify (\<lambda>t. t\<lparr>m_pBuffer := Some b', m_pInPtr := p + strlen pString\<rparr>)))))"

text \<open>
  The variable arguments.  Taking an argument of another kind than the one passed, or one
  that was not passed, has no defined meaning in C; the model stops.
\<close>

datatype va = VInt u32 | VLong u64 | VStr string

fun va_int :: "va list \<Rightarrow> (u32 \<times> va list) option" where
  "va_int (VInt i # vs) = Some (i, vs)"
| "va_int _ = None"

fun va_long :: "va list \<Rightarrow> (u64 \<times> va list) option" where
  "va_long (VLong i # vs) = Some (i, vs)"
| "va_long _ = None"

fun va_str :: "va list \<Rightarrow> (string \<times> va list) option" where
  "va_str (VStr s # vs) = Some (s, vs)"
| "va_str _ = None"

text \<open>The flags and the width between the \<open>%\<close> and the conversion character.\<close>

record spec =
  bLeft :: bool
  bNull :: bool
  nWidth :: u64
  bLong :: bool

fun take_flag :: "char \<Rightarrow> string \<Rightarrow> bool \<times> string" where
  "take_flag f [] = (False, [])"
| "take_flag f (c # cs) = (if c = f then (True, cs) else (False, c # cs))"

definition digit_val :: "char \<Rightarrow> nat" where
  "digit_val c = of_char c - 48"

definition is_digit :: "char \<Rightarrow> bool" where
  "is_digit c \<longleftrightarrow> 48 \<le> (of_char c :: nat) \<and> (of_char c :: nat) \<le> 57"

fun take_width :: "u64 \<Rightarrow> string \<Rightarrow> u64 \<times> string" where
  "take_width w [] = (w, [])"
| "take_width w (c # cs) =
     (if is_digit c then take_width (w * 10 + of_nat (digit_val c)) cs else (w, c # cs))"

definition parse_spec :: "string \<Rightarrow> spec \<times> string" where
  "parse_spec pFormat =
     (let (left, f1) = take_flag CHR ''-'' pFormat;
          (null, f2) = take_flag CHR ''0'' f1;
          (w, f3) = take_width 0 f2;
          (lng, f4) = take_flag CHR ''l'' f3
      in (\<lparr>bLeft = left, bNull = null, nWidth = w, bLong = lng\<rparr>, f4))"

definition put_pad :: "char \<Rightarrow> u64 \<Rightarrow> u64 \<Rightarrow> (TString, unit) prog" where
  "put_pad c width nLen = cond (width > nLen) (StringPutChar c (width - nLen))"

definition format_c :: "spec \<Rightarrow> va list \<Rightarrow> (TString, va list) prog" where
  "format_c sp Args =
     bind (the_or Null_deref (va_int Args)) (\<lambda>(i, Args').
     let chArg = char_of (unat i) in
     bind (if bLeft sp
       then block [StringPutChar chArg 1,
                   cond (nWidth sp > 1) (StringPutChar CHR '' '' (nWidth sp - 1))]
       else block [cond (nWidth sp > 1) (StringPutChar CHR '' '' (nWidth sp - 1)),
                   StringPutChar chArg 1]) (\<lambda>_. return Args'))"

definition arg_signed :: "spec \<Rightarrow> va list \<Rightarrow> (u64 \<times> va list) option" where
  "arg_signed sp Args =
     (if bLong sp then va_long Args
      else map_option (\<lambda>(i, vs). (signed i, vs)) (va_int Args))"

definition arg_unsigned :: "spec \<Rightarrow> va list \<Rightarrow> (u64 \<times> va list) option" where
  "arg_unsigned sp Args =
     (if bLong sp then va_long Args
      else map_option (\<lambda>(i, vs). (ucast i, vs)) (va_int Args))"

definition format_d :: "spec \<Rightarrow> va list \<Rightarrow> (TString, va list) prog" where
  "format_d sp Args =
     bind (the_or Null_deref (arg_signed sp Args)) (\<lambda>(lArg, Args').
     let bMinus = lArg <s 0; lAbs = (if bMinus then - lArg else lArg) in
     bind (ntoa_NumBuf lAbs 10 False) (\<lambda>NumBuf.
     let nLen = strlen NumBuf + (if bMinus then 1 else 0) in
     bind (if bLeft sp
       then block [cond bMinus (StringPutChar CHR ''-'' 1), StringPutString NumBuf,
                   put_pad CHR '' '' (nWidth sp) nLen]
       else block [put_pad CHR '' '' (nWidth sp) nLen,
                   cond bMinus (StringPutChar CHR ''-'' 1), StringPutString NumBuf])
     (\<lambda>_. return Args')))"

definition format_s :: "spec \<Rightarrow> va list \<Rightarrow> (TString, va list) prog" where
  "format_s sp Args =
     bind (the_or Null_deref (va_str Args)) (\<lambda>(pArg, Args').
     bind (if bLeft sp
       then block [StringPutString pArg, put_pad CHR '' '' (nWidth sp) (strlen pArg)]
       else block [put_pad CHR '' '' (nWidth sp) (strlen pArg), StringPutString pArg])
     (\<lambda>_. return Args'))"

definition format_number :: "spec \<Rightarrow> u64 \<Rightarrow> bool \<Rightarrow> va list \<Rightarrow> (TString, va list) prog" where
  "format_number sp nBase bUpcase Args =
     bind (the_or Null_deref (arg_unsigned sp Args)) (\<lambda>(ulArg, Args').
     bind (ntoa_NumBuf ulArg nBase bUpcase) (\<lambda>NumBuf.
     bind (if bLeft sp
       then block [StringPutString NumBuf, put_pad CHR '' '' (nWidth sp) (strlen NumBuf)]
       else block [put_pad (if bNull sp then CHR ''0'' else CHR '' '') (nWidth sp) (strlen NumBuf),
                   StringPutString NumBuf])
     (\<lambda>_. return Args')))"

definition format_conversion :: "spec \<Rightarrow> char \<Rightarrow> va list \<Rightarrow> (TString, va list) prog" where
  "format_conversion sp c Args =
     (if c = CHR ''c'' then format_c sp Args
      else if c = CHR ''d'' then format_d sp Args
      else if c = CHR ''o'' then format_number sp 8 False Args
      else if c = CHR ''s'' then format_s sp Args
      else if c = CHR ''u'' then format_number sp 10 False Args
      else if c = CHR ''x'' then format_number sp 16 False Args
      else if c = CHR ''X'' then format_number sp 16 True Args
      else bind (block [StringPutChar CHR ''%'' 1, StringPutChar c 1]) (\<lambda>_. return Args))"

lemma length_take_flag: "length (snd (take_flag f s)) \<le> length s"
  by (cases s) auto

lemma length_take_width: "length (snd (take_width w s)) \<le> length s"
  by (induction w s rule: take_width.induct) auto

lemma length_parse_spec: "parse_spec s = (sp, r) \<Longrightarrow> length r \<le> length s"
  using length_take_flag [of "CHR ''-''" s]
    length_take_flag [of "CHR ''0''" "snd (take_flag CHR ''-'' s)"]
    length_take_width [of 0 "snd (take_flag CHR ''0'' (snd (take_flag CHR ''-'' s)))"]
    length_take_flag [of "CHR ''l''"
      "snd (take_width 0 (snd (take_flag CHR ''0'' (snd (take_flag CHR ''-'' s)))))"]
  by (auto simp: parse_spec_def Let_def split: prod.splits)

text \<open>
  The loop over the format.  A format that ends inside of a conversion makes the code print
  the terminating zero and go on reading behind the format: the model stops there.
\<close>

function format_loop :: "string \<Rightarrow> va list \<Rightarrow> (TString, unit) prog" where
  "format_loop [] Args = return ()"
| "format_loop (c # f) Args =
     (if c \<noteq> CHR ''%'' then bind (StringPutChar c 1) (\<lambda>_. format_loop f Args)
      else case f of
        [] \<Rightarrow> halt Out_of_bounds
      | d # f1 \<Rightarrow>
        if d = CHR ''%'' then bind (StringPutChar CHR ''%'' 1) (\<lambda>_. format_loop f1 Args)
        else (case parse_spec f of
            (sp, []) \<Rightarrow> halt Out_of_bounds
          | (sp, conv # rest) \<Rightarrow>
              bind (format_conversion sp conv Args) (\<lambda>Args'. format_loop rest Args')))"
  by pat_completeness auto
termination
  by (relation "measure (\<lambda>(f, _). length f)") (auto dest!: length_parse_spec [OF sym])

definition StringFormatV :: "string \<Rightarrow> va list \<Rightarrow> (TString, unit) prog" where
  "StringFormatV pFormat Args =
     bind (modify (\<lambda>t. (new_buffer (malloc FORMAT_RESERVE) (free_buffer t))
                        \<lparr>m_nSize := ucast FORMAT_RESERVE, m_pInPtr := 0\<rparr>)) (\<lambda>_.
     bind (format_loop pFormat Args) (\<lambda>_.
     bind (gets m_pInPtr) (\<lambda>p. put_byte p NUL)))"

definition StringFormat :: "string \<Rightarrow> va list \<Rightarrow> (TString, unit) prog" where
  "StringFormat pFormat Args = StringFormatV pFormat Args"

section \<open>The text of a number\<close>

fun number_text :: "nat \<Rightarrow> nat \<Rightarrow> bool \<Rightarrow> string" where
  "number_text m b up =
     (if m < b \<or> b < 2 then [digit_char (of_nat m) up]
      else number_text (m div b) b up @ [digit_char (of_nat (m mod b)) up])"

declare number_text.simps [simp del]

primrec fixed_digits :: "nat \<Rightarrow> nat \<Rightarrow> nat \<Rightarrow> bool \<Rightarrow> string" where
  "fixed_digits 0 b m up = []"
| "fixed_digits (Suc k) b m up =
     digit_char (of_nat (m div b ^ k)) up # fixed_digits k b (m mod b ^ k) up"

lemma fixed_digits_snoc:
  assumes "0 < b" and "m < b ^ Suc k"
  shows "fixed_digits (Suc k) b m up = fixed_digits k b (m div b) up @ [digit_char (of_nat (m mod b)) up]"
  using assms
proof (induction k arbitrary: m)
  case (Suc k)
  have "m mod b ^ Suc k < b ^ Suc k" using Suc.prems by simp
  from Suc.IH [OF Suc.prems(1) this]
  have "fixed_digits (Suc k) b (m mod b ^ Suc k) up =
      fixed_digits k b (m mod b ^ Suc k div b) up @ [digit_char (of_nat (m mod b ^ Suc k mod b)) up]" .
  moreover have "m mod b ^ Suc k div b = m div b mod b ^ k"
    using Suc.prems(1) by (simp add: mod_mult2_eq)
  moreover have "m mod b ^ Suc k mod b = m mod b" by (simp add: mod_mod_cancel)
  moreover have "m div b ^ Suc k = m div b div b ^ k" by (simp add: div_mult2_eq)
  ultimately show ?case by (simp del: power_Suc add: fixed_digits.simps(2) [of "Suc k"])
qed simp

lemma base_le: "0 < b \<Longrightarrow> b ^ Suc k \<le> m \<Longrightarrow> b \<le> (m :: nat)"
  by (rule order_trans [of _ "b ^ Suc k"]) simp_all

lemma number_text_fixed:
  assumes "2 \<le> b" and "m < b ^ Suc k" and "k = 0 \<or> b ^ k \<le> m"
  shows "number_text m b up = fixed_digits (Suc k) b m up"
  using assms
proof (induction k arbitrary: m)
  case 0
  then show ?case by (simp add: number_text.simps)
next
  case (Suc k)
  have ge: "b \<le> m" using Suc.prems(1,3) by (intro base_le [of b k]) simp_all
  have "m div b < b ^ Suc k" using Suc.prems(2) by (simp add: less_mult_imp_div_less ac_simps)
  moreover have "b ^ k \<le> m div b"
    using Suc.prems(1,3) by (simp add: less_eq_div_iff_mult_less_eq ac_simps)
  ultimately have "number_text (m div b) b up = fixed_digits (Suc k) b (m div b) up"
    using Suc.IH [OF Suc.prems(1)] by blast
  moreover have "fixed_digits (Suc (Suc k)) b m up =
      fixed_digits (Suc k) b (m div b) up @ [digit_char (of_nat (m mod b)) up]"
    using Suc.prems by (intro fixed_digits_snoc) simp_all
  ultimately show ?case
    using ge Suc.prems(1) by (simp add: number_text.simps [of m] del: fixed_digits.simps)
qed

lemma ntoa_divisor_ok:
  assumes b: "2 \<le> unat b" and d: "unat d = unat b ^ k" and k: "k = 0 \<or> unat b ^ k \<le> unat n"
  shows "\<exists>e j. ntoa_divisor n b d = Some e \<and> unat e = unat b ^ j \<and>
           unat n < unat b ^ Suc j \<and> (j = 0 \<or> unat b ^ j \<le> unat n)"
  using d k
proof (induction "unat n - unat d" arbitrary: d k rule: less_induct)
  case less
  have d0: "0 < unat d" using b less.prems(1) by simp
  show ?case
  proof (cases "n div d < b")
    case True
    then have "unat n div unat d < unat b" by (simp add: word_less_nat_alt unat_div)
    then have "unat n < unat b * unat d" using d0 by (simp add: div_less_iff_less_mult)
    then have "unat n < unat b ^ Suc k" using less.prems(1) by simp
    with True less.prems show ?thesis by (auto simp: ntoa_divisor.simps [of n b d])
  next
    case False
    then have "unat b \<le> unat n div unat d" unfolding word_less_nat_alt unat_div not_less .
    then have le: "unat b * unat d \<le> unat n"
      using d0 by (simp add: less_eq_div_iff_mult_less_eq)
    from le unat_u64_less [of n] have "unat b * unat d < 2 ^ 64" by (rule order_le_less_trans)
    then have e: "unat (d * b) = unat b * unat d"
      using unat_u64_mult [of b d] by (simp only: mult.commute)
    have "unat d < unat b * unat d" using b d0 by simp
    then have "unat n - unat (d * b) < unat n - unat d" using e le by linarith
    moreover have "unat (d * b) = unat b ^ Suc k" using e less.prems(1) by simp
    moreover have "Suc k = 0 \<or> unat b ^ Suc k \<le> unat n" using le less.prems(1) by simp
    ultimately show ?thesis
      using less.hyps [of "d * b" "Suc k"] False by (simp add: ntoa_divisor.simps [of n b d])
  qed
qed

lemma ntoa_digits_ok:
  assumes b: "2 \<le> unat b"
  shows "unat d = unat b ^ k \<Longrightarrow>
    ntoa_digits n q d b up = Some (digit_char q up # fixed_digits k (unat b) (unat n mod unat b ^ k) up)"
proof (induction k arbitrary: n q d)
  case 0
  then have "unat (d div b) = 0" using b by (simp add: unat_div)
  then have "d div b = 0" by (simp add: unat_eq_zero)
  then show ?case by (simp add: ntoa_digits.simps [of n q d] Let_def)
next
  case (Suc k)
  have e: "unat (d div b) = unat b ^ k" using Suc.prems b by (simp add: unat_div)
  then have nz: "d div b \<noteq> 0" using b by (metis power_not_zero unat_0 not_numeral_le_zero)
  have "unat (n mod d) = unat n mod unat b ^ Suc k" using Suc.prems by (simp add: unat_mod)
  moreover from this e have "n mod d div (d div b) = of_nat (unat n mod unat b ^ Suc k div unat b ^ k)"
    by (simp only: word_arith_nat_div [of "n mod d"])
  ultimately show ?case
    using nz Suc.IH [OF e, of "n mod d" "n mod d div (d div b)"]
    by (simp add: ntoa_digits.simps [of n q d] Let_def mod_mod_cancel)
qed

lemma ntoa_text:
  assumes b: "2 \<le> unat b"
  shows "ntoa n b up = Some (number_text (unat n) (unat b) up)"
proof -
  obtain e j where e: "ntoa_divisor n b 1 = Some e" "unat e = unat b ^ j"
      "unat n < unat b ^ Suc j" "j = 0 \<or> unat b ^ j \<le> unat n"
    using ntoa_divisor_ok [OF b, of 1 0 n] by auto
  have "n div e = of_nat (unat n div unat b ^ j)" by (simp only: word_arith_nat_div [of n] e(2))
  then show ?thesis
    using e ntoa_digits_ok [OF b e(2), of n "n div e" up] number_text_fixed [OF b e(3,4), of up]
    by (simp add: ntoa_def)
qed

lemma length_number_text_le:
  assumes "2 \<le> b" shows "m < b ^ n \<Longrightarrow> 0 < n \<Longrightarrow> length (number_text m b up) \<le> n"
proof (induction m b up arbitrary: n rule: number_text.induct)
  case (1 m b up)
  show ?case
  proof (cases "m < b \<or> b < 2")
    case True
    with "1.prems" show ?thesis by (simp add: number_text.simps [of m])
  next
    case False
    then obtain n' where n': "n = Suc n'" "0 < n'"
      using "1.prems" by (cases n; cases "n - 1") auto
    then have "m div b < b ^ n'" using "1.prems" by (simp add: less_mult_imp_div_less ac_simps)
    with "1.IH" False n' show ?thesis by (simp add: number_text.simps [of m])
  qed
qed

lemma length_number_text_gt:
  "2 \<le> b \<Longrightarrow> b ^ n \<le> m \<Longrightarrow> n < length (number_text m b up)"
proof (induction m b up arbitrary: n rule: number_text.induct)
  case (1 m b up)
  show ?case
  proof (cases n)
    case 0
    then show ?thesis by (simp add: number_text.simps [of m])
  next
    case (Suc n')
    have ge: "b \<le> m" using "1.prems" Suc by (intro base_le [of b n']) simp_all
    have "b ^ n' \<le> m div b"
      using "1.prems" Suc by (simp add: less_eq_div_iff_mult_less_eq ac_simps)
    with "1.IH" "1.prems"(1) ge Suc show ?thesis by (simp add: number_text.simps [of m])
  qed
qed

section \<open>The abstract formatter\<close>

text \<open>
  What a format means on plain strings: a conversion yields a field, padded to its width on the
  left or on the right.  The result is \<open>None\<close> where the arguments do not fit the format or a
  number has more digits than the buffer of the code.
\<close>

definition field :: "bool \<Rightarrow> char \<Rightarrow> u64 \<Rightarrow> string \<Rightarrow> string" where
  "field left fill w body =
     (let pad = unat w - length body in
      if left then body @ replicate pad CHR '' '' else replicate pad fill @ body)"

definition number_field :: "spec \<Rightarrow> char \<Rightarrow> string \<Rightarrow> nat \<Rightarrow> nat \<Rightarrow> bool \<Rightarrow> string option" where
  "number_field sp fill sign n b up =
     (let s = number_text n b up in
      if length s \<le> MAX_NUMBER_LEN then Some (field (bLeft sp) fill (nWidth sp) (sign @ s))
      else None)"

definition conversion_text :: "spec \<Rightarrow> char \<Rightarrow> va list \<Rightarrow> (string \<times> va list) option" where
  "conversion_text sp c Args =
     (let unsigned_text = (\<lambda>b up. Option.bind (arg_unsigned sp Args) (\<lambda>(v, rest).
            map_option (\<lambda>s. (s, rest))
              (number_field sp (if bNull sp \<and> \<not> bLeft sp then CHR ''0'' else CHR '' '') [] (unat v) b up)))
      in if c = CHR ''c'' then
           map_option (\<lambda>(i, rest). (field (bLeft sp) CHR '' '' (nWidth sp) [char_of (unat i)], rest))
             (va_int Args)
         else if c = CHR ''s'' then
           map_option (\<lambda>(s, rest). (field (bLeft sp) CHR '' '' (nWidth sp) s, rest)) (va_str Args)
         else if c = CHR ''d'' then
           Option.bind (arg_signed sp Args) (\<lambda>(v, rest).
             map_option (\<lambda>s. (s, rest))
               (number_field sp CHR '' '' (if sint v < 0 then ''-'' else '''')
                 (nat \<bar>sint v\<bar>) 10 False))
         else if c = CHR ''o'' then unsigned_text 8 False
         else if c = CHR ''u'' then unsigned_text 10 False
         else if c = CHR ''x'' then unsigned_text 16 False
         else if c = CHR ''X'' then unsigned_text 16 True
         else Some ([CHR ''%'', c], Args))"

function printf_text :: "string \<Rightarrow> va list \<Rightarrow> string option" where
  "printf_text [] Args = Some []"
| "printf_text (c # f) Args =
     (if c \<noteq> CHR ''%'' then map_option ((#) c) (printf_text f Args)
      else case f of
        [] \<Rightarrow> None
      | d # f1 \<Rightarrow>
        if d = CHR ''%'' then map_option ((#) d) (printf_text f1 Args)
        else (case parse_spec f of
            (sp, []) \<Rightarrow> None
          | (sp, conv # rest) \<Rightarrow>
              Option.bind (conversion_text sp conv Args) (\<lambda>(s, Args').
                map_option ((@) s) (printf_text rest Args'))))"
  by pat_completeness auto
termination
  by (relation "measure (\<lambda>(f, _). length f)") (auto dest!: length_parse_spec [OF sym])

section \<open>The buffer code implements the abstract formatter\<close>

text \<open>\<open>holds t s\<close>: the bytes written so far are \<open>s\<close>, inside of the buffer with room for a zero.\<close>

definition holds :: "TString \<Rightarrow> string \<Rightarrow> bool" where
  "holds t s \<longleftrightarrow> (\<exists>b. m_pBuffer t = Some b \<and> unat (m_nSize t) = length b \<and>
     unat (m_pInPtr t) = length s \<and> length s < length b \<and> take (length s) b = map Some s)"

lemma cstr_map: "NUL \<notin> set s \<Longrightarrow> cstr (map Some s @ Some NUL # b) = Some s"
  by (induction s) auto

lemma wp_put_byte:
  "m_pBuffer t = Some b \<Longrightarrow> unat off < length b \<Longrightarrow>
   wp (put_byte off c) Q E t = Q () (t\<lparr>m_pBuffer := Some (b[unat off := Some c])\<rparr>)"
  by (simp add: put_byte_def the_buffer_def wp_simps)

lemma wp_reserve:
  assumes "holds t s" and "NUL \<notin> set s" and "length s + unat n + 66 < 2 ^ 32"
  shows "wp (StringReserveSpace n)
    (\<lambda>_ t'. holds t' s \<and> (n = 0 \<or> length s + unat n < length (the (m_pBuffer t')))) (\<lambda>_ _. False) t"
proof (cases "n = 0 \<or> m_pInPtr t + n + 1 \<le> ucast (m_nSize t)")
  case True
  have "unat (m_pInPtr t + n + 1) = length s + unat n + 1"
    using assms by (auto simp: holds_def unat_word_ariths)
  with True assms(1) show ?thesis
    by (auto simp: StringReserveSpace_def wp_simps holds_def word_le_nat_alt)
next
  case False
  obtain b where b: "m_pBuffer t = Some b" "unat (m_nSize t) = length b" "unat (m_pInPtr t) = length s"
      "length s < length b" "take (length s) b = map Some s"
    using assms(1) by (auto simp: holds_def)
  have len: "unat (m_pInPtr t + n + 1 + FORMAT_RESERVE) = length s + unat n + 65"
    using assms b(3) by (simp add: unat_word_ariths FORMAT_RESERVE_def)
  have len32: "unat (ucast (m_pInPtr t + n + 1 + FORMAT_RESERVE) :: u32) = length s + unat n + 65"
    using assms(3) unat_ucast_down32 [of "m_pInPtr t + n + 1 + FORMAT_RESERVE"] len by simp
  have "b[length s := Some NUL] = map Some s @ Some NUL # drop (Suc (length s)) b"
    using b(4,5) by (simp add: upd_conv_take_nth_drop)
  then have c: "cstr (b[length s := Some NUL]) = Some s" using assms(2) by (simp add: cstr_map)
  have "take (length s) (splice 0 (map Some s @ [Some NUL]) (malloc (m_pInPtr t + n + 1 + FORMAT_RESERVE)))
      = map Some s" by (simp add: splice_def)
  with False b c len len32 show ?thesis
    by (simp add: StringReserveSpace_def wp_simps Let_def wp_put_byte the_buffer_def strcpy_def
        malloc_def holds_def)
qed

definition puts :: "(TString, 'a) prog \<Rightarrow> string \<Rightarrow> 'a \<Rightarrow> bool" where
  "puts m a x \<longleftrightarrow> (\<forall>t s. holds t s \<longrightarrow> NUL \<notin> set (s @ a) \<longrightarrow> length (s @ a) + 66 < 2 ^ 32 \<longrightarrow>
     wp m (\<lambda>y t'. y = x \<and> holds t' (s @ a)) (\<lambda>_ _. False) t)"

lemma puts_bind: 
  assumes "puts m a x" and "puts (f x) b y" shows "puts (bind m f) (a @ b) y"
  unfolding puts_def wp_bind
proof (intro allI impI)
  fix t s
  assume h: "holds t s" "NUL \<notin> set (s @ a @ b)" "length (s @ a @ b) + 66 < 2 ^ 32"
  then have "wp m (\<lambda>y t'. y = x \<and> holds t' (s @ a)) (\<lambda>_ _. False) t"
    using assms(1) by (simp add: puts_def)
  then show "wp m (\<lambda>z. wp (f z) (\<lambda>y' t'. y' = y \<and> holds t' (s @ a @ b)) (\<lambda>_ _. False)) (\<lambda>_ _. False) t"
  proof (rule wp_mono)
    fix z t' assume "z = x \<and> holds t' (s @ a)"
    then show "wp (f z) (\<lambda>y' t'. y' = y \<and> holds t' (s @ a @ b)) (\<lambda>_ _. False) t'"
      using h assms(2) unfolding puts_def by (metis append_assoc)
  qed simp
qed

lemma puts_return: "puts (return x) [] x"
  by (simp add: puts_def wp_simps)

lemma puts_bind_return: "puts m a () \<Longrightarrow> puts (bind m (\<lambda>_. return x)) a x"
  using puts_bind [of m a "()" "\<lambda>_. return x" "[]" x] puts_return [of x] by simp

lemma puts_block2: "puts m a () \<Longrightarrow> puts n b () \<Longrightarrow> puts (block [m, n]) (a @ b) ()"
  by (simp add: puts_bind puts_bind_return)

lemma puts_block3:
  "puts m a () \<Longrightarrow> puts n b () \<Longrightarrow> puts k c () \<Longrightarrow> puts (block [m, n, k]) (a @ b @ c) ()"
  by (simp add: puts_bind puts_bind_return)

lemma puts_cond: "(b \<Longrightarrow> puts m a ()) \<Longrightarrow> (\<not> b \<Longrightarrow> a = []) \<Longrightarrow> puts (cond b m) a ()"
  by (cases b) (simp_all add: puts_return)

lemma wp_put_chars:
  "holds t s \<Longrightarrow> length s + n < length (the (m_pBuffer t)) \<Longrightarrow> 
   wp (put_chars n c) (\<lambda>_ t'. holds t' (s @ replicate n c)) (\<lambda>_ _. False) t"
proof (induction n arbitrary: t s)
  case (Suc n)
  obtain b where b: "m_pBuffer t = Some b" "unat (m_nSize t) = length b" "unat (m_pInPtr t) = length s"
      "length s < length b" "take (length s) b = map Some s"
    using Suc.prems(1) by (auto simp: holds_def)
  let ?t = "t\<lparr>m_pBuffer := Some (b[length s := Some c]), m_pInPtr := m_pInPtr t + 1\<rparr>"
  have lt: "length s + Suc n < length b" using Suc.prems(2) b(1) by simp
  have "unat (m_pInPtr t + 1) = Suc (length s)"
    using b(3) lt unat_u32_less [of "m_nSize t"] b(2) by (simp add: unat_word_ariths)
  moreover have "take (Suc (length s)) (b[length s := Some c]) = map Some (s @ [c])"
    using b(4,5) by (simp add: take_Suc_conv_app_nth)
  ultimately have "holds ?t (s @ [c])" using b lt by (simp add: holds_def)
  from Suc.IH [OF this] lt b show ?case
    by (simp add: wp_simps wp_put_byte)
qed (simp add: wp_simps)

lemma puts_StringPutChar: "puts (StringPutChar c n) (replicate (unat n) c) ()"
  unfolding puts_def StringPutChar_def wp_bind
proof (intro allI impI, goal_cases)
  case (1 t s)
  then have "wp (StringReserveSpace n)
    (\<lambda>_ t'. holds t' s \<and> (n = 0 \<or> length s + unat n < length (the (m_pBuffer t')))) (\<lambda>_ _. False) t"
    by (intro wp_reserve) auto
  then show ?case
  proof (rule wp_mono)
    fix x t' assume "holds t' s \<and> (n = 0 \<or> length s + unat n < length (the (m_pBuffer t')))"
    then have "holds t' s" "length s + unat n < length (the (m_pBuffer t'))"
      by (auto simp: holds_def)
    then show "wp (put_chars (unat n) c) (\<lambda>y t'. y = () \<and> holds t' (s @ replicate (unat n) c)) (\<lambda>_ _. False) t'"
      using wp_put_chars by simp
  qed simp
qed

lemma unat_strlen: "length s < 2 ^ 64 \<Longrightarrow> unat (strlen s) = length s"
  by (simp add: strlen_def unat_of_nat)

lemma puts_StringPutString: "puts (StringPutString a) a ()"
  unfolding puts_def StringPutString_def
proof (intro allI impI, goal_cases)
  case (1 t s)
  then have ua: "unat (strlen a) = length a" by (simp add: unat_strlen)
  have "wp (StringReserveSpace (strlen a))
    (\<lambda>_ t'. holds t' s \<and> (strlen a = 0 \<or> length s + unat (strlen a) < length (the (m_pBuffer t')))) (\<lambda>_ _. False) t"
    using 1 ua by (intro wp_reserve) auto
  then show ?case
  proof (rule wp_seq)
    fix x t' assume h: "holds t' s \<and> (strlen a = 0 \<or> length s + unat (strlen a) < length (the (m_pBuffer t')))"
    then obtain b where b: "m_pBuffer t' = Some b" "unat (m_nSize t') = length b"
        "unat (m_pInPtr t') = length s" "take (length s) b = map Some s"
      by (auto simp: holds_def)
    have lt: "length s + length a < length b"
      using h b(1) ua by (auto simp: holds_def)
    have "unat (m_pInPtr t' + strlen a) = length s + length a"
      using 1 b(3) ua by (simp add: unat_word_ariths)
    then show "wp (bind (gets m_pInPtr) (\<lambda>p. bind the_buffer (\<lambda>b. bind (strcpy (unat p) a b)
        (\<lambda>b'. modify (\<lambda>t. t\<lparr>m_pBuffer := Some b', m_pInPtr := p + strlen a\<rparr>)))))
        (\<lambda>y t'. y = () \<and> holds t' (s @ a)) (\<lambda>_ _. False) t'"
      using b lt by (auto simp: wp_simps the_buffer_def strcpy_def holds_def splice_def)
  qed
qed

lemma puts_eq: "puts m a x \<Longrightarrow> a = b \<Longrightarrow> puts m b x"
  by simp

lemma puts_guard: "(length a < 2 ^ 32 \<Longrightarrow> puts m a x) \<Longrightarrow> puts m a x"
  by (fastforce simp: puts_def)

lemma puts_put_pad:
  assumes "unat nLen = n"
  shows "puts (put_pad c w nLen) (replicate (unat w - n) c) ()"
  unfolding put_pad_def
proof (rule puts_cond)
  assume lt: "nLen < w"
  then have "unat (w - nLen) = unat w - n" using assms by (simp add: unat_sub)
  then show "puts (StringPutChar c (w - nLen)) (replicate (unat w - n) c) ()"
    using puts_StringPutChar [of c "w - nLen"] by simp
next
  assume "\<not> nLen < w"
  then show "replicate (unat w - n) c = []"
    using assms by (simp add: word_less_nat_alt)
qed

lemma puts_char: "puts (StringPutChar c 1) [c] ()"
  using puts_StringPutChar [of c 1] by simp

lemma puts_format_c:
  assumes "va_int Args = Some (i, rest)"
  shows "puts (format_c sp Args) (field (bLeft sp) CHR '' '' (nWidth sp) [char_of (unat i)]) rest"
proof -
  have pad: "puts (cond (1 < w) (StringPutChar c (w - 1))) (replicate (unat w - 1) c) ()" for c w
    using puts_put_pad [of 1 1 c w] by (simp add: put_pad_def)
  show ?thesis
    unfolding format_c_def assms the_or_simps bind_return Let_def prod.case
    by (cases "bLeft sp"; simp only: if_True if_False; rule puts_eq, rule puts_bind_return,
        rule puts_block2, (rule puts_char pad)+, simp add: field_def Let_def)
qed

lemma puts_format_s:
  assumes "va_str Args = Some (a, rest)"
  shows "puts (format_s sp Args) (field (bLeft sp) CHR '' '' (nWidth sp) a) rest"
proof (rule puts_guard)
  assume "length (field (bLeft sp) CHR '' '' (nWidth sp) a) < 2 ^ 32"
  then have len: "unat (strlen a) = length a"
    by (intro unat_strlen) (auto simp: field_def Let_def split: if_splits)
  show "puts (format_s sp Args) (field (bLeft sp) CHR '' '' (nWidth sp) a) rest"
    unfolding format_s_def assms the_or_simps bind_return prod.case
    by (cases "bLeft sp"; simp only: if_True if_False; rule puts_eq, rule puts_bind_return,
        rule puts_block2, (rule puts_StringPutString puts_put_pad [OF len])+, simp add: field_def Let_def)
qed

lemma puts_format_number:
  assumes "arg_unsigned sp Args = Some (v, rest)" and "2 \<le> unat b"
    and "number_field sp (if bNull sp \<and> \<not> bLeft sp then CHR ''0'' else CHR '' '') [] (unat v)
           (unat b) up = Some s"
  shows "puts (format_number sp b up Args) s rest"
proof -
  let ?n = "number_text (unat v) (unat b) up"
  have s: "length ?n \<le> MAX_NUMBER_LEN"
      "s = field (bLeft sp) (if bNull sp \<and> \<not> bLeft sp then CHR ''0'' else CHR '' '') (nWidth sp) ?n"
    using assms(3) by (auto simp: number_field_def Let_def split: if_splits)
  have len: "unat (strlen ?n) = length ?n"
    using s(1) by (intro unat_strlen) (simp add: MAX_NUMBER_LEN_def)
  show ?thesis
    unfolding format_number_def assms(1) the_or_simps bind_return prod.case ntoa_NumBuf_def
      ntoa_text [OF assms(2)] if_P [OF s(1)]
    by (cases "bLeft sp"; simp only: if_True if_False; rule puts_eq, rule puts_bind_return,
        rule puts_block2, (rule puts_StringPutString puts_put_pad [OF len])+, simp add: len s(2) field_def Let_def)
qed

lemma nat_abs_sint: "nat \<bar>sint v\<bar> = unat (if v <s 0 then - v else v)" for v :: u64
proof -
  have u: "uint v = sint v mod 2 ^ 64" by (simp add: uint_sint take_bit_eq_mod)
  have b: "- (2 ^ 63) \<le> sint v" "sint v < 2 ^ 63"
    using sint_ge [of v] sint_lt [of v] by simp_all
  show ?thesis
  proof (cases "v <s 0")
    case True
    then have n: "sint v < 0" by (simp add: word_sless_alt)
    have "uint (- v) = - uint v mod 2 ^ 64" by (simp add: uint_word_ariths)
    also have "\<dots> = - sint v mod 2 ^ 64" by (simp only: u mod_minus_eq)
    also have "\<dots> = - sint v" using n b by (intro mod_pos_pos_trivial) simp_all
    finally show ?thesis using True n by (simp add: unat_eq_nat_uint)
  next
    case False
    then have "0 \<le> sint v" by (simp add: word_sless_alt)
    with False b u show ?thesis by (simp add: unat_eq_nat_uint)
  qed
qed

lemma puts_format_d:
  assumes "arg_signed sp Args = Some (v, rest)"
    and "number_field sp CHR '' '' (if sint v < 0 then ''-'' else '''') (nat \<bar>sint v\<bar>) 10 False = Some s"
  shows "puts (format_d sp Args) s rest"
proof -
  let ?w = "if v <s 0 then - v else v"
  let ?n = "number_text (unat ?w) (unat (10 :: u64)) False"
  have neg: "sint v < 0 \<longleftrightarrow> v <s 0" by (simp add: word_sless_alt)
  have w: "nat \<bar>sint v\<bar> = unat ?w"
    by (rule nat_abs_sint)
  have s: "length ?n \<le> MAX_NUMBER_LEN"
      "s = field (bLeft sp) CHR '' '' (nWidth sp) ((if v <s 0 then ''-'' else '''') @ ?n)"
    using assms(2) unfolding w neg
    by (auto simp: number_field_def Let_def split: if_splits)
  have len: "unat (strlen ?n + (if v <s 0 then 1 else 0)) = length ?n + (if v <s 0 then 1 else 0)"
    using s(1) unat_strlen [of ?n] unat_u64_add [of "strlen ?n" "if v <s 0 then 1 else 0"]
    by (cases "v <s 0") (simp_all add: MAX_NUMBER_LEN_def)
  have minus: "puts (cond (v <s 0) (StringPutChar CHR ''-'' 1)) (if v <s 0 then ''-'' else '''') ()"
    by (rule puts_cond) (simp_all add: puts_char)
  have ten: "2 \<le> unat (10 :: u64)" by simp
  show ?thesis
    unfolding format_d_def assms(1) the_or_simps bind_return prod.case ntoa_NumBuf_def Let_def
      ntoa_text [OF ten] if_P [OF s(1)]
    by (cases "bLeft sp"; simp only: if_True if_False; rule puts_eq, rule puts_bind_return,
        rule puts_block3, (rule puts_StringPutString puts_put_pad [OF len] minus)+, simp add: len s(2) field_def Let_def)
qed

lemma char_of_eqs:
  "char_of (65 :: nat) = CHR ''A''" "char_of (53 :: nat) = CHR ''5''" "char_of (33 :: nat) = CHR ''!''"
  "char_of (70 :: nat) = CHR ''F''" "char_of (48 :: nat) = CHR ''0''"
  by code_simp+

lemma puts_number:
  assumes "Option.bind (arg_unsigned sp Args) (\<lambda>(v, rest). map_option (\<lambda>s. (s, rest))
      (number_field sp (if bNull sp \<and> \<not> bLeft sp then CHR ''0'' else CHR '' '') [] (unat v) (unat b) up))
      = Some (s, Args')" and "2 \<le> unat b"
  shows "puts (format_number sp b up Args) s Args'"
  using assms by (auto simp: bind_eq_Some_conv intro!: puts_format_number)

lemma puts_conversion:
  assumes "conversion_text sp c Args = Some (s, Args')"
  shows "puts (format_conversion sp c Args) s Args'"
proof -
  have base: "2 \<le> unat (8 :: u64)" "2 \<le> unat (10 :: u64)" "2 \<le> unat (16 :: u64)" by simp_all
  consider "c = CHR ''c''" | "c = CHR ''s''" | "c = CHR ''d''" | "c = CHR ''o''" | "c = CHR ''u''"
    | "c = CHR ''x''" | "c = CHR ''X''"
    | "c \<notin> {CHR ''c'', CHR ''s'', CHR ''d'', CHR ''o'', CHR ''u'', CHR ''x'', CHR ''X''}"
    by blast
  then show ?thesis
  proof cases
    case 1
    with assms show ?thesis
      by (auto simp: conversion_text_def format_conversion_def intro: puts_format_c)
  next
    case 2
    with assms show ?thesis
      by (auto simp: conversion_text_def format_conversion_def intro: puts_format_s)
  next
    case 3
    with assms show ?thesis
      by (auto simp: conversion_text_def format_conversion_def bind_eq_Some_conv intro: puts_format_d)
  next
    case 4
    with assms puts_number [of sp Args 8 False s Args'] base show ?thesis
      by (simp add: conversion_text_def format_conversion_def Let_def)
  next
    case 5
    with assms puts_number [of sp Args 10 False s Args'] base show ?thesis
      by (simp add: conversion_text_def format_conversion_def Let_def)
  next
    case 6
    with assms puts_number [of sp Args 16 False s Args'] base show ?thesis
      by (simp add: conversion_text_def format_conversion_def Let_def)
  next
    case 7
    with assms puts_number [of sp Args 16 True s Args'] base show ?thesis
      by (simp add: conversion_text_def format_conversion_def Let_def)
  next
    case 8
    have "puts (block [StringPutChar CHR ''%'' 1, StringPutChar c 1]) ([CHR ''%''] @ [c]) ()"
      by (intro puts_block2 puts_char)
    from puts_bind_return [OF this, of Args] 8 assms show ?thesis
      by (simp add: conversion_text_def format_conversion_def Let_def)
  qed
qed

lemma printf_text_steps:
  "c \<noteq> CHR ''%'' \<Longrightarrow> printf_text (c # f) Args = map_option ((#) c) (printf_text f Args)"
  "printf_text [CHR ''%''] Args = None"
  "printf_text (CHR ''%'' # CHR ''%'' # f) Args = map_option ((#) CHR ''%'') (printf_text f Args)"
  "d \<noteq> CHR ''%'' \<Longrightarrow> parse_spec (d # f) = (sp, []) \<Longrightarrow> printf_text (CHR ''%'' # d # f) Args = None"
  "d \<noteq> CHR ''%'' \<Longrightarrow> parse_spec (d # f) = (sp, conv # rest) \<Longrightarrow>
     printf_text (CHR ''%'' # d # f) Args = Option.bind (conversion_text sp conv Args) (\<lambda>(s, Args').
       map_option ((@) s) (printf_text rest Args'))"
  by simp_all

lemma format_loop_steps:
  "c \<noteq> CHR ''%'' \<Longrightarrow> format_loop (c # f) Args = bind (StringPutChar c 1) (\<lambda>_. format_loop f Args)"
  "format_loop (CHR ''%'' # CHR ''%'' # f) Args =
     bind (StringPutChar CHR ''%'' 1) (\<lambda>_. format_loop f Args)"
  "d \<noteq> CHR ''%'' \<Longrightarrow> parse_spec (d # f) = (sp, conv # rest) \<Longrightarrow>
     format_loop (CHR ''%'' # d # f) Args =
       bind (format_conversion sp conv Args) (\<lambda>Args'. format_loop rest Args')"
  by (rule ext, simp)+

declare printf_text.simps(2) [simp del] format_loop.simps(2) [simp del]

lemma puts_format_loop: "printf_text f Args = Some s \<Longrightarrow> puts (format_loop f Args) s ()"
proof (induction f Args arbitrary: s rule: printf_text.induct)
  case (1 Args)
  then show ?case by (simp add: puts_def wp_def)
next
  case (2 c f Args)
  show ?case
  proof (cases "c = CHR ''%''")
    case False
    then obtain r where r: "printf_text f Args = Some r" "s = [c] @ r"
      using "2.prems" by (auto simp: printf_text_steps)
    have "puts (format_loop f Args) r ()" by (rule "2.IH"(1) [OF False r(1)])
    from puts_bind [OF puts_char this] show ?thesis
      by (simp only: format_loop_steps(1) [OF False] r(2))
  next
    case pc: True
    with "2.prems" obtain d f1 where f: "f = d # f1" by (cases f) (auto simp: printf_text_steps)
    show ?thesis
    proof (cases "d = CHR ''%''")
      case True
      then obtain r where r: "printf_text f1 Args = Some r" "s = [CHR ''%''] @ r"
        using "2.prems" pc f by (auto simp: printf_text_steps)
      have "puts (format_loop f1 Args) r ()" by (rule "2.IH"(2) [OF _ f True r(1)]) (simp add: pc)
      from puts_bind [OF puts_char this] show ?thesis
        by (simp only: pc f True format_loop_steps(2) r(2))
    next
      case False
      obtain sp g where sp: "parse_spec (d # f1) = (sp, g)" by (cases "parse_spec (d # f1)")
      then obtain conv rest where g: "g = conv # rest"
        using "2.prems" pc f False by (cases g) (auto simp: printf_text_steps)
      note p = printf_text_steps(5) [OF False sp [unfolded g]]
      obtain a Args' r where r: "conversion_text sp conv Args = Some (a, Args')"
          "printf_text rest Args' = Some r" "s = a @ r"
        using "2.prems" unfolding pc f p by (auto simp: bind_eq_Some_conv)
      have "puts (format_loop rest Args') r ()"
        by (rule "2.IH"(3) [OF _ f False _ g r(1) refl r(2)]) (simp_all add: pc f sp)
      from puts_bind [where f = "\<lambda>A. format_loop rest A", OF puts_conversion [OF r(1)] this] show ?thesis
        by (simp only: pc f format_loop_steps(3) [OF False sp [unfolded g]] r(3))
    qed
  qed
qed

lemma StringFormatV_holds:
  assumes "printf_text f Args = Some s" and "NUL \<notin> set s" and "length s + 66 < 2 ^ 32"
  shows "wp (StringFormatV f Args) (\<lambda>_ t'. \<exists>b. m_pBuffer t' = Some (map Some s @ Some NUL # b) \<and>
     unat (m_nSize t') = length s + 1 + length b) (\<lambda>_ _. False) t"
proof -
  let ?t = "(new_buffer (malloc FORMAT_RESERVE) (free_buffer t))\<lparr>m_nSize := ucast FORMAT_RESERVE, m_pInPtr := 0\<rparr>"
  have "holds ?t []" by (simp add: holds_def malloc_def FORMAT_RESERVE_def)
  then have w: "wp (format_loop f Args) (\<lambda>_ t'. holds t' s) (\<lambda>_ _. False) ?t"
    using puts_format_loop [OF assms(1), unfolded puts_def, rule_format, of ?t "[]"] assms(2,3)
    by simp
  have "wp (bind (format_loop f Args) (\<lambda>_. bind (gets m_pInPtr) (\<lambda>p. put_byte p NUL)))
      (\<lambda>_ t'. \<exists>b. m_pBuffer t' = Some (map Some s @ Some NUL # b) \<and>
         unat (m_nSize t') = length s + 1 + length b) (\<lambda>_ _. False) ?t"
  proof (rule wp_seq [OF w])
    fix x t' assume "holds t' s"
    then obtain b where b: "m_pBuffer t' = Some b" "unat (m_nSize t') = length b"
        "unat (m_pInPtr t') = length s" "length s < length b" "take (length s) b = map Some s"
      by (auto simp: holds_def)
    then show "wp (bind (gets m_pInPtr) (\<lambda>p. put_byte p NUL))
       (\<lambda>_ t'. \<exists>b. m_pBuffer t' = Some (map Some s @ Some NUL # b) \<and>
         unat (m_nSize t') = length s + 1 + length b) (\<lambda>_ _. False) t'"
      by (auto simp: wp_simps wp_put_byte upd_conv_take_nth_drop)
  qed
  then show ?thesis by (simp add: StringFormatV_def wp_simps)
qed

lemma StringFormat_reads:
  assumes "printf_text f Args = Some s" and "NUL \<notin> set s" and "length s + 66 < 2 ^ 32"
  shows "\<exists>t'. StringFormat f Args t = Done () t' \<and> StringGet t' = Done s t'"
  using StringFormatV_holds [OF assms, of t] cstr_map [OF assms(2)]
  by (auto simp: wp_def StringFormat_def StringGet_def bind_def split: outcome.splits)

text \<open>
  C3. \<open>StringFormat\<close>: when the abstract formatter gives the text \<open>s\<close> for a format and its
  arguments (it gives one when no conversion is cut off, each has an argument of its kind and each number fits
  into \<open>NumBuf\<close>), and \<open>s\<close> has no zero character and is shorter than \<open>2 ^ 32 - 66\<close>, the code returns, never leaves its
  buffer or \<open>NumBuf\<close>, and the string then read from the object is \<open>s\<close>, however often the buffer had to grow.
\<close>
theorem StringFormat_text:
  assumes "printf_text f Args = Some s" and "NUL \<notin> set s" and "length s + 66 < 2 ^ 32"
  shows "\<exists>t'. StringFormat f Args t = Done () t' \<and> StringGet t' = Done s t'"
  using assms by (rule StringFormat_reads)

definition text_value :: "nat \<Rightarrow> string \<Rightarrow> nat" where
  "text_value b s = foldl (\<lambda>v c. v * b + (let n = of_char c in if n < 58 then n - 48 else (n - 55) mod 32)) 0 s"

lemma text_value_number: "2 \<le> b \<Longrightarrow> b \<le> 16 \<Longrightarrow> text_value b (number_text m b up) = m"
proof (induction m b up rule: number_text.induct)
  case (1 m b up)
  have d: "(let n = of_char (digit_char (of_nat k) up) in if n < 58 then n - 48 else (n - 55) mod 32) = k"
    if "k < b" for k
  proof -
    have "k < 16" using that "1.prems" by simp
    then have "k \<in> set [0..<16]" by simp
    then show ?thesis by (auto simp: upt_rec digit_char_def)
  qed
  show ?case
  proof (cases "m < b \<or> b < 2")
    case True
    with "1.prems" d [of m] show ?thesis by (simp add: number_text.simps [of m] text_value_def)
  next
    case False
    with "1.prems" "1.IH" d [of "m mod b"] show ?thesis
      by (simp add: number_text.simps [of m] text_value_def)
  qed
qed

text \<open>
  C29. \<open>ntoa\<close> ends for the three bases the formatter uses, its digits denote the number, and they
  fit into \<open>NumBuf\<close> exactly when the number is below the eleventh power of the base: not every
  64-bit argument of \<open>%lu\<close>, \<open>%lx\<close> or \<open>%lo\<close> is.
\<close>
theorem ntoa_digits_value:
  assumes "nBase \<in> {8, 10, 16}"
  shows "\<exists>s. ntoa n nBase up = Some s \<and> text_value (unat nBase) s = unat n \<and>
     (length s \<le> MAX_NUMBER_LEN \<longleftrightarrow> unat n < unat nBase ^ MAX_NUMBER_LEN)"
proof -
  have b: "2 \<le> unat nBase" "unat nBase \<le> 16" using assms by auto
  let ?s = "number_text (unat n) (unat nBase) up"
  have "length ?s \<le> MAX_NUMBER_LEN \<longleftrightarrow> unat n < unat nBase ^ MAX_NUMBER_LEN"
    using length_number_text_le [OF b(1), of "unat n" MAX_NUMBER_LEN up]
      length_number_text_gt [OF b(1), of MAX_NUMBER_LEN "unat n" up]
    by (force simp: MAX_NUMBER_LEN_def)
  then show ?thesis using ntoa_text [OF b(1)] text_value_number [OF b] by blast
qed

theorem StringFormat_text_witness:
  "\<exists>t'. StringFormat ''%02X:%d|%-4s|%c'' [VInt 10, VInt (- 5), VStr ''ab'', VInt 33] \<lparr>m_pBuffer = None, m_nSize = 0, m_pInPtr = 0, live = 0\<rparr> =
     Done () t' \<and> StringGet t' = Done ''0A:-5|ab  |!'' t'"
proof (rule StringFormat_text)
  have two: "replicate 2 x = [x, x]" for x :: char by (simp add: numeral_2_eq_2)
  show "printf_text ''%02X:%d|%-4s|%c'' [VInt 10, VInt (- 5), VStr ''ab'', VInt 33] = Some ''0A:-5|ab  |!''"
    by (simp add: printf_text_steps parse_spec_def is_digit_def digit_val_def conversion_text_def arg_unsigned_def arg_signed_def number_field_def field_def number_text.simps MAX_NUMBER_LEN_def digit_char_def char_of_eqs two)
qed (simp_all add: NUL_def)

text \<open>The finding: \<open>%lu\<close> of a number of twelve digits writes behind \<open>NumBuf\<close>.\<close>

lemma NumBuf_overflow:
  assumes "10 ^ 11 \<le> unat v"
  shows "\<exists>t'. StringFormat ''%lu'' [VLong v] t = Halt Out_of_bounds t'"
proof -
  have "ntoa v 10 False = Some (number_text (unat v) 10 False)" using ntoa_text [of 10 v] by simp
  moreover have "11 < length (number_text (unat v) 10 False)"
    using assms by (intro length_number_text_gt) simp_all
  moreover have p: "parse_spec ''lu'' = (\<lparr>bLeft = False, bNull = False, nWidth = 0, bLong = True\<rparr>, ''u'')"
    by (simp add: parse_spec_def is_digit_def)
  ultimately show ?thesis
    by (simp add: StringFormat_def StringFormatV_def format_loop_steps(3) [OF _ p] bind_run
        format_conversion_def format_number_def arg_unsigned_def ntoa_NumBuf_def MAX_NUMBER_LEN_def)
qed

theorem ntoa_digits_value_witness:
  "ntoa 255 16 True = Some ''FF'' \<and> (\<exists>s. ntoa 255 16 True = Some s \<and> text_value 16 s = 255)"
  using ntoa_digits_value [of 16 255 True] ntoa_text [of 16 255 True] by (auto simp: number_text.simps digit_char_def char_of_eqs)

end
