(* ===== verification/MacAddress.thy ===== *)
theory MacAddress
  imports CString
begin

text \<open>
  \<^verbatim>\<open>eth/lib/macaddress.c\<close>: an Ethernet address that must be set before it is used.
\<close>

definition MAC_ADDRESS_SIZE :: nat where "MAC_ADDRESS_SIZE = 6"

record TMACAddress =
  m_bValid :: bool
  m_Address :: "u8 list"

definition mac_wf :: "TMACAddress \<Rightarrow> bool" where
  "mac_wf m \<longleftrightarrow> length (m_Address m) = MAC_ADDRESS_SIZE"

definition MACAddress :: "(TMACAddress, unit) prog" where
  "MACAddress = modify (\<lambda>m. m\<lparr>m_bValid := False\<rparr>)"

definition MACAddressSet :: "u8 list \<Rightarrow> (TMACAddress, unit) prog" where
  "MACAddressSet pAddress =
     (if length pAddress < MAC_ADDRESS_SIZE then halt Out_of_bounds
      else modify (\<lambda>m. m\<lparr>m_Address := take MAC_ADDRESS_SIZE pAddress, m_bValid := True\<rparr>))"

definition MACAddress2 :: "u8 list \<Rightarrow> (TMACAddress, unit) prog" where
  "MACAddress2 pAddress = MACAddressSet pAddress"

definition MACAddress_destroy :: "(TMACAddress, unit) prog" where
  "MACAddress_destroy = modify (\<lambda>m. m\<lparr>m_bValid := False\<rparr>)"

definition MACAddressGet :: "(TMACAddress, u8 list) prog" where
  "MACAddressGet = bind (gets m_bValid) (\<lambda>v. bind (UK_ASSERT v) (\<lambda>_. gets m_Address))"

definition MACAddressIsEqual :: "TMACAddress \<Rightarrow> (TMACAddress, bool) prog" where
  "MACAddressIsEqual pAddress2 =
     bind (gets m_bValid) (\<lambda>v.
     bind (UK_ASSERT v) (\<lambda>_.
     bind (gets m_Address) (\<lambda>a.
     bind (zoom (\<lambda>_. pAddress2) (\<lambda>_ s. s) MACAddressGet) (\<lambda>b.
     return (take MAC_ADDRESS_SIZE a = take MAC_ADDRESS_SIZE b)))))"

definition MACAddressSetBroadcast :: "(TMACAddress, unit) prog" where
  "MACAddressSetBroadcast =
     modify (\<lambda>m. m\<lparr>m_Address := replicate MAC_ADDRESS_SIZE 0xFF, m_bValid := True\<rparr>)"

definition MACAddressCopyTo :: "(TMACAddress, u8 list) prog" where
  "MACAddressCopyTo =
     bind (gets m_bValid) (\<lambda>v.
     bind (UK_ASSERT v) (\<lambda>_. gets (take MAC_ADDRESS_SIZE \<circ> m_Address)))"

fun all_ff :: "u8 list \<Rightarrow> bool" where
  "all_ff [] = True"
| "all_ff (a # as) = (if a \<noteq> 0xFF then False else all_ff as)"

definition MACAddressIsBroadcast :: "(TMACAddress, bool) prog" where
  "MACAddressIsBroadcast =
     bind (gets m_bValid) (\<lambda>v.
     bind (UK_ASSERT v) (\<lambda>_. gets (all_ff \<circ> take MAC_ADDRESS_SIZE \<circ> m_Address)))"

definition MACAddressGetSize :: nat where
  "MACAddressGetSize = MAC_ADDRESS_SIZE"

text \<open>The string object the address is formatted into is the state of the last operation.\<close>

definition mac_format :: string where
  "mac_format = ''%02X:%02X:%02X:%02X:%02X:%02X''"

definition MACAddressFormat :: "TMACAddress \<Rightarrow> (TString, unit) prog" where
  "MACAddressFormat m =
     bind (UK_ASSERT (m_bValid m)) (\<lambda>_.
     StringFormat mac_format (map (VInt \<circ> ucast) (take MAC_ADDRESS_SIZE (m_Address m))))"

section \<open>Facts\<close>

lemma all_ff_iff: "all_ff as \<longleftrightarrow> (\<forall>a \<in> set as. a = 0xFF)"
  by (induction as) auto

definition hex2 :: "u8 \<Rightarrow> string" where
  "hex2 b = [digit_char (of_nat (unat b div 16)) True, digit_char (of_nat (unat b mod 16)) True]"

lemma conversion_02X:
  "conversion_text \<lparr>bLeft = False, bNull = True, nWidth = 2, bLong = False\<rparr> CHR ''X''
     (VInt (ucast (b :: u8)) # vs) = Some (hex2 b, vs)"
proof -
  have b: "unat b < 256" using unsigned_less [where 'a = nat, of b] by simp
  have z: "digit_char 0 True = CHR ''0''" by code_simp
  have u: "unat (ucast (ucast b :: u32) :: u64) = unat b" by (simp only: unat_ucast_up)
  show ?thesis
  proof (cases "unat b < 16")
    case True
    then show ?thesis
      by (simp add: u conversion_text_def arg_unsigned_def number_field_def field_def hex2_def z
          number_text.simps [of "unat b"] MAX_NUMBER_LEN_def)
  next
    case False
    with b have "unat b div 16 < 16" by auto
    with False show ?thesis
      by (simp add: u conversion_text_def arg_unsigned_def number_field_def field_def hex2_def
          number_text.simps [of "unat b"] number_text.simps [of "unat b div 16"] MAX_NUMBER_LEN_def)
  qed
qed

lemma parse_02X:
  "parse_spec (CHR ''0'' # CHR ''2'' # CHR ''X'' # f) =
     (\<lparr>bLeft = False, bNull = True, nWidth = 2, bLong = False\<rparr>, CHR ''X'' # f)"
  by (simp add: parse_spec_def is_digit_def digit_val_def)

lemma printf_mac:
  "printf_text mac_format (map (VInt \<circ> ucast) [b0, b1, b2, b3, b4, b5]) =
     Some (hex2 b0 @ '':'' @ hex2 b1 @ '':'' @ hex2 b2 @ '':'' @ hex2 b3 @ '':'' @ hex2 b4 @ '':'' @ hex2 b5)"
  by (simp add: mac_format_def printf_text_steps(1,3) printf_text_steps(5) [OF _ parse_02X] conversion_02X)

lemma hex2_value: "text_value 16 (hex2 b) = unat b" and hex2_len: "length (hex2 b) = 2"
proof -
  have b: "unat b < 256" using unsigned_less [where 'a = nat, of b] by simp
  show "length (hex2 b) = 2" by (simp add: hex2_def)
  show "text_value 16 (hex2 b) = unat b"
  proof (cases "unat b < 16")
    case True
    have z: "of_char (digit_char 0 True) = (48 :: nat)" by code_simp
    from True show ?thesis
      using text_value_number [of 16 "unat b" True]
      by (simp add: hex2_def number_text.simps [of "unat b"] text_value_def z)
  next
    case False
    with b have "unat b div 16 < 16" by auto
    with False show ?thesis
      using text_value_number [of 16 "unat b" True]
      by (simp add: hex2_def number_text.simps [of "unat b"] number_text.simps [of "unat b div 16"])
  qed
qed

lemma digit_char_not_NUL:
  assumes "k < 16" shows "digit_char (of_nat k) up \<noteq> NUL"
proof
  assume "digit_char (of_nat k) up = NUL"
  then have "of_char (digit_char (of_nat k) up) = (of_char NUL :: nat)" by simp
  moreover have "k \<in> set [0..<16]" using assms by simp
  ultimately show False by (cases up) (auto simp: upt_rec digit_char_def NUL_def)
qed

text \<open>
  A valid address formats as six pairs of hexadecimal digits separated by colons, and each pair
  reads back as its byte; no valid address makes the formatter stop.
\<close>

theorem MACAddressFormat_roundtrip:
  assumes "mac_wf m" and "m_bValid m"
  shows "\<exists>t' s. MACAddressFormat m t = Done () t' \<and> StringGet t' = Done s t' \<and> length s = 17 \<and>
    (\<forall>i < 6. text_value 16 (slice (3 * i) 2 s) = unat (m_Address m ! i)) \<and>
    (\<forall>i < 5. s ! (3 * i + 2) = CHR '':'')"
proof -
  obtain b0 b1 b2 b3 b4 b5 where a: "m_Address m = [b0, b1, b2, b3, b4, b5]"
    using assms(1) by (auto simp: mac_wf_def MAC_ADDRESS_SIZE_def numeral_eq_Suc length_Suc_conv)
  let ?s = "hex2 b0 @ '':'' @ hex2 b1 @ '':'' @ hex2 b2 @ '':'' @ hex2 b3 @ '':'' @ hex2 b4 @ '':'' @ hex2 b5"
  define h where "h b = digit_char (of_nat (unat b div 16)) True" for b :: u8
  define l where "l b = digit_char (of_nat (unat b mod 16)) True" for b :: u8
  have hl: "hex2 b = [h b, l b]" for b by (simp add: hex2_def h_def l_def)
  have val: "text_value 16 [h b, l b] = unat b" for b using hex2_value [of b] by (simp add: hl)
  have "NUL \<notin> set (hex2 b)" for b
  proof -
    have "unat b < 256" using unsigned_less [where 'a = nat, of b] by simp
    then have "unat b div 16 < 16" by auto
    then have "digit_char (of_nat (unat b div 16)) True \<noteq> NUL"
        "digit_char (of_nat (unat b mod 16)) True \<noteq> NUL"
      by (simp_all add: digit_char_not_NUL)
    then show ?thesis by (auto simp: hex2_def)
  qed
  then have "NUL \<notin> set ?s" by (auto simp: NUL_def)
  moreover have "length ?s = 17" by (simp add: hex2_len)
  ultimately have "\<exists>t'. StringFormat mac_format (map (VInt \<circ> ucast) [b0, b1, b2, b3, b4, b5]) t =
      Done () t' \<and> StringGet t' = Done ?s t'"
    by (intro StringFormat_reads [OF printf_mac]) simp_all
  moreover have "\<forall>i < 6. text_value 16 (slice (3 * i) 2 ?s) = unat ([b0, b1, b2, b3, b4, b5] ! i)"
  proof (intro allI impI)
    fix i :: nat
    assume "i < 6"
    then have "i \<in> {0, 1, 2, 3, 4, 5}" by auto
    then show "text_value 16 (slice (3 * i) 2 ?s) = unat ([b0, b1, b2, b3, b4, b5] ! i)"
      by (elim insertE emptyE) (simp_all add: slice_def hl val)
  qed
  moreover have "\<forall>i < 5. ?s ! (3 * i + 2) = CHR '':''"
  proof (intro allI impI)
    fix i :: nat
    assume "i < 5"
    then have "i \<in> {0, 1, 2, 3, 4}" by auto
    then show "?s ! (3 * i + 2) = CHR '':''" by (elim insertE emptyE) (simp_all add: hl)
  qed
  ultimately show ?thesis
    using assms(2) a \<open>length ?s = 17\<close>
    by (auto simp: MACAddressFormat_def MAC_ADDRESS_SIZE_def)
qed

theorem MACAddressFormat_roundtrip_witness:
  "\<exists>t' s. MACAddressFormat \<lparr>m_bValid = True, m_Address = [0xB8, 0x27, 0xEB, 0, 1, 2]\<rparr>
      \<lparr>m_pBuffer = None, m_nSize = 0, m_pInPtr = 0, live = 0\<rparr> = Done () t' \<and> StringGet t' = Done s t' \<and> length s = 17"
  using MACAddressFormat_roundtrip
    [of "\<lparr>m_bValid = True, m_Address = [0xB8, 0x27, 0xEB, 0, 1, 2]\<rparr>" "\<lparr>m_pBuffer = None, m_nSize = 0, m_pInPtr = 0, live = 0\<rparr>"]
  by (auto simp: mac_wf_def MAC_ADDRESS_SIZE_def)

end
