(* ===== verification/Machine.thy ===== *)
theory Machine
  imports Prelude
begin

text \<open>
  The machine under the driver: memory-mapped registers, memory, sleeping, the interrupt
  enable flag, and the small services of \<^verbatim>\<open>eth/lib\<close> every other component calls
  (\<^verbatim>\<open>memio.c\<close>, \<^verbatim>\<open>synchronize.c\<close>, \<^verbatim>\<open>interrupt.c\<close>, \<^verbatim>\<open>logger.c\<close>,
  and the delays of \<^verbatim>\<open>uspibind.c\<close>).

  The hardware is not under the control of the code.  Each volatile read takes the next answer
  of a list that stands for the hardware's behaviour; an answer also lists the
  memory the hardware has written (by DMA) before giving it.  Every access is recorded in
  a trace.  Nothing is assumed about the answers: a theorem for all answer lists is a theorem
  for all hardware behaviours.
\<close>

section \<open>The state of the machine\<close>

type_synonym timespec = "int \<times> int"

datatype event =
    EvRead u64 u32
  | EvWrite u64 u32
  | EvBarrier
  | EvSleep timespec
  | EvCleanLine u64
  | EvCacheRange u64 u64
  | EvPrint string

type_synonym answer = "u32 \<times> (u64 \<times> u8 list) list"

datatype sleep_answer = Slept | Eintr timespec | Sleep_error

record hw =
  mmio_in :: "answer list"
  sleeps :: "sleep_answer list"
  rev_trace :: "event list"
  mem :: "u64 \<Rightarrow> u8"
  irq_on :: bool
  s_nCriticalLevel :: u32
  s_bWereEnabled :: bool
  log_level :: "u32 option"

definition trace :: "'b hw_scheme \<Rightarrow> event list" where
  "trace s = rev (rev_trace s)"

definition writes :: "event list \<Rightarrow> (u64 \<times> u32) list" where
  "writes es = concat (map (\<lambda>e. case e of EvWrite a v \<Rightarrow> [(a, v)] | _ \<Rightarrow> []) es)"

lemma writes_append [simp]: "writes (xs @ ys) = writes xs @ writes ys"
  by (simp add: writes_def)

lemma writes_simps [simp]:
  "writes [] = []"
  "writes (EvWrite a v # es) = (a, v) # writes es"
  "writes (EvRead a v # es) = writes es"
  "writes (EvBarrier # es) = writes es"
  "writes (EvSleep t # es) = writes es"
  "writes (EvCleanLine a # es) = writes es"
  "writes (EvCacheRange a n # es) = writes es"
  "writes (EvPrint m # es) = writes es"
  by (simp_all add: writes_def)

text \<open>An answer without DMA.\<close>

definition ans :: "u32 \<Rightarrow> answer" where
  "ans v = (v, [])"

section \<open>Memory\<close>

definition store_bytes :: "u64 \<Rightarrow> u8 list \<Rightarrow> (u64 \<Rightarrow> u8) \<Rightarrow> (u64 \<Rightarrow> u8)" where
  "store_bytes a bs m = (\<lambda>x. if unat (x - a) < length bs then bs ! unat (x - a) else m x)"

definition load_bytes :: "u64 \<Rightarrow> nat \<Rightarrow> (u64 \<Rightarrow> u8) \<Rightarrow> u8 list" where
  "load_bytes a n m = map (\<lambda>i. m (a + of_nat i)) [0..<n]"

definition dma_writes :: "(u64 \<times> u8 list) list \<Rightarrow> (u64 \<Rightarrow> u8) \<Rightarrow> (u64 \<Rightarrow> u8)" where
  "dma_writes ws m = fold (\<lambda>(a, bs). store_bytes a bs) ws m"

lemma dma_writes_Nil [simp]: "dma_writes [] m = m"
  by (simp add: dma_writes_def)

lemma length_load_bytes [simp]: "length (load_bytes a n m) = n"
  by (simp add: load_bytes_def)

lemma store_bytes_Nil [simp]: "store_bytes a [] m = m"
  by (simp add: store_bytes_def)

lemma load_store_same:
  assumes "length bs \<le> 2 ^ 64"
  shows "load_bytes a (length bs) (store_bytes a bs m) = bs"
proof (rule nth_equalityI)
  fix i
  assume "i < length (load_bytes a (length bs) (store_bytes a bs m))"
  then have i: "i < length bs" by simp
  with assms have "unat (of_nat i :: u64) = i" by (simp add: unat_of_nat)
  with i show "load_bytes a (length bs) (store_bytes a bs m) ! i = bs ! i"
    by (simp add: load_bytes_def store_bytes_def)
qed simp

lemma offset_unat:
  "off + i < 2 ^ 64 \<Longrightarrow> unat (of_nat off + of_nat i :: u64) = off + i"
  by (simp add: unat_of_nat flip: of_nat_add)

lemma load_store_inside:
  assumes "off + n \<le> length bs" and "length bs < 2 ^ 64"
  shows "load_bytes (a + of_nat off) n (store_bytes a bs m) = slice off n bs"
proof (rule nth_equalityI)
  fix i
  assume "i < length (load_bytes (a + of_nat off) n (store_bytes a bs m))"
  with assms show "load_bytes (a + of_nat off) n (store_bytes a bs m) ! i = slice off n bs ! i"
    by (simp add: load_bytes_def store_bytes_def slice_def offset_unat)
qed (use assms in \<open>simp\<close>)

lemma store_store_inside:
  assumes "off + length ys \<le> length xs" and "length xs < 2 ^ 64"
  shows "store_bytes (a + of_nat off) ys (store_bytes a xs m) = store_bytes a (splice off ys xs) m"
proof
  fix x
  have o: "unat (of_nat off :: u64) = off" using assms by (simp add: unat_of_nat)
  define d where "d = x - a"
  have e: "x - (a + of_nat off) = d - of_nat off" by (simp add: d_def)
  have b: "unat d < 2 ^ 64" by (rule unat_u64_less)
  show "store_bytes (a + of_nat off) ys (store_bytes a xs m) x = store_bytes a (splice off ys xs) m x"
  proof (cases "off \<le> unat d")
    case True
    then have "unat (d - of_nat off) = unat d - off"
      using o by (simp add: unat_sub word_le_nat_alt)
    with True assms show ?thesis
      by (auto simp: store_bytes_def e d_def [symmetric] splice_def nth_append)
  next
    case False
    then have "d < of_nat off" using o by (simp add: word_less_nat_alt)
    then have "unat (d - of_nat off) = 2 ^ 64 + unat d - off"
      using o False by (simp add: unat_sub_if_size word_le_nat_alt size_word_def)
    with False assms b show ?thesis
      by (auto simp: store_bytes_def e d_def [symmetric] splice_def nth_append)
  qed
qed

text \<open>Two blocks that do not meet: a store to one leaves the other as it is.\<close>

definition apart :: "u64 \<Rightarrow> nat \<Rightarrow> u64 \<Rightarrow> nat \<Rightarrow> bool" where
  "apart a n b k \<longleftrightarrow> (\<forall>i < n. k \<le> unat (a + of_nat i - b))"

lemma load_store_apart:
  "apart a n b (length bs) \<Longrightarrow> load_bytes a n (store_bytes b bs m) = load_bytes a n m"
  by (auto simp: apart_def load_bytes_def store_bytes_def)

section \<open>Primitive accesses\<close>

definition emit :: "event \<Rightarrow> ('b hw_scheme, unit) prog" where
  "emit e = modify (\<lambda>s. s\<lparr>rev_trace := e # rev_trace s\<rparr>)"

text \<open>A volatile read: the next answer; without one the code waits for ever.\<close>

definition vread :: "u64 \<Rightarrow> ('b hw_scheme, u32) prog" where
  "vread a = (\<lambda>s. case mmio_in s of
       [] \<Rightarrow> Halt Starved s
     | (v, ws) # rest \<Rightarrow>
         Done v (s\<lparr>mmio_in := rest, mem := dma_writes ws (mem s),
                  rev_trace := EvRead a v # rev_trace s\<rparr>))"

definition vwrite :: "u64 \<Rightarrow> u32 \<Rightarrow> ('b hw_scheme, unit) prog" where
  "vwrite a v = emit (EvWrite a v)"

text \<open>\<^verbatim>\<open>memio.c\<close>: the 32-bit address is zero-extended.\<close>

definition read32 :: "u32 \<Rightarrow> ('b hw_scheme, u32) prog" where
  "read32 nAddress = vread (ucast nAddress)"

definition write32 :: "u32 \<Rightarrow> u32 \<Rightarrow> ('b hw_scheme, unit) prog" where
  "write32 nAddress nValue = vwrite (ucast nAddress) nValue"

definition DataMemBarrier :: "('b hw_scheme, unit) prog" where
  "DataMemBarrier = emit EvBarrier"

definition DataSyncBarrier :: "('b hw_scheme, unit) prog" where
  "DataSyncBarrier = emit EvBarrier"

lemma emit_run [simp]: "emit e s = Done () (s\<lparr>rev_trace := e # rev_trace s\<rparr>)"
  by (simp add: emit_def)

lemma vwrite_run [simp]: "vwrite a v s = Done () (s\<lparr>rev_trace := EvWrite a v # rev_trace s\<rparr>)"
  by (simp add: vwrite_def)

lemma vread_Cons:
  "mmio_in s = (v, ws) # rest \<Longrightarrow>
    vread a s = Done v (s\<lparr>mmio_in := rest, mem := dma_writes ws (mem s),
                         rev_trace := EvRead a v # rev_trace s\<rparr>)"
  by (simp add: vread_def)

lemma wp_emit [wp_simps]: "wp (emit e) Q E s = Q () (s\<lparr>rev_trace := e # rev_trace s\<rparr>)"
  by (simp add: emit_def wp_simps)

lemma wp_vread [wp_simps]:
  "wp (vread a) Q E s = (case mmio_in s of
      [] \<Rightarrow> E Starved s
    | (v, ws) # rest \<Rightarrow>
        Q v (s\<lparr>mmio_in := rest, mem := dma_writes ws (mem s),
              rev_trace := EvRead a v # rev_trace s\<rparr>))"
  by (simp add: wp_def vread_def split: list.split prod.split)

lemma wp_vwrite [wp_simps]:
  "wp (vwrite a v) Q E s = Q () (s\<lparr>rev_trace := EvWrite a v # rev_trace s\<rparr>)"
  by (simp add: vwrite_def wp_simps)

section \<open>Frames: the driver's own state above the machine\<close>

text \<open>
  Operations of the machine change the fields of \<open>hw\<close> only.  \<open>keeps m\<close> says that \<open>m\<close>
  leaves the rest of the state record, which the component theories add, as it is, and that
  it leaves the interrupt and critical section state as it was.
\<close>

definition same_rest :: "'b hw_scheme \<Rightarrow> 'b hw_scheme \<Rightarrow> bool" where
  "same_rest s t \<longleftrightarrow> hw.more t = hw.more s \<and> irq_on t = irq_on s \<and>
     s_nCriticalLevel t = s_nCriticalLevel s \<and> s_bWereEnabled t = s_bWereEnabled s \<and>
     log_level t = log_level s"

definition keeps :: "('b hw_scheme, 'a) prog \<Rightarrow> bool" where
  "keeps m = (\<forall>s0. pres (same_rest s0) m)"

lemma same_rest_refl [simp]: "same_rest s s"
  by (simp add: same_rest_def)

lemma same_rest_trans: "same_rest s t \<Longrightarrow> same_rest t u \<Longrightarrow> same_rest s u"
  by (simp add: same_rest_def)

lemma same_rest_upd [simp]:
  "same_rest s (t\<lparr>rev_trace := x\<rparr>) = same_rest s t"
  "same_rest s (t\<lparr>mmio_in := y\<rparr>) = same_rest s t"
  "same_rest s (t\<lparr>mem := z\<rparr>) = same_rest s t"
  "same_rest s (t\<lparr>sleeps := w\<rparr>) = same_rest s t"
  by (simp_all add: same_rest_def)

lemma keepsI: "(\<And>s0. pres (same_rest s0) m) \<Longrightarrow> keeps m"
  by (simp add: keeps_def)

lemma keepsD: "keeps m \<Longrightarrow> pres (same_rest s0) m"
  by (simp add: keeps_def)

lemma keeps_wp: "keeps m \<Longrightarrow> wp m (\<lambda>_. same_rest s) (\<lambda>_. same_rest s) s"
  by (simp add: keeps_def pres_def)

lemma keeps_DoneD: "keeps m \<Longrightarrow> m s = Done x t \<Longrightarrow> same_rest s t"
  using keeps_wp [of m s] by (simp add: wp_def)

lemma pres_emit [pres_intros]:
  "(\<And>s. I s \<Longrightarrow> I (s\<lparr>rev_trace := e # rev_trace s\<rparr>)) \<Longrightarrow> pres I (emit e)"
  by (simp add: pres_def wp_simps)

lemma pres_vwrite:
  "(\<And>s. I s \<Longrightarrow> I (s\<lparr>rev_trace := EvWrite a v # rev_trace s\<rparr>)) \<Longrightarrow> pres I (vwrite a v)"
  by (simp add: pres_def wp_simps)

named_theorems keeps_intros "operations of the machine that leave the driver's state alone"

lemma keeps_emit [keeps_intros]: "keeps (emit e)"
  by (rule keepsI) (simp add: pres_def wp_simps)

lemma keeps_vread [keeps_intros]: "keeps (vread a)"
  by (rule keepsI) (simp add: pres_def wp_simps split: list.split prod.split)

lemma keeps_vwrite [keeps_intros]: "keeps (vwrite a v)"
  by (simp add: vwrite_def keeps_emit)

lemma keeps_return [keeps_intros]: "keeps (return x)"
  by (rule keepsI) (rule pres_return)

lemma keeps_halt [keeps_intros]: "keeps (halt h)"
  by (rule keepsI) (rule pres_halt)

lemma keeps_gets [keeps_intros]: "keeps (gets f)"
  by (rule keepsI) (rule pres_gets)

lemma keeps_bind [keeps_intros]: "keeps m \<Longrightarrow> (\<And>x. keeps (f x)) \<Longrightarrow> keeps (bind m f)"
  by (simp add: keeps_def pres_bind)

lemma keeps_UK_ASSERT [keeps_intros]: "keeps (UK_ASSERT b)"
  by (rule keepsI) (rule pres_UK_ASSERT)

lemma keeps_the_or [keeps_intros]: "keeps (the_or h x)"
  by (rule keepsI) (rule pres_the_or)

lemma keeps_if [keeps_intros]: "keeps m \<Longrightarrow> keeps n \<Longrightarrow> keeps (if b then m else n)"
  by simp

lemma keeps_cond [keeps_intros]: "keeps m \<Longrightarrow> keeps (cond b m)"
  by (simp add: keeps_def pres_cond)

lemma keeps_case_prod [keeps_intros]:
  "(\<And>x y. keeps (f x y)) \<Longrightarrow> keeps (case p of (x, y) \<Rightarrow> f x y)"
  by (cases p) simp

lemma keeps_case_option [keeps_intros]:
  "keeps m \<Longrightarrow> (\<And>y. keeps (f y)) \<Longrightarrow> keeps (case z of None \<Rightarrow> m | Some y \<Rightarrow> f y)"
  by (cases z) simp_all

lemma keeps_Let [keeps_intros]: "(\<And>x. keeps (f x)) \<Longrightarrow> keeps (let x = e in f x)"
  by simp

lemma keeps_block [keeps_intros]:
  "keeps (block [])" "keeps m \<Longrightarrow> keeps (block ms) \<Longrightarrow> keeps (block (m # ms))"
  by (simp_all add: keeps_return keeps_bind)

lemma keeps_chain [keeps_intros]:
  "keeps (chain x [])"
  "keeps (f x) \<Longrightarrow> (\<And>y. keeps (chain y fs)) \<Longrightarrow> keeps (chain x (f # fs))"
  by (simp_all add: keeps_return keeps_bind)

lemma keeps_all_ok [keeps_intros]:
  "keeps (all_ok [])" "keeps m \<Longrightarrow> keeps (all_ok ms) \<Longrightarrow> keeps (all_ok (m # ms))"
  by (simp_all add: keeps_return keeps_bind)

lemma keeps_for_each [keeps_intros]: "(\<And>i. keeps (f i)) \<Longrightarrow> keeps (for_each is f)"
  by (simp add: keeps_def pres_for_each)

lemma keeps_read32 [keeps_intros]: "keeps (read32 a)"
  by (simp add: read32_def keeps_vread)

lemma keeps_write32 [keeps_intros]: "keeps (write32 a v)"
  by (simp add: write32_def keeps_vwrite)

lemma keeps_DataMemBarrier [keeps_intros]: "keeps DataMemBarrier"
  by (simp add: DataMemBarrier_def keeps_emit)

lemma keeps_DataSyncBarrier [keeps_intros]: "keeps DataSyncBarrier"
  by (simp add: DataSyncBarrier_def keeps_emit)

lemma wp_read32 [wp_simps]:
  "wp (read32 a) Q E s = (case mmio_in s of
      [] \<Rightarrow> E Starved s
    | (v, ws) # rest \<Rightarrow>
        Q v (s\<lparr>mmio_in := rest, mem := dma_writes ws (mem s),
              rev_trace := EvRead (ucast a) v # rev_trace s\<rparr>))"
  by (simp add: read32_def wp_vread)

lemma wp_write32 [wp_simps]:
  "wp (write32 a v) Q E s = Q () (s\<lparr>rev_trace := EvWrite (ucast a) v # rev_trace s\<rparr>)"
  by (simp add: write32_def wp_vwrite)

lemma wp_DataMemBarrier [wp_simps]:
  "wp DataMemBarrier Q E s = Q () (s\<lparr>rev_trace := EvBarrier # rev_trace s\<rparr>)"
  by (simp add: DataMemBarrier_def wp_emit)

lemma wp_DataSyncBarrier [wp_simps]:
  "wp DataSyncBarrier Q E s = Q () (s\<lparr>rev_trace := EvBarrier # rev_trace s\<rparr>)"
  by (simp add: DataSyncBarrier_def wp_emit)

section \<open>Loads and stores\<close>

definition store :: "u64 \<Rightarrow> u8 list \<Rightarrow> ('b hw_scheme, unit) prog" where
  "store a bs = modify (\<lambda>s. s\<lparr>mem := store_bytes a bs (mem s)\<rparr>)"

definition store32 :: "u64 \<Rightarrow> u32 \<Rightarrow> ('b hw_scheme, unit) prog" where
  "store32 a v = store a (bytes32 v)"

definition load :: "u64 \<Rightarrow> nat \<Rightarrow> ('b hw_scheme, u8 list) prog" where
  "load a n = gets (\<lambda>s. load_bytes a n (mem s))"

definition load32 :: "u64 \<Rightarrow> ('b hw_scheme, u32) prog" where
  "load32 a = gets (\<lambda>s. read_le32 (load_bytes a 4 (mem s)))"

lemma wp_store [wp_simps]: "wp (store a bs) Q E s = Q () (s\<lparr>mem := store_bytes a bs (mem s)\<rparr>)"
  by (simp add: store_def wp_simps)

lemma wp_store32 [wp_simps]:
  "wp (store32 a v) Q E s = Q () (s\<lparr>mem := store_bytes a (bytes32 v) (mem s)\<rparr>)"
  by (simp add: store32_def wp_simps)

lemma wp_load [wp_simps]: "wp (load a n) Q E s = Q (load_bytes a n (mem s)) s"
  by (simp add: load_def wp_simps)

lemma wp_load32 [wp_simps]: "wp (load32 a) Q E s = Q (read_le32 (load_bytes a 4 (mem s))) s"
  by (simp add: load32_def wp_simps)

lemma keeps_store [keeps_intros]: "keeps (store a bs)"
  by (rule keepsI) (simp add: pres_def wp_simps)

lemma keeps_store32 [keeps_intros]: "keeps (store32 a v)"
  by (simp add: store32_def keeps_store)

lemma keeps_load [keeps_intros]: "keeps (load a n)"
  by (simp add: load_def keeps_gets)

lemma keeps_load32 [keeps_intros]: "keeps (load32 a)"
  by (simp add: load32_def keeps_gets)

lemma read_le32_load:
  "read_le32 (load_bytes a 4 m) = le32 (m a) (m (a + 1)) (m (a + 2)) (m (a + 3))"
  by (simp add: load_bytes_def upt_rec)

lemma load32_store32 [simp]: "read_le32 (load_bytes a 4 (store_bytes a (bytes32 v) m)) = v"
  using load_store_same [of "bytes32 v" a m] read_le32_bytes32 [of v "[]"] by simp

section \<open>Loops that wait for the hardware\<close>

text \<open>
  \<open>hw_until m\<close> repeats \<open>m\<close> until it yields a result.  When every turn reads at least one
  register (\<open>consumes m\<close>), the answers of the hardware bound the number of turns: the
  fuel \<open>length (mmio_in s) + 1\<close> is enough, and the loop satisfies the equation of an
  unbounded loop (\<open>hw_until_unfold\<close>).  A loop that is still waiting when the answers
  are used up is \<open>Starved\<close>.
\<close>

primrec until_n :: "nat \<Rightarrow> ('s, 'a option) prog \<Rightarrow> ('s, 'a) prog" where
  "until_n 0 m = halt Starved"
| "until_n (Suc n) m = bind m (\<lambda>r. case r of None \<Rightarrow> until_n n m | Some x \<Rightarrow> return x)"

definition hw_until :: "('b hw_scheme, 'a option) prog \<Rightarrow> ('b hw_scheme, 'a) prog" where
  "hw_until m = bind (gets (\<lambda>s. Suc (length (mmio_in s)))) (\<lambda>n. until_n n m)"

definition consumes :: "('b hw_scheme, 'a) prog \<Rightarrow> bool" where
  "consumes m \<longleftrightarrow> (\<forall>s x t. m s = Done x t \<longrightarrow> length (mmio_in t) < length (mmio_in s))"

lemma until_n_enough:
  assumes "consumes m"
  shows "length (mmio_in s) < n \<Longrightarrow> length (mmio_in s) < k \<Longrightarrow> until_n n m s = until_n k m s"
proof (induction n arbitrary: k s)
  case (Suc n)
  then obtain k' where k: "k = Suc k'" by (cases k) auto
  have "until_n n m t = until_n k' m t" if "m s = Done None t" for t
    using Suc.IH [of t k'] Suc.prems k that assms by (fastforce simp: consumes_def)
  then show ?case by (auto simp: k bind_run split: outcome.split option.split)
qed simp

lemma hw_until_unfold:
  assumes "consumes m"
  shows "hw_until m = bind m (\<lambda>r. case r of None \<Rightarrow> hw_until m | Some x \<Rightarrow> return x)"
proof
  fix s
  have "until_n (length (mmio_in s)) m t = until_n (Suc (length (mmio_in t))) m t"
    if "m s = Done None t" for t
    using that assms by (intro until_n_enough [OF assms]) (auto simp: consumes_def)
  then show "hw_until m s = bind m (\<lambda>r. case r of None \<Rightarrow> hw_until m | Some x \<Rightarrow> return x) s"
    by (auto simp: hw_until_def bind_run split: outcome.split option.split)
qed

lemma wp_until_n:
  assumes "\<And>s. I s \<Longrightarrow> wp m (\<lambda>r t. case r of None \<Rightarrow> I t | Some x \<Rightarrow> Q x t) E s"
    and "\<And>s. I s \<Longrightarrow> E Starved s"
  shows "I s \<Longrightarrow> wp (until_n n m) Q E s"
proof (induction n arbitrary: s)
  case 0
  show ?case unfolding until_n.simps wp_halt by (rule assms(2) [OF 0])
next
  case (Suc n)
  show ?case unfolding until_n.simps
  proof (rule wp_seq [OF assms(1) [OF Suc.prems]])
    fix r t
    assume "case r of None \<Rightarrow> I t | Some x \<Rightarrow> Q x t"
    then show "wp (case r of None \<Rightarrow> until_n n m | Some x \<Rightarrow> return x) Q E t"
      using Suc.IH by (cases r) (simp_all add: wp_simps)
  qed
qed

lemma wp_hw_until:
  assumes "\<And>s. I s \<Longrightarrow> wp m (\<lambda>r t. case r of None \<Rightarrow> I t | Some x \<Rightarrow> Q x t) E s"
    and "\<And>s. I s \<Longrightarrow> E Starved s" and "I s"
  shows "wp (hw_until m) Q E s"
  unfolding hw_until_def wp_bind wp_gets by (rule wp_until_n [where I = I, OF assms])

lemma pres_until_n: "pres I m \<Longrightarrow> pres I (until_n n m)"
  by (induction n) (auto intro!: pres_intros)

lemma pres_hw_until [pres_intros]: "pres I m \<Longrightarrow> pres I (hw_until m)"
  by (simp add: hw_until_def pres_bind pres_gets pres_until_n)

lemma keeps_hw_until [keeps_intros]: "keeps m \<Longrightarrow> keeps (hw_until m)"
  by (simp add: keeps_def pres_hw_until)

lemma consumes_read32: "consumes (read32 a)"
  by (auto simp: consumes_def read32_def vread_def split: list.splits prod.splits)

lemma consumes_bind:
  "consumes m \<Longrightarrow> (\<And>x s y t. f x s = Done y t \<Longrightarrow> length (mmio_in t) \<le> length (mmio_in s)) \<Longrightarrow>
   consumes (bind m f)"
  by (fastforce simp: consumes_def Done_iff)

end
