(* ===== verification/Services.thy ===== *)
theory Services
  imports Machine
begin

text \<open>
  The services of \<^verbatim>\<open>eth/lib\<close> under the USB stack: the log of \<^verbatim>\<open>logger.c\<close>
  (the messages are printed unformatted, as \<open>LoggerWriteV\<close> prints the format string itself),
  the delays of \<^verbatim>\<open>uspibind.c\<close> on top of \<open>nanosleep\<close>, the nested critical
  sections and the cache maintenance of \<^verbatim>\<open>synchronize.c\<close> (the AARCH64 branch), and
  the interrupt enable of \<^verbatim>\<open>interrupt.c\<close>.
\<close>

section \<open>Logger\<close>

definition LogPanic :: u32 where "LogPanic = 0"
definition LOG_ERROR :: u32 where "LOG_ERROR = 1"
definition LOG_WARNING :: u32 where "LOG_WARNING = 2"
definition LOG_NOTICE :: u32 where "LOG_NOTICE = 3"
definition LOG_DEBUG :: u32 where "LOG_DEBUG = 4"

definition Logger :: "u32 \<Rightarrow> ('b hw_scheme, unit) prog" where
  "Logger nLogLevel = modify (\<lambda>s. s\<lparr>log_level := Some nLogLevel\<rparr>)"

definition Logger_destroy :: "('b hw_scheme, unit) prog" where
  "Logger_destroy = modify (\<lambda>s. s\<lparr>log_level := None\<rparr>)"

definition LoggerWriteV :: "u32 option \<Rightarrow> u32 \<Rightarrow> string \<Rightarrow> ('b hw_scheme, unit) prog" where
  "LoggerWriteV pThis Severity pMessage =
     bind (the_or Null_deref pThis) (\<lambda>m_nLogLevel.
     if Severity > m_nLogLevel then return ()
     else bind (emit (EvPrint pMessage)) (\<lambda>_.
       if Severity = LogPanic then halt Crashed else return ()))"

definition LoggerGet :: "('b hw_scheme, u32 option) prog" where
  "LoggerGet = gets log_level"

definition LogWrite :: "u32 \<Rightarrow> string \<Rightarrow> ('b hw_scheme, unit) prog" where
  "LogWrite Severity pMessage = bind LoggerGet (\<lambda>l. LoggerWriteV l Severity pMessage)"

section \<open>Delays\<close>

text \<open>
  \<open>nanosleep\<close> is libc: it sleeps, or is interrupted and stores the time that remains, or
  fails.  Which of the three happens is the list \<open>sleeps\<close>; an exhausted list stands for
  sleeps that run to their end.
\<close>

fun nanosleep_loop :: "sleep_answer list \<Rightarrow> timespec \<Rightarrow> ('b hw_scheme, unit) prog" where
  "nanosleep_loop [] ts =
     (\<lambda>s. Done () (s\<lparr>sleeps := [], rev_trace := EvSleep ts # rev_trace s\<rparr>))"
| "nanosleep_loop (Slept # as) ts =
     (\<lambda>s. Done () (s\<lparr>sleeps := as, rev_trace := EvSleep ts # rev_trace s\<rparr>))"
| "nanosleep_loop (Eintr rem # as) ts =
     bind (emit (EvSleep ts)) (\<lambda>_. nanosleep_loop as rem)"
| "nanosleep_loop (Sleep_error # as) ts =
     (\<lambda>s. Halt Crashed (s\<lparr>sleeps := as, rev_trace := EvSleep ts # rev_trace s\<rparr>))"

definition ms_timespec :: "u32 \<Rightarrow> timespec" where
  "ms_timespec nMilliSeconds =
     (let msec = uint nMilliSeconds in (msec div 1000, msec mod 1000 * 1000000))"

definition us_timespec :: "u32 \<Rightarrow> timespec" where
  "us_timespec nMicroSeconds =
     (let us = uint nMicroSeconds in (us div 1000000, us mod 1000000))"

text \<open>The argument is an \<open>unsigned\<close> stored in a 64-bit \<open>long\<close>, so it is never negative.\<close>

definition MsDelay :: "u32 \<Rightarrow> ('b hw_scheme, unit) prog" where
  "MsDelay nMilliSeconds =
     bind (gets sleeps) (\<lambda>as. nanosleep_loop as (ms_timespec nMilliSeconds))"

definition usDelay :: "u32 \<Rightarrow> ('b hw_scheme, unit) prog" where
  "usDelay nMicroSeconds =
     bind (gets sleeps) (\<lambda>as. nanosleep_loop as (us_timespec nMicroSeconds))"

text \<open>The length in nanoseconds of the sleep that a \<open>timespec\<close> asks for.\<close>

definition nanoseconds :: "timespec \<Rightarrow> int" where
  "nanoseconds ts = fst ts * 1000000000 + snd ts"

section \<open>Critical sections\<close>

definition uspi_EnterCritical :: "('b hw_scheme, unit) prog" where
  "uspi_EnterCritical =
     bind (gets irq_on) (\<lambda>enabled. block
       [modify (\<lambda>s. s\<lparr>irq_on := False\<rparr>),
        modify (\<lambda>s. if s_nCriticalLevel s = 0
          then s\<lparr>s_nCriticalLevel := s_nCriticalLevel s + 1, s_bWereEnabled := enabled\<rparr>
          else s\<lparr>s_nCriticalLevel := s_nCriticalLevel s + 1\<rparr>),
        DataMemBarrier])"

definition uspi_LeaveCritical :: "('b hw_scheme, unit) prog" where
  "uspi_LeaveCritical =
     bind DataMemBarrier (\<lambda>_.
     bind (gets s_nCriticalLevel) (\<lambda>l.
     bind (UK_ASSERT (l > 0)) (\<lambda>_.
     modify (\<lambda>s. let s' = s\<lparr>s_nCriticalLevel := s_nCriticalLevel s - 1\<rparr> in
       if s_nCriticalLevel s' = 0 \<and> s_bWereEnabled s' then s'\<lparr>irq_on := True\<rparr> else s'))))"

section \<open>Cache maintenance\<close>

text \<open>
  \<open>uspi_CleanAndInvalidateDataCacheRange\<close> (AARCH64): one line operation per 64 bytes; the
  length is first increased by a line.  The list of the addresses operated on is computed by
  recursion on the remaining length, which falls by 64 in every turn.
\<close>

function clean_lines :: "u64 \<Rightarrow> u64 \<Rightarrow> u64 list" where
  "clean_lines nAddress nLength =
     (if nLength < 64 then [nAddress] else nAddress # clean_lines (nAddress + 64) (nLength - 64))"
  by pat_completeness auto
termination
proof (relation "measure (\<lambda>(a, n). unat n)")
  fix a n :: u64
  assume "\<not> n < 64"
  then have "n \<ge> 64" by simp
  then have "unat (n - 64) = unat n - 64" and "64 \<le> unat n"
    by (simp_all add: unat_sub word_le_nat_alt)
  then show "((a + 64, n - 64), (a, n)) \<in> measure (\<lambda>(a, n). unat n)" by simp
qed simp

declare clean_lines.simps [simp del]

definition uspi_CleanAndInvalidateDataCacheRange ::
  "u64 \<Rightarrow> u64 \<Rightarrow> ('b hw_scheme, unit) prog" where
  "uspi_CleanAndInvalidateDataCacheRange nAddress nLength =
     for_each (clean_lines nAddress (nLength + 64)) (\<lambda>a. emit (EvCleanLine a))"

section \<open>Interrupt lines\<close>

definition ARM_IC_IRQS_ENABLE :: "u32 \<Rightarrow> u32" where
  "ARM_IC_IRQS_ENABLE irq =
     (if irq < 32 then 0x3F00B210 else if irq < 64 then 0x3F00B214 else 0x3F00B218)"

definition ARM_IRQ_MASK :: "u32 \<Rightarrow> u32" where
  "ARM_IRQ_MASK irq = push_bit (unat (irq AND 31)) 1"

definition InterruptSystemEnableIRQ :: "u32 \<Rightarrow> ('b hw_scheme, unit) prog" where
  "InterruptSystemEnableIRQ nIRQ =
     block [DataMemBarrier, UK_ASSERT (nIRQ < 72),
       write32 (ARM_IC_IRQS_ENABLE nIRQ) (ARM_IRQ_MASK nIRQ), DataMemBarrier]"

section \<open>Rules of the services\<close>

lemma wp_LogWrite [wp_simps]:
  "wp (LogWrite sev msg) Q E s = (case log_level s of
      None \<Rightarrow> E Null_deref s
    | Some l \<Rightarrow> if sev > l then Q () s
        else if sev = LogPanic then E Crashed (s\<lparr>rev_trace := EvPrint msg # rev_trace s\<rparr>)
        else Q () (s\<lparr>rev_trace := EvPrint msg # rev_trace s\<rparr>))"
  by (simp add: LogWrite_def LoggerGet_def LoggerWriteV_def wp_simps split: option.split)

lemma keeps_LogWrite [keeps_intros]: "keeps (LogWrite sev msg)"
  by (rule keepsI, rule presI) (simp add: wp_simps split: option.split)

lemma keeps_nanosleep: "keeps (nanosleep_loop as ts)"
proof (induction as ts rule: nanosleep_loop.induct)
  case (3 rem as ts)
  then show ?case by (simp add: keeps_bind keeps_emit)
qed (simp_all add: keeps_def pres_def wp_def)

lemma keeps_MsDelay [keeps_intros]: "keeps (MsDelay n)"
  by (simp add: MsDelay_def keeps_bind keeps_gets keeps_nanosleep)

text \<open>Sleeps that do not fail: the delay returns, and only the clock and the trace move.\<close>

definition sleep_ok :: "'b hw_scheme \<Rightarrow> bool" where
  "sleep_ok s \<longleftrightarrow> Sleep_error \<notin> set (sleeps s)"

lemma sleep_ok_upd [simp]:
  "sleep_ok (s\<lparr>rev_trace := x\<rparr>) = sleep_ok s" "sleep_ok (s\<lparr>mmio_in := y\<rparr>) = sleep_ok s"
  "sleep_ok (s\<lparr>mem := z\<rparr>) = sleep_ok s" "sleep_ok (s\<lparr>irq_on := b\<rparr>) = sleep_ok s"
  "sleep_ok (s\<lparr>sleeps := as\<rparr>) \<longleftrightarrow> Sleep_error \<notin> set as"
  by (simp_all add: sleep_ok_def)

lemma wp_nanosleep:
  assumes "Sleep_error \<notin> set as"
    and "\<And>as tr. Sleep_error \<notin> set as \<Longrightarrow> Q () (s\<lparr>sleeps := as, rev_trace := tr\<rparr>)"
  shows "wp (nanosleep_loop as ts) Q E s"
  using assms
proof (induction as ts arbitrary: s rule: nanosleep_loop.induct)
  case (3 rem as ts)
  have "wp (nanosleep_loop as rem) Q E (s\<lparr>rev_trace := EvSleep ts # rev_trace s\<rparr>)"
    using "3.prems" by (intro "3.IH") simp_all
  then show ?case by (simp add: wp_simps)
qed (simp_all add: wp_simps)

lemma wp_MsDelay:
  assumes "sleep_ok s"
    and "\<And>as tr. Sleep_error \<notin> set as \<Longrightarrow> Q () (s\<lparr>sleeps := as, rev_trace := tr\<rparr>)"
  shows "wp (MsDelay n) Q E s"
  using assms by (simp add: MsDelay_def wp_simps sleep_ok_def wp_nanosleep)

lemma wp_usDelay:
  assumes "sleep_ok s"
    and "\<And>as tr. Sleep_error \<notin> set as \<Longrightarrow> Q () (s\<lparr>sleeps := as, rev_trace := tr\<rparr>)"
  shows "wp (usDelay n) Q E s"
  using assms by (simp add: usDelay_def wp_simps sleep_ok_def wp_nanosleep)

lemma wp_poll:
  assumes "sleep_ok s" and "\<And>t. sleep_ok t \<Longrightarrow> Q () t" and "\<And>t. E Starved t"
  shows "wp (hw_until (bind (read32 a) (\<lambda>st. return (if P st then None else Some ())))) Q E s"
  by (rule wp_hw_until [where I = sleep_ok])
    (use assms in \<open>auto simp: wp_simps split: list.split option.split\<close>)

lemma keeps_usDelay [keeps_intros]: "keeps (usDelay n)"
  by (simp add: usDelay_def keeps_bind keeps_gets keeps_nanosleep)

lemma keeps_clean [keeps_intros]: "keeps (uspi_CleanAndInvalidateDataCacheRange a n)"
  by (simp add: uspi_CleanAndInvalidateDataCacheRange_def keeps_for_each keeps_emit)

lemma keeps_EnableIRQ [keeps_intros]: "keeps (InterruptSystemEnableIRQ n)"
  unfolding InterruptSystemEnableIRQ_def by (intro keeps_intros)

lemma MsDelay_plain:
  "sleeps s = [] \<Longrightarrow> MsDelay n s =
     Done () (s\<lparr>sleeps := [], rev_trace := EvSleep (ms_timespec n) # rev_trace s\<rparr>)"
  by (simp add: MsDelay_def bind_def)

lemma wp_EnterCritical [wp_simps]:
  "wp uspi_EnterCritical Q E s =
     Q () (s\<lparr>irq_on := False, s_nCriticalLevel := s_nCriticalLevel s + 1,
            s_bWereEnabled := (if s_nCriticalLevel s = 0 then irq_on s else s_bWereEnabled s),
            rev_trace := EvBarrier # rev_trace s\<rparr>)"
  by (simp add: uspi_EnterCritical_def wp_simps)

lemma wp_LeaveCritical [wp_simps]:
  "wp uspi_LeaveCritical Q E s =
     (if s_nCriticalLevel s = 0 then E Assert_failed (s\<lparr>rev_trace := EvBarrier # rev_trace s\<rparr>)
      else if s_nCriticalLevel s = 1 \<and> s_bWereEnabled s
        then Q () (s\<lparr>rev_trace := EvBarrier # rev_trace s,
                     s_nCriticalLevel := s_nCriticalLevel s - 1, irq_on := True\<rparr>)
        else Q () (s\<lparr>rev_trace := EvBarrier # rev_trace s,
                     s_nCriticalLevel := s_nCriticalLevel s - 1\<rparr>))"
  by (auto simp: uspi_LeaveCritical_def wp_simps Let_def word_gt_0)

lemma wp_for_each_emit:
  "wp (for_each xs (\<lambda>x. emit (f x))) Q E s = Q () (s\<lparr>rev_trace := rev (map f xs) @ rev_trace s\<rparr>)"
  by (induction xs arbitrary: s) (simp_all add: wp_simps)

lemma wp_clean [wp_simps]:
  "wp (uspi_CleanAndInvalidateDataCacheRange a n) Q E s =
     Q () (s\<lparr>rev_trace := rev (map EvCleanLine (clean_lines a (n + 64))) @ rev_trace s\<rparr>)"
  by (simp add: uspi_CleanAndInvalidateDataCacheRange_def wp_for_each_emit)

end
