(* ===== verification/DwcRegister.thy ===== *)
theory DwcRegister
  imports Services
begin

text \<open>
  The register objects of \<^verbatim>\<open>eth/lib/dwhciregister.c\<close> (an address, a buffered value, and
  whether the value is valid) and the register map of \<^verbatim>\<open>include/uspi/dwhci.h\<close>.
  A C function works on a local object through a pointer; here the object is an argument and is
  returned, so that a sequence of calls is a \<open>chain\<close>.
\<close>

record TDWHCIRegister =
  m_bValid :: bool
  m_nAddress :: u64
  m_nBuffer :: u32

definition DWHCIRegister :: "u32 \<Rightarrow> TDWHCIRegister" where
  "DWHCIRegister nAddress = \<lparr>m_bValid = False, m_nAddress = ucast nAddress, m_nBuffer = 0\<rparr>"

definition DWHCIRegister2 :: "u32 \<Rightarrow> u32 \<Rightarrow> TDWHCIRegister" where
  "DWHCIRegister2 nAddress nValue =
     \<lparr>m_bValid = True, m_nAddress = ucast nAddress, m_nBuffer = nValue\<rparr>"

definition DWHCIRegister_destroy :: "TDWHCIRegister \<Rightarrow> TDWHCIRegister" where
  "DWHCIRegister_destroy r = r\<lparr>m_bValid := False\<rparr>"

definition DWHCIRegisterRead :: "TDWHCIRegister \<Rightarrow> ('b hw_scheme, TDWHCIRegister) prog" where
  "DWHCIRegisterRead r =
     bind (vread (m_nAddress r)) (\<lambda>v. return (r\<lparr>m_nBuffer := v, m_bValid := True\<rparr>))"

definition DWHCIRegisterWrite :: "TDWHCIRegister \<Rightarrow> ('b hw_scheme, TDWHCIRegister) prog" where
  "DWHCIRegisterWrite r =
     bind (UK_ASSERT (m_bValid r)) (\<lambda>_.
     bind (vwrite (m_nAddress r) (m_nBuffer r)) (\<lambda>_. return r))"

definition DWHCIRegisterGet :: "TDWHCIRegister \<Rightarrow> ('s, u32) prog" where
  "DWHCIRegisterGet r = bind (UK_ASSERT (m_bValid r)) (\<lambda>_. return (m_nBuffer r))"

definition DWHCIRegisterSet :: "u32 \<Rightarrow> TDWHCIRegister \<Rightarrow> ('s, TDWHCIRegister) prog" where
  "DWHCIRegisterSet nValue r = return (r\<lparr>m_nBuffer := nValue, m_bValid := True\<rparr>)"

definition DWHCIRegisterIsSet :: "u32 \<Rightarrow> TDWHCIRegister \<Rightarrow> ('s, bool) prog" where
  "DWHCIRegisterIsSet nMask r =
     bind (UK_ASSERT (m_bValid r)) (\<lambda>_. return (m_nBuffer r AND nMask \<noteq> 0))"

definition DWHCIRegisterAnd :: "u32 \<Rightarrow> TDWHCIRegister \<Rightarrow> ('s, TDWHCIRegister) prog" where
  "DWHCIRegisterAnd nMask r =
     bind (UK_ASSERT (m_bValid r)) (\<lambda>_. return (r\<lparr>m_nBuffer := m_nBuffer r AND nMask\<rparr>))"

definition DWHCIRegisterOr :: "u32 \<Rightarrow> TDWHCIRegister \<Rightarrow> ('s, TDWHCIRegister) prog" where
  "DWHCIRegisterOr nMask r =
     bind (UK_ASSERT (m_bValid r)) (\<lambda>_. return (r\<lparr>m_nBuffer := m_nBuffer r OR nMask\<rparr>))"

definition DWHCIRegisterClearBit :: "nat \<Rightarrow> TDWHCIRegister \<Rightarrow> ('s, TDWHCIRegister) prog" where
  "DWHCIRegisterClearBit nBit r =
     bind (UK_ASSERT (m_bValid r)) (\<lambda>_.
     bind (UK_ASSERT (nBit < 32)) (\<lambda>_.
     return (r\<lparr>m_nBuffer := m_nBuffer r AND NOT (push_bit nBit 1)\<rparr>)))"

definition DWHCIRegisterSetBit :: "nat \<Rightarrow> TDWHCIRegister \<Rightarrow> ('s, TDWHCIRegister) prog" where
  "DWHCIRegisterSetBit nBit r =
     bind (UK_ASSERT (m_bValid r)) (\<lambda>_.
     bind (UK_ASSERT (nBit < 32)) (\<lambda>_.
     return (r\<lparr>m_nBuffer := m_nBuffer r OR push_bit nBit 1\<rparr>)))"

definition DWHCIRegisterClearAll :: "TDWHCIRegister \<Rightarrow> ('s, TDWHCIRegister) prog" where
  "DWHCIRegisterClearAll r = return (r\<lparr>m_nBuffer := 0, m_bValid := True\<rparr>)"

definition DWHCIRegisterSetAll :: "TDWHCIRegister \<Rightarrow> ('s, TDWHCIRegister) prog" where
  "DWHCIRegisterSetAll r = return (r\<lparr>m_nBuffer := - 1, m_bValid := True\<rparr>)"

definition DWHCIRegisterDump :: "TDWHCIRegister \<Rightarrow> ('b hw_scheme, unit) prog" where
  "DWHCIRegisterDump r =
     (if m_bValid r then LogWrite LOG_DEBUG ''Register at 0x%X is 0x%X''
      else LogWrite LOG_DEBUG ''Register at 0x%X was not set'')"

section \<open>The register map\<close>

definition DWHCI_MAX_CHANNELS :: u32 where "DWHCI_MAX_CHANNELS = 16"

definition ARM_USB_CORE_BASE :: u32 where "ARM_USB_CORE_BASE = 0x3F980000"
definition ARM_USB_HOST_BASE :: u32 where "ARM_USB_HOST_BASE = 0x3F980400"
definition ARM_USB_POWER :: u32 where "ARM_USB_POWER = 0x3F980E00"

definition DWHCI_CORE_AHB_CFG :: u32 where "DWHCI_CORE_AHB_CFG = ARM_USB_CORE_BASE + 0x008"
definition DWHCI_CORE_USB_CFG :: u32 where "DWHCI_CORE_USB_CFG = ARM_USB_CORE_BASE + 0x00C"
definition DWHCI_CORE_RESET :: u32 where "DWHCI_CORE_RESET = ARM_USB_CORE_BASE + 0x010"
definition DWHCI_CORE_INT_STAT :: u32 where "DWHCI_CORE_INT_STAT = ARM_USB_CORE_BASE + 0x014"
definition DWHCI_CORE_INT_MASK :: u32 where "DWHCI_CORE_INT_MASK = ARM_USB_CORE_BASE + 0x018"
definition DWHCI_CORE_RX_FIFO_SIZ :: u32 where "DWHCI_CORE_RX_FIFO_SIZ = ARM_USB_CORE_BASE + 0x024"
definition DWHCI_CORE_NPER_TX_FIFO_SIZ :: u32 where
  "DWHCI_CORE_NPER_TX_FIFO_SIZ = ARM_USB_CORE_BASE + 0x028"
definition DWHCI_CORE_VENDOR_ID :: u32 where "DWHCI_CORE_VENDOR_ID = ARM_USB_CORE_BASE + 0x040"
definition DWHCI_CORE_HW_CFG2 :: u32 where "DWHCI_CORE_HW_CFG2 = ARM_USB_CORE_BASE + 0x048"
definition DWHCI_CORE_HOST_PER_TX_FIFO_SIZ :: u32 where
  "DWHCI_CORE_HOST_PER_TX_FIFO_SIZ = ARM_USB_CORE_BASE + 0x100"
definition DWHCI_HOST_CFG :: u32 where "DWHCI_HOST_CFG = ARM_USB_HOST_BASE + 0x000"
definition DWHCI_HOST_FRM_NUM :: u32 where "DWHCI_HOST_FRM_NUM = ARM_USB_HOST_BASE + 0x008"
definition DWHCI_HOST_ALLCHAN_INT :: u32 where "DWHCI_HOST_ALLCHAN_INT = ARM_USB_HOST_BASE + 0x014"
definition DWHCI_HOST_ALLCHAN_INT_MASK :: u32 where
  "DWHCI_HOST_ALLCHAN_INT_MASK = ARM_USB_HOST_BASE + 0x018"
definition DWHCI_HOST_PORT :: u32 where "DWHCI_HOST_PORT = ARM_USB_HOST_BASE + 0x040"

definition DWHCI_HOST_CHAN_CHARACTER :: "u32 \<Rightarrow> u32" where
  "DWHCI_HOST_CHAN_CHARACTER chan = ARM_USB_HOST_BASE + 0x100 + chan * 0x20"
definition DWHCI_HOST_CHAN_SPLIT_CTRL :: "u32 \<Rightarrow> u32" where
  "DWHCI_HOST_CHAN_SPLIT_CTRL chan = ARM_USB_HOST_BASE + 0x104 + chan * 0x20"
definition DWHCI_HOST_CHAN_INT :: "u32 \<Rightarrow> u32" where
  "DWHCI_HOST_CHAN_INT chan = ARM_USB_HOST_BASE + 0x108 + chan * 0x20"
definition DWHCI_HOST_CHAN_INT_MASK :: "u32 \<Rightarrow> u32" where
  "DWHCI_HOST_CHAN_INT_MASK chan = ARM_USB_HOST_BASE + 0x10C + chan * 0x20"
definition DWHCI_HOST_CHAN_XFER_SIZ :: "u32 \<Rightarrow> u32" where
  "DWHCI_HOST_CHAN_XFER_SIZ chan = ARM_USB_HOST_BASE + 0x110 + chan * 0x20"
definition DWHCI_HOST_CHAN_DMA_ADDR :: "u32 \<Rightarrow> u32" where
  "DWHCI_HOST_CHAN_DMA_ADDR chan = ARM_USB_HOST_BASE + 0x114 + chan * 0x20"

text \<open>Interrupt bits of a channel.\<close>

definition CHAN_INT_XFER_COMPLETE :: u32 where "CHAN_INT_XFER_COMPLETE = 0x001"
definition CHAN_INT_HALTED :: u32 where "CHAN_INT_HALTED = 0x002"
definition CHAN_INT_NAK :: u32 where "CHAN_INT_NAK = 0x010"
definition CHAN_INT_ACK :: u32 where "CHAN_INT_ACK = 0x020"
definition CHAN_INT_NYET :: u32 where "CHAN_INT_NYET = 0x040"
definition CHAN_INT_ERROR_MASK :: u32 where
  "CHAN_INT_ERROR_MASK = 0x004 OR 0x008 OR 0x080 OR 0x100 OR 0x200 OR 0x400"

lemmas chan_int_defs = CHAN_INT_XFER_COMPLETE_def CHAN_INT_HALTED_def CHAN_INT_NAK_def
  CHAN_INT_ACK_def CHAN_INT_NYET_def CHAN_INT_ERROR_MASK_def

definition DWHCI_MAX_FRAME_NUMBER :: u32 where "DWHCI_MAX_FRAME_NUMBER = 0x3FFF"
definition DWHCI_HOST_FRM_NUM_NUMBER :: "u32 \<Rightarrow> u32" where
  "DWHCI_HOST_FRM_NUM_NUMBER reg = reg AND 0xFFFF"

section \<open>Rules\<close>

named_theorems register_simps "effects of the register operations"

lemma register_new [register_simps]:
  "m_bValid (DWHCIRegister a) = False" "m_nAddress (DWHCIRegister a) = ucast a"
  "m_bValid (DWHCIRegister2 a v) = True" "m_nAddress (DWHCIRegister2 a v) = ucast a"
  "m_nBuffer (DWHCIRegister2 a v) = v"
  by (simp_all add: DWHCIRegister_def DWHCIRegister2_def)

lemma wp_RegisterRead [wp_simps]:
  "wp (DWHCIRegisterRead r) Q E s = wp (vread (m_nAddress r)) (\<lambda>v. Q (r\<lparr>m_nBuffer := v, m_bValid := True\<rparr>)) E s"
  by (simp add: DWHCIRegisterRead_def wp_bind wp_return [abs_def])

lemma wp_RegisterWrite [wp_simps]:
  "wp (DWHCIRegisterWrite r) Q E s =
     (if m_bValid r then wp (vwrite (m_nAddress r) (m_nBuffer r)) (\<lambda>_. Q r) E s else E Assert_failed s)"
  by (simp add: DWHCIRegisterWrite_def wp_simps)

lemma wp_RegisterGet [wp_simps]:
  "wp (DWHCIRegisterGet r) Q E s = (if m_bValid r then Q (m_nBuffer r) s else E Assert_failed s)"
  by (simp add: DWHCIRegisterGet_def wp_simps)

lemma wp_RegisterSet [wp_simps]:
  "wp (DWHCIRegisterSet v r) Q E s = Q (r\<lparr>m_nBuffer := v, m_bValid := True\<rparr>) s"
  "wp (DWHCIRegisterClearAll r) Q E s = Q (r\<lparr>m_nBuffer := 0, m_bValid := True\<rparr>) s"
  "wp (DWHCIRegisterSetAll r) Q E s = Q (r\<lparr>m_nBuffer := - 1, m_bValid := True\<rparr>) s"
  by (simp_all add: DWHCIRegisterSet_def DWHCIRegisterClearAll_def DWHCIRegisterSetAll_def wp_simps)

lemma wp_RegisterIsSet [wp_simps]:
  "wp (DWHCIRegisterIsSet m r) Q E s =
     (if m_bValid r then Q (m_nBuffer r AND m \<noteq> 0) s else E Assert_failed s)"
  by (simp add: DWHCIRegisterIsSet_def wp_simps)

lemma wp_RegisterAnd [wp_simps]:
  "wp (DWHCIRegisterAnd m r) Q E s =
     (if m_bValid r then Q (r\<lparr>m_nBuffer := m_nBuffer r AND m\<rparr>) s else E Assert_failed s)"
  by (simp add: DWHCIRegisterAnd_def wp_simps)

lemma wp_RegisterOr [wp_simps]:
  "wp (DWHCIRegisterOr m r) Q E s =
     (if m_bValid r then Q (r\<lparr>m_nBuffer := m_nBuffer r OR m\<rparr>) s else E Assert_failed s)"
  by (simp add: DWHCIRegisterOr_def wp_simps)

lemma keeps_Register [keeps_intros]:
  "keeps (DWHCIRegisterRead r)" "keeps (DWHCIRegisterWrite r)" "keeps (DWHCIRegisterGet r)"
  "keeps (DWHCIRegisterSet v r)" "keeps (DWHCIRegisterIsSet v r)" "keeps (DWHCIRegisterAnd v r)"
  "keeps (DWHCIRegisterOr v r)" "keeps (DWHCIRegisterClearAll r)" "keeps (DWHCIRegisterSetAll r)"
  "keeps (DWHCIRegisterDump r)"
  unfolding DWHCIRegisterRead_def DWHCIRegisterWrite_def DWHCIRegisterGet_def DWHCIRegisterSet_def
    DWHCIRegisterIsSet_def DWHCIRegisterAnd_def DWHCIRegisterOr_def DWHCIRegisterClearAll_def
    DWHCIRegisterSetAll_def DWHCIRegisterDump_def
  by (intro keeps_intros)+

end
