(* ===== verification/FrameSched.thy ===== *)
theory FrameSched
  imports DwcRegister
begin

text \<open>
  The frame schedulers of the split transactions: \<^verbatim>\<open>eth/lib/dwhciframeschedper.c\<close>,
  \<^verbatim>\<open>dwhciframeschednper.c\<close> and \<^verbatim>\<open>dwhciframeschednsplit.c\<close>.  The table of
  function pointers of the C base class is the constructor of a datatype; the calls through it
  are the dispatching functions at the end.
\<close>

section \<open>Schedulers\<close>

datatype TFrameSchedulerState =
  StateStartSplit | StateStartSplitComplete | StateCompleteSplit | StateCompleteRetry |
  StateCompleteSplitComplete | StateCompleteSplitFailed | StateUnknown

record TPeriodic =
  m_nState :: TFrameSchedulerState
  m_nTries :: u32
  m_nNextFrame :: u32

record TNonPeriodic =
  n_nState :: TFrameSchedulerState
  n_nTries :: u32

record TNoSplit =
  m_bIsPeriodic :: bool
  s_nNextFrame :: u32

datatype TDWHCIFrameScheduler = Periodic TPeriodic | NonPeriodic TNonPeriodic | NoSplit TNoSplit

definition uFRAME :: u32 where "uFRAME = 125"
definition FRAME_UNSET :: u32 where "FRAME_UNSET = 8"

section \<open>Periodic split transactions\<close>

text \<open>The number of tries is not set by the constructor; \<open>tries\<close> is what the memory holds.\<close>

definition DWHCIFrameSchedulerPeriodic :: "u32 \<Rightarrow> TPeriodic" where
  "DWHCIFrameSchedulerPeriodic tries =
     \<lparr>m_nState = StateUnknown, m_nTries = tries, m_nNextFrame = FRAME_UNSET\<rparr>"

definition DWHCIFrameSchedulerPeriodicStartSplit :: "TPeriodic \<Rightarrow> TPeriodic" where
  "DWHCIFrameSchedulerPeriodicStartSplit p =
     p\<lparr>m_nState := StateStartSplit, m_nNextFrame := FRAME_UNSET\<rparr>"

definition DWHCIFrameSchedulerPeriodicCompleteSplit :: "TPeriodic \<Rightarrow> ('s, bool \<times> TPeriodic) prog" where
  "DWHCIFrameSchedulerPeriodicCompleteSplit p = (case m_nState p of
       StateStartSplitComplete \<Rightarrow> return (True,
         p\<lparr>m_nState := StateCompleteSplit, m_nTries := (if m_nNextFrame p \<noteq> 5 then 3 else 2),
           m_nNextFrame := (m_nNextFrame p + 2) AND 7\<rparr>)
     | StateCompleteRetry \<Rightarrow> return (True, p\<lparr>m_nNextFrame := (m_nNextFrame p + 1) AND 7\<rparr>)
     | StateCompleteSplitComplete \<Rightarrow> return (False, p)
     | StateCompleteSplitFailed \<Rightarrow> return (False, p)
     | _ \<Rightarrow> halt Assert_failed)"

definition periodic_complete :: "u32 \<Rightarrow> TPeriodic \<Rightarrow> ('b hw_scheme, TPeriodic) prog" where
  "periodic_complete nStatus p =
     (if nStatus AND CHAN_INT_XFER_COMPLETE \<noteq> 0
      then return (p\<lparr>m_nState := StateCompleteSplitComplete\<rparr>)
      else if nStatus AND (CHAN_INT_NYET OR CHAN_INT_ACK) \<noteq> 0 then
        let p' = p\<lparr>m_nTries := m_nTries p - 1\<rparr> in
        if m_nTries p = 0
        then bind (usDelay (8 * uFRAME)) (\<lambda>_. return (p'\<lparr>m_nState := StateCompleteSplitFailed\<rparr>))
        else return (p'\<lparr>m_nState := StateCompleteRetry\<rparr>)
      else if nStatus AND CHAN_INT_NAK \<noteq> 0
      then bind (usDelay (5 * uFRAME)) (\<lambda>_. return (p\<lparr>m_nState := StateCompleteSplitFailed\<rparr>))
      else bind (LogWrite LOG_ERROR ''Invalid status 0x%X'') (\<lambda>_. halt Assert_failed))"

definition DWHCIFrameSchedulerPeriodicTransactionComplete ::
  "u32 \<Rightarrow> TPeriodic \<Rightarrow> ('b hw_scheme, TPeriodic) prog" where
  "DWHCIFrameSchedulerPeriodicTransactionComplete nStatus p = (case m_nState p of
       StateStartSplit \<Rightarrow>
         bind (UK_ASSERT (nStatus AND CHAN_INT_ACK \<noteq> 0)) (\<lambda>_.
         return (p\<lparr>m_nState := StateStartSplitComplete\<rparr>))
     | StateCompleteSplit \<Rightarrow> periodic_complete nStatus p
     | StateCompleteRetry \<Rightarrow> periodic_complete nStatus p
     | _ \<Rightarrow> halt Assert_failed)"

definition wait_for_frame :: "u32 \<Rightarrow> u32 \<Rightarrow> ('b hw_scheme, unit) prog" where
  "wait_for_frame nMask frame = hw_until
     (bind (DWHCIRegisterRead (DWHCIRegister DWHCI_HOST_FRM_NUM)) (\<lambda>FrameNumber.
      return (if DWHCI_HOST_FRM_NUM_NUMBER (m_nBuffer FrameNumber) AND nMask \<noteq> frame
              then None else Some ())))"

definition DWHCIFrameSchedulerPeriodicWaitForFrame :: "TPeriodic \<Rightarrow> ('b hw_scheme, TPeriodic) prog" where
  "DWHCIFrameSchedulerPeriodicWaitForFrame p =
     bind (if m_nNextFrame p = FRAME_UNSET then
             bind (DWHCIRegisterRead (DWHCIRegister DWHCI_HOST_FRM_NUM)) (\<lambda>FrameNumber.
             let n = (DWHCI_HOST_FRM_NUM_NUMBER (m_nBuffer FrameNumber) + 1) AND 7 in
             return (p\<lparr>m_nNextFrame := (if n = 6 then n + 1 else n)\<rparr>))
           else return p) (\<lambda>p'.
     bind (wait_for_frame 7 (m_nNextFrame p')) (\<lambda>_. return p'))"

definition DWHCIFrameSchedulerPeriodicIsOddFrame :: "TPeriodic \<Rightarrow> bool" where
  "DWHCIFrameSchedulerPeriodicIsOddFrame p \<longleftrightarrow> m_nNextFrame p AND 1 \<noteq> 0"

section \<open>Non-periodic split transactions\<close>

definition DWHCIFrameSchedulerNonPeriodic :: "u32 \<Rightarrow> TNonPeriodic" where
  "DWHCIFrameSchedulerNonPeriodic tries = \<lparr>n_nState = StateUnknown, n_nTries = tries\<rparr>"

definition DWHCIFrameSchedulerNonPeriodicStartSplit :: "TNonPeriodic \<Rightarrow> TNonPeriodic" where
  "DWHCIFrameSchedulerNonPeriodicStartSplit p = p\<lparr>n_nState := StateStartSplit\<rparr>"

definition DWHCIFrameSchedulerNonPeriodicCompleteSplit ::
  "TNonPeriodic \<Rightarrow> ('b hw_scheme, bool \<times> TNonPeriodic) prog" where
  "DWHCIFrameSchedulerNonPeriodicCompleteSplit p = (case n_nState p of
       StateStartSplitComplete \<Rightarrow> return (True, p\<lparr>n_nState := StateCompleteSplit, n_nTries := 3\<rparr>)
     | StateCompleteSplit \<Rightarrow> bind (usDelay (5 * uFRAME)) (\<lambda>_. return (True, p))
     | StateCompleteRetry \<Rightarrow> bind (usDelay (5 * uFRAME)) (\<lambda>_. return (True, p))
     | StateCompleteSplitComplete \<Rightarrow> return (False, p)
     | StateCompleteSplitFailed \<Rightarrow> return (False, p)
     | _ \<Rightarrow> halt Assert_failed)"

definition nonperiodic_complete :: "u32 \<Rightarrow> TNonPeriodic \<Rightarrow> ('b hw_scheme, TNonPeriodic) prog" where
  "nonperiodic_complete nStatus p =
     (let p' = p\<lparr>n_nTries := n_nTries p - 1\<rparr> in
      if nStatus AND CHAN_INT_XFER_COMPLETE \<noteq> 0
      then return (p\<lparr>n_nState := StateCompleteSplitComplete\<rparr>)
      else if nStatus AND (CHAN_INT_NYET OR CHAN_INT_ACK) \<noteq> 0 then
        return (if n_nTries p = 0 then p'\<lparr>n_nState := StateCompleteSplitFailed\<rparr>
                else p'\<lparr>n_nState := StateCompleteRetry\<rparr>)
      else if nStatus AND CHAN_INT_NAK \<noteq> 0 then
        if n_nTries p = 0
        then bind (usDelay (5 * uFRAME)) (\<lambda>_. return (p'\<lparr>n_nState := StateCompleteSplitFailed\<rparr>))
        else return (p'\<lparr>n_nState := StateCompleteRetry\<rparr>)
      else bind (LogWrite LOG_ERROR ''Invalid status 0x%X'') (\<lambda>_. halt Assert_failed))"

definition DWHCIFrameSchedulerNonPeriodicTransactionComplete ::
  "u32 \<Rightarrow> TNonPeriodic \<Rightarrow> ('b hw_scheme, TNonPeriodic) prog" where
  "DWHCIFrameSchedulerNonPeriodicTransactionComplete nStatus p = (case n_nState p of
       StateStartSplit \<Rightarrow>
         bind (UK_ASSERT (nStatus AND CHAN_INT_ACK \<noteq> 0)) (\<lambda>_.
         return (p\<lparr>n_nState := StateStartSplitComplete\<rparr>))
     | StateCompleteSplit \<Rightarrow> nonperiodic_complete nStatus p
     | StateCompleteRetry \<Rightarrow> nonperiodic_complete nStatus p
     | _ \<Rightarrow> halt Assert_failed)"

section \<open>No split transactions\<close>

definition DWHCIFrameSchedulerNoSplit :: "bool \<Rightarrow> TNoSplit" where
  "DWHCIFrameSchedulerNoSplit bIsPeriodic =
     \<lparr>m_bIsPeriodic = bIsPeriodic, s_nNextFrame = DWHCI_MAX_FRAME_NUMBER + 1\<rparr>"

definition DWHCIFrameSchedulerNoSplitWaitForFrame :: "TNoSplit \<Rightarrow> ('b hw_scheme, TNoSplit) prog" where
  "DWHCIFrameSchedulerNoSplitWaitForFrame p =
     bind (DWHCIRegisterRead (DWHCIRegister DWHCI_HOST_FRM_NUM)) (\<lambda>FrameNumber.
     let p' = p\<lparr>s_nNextFrame :=
       (DWHCI_HOST_FRM_NUM_NUMBER (m_nBuffer FrameNumber) + 1) AND DWHCI_MAX_FRAME_NUMBER\<rparr> in
     bind (cond (\<not> m_bIsPeriodic p') (wait_for_frame DWHCI_MAX_FRAME_NUMBER (s_nNextFrame p')))
       (\<lambda>_. return p'))"

definition DWHCIFrameSchedulerNoSplitIsOddFrame :: "TNoSplit \<Rightarrow> bool" where
  "DWHCIFrameSchedulerNoSplitIsOddFrame p \<longleftrightarrow> s_nNextFrame p AND 1 \<noteq> 0"

section \<open>Calls through the base class\<close>

definition FS_destroy :: "TDWHCIFrameScheduler \<Rightarrow> TDWHCIFrameScheduler" where
  "FS_destroy fs = (case fs of
       Periodic p \<Rightarrow> Periodic (p\<lparr>m_nState := StateUnknown\<rparr>)
     | NonPeriodic p \<Rightarrow> NonPeriodic (p\<lparr>n_nState := StateUnknown\<rparr>)
     | NoSplit p \<Rightarrow> NoSplit p)"

definition FS_StartSplit :: "TDWHCIFrameScheduler \<Rightarrow> ('s, TDWHCIFrameScheduler) prog" where
  "FS_StartSplit fs = (case fs of
       Periodic p \<Rightarrow> return (Periodic (DWHCIFrameSchedulerPeriodicStartSplit p))
     | NonPeriodic p \<Rightarrow> return (NonPeriodic (DWHCIFrameSchedulerNonPeriodicStartSplit p))
     | NoSplit p \<Rightarrow> halt Assert_failed)"

definition FS_CompleteSplit ::
  "TDWHCIFrameScheduler \<Rightarrow> ('b hw_scheme, bool \<times> TDWHCIFrameScheduler) prog" where
  "FS_CompleteSplit fs = (case fs of
       Periodic p \<Rightarrow> bind (DWHCIFrameSchedulerPeriodicCompleteSplit p) (\<lambda>(b, p'). return (b, Periodic p'))
     | NonPeriodic p \<Rightarrow>
         bind (DWHCIFrameSchedulerNonPeriodicCompleteSplit p) (\<lambda>(b, p'). return (b, NonPeriodic p'))
     | NoSplit p \<Rightarrow> halt Assert_failed)"

definition FS_TransactionComplete ::
  "u32 \<Rightarrow> TDWHCIFrameScheduler \<Rightarrow> ('b hw_scheme, TDWHCIFrameScheduler) prog" where
  "FS_TransactionComplete nStatus fs = (case fs of
       Periodic p \<Rightarrow>
         bind (DWHCIFrameSchedulerPeriodicTransactionComplete nStatus p) (\<lambda>p'. return (Periodic p'))
     | NonPeriodic p \<Rightarrow>
         bind (DWHCIFrameSchedulerNonPeriodicTransactionComplete nStatus p) (\<lambda>p'. return (NonPeriodic p'))
     | NoSplit p \<Rightarrow> halt Assert_failed)"

definition FS_WaitForFrame :: "TDWHCIFrameScheduler \<Rightarrow> ('b hw_scheme, TDWHCIFrameScheduler) prog" where
  "FS_WaitForFrame fs = (case fs of
       Periodic p \<Rightarrow> bind (DWHCIFrameSchedulerPeriodicWaitForFrame p) (\<lambda>p'. return (Periodic p'))
     | NonPeriodic p \<Rightarrow> return (NonPeriodic p)
     | NoSplit p \<Rightarrow> bind (DWHCIFrameSchedulerNoSplitWaitForFrame p) (\<lambda>p'. return (NoSplit p')))"

definition FS_IsOddFrame :: "TDWHCIFrameScheduler \<Rightarrow> bool" where
  "FS_IsOddFrame fs = (case fs of
       Periodic p \<Rightarrow> DWHCIFrameSchedulerPeriodicIsOddFrame p
     | NonPeriodic p \<Rightarrow> False
     | NoSplit p \<Rightarrow> DWHCIFrameSchedulerNoSplitIsOddFrame p)"

section \<open>The retries of a complete-split are bounded\<close>

text \<open>
  The cycle the channel interrupt handler runs after a start-split was acknowledged: as long as the
  scheduler asks for a complete-split, a transaction is made and its status reported.  The list
  holds the statuses the hardware gives; the number counts the transactions.
\<close>

fun complete_cycle ::
  "u32 list \<Rightarrow> nat \<Rightarrow> TDWHCIFrameScheduler \<Rightarrow> ('b hw_scheme, nat \<times> TDWHCIFrameScheduler) prog" where
  "complete_cycle [] n fs =
     bind (FS_CompleteSplit fs) (\<lambda>(go, fs'). if go then halt Starved else return (n, fs'))"
| "complete_cycle (st # sts) n fs =
     bind (FS_CompleteSplit fs) (\<lambda>(go, fs').
       if go then bind (FS_TransactionComplete st fs') (\<lambda>fs''. complete_cycle sts (Suc n) fs'')
       else return (n, fs'))"

definition fs_state :: "TDWHCIFrameScheduler \<Rightarrow> TFrameSchedulerState" where
  "fs_state fs = (case fs of Periodic p \<Rightarrow> m_nState p | NonPeriodic p \<Rightarrow> n_nState p | NoSplit p \<Rightarrow> StateUnknown)"

definition fs_tries :: "TDWHCIFrameScheduler \<Rightarrow> nat" where
  "fs_tries fs = (case fs of Periodic p \<Rightarrow> unat (m_nTries p) | NonPeriodic p \<Rightarrow> unat (n_nTries p) | NoSplit p \<Rightarrow> 0)"

definition fs_done :: "TDWHCIFrameScheduler \<Rightarrow> bool" where
  "fs_done fs \<longleftrightarrow> fs_state fs \<in> {StateCompleteSplitComplete, StateCompleteSplitFailed}"

definition status_ok :: "u32 \<Rightarrow> bool" where
  "status_ok st \<longleftrightarrow> st AND (CHAN_INT_XFER_COMPLETE OR CHAN_INT_NYET OR CHAN_INT_ACK OR CHAN_INT_NAK) \<noteq> 0"

lemma unat_minus_one32: "w \<noteq> 0 \<Longrightarrow> unat (w - 1 :: u32) = unat w - 1"
  by (simp add: unat_minus_one)

lemma wp_CompleteSplit_done:
  "fs_done fs \<Longrightarrow> wp (FS_CompleteSplit fs) Q E s = Q (False, fs) s"
  by (cases fs) (auto simp: FS_CompleteSplit_def fs_done_def fs_state_def wp_simps
      DWHCIFrameSchedulerPeriodicCompleteSplit_def DWHCIFrameSchedulerNonPeriodicCompleteSplit_def)

lemma wp_CompleteSplit_start:
  assumes "fs_state fs = StateStartSplitComplete"
    and "\<And>fs'. fs_state fs' = StateCompleteSplit \<Longrightarrow> fs_tries fs' \<le> 3 \<Longrightarrow> Q (True, fs') s"
  shows "wp (FS_CompleteSplit fs) Q E s"
  using assms
  by (cases fs) (simp_all add: FS_CompleteSplit_def fs_state_def fs_tries_def wp_simps
      DWHCIFrameSchedulerPeriodicCompleteSplit_def DWHCIFrameSchedulerNonPeriodicCompleteSplit_def)

lemma wp_CompleteSplit_retry:
  assumes "fs_state fs = StateCompleteRetry" and "sleep_ok s"
    and "\<And>fs' t. fs_state fs' = StateCompleteRetry \<Longrightarrow> fs_tries fs' = fs_tries fs \<Longrightarrow> sleep_ok t \<Longrightarrow> Q (True, fs') t"
  shows "wp (FS_CompleteSplit fs) Q E s"
  using assms
  by (cases fs) (auto simp: FS_CompleteSplit_def fs_state_def fs_tries_def wp_simps
      DWHCIFrameSchedulerPeriodicCompleteSplit_def DWHCIFrameSchedulerNonPeriodicCompleteSplit_def
      intro!: wp_usDelay)

lemma wp_TransactionComplete:
  assumes "fs_state fs \<in> {StateCompleteSplit, StateCompleteRetry}" and "sleep_ok s" and "status_ok st"
    and d: "\<And>fs' t. sleep_ok t \<Longrightarrow> fs_done fs' \<Longrightarrow> Q fs' t"
    and r: "\<And>fs' t. sleep_ok t \<Longrightarrow> fs_state fs' = StateCompleteRetry \<Longrightarrow> Suc (fs_tries fs') = fs_tries fs \<Longrightarrow> Q fs' t"
  shows "wp (FS_TransactionComplete st fs) Q E s"
proof -
  have tr: "w \<noteq> 0 \<Longrightarrow> Suc (unat (w - 1)) = unat w" for w :: u32
    using unat_minus_one32 [of w] unat_gt_0 [of w] by simp
  have ok: "st AND CHAN_INT_XFER_COMPLETE \<noteq> 0 \<or> st AND (CHAN_INT_NYET OR CHAN_INT_ACK) \<noteq> 0 \<or> st AND CHAN_INT_NAK \<noteq> 0"
    using assms(3) by (auto simp: status_ok_def bit.conj_disj_distrib)
  show ?thesis
  proof (cases fs)
    case (Periodic p)
    have D: "sleep_ok t \<Longrightarrow> m_nState q \<in> {StateCompleteSplitComplete, StateCompleteSplitFailed} \<Longrightarrow>
        Q (Periodic q) t" for q t
      by (rule d) (simp_all add: fs_done_def fs_state_def)
    have R: "m_nTries p \<noteq> 0 \<Longrightarrow> Q (Periodic (p\<lparr>m_nTries := m_nTries p - 1, m_nState := StateCompleteRetry\<rparr>)) s"
      using assms(2) by (intro r) (simp_all add: fs_state_def fs_tries_def Periodic tr)
    have "wp (periodic_complete st p) (\<lambda>q. Q (Periodic q)) E s"
      using ok assms(2) R by (auto simp: periodic_complete_def wp_simps intro!: wp_usDelay D)
    then show ?thesis
      using assms(1) Periodic
      by (auto simp: FS_TransactionComplete_def DWHCIFrameSchedulerPeriodicTransactionComplete_def
          fs_state_def wp_bind wp_return [abs_def])
  next
    case (NonPeriodic p)
    have D: "sleep_ok t \<Longrightarrow> n_nState q \<in> {StateCompleteSplitComplete, StateCompleteSplitFailed} \<Longrightarrow>
        Q (NonPeriodic q) t" for q t
      by (rule d) (simp_all add: fs_done_def fs_state_def)
    have R: "n_nTries p \<noteq> 0 \<Longrightarrow> Q (NonPeriodic (p\<lparr>n_nTries := n_nTries p - 1, n_nState := StateCompleteRetry\<rparr>)) s"
      using assms(2) by (intro r) (simp_all add: fs_state_def fs_tries_def NonPeriodic tr)
    have "wp (nonperiodic_complete st p) (\<lambda>q. Q (NonPeriodic q)) E s"
      using ok assms(2) R by (auto simp: nonperiodic_complete_def wp_simps Let_def intro!: wp_usDelay D)
    then show ?thesis
      using assms(1) NonPeriodic
      by (auto simp: FS_TransactionComplete_def DWHCIFrameSchedulerNonPeriodicTransactionComplete_def
          fs_state_def wp_bind wp_return [abs_def])
  qed (use assms(1) in \<open>simp add: fs_state_def\<close>)
qed

lemma complete_cycle_done:
  assumes "fs_done fs" and "Q (n, fs) s"
  shows "wp (complete_cycle sts n fs) Q E s"
  using assms by (cases sts) (simp_all add: wp_simps wp_CompleteSplit_done)

lemma complete_cycle_retry:
  "fs_state fs = StateCompleteRetry \<Longrightarrow> sleep_ok (s :: 'b hw_scheme) \<Longrightarrow> \<forall>st \<in> set sts. status_ok st \<Longrightarrow>
   wp (complete_cycle sts n fs) (\<lambda>(k, fs') t. k \<le> n + fs_tries fs + 1 \<and> fs_done fs')
     (\<lambda>h t. h = Starved \<and> length sts < fs_tries fs + 1) s"
proof (induction sts arbitrary: n fs s)
  case Nil
  then show ?case
    by (auto simp: wp_bind intro!: wp_CompleteSplit_retry) (simp add: wp_simps)
next
  case (Cons st sts)
  have "wp (FS_TransactionComplete st fs')
      (\<lambda>fs''. wp (complete_cycle sts (Suc n) fs'') (\<lambda>(k, fs') t. k \<le> n + fs_tries fs + 1 \<and> fs_done fs')
        (\<lambda>h t. h = Starved \<and> length (st # sts) < fs_tries fs + 1))
      (\<lambda>h t. h = Starved \<and> length (st # sts) < fs_tries fs + 1) t"
    if "fs_state fs' = StateCompleteRetry" "fs_tries fs' = fs_tries fs" "sleep_ok t" for fs' and t :: "'b hw_scheme"
  proof (rule wp_TransactionComplete)
    fix fs'' and u :: "'b hw_scheme"
    assume u: "sleep_ok u" "fs_state fs'' = StateCompleteRetry" "Suc (fs_tries fs'') = fs_tries fs'"
    have "wp (complete_cycle sts (Suc n) fs'') (\<lambda>(k, fs') t. k \<le> Suc n + fs_tries fs'' + 1 \<and> fs_done fs')
       (\<lambda>h t. h = Starved \<and> length sts < fs_tries fs'' + 1) u"
      using Cons.prems(3) by (intro Cons.IH u) simp
    then show "wp (complete_cycle sts (Suc n) fs'') (\<lambda>(k, fs') t. k \<le> n + fs_tries fs + 1 \<and> fs_done fs')
        (\<lambda>h t. h = Starved \<and> length (st # sts) < fs_tries fs + 1) u"
      by (rule wp_mono) (use u that in auto)
  qed (use that Cons.prems in \<open>auto intro!: complete_cycle_done\<close>)
  then show ?case
    using Cons.prems by (auto simp: wp_bind wp_case_prod intro!: wp_CompleteSplit_retry)
qed

text \<open>
  C17. A split transaction is given up after a bounded number of retries: after an acknowledged
  start-split, whatever the hardware answers (complete, NYET, ACK or NAK), at most four
  complete-split transactions are made before the scheduler reports the split as completed or
  failed; it never fails an assertion.  (The only other outcome is that the hardware has not
  answered four times.)
\<close>

theorem split_retries_bounded:
  assumes "fs_state fs = StateStartSplitComplete" and "sleep_ok (s :: 'b hw_scheme)" and "\<forall>st \<in> set sts. status_ok st"
  shows "wp (complete_cycle sts 0 fs) (\<lambda>(n, fs') t. n \<le> 4 \<and> fs_done fs')
     (\<lambda>h t. h = Starved \<and> length sts < 4) s"
proof (cases sts)
  case Nil
  then show ?thesis
    using assms by (auto simp: wp_bind wp_simps intro!: wp_CompleteSplit_start)
next
  case (Cons st rest)
  have "wp (FS_TransactionComplete st fs')
      (\<lambda>fs''. wp (complete_cycle rest 1 fs'') (\<lambda>(n, fs') t. n \<le> 4 \<and> fs_done fs')
        (\<lambda>h t. h = Starved \<and> length sts < 4)) (\<lambda>h t. h = Starved \<and> length sts < 4) s"
    if "fs_state fs' = StateCompleteSplit" "fs_tries fs' \<le> 3" for fs'
  proof (rule wp_TransactionComplete)
    fix fs'' and u :: "'b hw_scheme"
    assume u: "sleep_ok u" "fs_state fs'' = StateCompleteRetry" "Suc (fs_tries fs'') = fs_tries fs'"
    have "wp (complete_cycle rest 1 fs'') (\<lambda>(k, fs') t. k \<le> 1 + fs_tries fs'' + 1 \<and> fs_done fs')
       (\<lambda>h t. h = Starved \<and> length rest < fs_tries fs'' + 1) u"
      using assms u by (intro complete_cycle_retry) (auto simp: Cons)
    then show "wp (complete_cycle rest 1 fs'') (\<lambda>(n, fs') t. n \<le> 4 \<and> fs_done fs')
        (\<lambda>h t. h = Starved \<and> length sts < 4) u"
      by (rule wp_mono) (use u that Cons in auto)
  qed (use that assms Cons in \<open>auto intro!: complete_cycle_done\<close>)
  then show ?thesis
    using assms Cons by (auto simp: wp_bind wp_case_prod intro!: wp_CompleteSplit_start)
qed

theorem split_retries_bounded_witness:
  "\<exists>s :: hw. wp (complete_cycle [CHAN_INT_NYET, CHAN_INT_NYET, CHAN_INT_NAK, CHAN_INT_NYET, CHAN_INT_NYET] 0
       (NonPeriodic \<lparr>n_nState = StateStartSplitComplete, n_nTries = 0\<rparr>))
     (\<lambda>(n, fs') t. n \<le> 4 \<and> fs_done fs') (\<lambda>h t. h = Starved \<and> (5 :: nat) < 4) s"
proof -
  let ?s = "\<lparr>mmio_in = [], sleeps = [Slept, Slept], rev_trace = [], mem = \<lambda>_. 0, irq_on = True,
     s_nCriticalLevel = 0, s_bWereEnabled = False, log_level = Some LOG_DEBUG\<rparr>"
  show ?thesis
    by (rule exI [of _ ?s])
      (use split_retries_bounded [of "NonPeriodic \<lparr>n_nState = StateStartSplitComplete, n_nTries = 0\<rparr>" ?s
        "[CHAN_INT_NYET, CHAN_INT_NYET, CHAN_INT_NAK, CHAN_INT_NYET, CHAN_INT_NYET]"]
       in \<open>simp add: fs_state_def sleep_ok_def status_ok_def chan_int_defs\<close>)
qed

section \<open>The schedulers change the machine only\<close>

lemma keeps_case_state:
  "keeps a \<Longrightarrow> keeps b \<Longrightarrow> keeps c \<Longrightarrow> keeps d \<Longrightarrow> keeps e \<Longrightarrow> keeps f \<Longrightarrow> keeps g \<Longrightarrow>
   keeps (case st of StateStartSplit \<Rightarrow> a | StateStartSplitComplete \<Rightarrow> b | StateCompleteSplit \<Rightarrow> c
     | StateCompleteRetry \<Rightarrow> d | StateCompleteSplitComplete \<Rightarrow> e | StateCompleteSplitFailed \<Rightarrow> f | StateUnknown \<Rightarrow> g)"
  by (cases st) simp_all

lemma keeps_case_fs:
  "(\<And>p. keeps (a p)) \<Longrightarrow> (\<And>p. keeps (b p)) \<Longrightarrow> (\<And>p. keeps (c p)) \<Longrightarrow>
   keeps (case fs of Periodic p \<Rightarrow> a p | NonPeriodic p \<Rightarrow> b p | NoSplit p \<Rightarrow> c p)"
  by (cases fs) simp_all

lemma keeps_FS [keeps_intros]:
  "keeps (FS_StartSplit fs)" "keeps (FS_CompleteSplit fs)" "keeps (FS_TransactionComplete st fs)"
  "keeps (FS_WaitForFrame fs)"
  unfolding FS_StartSplit_def FS_CompleteSplit_def FS_TransactionComplete_def FS_WaitForFrame_def
    DWHCIFrameSchedulerPeriodicCompleteSplit_def DWHCIFrameSchedulerNonPeriodicCompleteSplit_def
    DWHCIFrameSchedulerPeriodicTransactionComplete_def DWHCIFrameSchedulerNonPeriodicTransactionComplete_def
    periodic_complete_def nonperiodic_complete_def DWHCIFrameSchedulerPeriodicWaitForFrame_def
    DWHCIFrameSchedulerNoSplitWaitForFrame_def wait_for_frame_def
  by (intro keeps_intros keeps_case_state keeps_case_fs)+

end
