(* ===== verification/ConfigParser.thy ===== *)
theory ConfigParser
  imports Services
begin

text \<open>
  The parser of USB configuration descriptors (\<^verbatim>\<open>eth/lib/usbconfigparser.c\<close>, the
  descriptor layouts of \<^verbatim>\<open>include/uspi/usb.h\<close>).  Pointers into the descriptor
  buffer are offsets; every byte the code reads is checked against the end of the buffer.
  The abstraction of a valid parser is the list of the offsets of the descriptors still ahead.
\<close>

section \<open>Descriptors\<close>

definition DESCRIPTOR_DEVICE :: u8 where "DESCRIPTOR_DEVICE = 1"
definition DESCRIPTOR_CONFIGURATION :: u8 where "DESCRIPTOR_CONFIGURATION = 2"
definition DESCRIPTOR_STRING :: u8 where "DESCRIPTOR_STRING = 3"
definition DESCRIPTOR_INTERFACE :: u8 where "DESCRIPTOR_INTERFACE = 4"
definition DESCRIPTOR_ENDPOINT :: u8 where "DESCRIPTOR_ENDPOINT = 5"

lemmas descriptor_defs = DESCRIPTOR_DEVICE_def DESCRIPTOR_CONFIGURATION_def
  DESCRIPTOR_STRING_def DESCRIPTOR_INTERFACE_def DESCRIPTOR_ENDPOINT_def

definition sizeof_TUSBConfigurationDescriptor :: nat where "sizeof_TUSBConfigurationDescriptor = 9"
definition sizeof_TUSBInterfaceDescriptor :: nat where "sizeof_TUSBInterfaceDescriptor = 9"
definition sizeof_TUSBEndpointDescriptor :: nat where "sizeof_TUSBEndpointDescriptor = 7"
definition sizeof_TUSBAudioEndpointDescriptor :: nat where "sizeof_TUSBAudioEndpointDescriptor = 9"

lemmas sizeof_defs = sizeof_TUSBConfigurationDescriptor_def sizeof_TUSBInterfaceDescriptor_def
  sizeof_TUSBEndpointDescriptor_def sizeof_TUSBAudioEndpointDescriptor_def

text \<open>The fields of the packed structures, by their offsets.\<close>

definition bLength :: "u8 list \<Rightarrow> nat \<Rightarrow> nat" where "bLength b p = unat (b ! p)"
definition bDescriptorType :: "u8 list \<Rightarrow> nat \<Rightarrow> u8" where "bDescriptorType b p = b ! (p + 1)"
definition wTotalLength :: "u8 list \<Rightarrow> nat \<Rightarrow> u16" where
  "wTotalLength b p = le16 (b ! (p + 2)) (b ! (p + 3))"
definition bInterfaceClass :: "u8 list \<Rightarrow> nat \<Rightarrow> u8" where "bInterfaceClass b p = b ! (p + 5)"

section \<open>The parser object\<close>

record TUSBConfigurationParser =
  m_pBuffer :: "u8 list option"
  m_nBufLen :: nat
  m_bValid :: bool
  m_pEndPosition :: nat
  m_pNextPosition :: nat
  m_pCurrentDescriptor :: "nat option"
  m_pErrorPosition :: nat

datatype parsed = Accepted | Rejected nat | Overread nat

datatype expectation = Stop parsed | Expect nat bool

text \<open>
  The \<open>switch\<close> over the descriptor type: the length the descriptor must have (0 for any), and
  whether it lies in an audio interface; or the position the parser gives up at.
\<close>

definition expected_length :: "u8 list \<Rightarrow> nat \<Rightarrow> u8 \<Rightarrow> bool \<Rightarrow> expectation" where
  "expected_length b p ucLastDescType bInAudioInterface =
     (let ty = bDescriptorType b p in
      if ty = DESCRIPTOR_CONFIGURATION then
        if ucLastDescType \<noteq> 0 then Stop (Rejected p)
        else Expect sizeof_TUSBConfigurationDescriptor bInAudioInterface
      else if ty = DESCRIPTOR_INTERFACE then
        if ucLastDescType = 0 then Stop (Rejected p)
        else if p + 5 \<ge> length b then Stop (Overread p)
        else Expect sizeof_TUSBInterfaceDescriptor (bInterfaceClass b p = 1)
      else if ty = DESCRIPTOR_ENDPOINT then
        if ucLastDescType = 0 \<or> ucLastDescType = DESCRIPTOR_CONFIGURATION then Stop (Rejected p)
        else Expect (if bInAudioInterface then sizeof_TUSBAudioEndpointDescriptor
                     else sizeof_TUSBEndpointDescriptor) bInAudioInterface
      else Expect 0 bInAudioInterface)"

partial_function (option) parse_loop ::
    "u8 list \<Rightarrow> nat \<Rightarrow> nat \<Rightarrow> u8 \<Rightarrow> bool \<Rightarrow> parsed option" where
  "parse_loop b e p ucLastDescType bInAudioInterface =
     (if p + 2 < e then
        if p + 1 \<ge> length b then Some (Overread p)
        else if p + bLength b p > e then Some (Rejected p)
        else case expected_length b p ucLastDescType bInAudioInterface of
            Stop r \<Rightarrow> Some r
          | Expect ucExpectedLen audio \<Rightarrow>
              if ucExpectedLen \<noteq> 0 \<and> bLength b p \<noteq> ucExpectedLen then Some (Rejected p)
              else parse_loop b e (p + bLength b p) (bDescriptorType b p) audio
      else if p \<noteq> e then Some (Rejected p) else Some Accepted)"

definition USBConfigurationParser ::
  "u8 list option \<Rightarrow> nat \<Rightarrow> (TUSBConfigurationParser, unit) prog" where
  "USBConfigurationParser buf nBufLen =
     bind (modify (\<lambda>P. P\<lparr>m_pBuffer := buf, m_nBufLen := nBufLen, m_bValid := False,
       m_pEndPosition := nBufLen, m_pNextPosition := 0, m_pCurrentDescriptor := None,
       m_pErrorPosition := 0\<rparr>)) (\<lambda>_.
     bind (the_or Assert_failed buf) (\<lambda>b.
     if nBufLen < 4 \<or> nBufLen > 512 then return ()
     else if length b < 4 then halt Out_of_bounds
     else if bLength b 0 \<noteq> sizeof_TUSBConfigurationDescriptor
        \<or> bDescriptorType b 0 \<noteq> DESCRIPTOR_CONFIGURATION
        \<or> unat (wTotalLength b 0) > nBufLen then return ()
     else
       let e = (if unat (wTotalLength b 0) < nBufLen then unat (wTotalLength b 0) else nBufLen) in
       bind (modify (\<lambda>P. P\<lparr>m_pEndPosition := e\<rparr>)) (\<lambda>_.
       bind (the_or Endless_loop (parse_loop b e 0 0 False)) (\<lambda>r. case r of
           Rejected p \<Rightarrow> modify (\<lambda>P. P\<lparr>m_pErrorPosition := p\<rparr>)
         | Overread p \<Rightarrow> halt Out_of_bounds
         | Accepted \<Rightarrow> modify (\<lambda>P. P\<lparr>m_bValid := True\<rparr>)))))"

definition USBConfigurationParserCopy ::
  "TUSBConfigurationParser \<Rightarrow> (TUSBConfigurationParser, unit) prog" where
  "USBConfigurationParserCopy pParser = modify (\<lambda>P. P\<lparr>m_pBuffer := m_pBuffer pParser,
     m_nBufLen := m_nBufLen pParser, m_bValid := m_bValid pParser,
     m_pEndPosition := m_pEndPosition pParser, m_pNextPosition := m_pNextPosition pParser,
     m_pCurrentDescriptor := m_pCurrentDescriptor pParser,
     m_pErrorPosition := m_pErrorPosition pParser\<rparr>)"

definition USBConfigurationParser_destroy :: "(TUSBConfigurationParser, unit) prog" where
  "USBConfigurationParser_destroy = modify (\<lambda>P. P\<lparr>m_pBuffer := None\<rparr>)"

definition USBConfigurationParserIsValid :: "(TUSBConfigurationParser, bool) prog" where
  "USBConfigurationParserIsValid = gets m_bValid"

text \<open>The loop of \<open>GetDescriptor\<close>: what was found and the new next position, or a halt.\<close>

datatype search = Found "nat option" nat | Bad halt

partial_function (option) search_loop :: "u8 list \<Rightarrow> nat \<Rightarrow> u8 \<Rightarrow> nat \<Rightarrow> search option" where
  "search_loop b e ucType p =
     (if p < e then
        if p + 1 \<ge> length b then Some (Bad Out_of_bounds)
        else if \<not> p + bLength b p \<le> e then Some (Bad Assert_failed)
        else if ucType = DESCRIPTOR_ENDPOINT \<and> bDescriptorType b p = DESCRIPTOR_INTERFACE
          then Some (Found None p)
        else if bDescriptorType b p = ucType then Some (Found (Some p) (p + bLength b p))
        else search_loop b e ucType (p + bLength b p)
      else Some (Found None p))"

definition USBConfigurationParserGetDescriptor ::
  "u8 \<Rightarrow> (TUSBConfigurationParser, nat option) prog" where
  "USBConfigurationParserGetDescriptor ucType =
     bind (gets m_bValid) (\<lambda>v.
     bind (UK_ASSERT v) (\<lambda>_.
     bind (gets m_pBuffer) (\<lambda>buf.
     bind (the_or Null_deref buf) (\<lambda>b.
     bind (gets m_pEndPosition) (\<lambda>e.
     bind (gets m_pNextPosition) (\<lambda>p.
     bind (the_or Endless_loop (search_loop b e ucType p)) (\<lambda>r. case r of
         Bad h \<Rightarrow> halt h
       | Found pResult next \<Rightarrow>
           bind (modify (\<lambda>P. P\<lparr>m_pNextPosition := next\<rparr>)) (\<lambda>_.
           bind (modify (\<lambda>P. case pResult of Some q \<Rightarrow> P\<lparr>m_pErrorPosition := q\<rparr> | None \<Rightarrow> P)) (\<lambda>_.
           bind (modify (\<lambda>P. P\<lparr>m_pCurrentDescriptor := pResult\<rparr>)) (\<lambda>_.
           return pResult))))))))))"

definition USBConfigurationParserGetCurrentDescriptor :: "(TUSBConfigurationParser, nat) prog" where
  "USBConfigurationParserGetCurrentDescriptor =
     bind (gets m_bValid) (\<lambda>v.
     bind (UK_ASSERT v) (\<lambda>_.
     bind (gets m_pCurrentDescriptor) (the_or Assert_failed)))"

definition USBConfigurationParserError ::
  "TUSBConfigurationParser \<Rightarrow> ('b hw_scheme, unit) prog" where
  "USBConfigurationParserError P =
     LogWrite LOG_ERROR ''Invalid configuration descriptor (offset 0x%X)''"

section \<open>Descriptor lists\<close>

text \<open>
  \<open>desc_ok b e p\<close>: a descriptor that lies in the buffer as far as its length says, and
  that has the whole layout of its type.  \<open>descs b e p ps\<close>: from \<open>p\<close> to \<open>e\<close> the buffer is
  divided into descriptors at the offsets \<open>ps\<close>.
\<close>

definition desc_ok :: "u8 list \<Rightarrow> nat \<Rightarrow> nat \<Rightarrow> bool" where
  "desc_ok b e p \<longleftrightarrow> 0 < bLength b p \<and> p + 2 < e \<and> p + bLength b p \<le> e \<and> e \<le> length b \<and>
     (bDescriptorType b p = DESCRIPTOR_CONFIGURATION \<longrightarrow> bLength b p = sizeof_TUSBConfigurationDescriptor) \<and>
     (bDescriptorType b p = DESCRIPTOR_INTERFACE \<longrightarrow> bLength b p = sizeof_TUSBInterfaceDescriptor) \<and>
     (bDescriptorType b p = DESCRIPTOR_ENDPOINT \<longrightarrow>
        bLength b p \<in> {sizeof_TUSBEndpointDescriptor, sizeof_TUSBAudioEndpointDescriptor})"

fun descs :: "u8 list \<Rightarrow> nat \<Rightarrow> nat \<Rightarrow> nat list \<Rightarrow> bool" where
  "descs b e p [] \<longleftrightarrow> p = e"
| "descs b e p (q # qs) \<longleftrightarrow> q = p \<and> desc_ok b e p \<and> descs b e (p + bLength b p) qs"

text \<open>The parser state stands for the offsets \<open>ps\<close> of the descriptors still ahead.\<close>

definition parser_at :: "TUSBConfigurationParser \<Rightarrow> u8 list \<Rightarrow> nat list \<Rightarrow> bool" where
  "parser_at P b ps \<longleftrightarrow> m_bValid P \<and> m_pBuffer P = Some b \<and>
     descs b (m_pEndPosition P) (m_pNextPosition P) ps"

text \<open>What \<open>GetDescriptor\<close> means on the list: drop to the first descriptor of the type, but never
  past an interface when an endpoint is wanted.\<close>

fun next_desc :: "u8 list \<Rightarrow> u8 \<Rightarrow> nat list \<Rightarrow> nat option \<times> nat list" where
  "next_desc b ty [] = (None, [])"
| "next_desc b ty (p # ps) =
     (if ty = DESCRIPTOR_ENDPOINT \<and> bDescriptorType b p = DESCRIPTOR_INTERFACE then (None, p # ps)
      else if bDescriptorType b p = ty then (Some p, ps)
      else next_desc b ty ps)"

lemma search_loop_descs:
  "descs b e p ps \<Longrightarrow> \<exists>q. search_loop b e ty p = Some (Found (fst (next_desc b ty ps)) q) \<and>
     descs b e q (snd (next_desc b ty ps))"
proof (induction ps arbitrary: p)
  case Nil
  then show ?case by (auto simp: search_loop.simps [of b e ty e])
next
  case (Cons p' ps)
  then have p: "p' = p" "desc_ok b e p" "descs b e (p + bLength b p) ps" by simp_all
  from Cons.IH [OF p(3)] obtain q where q: "search_loop b e ty (p + bLength b p) =
      Some (Found (fst (next_desc b ty ps)) q)" "descs b e q (snd (next_desc b ty ps))" by blast
  have l: "p < e" "\<not> length b \<le> p + 1" "p + bLength b p \<le> e" using p(2) by (auto simp: desc_ok_def)
  have step: "search_loop b e ty p =
      (if ty = DESCRIPTOR_ENDPOINT \<and> bDescriptorType b p = DESCRIPTOR_INTERFACE then Some (Found None p)
       else if bDescriptorType b p = ty then Some (Found (Some p) (p + bLength b p))
       else search_loop b e ty (p + bLength b p))"
    using l by (subst search_loop.simps) simp
  consider "ty = DESCRIPTOR_ENDPOINT \<and> bDescriptorType b p = DESCRIPTOR_INTERFACE"
    | "\<not> (ty = DESCRIPTOR_ENDPOINT \<and> bDescriptorType b p = DESCRIPTOR_INTERFACE)" "bDescriptorType b p = ty"
    | "\<not> (ty = DESCRIPTOR_ENDPOINT \<and> bDescriptorType b p = DESCRIPTOR_INTERFACE)" "bDescriptorType b p \<noteq> ty"
    by blast
  then show ?case
  proof cases
    case 1
    then have "search_loop b e ty p = Some (Found None p)" using step by simp
    with 1 p show ?thesis by simp
  next
    case 2
    then show ?thesis using p by (simp only: step next_desc.simps) (auto simp: p(1))
  next
    case 3
    then show ?thesis using q by (simp only: step next_desc.simps p(1) if_False) blast
  qed
qed

lemma next_desc_props:
  assumes "descs b e p ps" and "fst (next_desc b ty ps) = Some q"
  shows "q \<in> set ps \<and> desc_ok b e q \<and> bDescriptorType b q = ty"
  using assms by (induction ps arbitrary: p) (auto split: if_splits)

lemma descs_ge: "descs b e p ps \<Longrightarrow> \<forall>q \<in> set ps. p \<le> q"
  by (induction ps arbitrary: p) (fastforce simp: desc_ok_def)+

lemma expected_length_len:
  assumes "expected_length b p lst audio = Expect n audio'" and "n = 0 \<or> bLength b p = n"
  shows "(bDescriptorType b p = DESCRIPTOR_CONFIGURATION \<longrightarrow> bLength b p = sizeof_TUSBConfigurationDescriptor) \<and>
     (bDescriptorType b p = DESCRIPTOR_INTERFACE \<longrightarrow> bLength b p = sizeof_TUSBInterfaceDescriptor) \<and>
     (bDescriptorType b p = DESCRIPTOR_ENDPOINT \<longrightarrow>
        bLength b p \<in> {sizeof_TUSBEndpointDescriptor, sizeof_TUSBAudioEndpointDescriptor})"
  using assms
  by (auto simp: expected_length_def Let_def descriptor_defs sizeof_defs split: if_splits)

lemma expected_length_Stop: "expected_length b p lst audio = Stop r \<Longrightarrow> r \<noteq> Accepted"
  by (auto simp: expected_length_def Let_def split: if_splits)

lemma parse_loop_sound:
  assumes "parse_loop b e p lst audio = Some r" and "e \<le> length b" and "r = Accepted"
  shows "\<exists>ps. descs b e p ps"
proof -
  have "e \<le> length b \<and> r = Accepted \<longrightarrow> (\<exists>ps. descs b e p ps)"
  proof (rule parse_loop.raw_induct [where P = "\<lambda>b e p lst audio r.
        e \<le> length b \<and> r = Accepted \<longrightarrow> (\<exists>ps. descs b e p ps)", OF _ assms(1)], intro impI, elim conjE)
    fix parse b e p lst audio r
    assume IH: "\<And>b e p lst audio r. parse b e p lst audio = Some r \<Longrightarrow>
          e \<le> length b \<and> r = Accepted \<longrightarrow> (\<exists>ps. descs b e p ps)"
      and body: "(if p + 2 < e then if length b \<le> p + 1 then Some (Overread p)
          else if e < p + bLength b p then Some (Rejected p)
          else case expected_length b p lst audio of Stop r \<Rightarrow> Some r
            | Expect ucExpectedLen audio \<Rightarrow>
                if ucExpectedLen \<noteq> 0 \<and> bLength b p \<noteq> ucExpectedLen then Some (Rejected p)
                else parse b e (p + bLength b p) (bDescriptorType b p) audio
        else if p \<noteq> e then Some (Rejected p) else Some Accepted) = Some r"
      and e: "e \<le> length b" and r: "r = Accepted"
    show "\<exists>ps. descs b e p ps"
    proof (cases "p + 2 < e")
      case False
      with body r have "descs b e p []" by (auto split: if_splits)
      then show ?thesis by blast
    next
      case True
      with body r obtain n audio' where x: "expected_length b p lst audio = Expect n audio'"
          "n = 0 \<or> bLength b p = n" "p + bLength b p \<le> e"
          and rec: "parse b e (p + bLength b p) (bDescriptorType b p) audio' = Some r"
        by (auto split: if_splits expectation.splits dest: expected_length_Stop)
      from IH [OF rec] e r obtain ps where ps: "descs b e (p + bLength b p) ps" by blast
      have "0 < bLength b p"
      proof (rule ccontr)
        assume "\<not> 0 < bLength b p"
        with ps True show False by (cases ps) (auto simp: desc_ok_def)
      qed
      with True x(3) e expected_length_len [OF x(1,2)] have "desc_ok b e p"
        by (simp add: desc_ok_def)
      with ps have "descs b e p (p # ps)" by simp
      then show ?thesis by blast
    qed
  qed
  with assms(2,3) show ?thesis by blast
qed

definition zero_desc :: "u8 list \<Rightarrow> nat \<Rightarrow> nat \<Rightarrow> bool" where
  "zero_desc b e p \<longleftrightarrow> p + 2 < e \<and> e \<le> length b \<and> bLength b p = 0 \<and>
     bDescriptorType b p \<notin> {DESCRIPTOR_CONFIGURATION, DESCRIPTOR_INTERFACE, DESCRIPTOR_ENDPOINT}"

lemma parse_loop_zero:
  assumes "zero_desc b e p"
  shows "parse_loop b e p lst audio = None"
proof (rule ccontr)
  assume "parse_loop b e p lst audio \<noteq> None"
  then obtain r where r: "parse_loop b e p lst audio = Some r" by blast
  have "\<not> zero_desc b e p"
    by (rule parse_loop.raw_induct [where P = "\<lambda>b e p _ _ _. \<not> zero_desc b e p", OF _ r])
      (force simp: zero_desc_def expected_length_def)
  with assms show False by blast
qed

text \<open>
  C7. The constructor validates: when it returns with \<open>m_bValid\<close> set, the bytes up to the end
  position are divided completely into descriptors that lie inside of the buffer, none of length
  zero, and every configuration, interface and endpoint descriptor has its full layout; the first
  \<open>GetDescriptor\<close> starts at offset 0.
\<close>

theorem USBConfigurationParser_valid:
  assumes "USBConfigurationParser (Some b) n P0 = Done () P" and "m_bValid P" and "n \<le> length b"
  shows "\<exists>ps. parser_at P b ps \<and> m_pNextPosition P = 0 \<and> m_pEndPosition P \<le> n \<and>
     (\<forall>p \<in> set ps. desc_ok b (m_pEndPosition P) p)"
proof -
  have all: "descs b e p ps \<Longrightarrow> \<forall>q \<in> set ps. desc_ok b e q" for e p ps
    by (induction ps arbitrary: p) auto
  define e where "e = (if unat (wTotalLength b 0) < n then unat (wTotalLength b 0) else n)"
  have "parse_loop b e 0 0 False = Some Accepted \<and> m_pBuffer P = Some b \<and> m_pEndPosition P = e \<and>
      m_pNextPosition P = 0 \<and> unat (wTotalLength b 0) \<le> n"
    using assms(1,2) unfolding USBConfigurationParser_def
    by (cases "unat (wTotalLength b 0) < n"; cases "parse_loop b e 0 0 False";
        cases "the (parse_loop b e 0 0 False)")
      (auto simp: e_def bind_run split: if_splits)
  moreover from this have "e \<le> n" by (simp add: e_def)
  ultimately show ?thesis
    using parse_loop_sound [of b e 0 0 False Accepted] assms(2,3) all [of e 0]
    by (auto simp: parser_at_def)
qed

text \<open>
  C6. \<open>GetDescriptor\<close> on a valid parser implements the search in the list of the descriptors
  ahead: it ends, stays inside of the buffer, fails no assertion, returns the first descriptor of the
  type (none behind the next interface when an endpoint is wanted), and leaves the parser at
  the rest of the list, so this holds for every further call too.
\<close>

theorem GetDescriptor_refines:
  assumes "parser_at P b ps"
  shows "\<exists>P'. USBConfigurationParserGetDescriptor ty P = Done (fst (next_desc b ty ps)) P' \<and>
     parser_at P' b (snd (next_desc b ty ps)) \<and>
     (\<forall>q. fst (next_desc b ty ps) = Some q \<longrightarrow>
        bDescriptorType b q = ty \<and> q + bLength b q \<le> length b \<and>
        USBConfigurationParserGetCurrentDescriptor P' = Done q P')"
proof -
  have d: "descs b (m_pEndPosition P) (m_pNextPosition P) ps" "m_bValid P" "m_pBuffer P = Some b"
    using assms by (simp_all add: parser_at_def)
  obtain q where q: "search_loop b (m_pEndPosition P) ty (m_pNextPosition P) =
      Some (Found (fst (next_desc b ty ps)) q)" "descs b (m_pEndPosition P) q (snd (next_desc b ty ps))"
    using search_loop_descs [OF d(1)] by blast
  show ?thesis
    using d q next_desc_props [OF d(1), of ty]
    by (cases "fst (next_desc b ty ps)")
      (auto simp: USBConfigurationParserGetDescriptor_def USBConfigurationParserGetCurrentDescriptor_def
        bind_run parser_at_def desc_ok_def)
qed

section \<open>When the constructor ends\<close>

text \<open>
  The positions at which the loop of the constructor looks, each with the type of the descriptor before
  and whether it is in an audio interface: the loop goes on behind a descriptor that ends in the
  buffer and has the length its type asks for.
\<close>

inductive looked_at :: "u8 list \<Rightarrow> nat \<Rightarrow> nat \<Rightarrow> u8 \<Rightarrow> bool \<Rightarrow> bool" for b e where
  first: "looked_at b e 0 0 False"
| further: "looked_at b e p lst audio \<Longrightarrow> p + 2 < e \<Longrightarrow> p + bLength b p \<le> e \<Longrightarrow>
    expected_length b p lst audio = Expect n audio' \<Longrightarrow> n = 0 \<or> bLength b p = n \<Longrightarrow>
    looked_at b e (p + bLength b p) (bDescriptorType b p) audio'"

lemma parse_loop_looked_at:
  "looked_at b e p lst audio \<Longrightarrow> e \<le> length b \<Longrightarrow> parse_loop b e 0 0 False = parse_loop b e p lst audio"
proof (induction rule: looked_at.induct)
  case (further p lst audio n audio')
  then show ?case by (auto simp: parse_loop.simps [of b e p])
qed simp

lemma zero_length_expected:
  "p + 2 < e \<Longrightarrow> e \<le> length b \<Longrightarrow> expected_length b p lst audio = Expect n audio' \<Longrightarrow> n = 0 \<or> bLength b p = n \<Longrightarrow>
   bLength b p = 0 \<Longrightarrow> zero_desc b e p"
  by (auto simp: zero_desc_def expected_length_def Let_def sizeof_defs split: if_splits)

lemma parse_loop_returns:
  assumes "e \<le> length b" and "looked_at b e p lst audio" and "\<And>q l a. looked_at b e q l a \<Longrightarrow> \<not> zero_desc b e q"
  shows "parse_loop b e p lst audio \<noteq> None"
  using assms(2)
proof (induction "e - p" arbitrary: p lst audio rule: less_induct)
  case less
  show ?case
  proof (cases "p + 2 < e \<and> p + bLength b p \<le> e \<and>
      (\<exists>n audio'. expected_length b p lst audio = Expect n audio' \<and> (n = 0 \<or> bLength b p = n))")
    case True
    then obtain n audio' where x: "p + 2 < e" "p + bLength b p \<le> e"
        "expected_length b p lst audio = Expect n audio'" "n = 0 \<or> bLength b p = n" by blast
    have "0 < bLength b p"
      using zero_length_expected [OF x(1) assms(1) x(3,4)] assms(3) [OF less.prems] by blast
    then have "parse_loop b e (p + bLength b p) (bDescriptorType b p) audio' \<noteq> None"
      using x(1) further [OF less.prems x] by (intro less.hyps) simp_all
    moreover have "parse_loop b e p lst audio = parse_loop b e (p + bLength b p) (bDescriptorType b p) audio'"
      using x assms(1) by (auto simp: parse_loop.simps [of b e p])
    ultimately show ?thesis by simp
  next
    case False
    then show ?thesis using assms(1)
      by (simp add: parse_loop.simps [of b e p] split: expectation.split) fastforce
  qed
qed

lemma constructor_endless:
  assumes "n \<le> length b"
  shows "(\<exists>P'. USBConfigurationParser (Some b) n P = Halt Endless_loop P') \<longleftrightarrow>
    4 \<le> n \<and> n \<le> 512 \<and> bLength b 0 = 9 \<and> bDescriptorType b 0 = DESCRIPTOR_CONFIGURATION \<and>
    unat (wTotalLength b 0) \<le> n \<and>
    (\<exists>p lst audio. looked_at b (unat (wTotalLength b 0)) p lst audio \<and> p + 2 < unat (wTotalLength b 0) \<and>
       bLength b p = 0 \<and> bDescriptorType b p \<notin> {DESCRIPTOR_CONFIGURATION, DESCRIPTOR_INTERFACE, DESCRIPTOR_ENDPOINT})"
    (is "?endless \<longleftrightarrow> ?header \<and> ?h2 \<and> ?h3 \<and> ?h4 \<and> ?h5 \<and> ?zero")
proof (cases "?header \<and> ?h2 \<and> ?h3 \<and> ?h4 \<and> ?h5")
  case True
  let ?e = "unat (wTotalLength b 0)"
  have e: "(if ?e < n then ?e else n) = ?e" "?e \<le> length b" using True assms by auto
  have zero: "?zero \<longleftrightarrow> (\<exists>p lst audio. looked_at b ?e p lst audio \<and> zero_desc b ?e p)"
    using e(2) by (auto simp: zero_desc_def)
  have "?endless \<longleftrightarrow> parse_loop b ?e 0 0 False = None"
    using True assms e(1)
    by (cases "parse_loop b ?e 0 0 False"; cases "the (parse_loop b ?e 0 0 False)")
      (simp_all add: USBConfigurationParser_def bind_run sizeof_defs)
  also have "\<dots> \<longleftrightarrow> ?zero"
    unfolding zero
    using parse_loop_looked_at [OF _ e(2)] parse_loop_zero parse_loop_returns [OF e(2) first] by metis
  finally show ?thesis using True by blast
next
  case False
  then have "\<not> ?endless"
    using assms by (auto simp: USBConfigurationParser_def bind_run sizeof_defs)
  with False show ?thesis by blast
qed

lemma constructor_outcome:
  "\<exists>P'. USBConfigurationParser (Some b) n P \<in> {Done () P', Halt Out_of_bounds P', Halt Endless_loop P'}"
  by (cases "parse_loop b (if unat (wTotalLength b 0) < n then unat (wTotalLength b 0) else n) 0 0 False";
      cases "the (parse_loop b (if unat (wTotalLength b 0) < n then unat (wTotalLength b 0) else n) 0 0 False)")
    (auto simp: USBConfigurationParser_def bind_run Let_def)

text \<open>
  C30. When the constructor ends.  In a buffer of at least \<open>n\<close> bytes it loops for ever exactly when \<open>n\<close> and the
  configuration descriptor at the start are accepted and the loop gets to a descriptor of length
  zero whose type is none of the three the parser knows and which begins at least three bytes before the
  end that the configuration descriptor gives.  Such data can come from a device.  In all other cases the
  constructor returns or stops at a read beyond the buffer.
\<close>

theorem parser_zero_length_endless:
  assumes "n \<le> length b"
  shows "((\<exists>P'. USBConfigurationParser (Some b) n P = Halt Endless_loop P') \<longleftrightarrow>
      4 \<le> n \<and> n \<le> 512 \<and> bLength b 0 = 9 \<and> bDescriptorType b 0 = DESCRIPTOR_CONFIGURATION \<and>
      unat (wTotalLength b 0) \<le> n \<and>
      (\<exists>p lst audio. looked_at b (unat (wTotalLength b 0)) p lst audio \<and> p + 2 < unat (wTotalLength b 0) \<and>
         bLength b p = 0 \<and> bDescriptorType b p \<notin> {DESCRIPTOR_CONFIGURATION, DESCRIPTOR_INTERFACE, DESCRIPTOR_ENDPOINT})) \<and>
    (\<exists>P'. USBConfigurationParser (Some b) n P \<in> {Done () P', Halt Out_of_bounds P', Halt Endless_loop P'})"
  using constructor_endless [OF assms] constructor_outcome by blast

theorem USBConfigurationParser_valid_witness:
  "\<exists>P ps. USBConfigurationParser
      (Some [9, 2, 25, 0, 1, 1, 0, 0, 50,  9, 4, 0, 0, 1, 255, 0, 0, 0,  7, 5, 0x81, 2, 0, 2, 0]) 25
      \<lparr>m_pBuffer = None, m_nBufLen = 0, m_bValid = False, m_pEndPosition = 0, m_pNextPosition = 0,
       m_pCurrentDescriptor = None, m_pErrorPosition = 0\<rparr> = Done () P \<and>
     parser_at P [9, 2, 25, 0, 1, 1, 0, 0, 50,  9, 4, 0, 0, 1, 255, 0, 0, 0,  7, 5, 0x81, 2, 0, 2, 0] ps"
proof -
  let ?b = "[9, 2, 25, 0, 1, 1, 0, 0, 50,  9, 4, 0, 0, 1, 255, 0, 0, 0,  7, 5, 0x81, 2, 0, 2, 0] :: u8 list"
  let ?S = "\<lparr>m_pBuffer = None, m_nBufLen = 0, m_bValid = False, m_pEndPosition = 0, m_pNextPosition = 0,
       m_pCurrentDescriptor = None, m_pErrorPosition = 0\<rparr>"
  let ?P = "\<lparr>m_pBuffer = Some ?b, m_nBufLen = 25, m_bValid = True, m_pEndPosition = 25,
       m_pNextPosition = 0, m_pCurrentDescriptor = None, m_pErrorPosition = 0\<rparr>"
  have "parse_loop ?b 25 0 0 False = Some Accepted"
    by (simp add: parse_loop.simps bLength_def bDescriptorType_def bInterfaceClass_def expected_length_def
        descriptor_defs sizeof_defs)
  then have r: "USBConfigurationParser (Some ?b) 25 ?S = Done () ?P"
    by (simp add: USBConfigurationParser_def bind_run bLength_def bDescriptorType_def wTotalLength_def
        le16_def descriptor_defs sizeof_defs)
  from USBConfigurationParser_valid [OF r] obtain ps where "parser_at ?P ?b ps" by auto
  with r show ?thesis by blast
qed

theorem GetDescriptor_refines_witness:
  "\<exists>P'. USBConfigurationParserGetDescriptor DESCRIPTOR_INTERFACE
      \<lparr>m_pBuffer = Some [9, 4, 0, 0, 0, 255, 0, 0, 0], m_nBufLen = 9, m_bValid = True, m_pEndPosition = 9,
       m_pNextPosition = 0, m_pCurrentDescriptor = None, m_pErrorPosition = 0\<rparr> = Done (Some 0) P'"
  using GetDescriptor_refines [of "\<lparr>m_pBuffer = Some [9, 4, 0, 0, 0, 255, 0, 0, 0], m_nBufLen = 9,
      m_bValid = True, m_pEndPosition = 9, m_pNextPosition = 0, m_pCurrentDescriptor = None,
      m_pErrorPosition = 0\<rparr>" "[9, 4, 0, 0, 0, 255, 0, 0, 0]" "[0]" DESCRIPTOR_INTERFACE]
  by (auto simp: parser_at_def desc_ok_def bLength_def bDescriptorType_def descriptor_defs sizeof_defs)

text \<open>A configuration descriptor with a descriptor of type 33 and length zero behind it.\<close>

theorem parser_zero_length_endless_witness:
  "\<exists>P'. USBConfigurationParser (Some [9, 2, 12, 0, 1, 1, 0, 0, 50, 0, 33, 0]) 12
      \<lparr>m_pBuffer = None, m_nBufLen = 0, m_bValid = False, m_pEndPosition = 0, m_pNextPosition = 0,
       m_pCurrentDescriptor = None, m_pErrorPosition = 0\<rparr> = Halt Endless_loop P'"
proof -
  let ?b = "[9, 2, 12, 0, 1, 1, 0, 0, 50, 0, 33, 0] :: u8 list"
  have "looked_at ?b 12 (0 + bLength ?b 0) (bDescriptorType ?b 0) False"
    by (rule further [OF first, of _ _ 9])
      (simp_all add: bLength_def bDescriptorType_def expected_length_def descriptor_defs sizeof_defs)
  then have "looked_at ?b 12 9 2 False" by (simp add: bLength_def bDescriptorType_def)
  then have "\<exists>p lst audio. looked_at ?b 12 p lst audio \<and> p + 2 < 12 \<and> bLength ?b p = 0 \<and>
      bDescriptorType ?b p \<notin> {DESCRIPTOR_CONFIGURATION, DESCRIPTOR_INTERFACE, DESCRIPTOR_ENDPOINT}"
    by (intro exI [of _ 9] exI conjI, assumption) (simp_all add: bLength_def bDescriptorType_def descriptor_defs)
  moreover have "bLength ?b 0 = 9" "bDescriptorType ?b 0 = DESCRIPTOR_CONFIGURATION" "unat (wTotalLength ?b 0) = 12"
    by (simp_all add: bLength_def bDescriptorType_def wTotalLength_def le16_def descriptor_defs)
  ultimately show ?thesis
    using parser_zero_length_endless [of 12 ?b] by simp
qed

end
