(* ===== verification/Endpoint.thy ===== *)
theory Endpoint
  imports ConfigParser
begin

text \<open>
  USB endpoints and requests: \<^verbatim>\<open>eth/lib/usbendpoint.c\<close>,
  \<^verbatim>\<open>eth/lib/usbrequest.c\<close> and the types of \<^verbatim>\<open>include/uspi/usb.h\<close>.
  Pointers to devices, endpoints and requests are numbers of their objects, \<open>None\<close> is null.
  The main fact is the data toggle: the PID an endpoint sends next is given by the parity of the
  packets it has completed.
\<close>

section \<open>Types\<close>

datatype TUSBPID = USBPIDSetup | USBPIDData0 | USBPIDData1

datatype TUSBSpeed = USBSpeedLow | USBSpeedFull | USBSpeedHigh | USBSpeedUnknown

datatype TEndpointType =
  EndpointTypeControl | EndpointTypeBulk | EndpointTypeInterrupt | EndpointTypeIsochronous

definition USB_DEFAULT_MAX_PACKET_SIZE :: u32 where "USB_DEFAULT_MAX_PACKET_SIZE = 8"

record TUSBEndpoint =
  m_pDevice :: "nat option"
  m_ucNumber :: u8
  m_Type :: TEndpointType
  m_bDirectionIn :: bool
  m_nMaxPacketSize :: u32
  m_nInterval :: u32
  m_NextPID :: TUSBPID

section \<open>Endpoints\<close>

definition USBEndpoint :: "nat option \<Rightarrow> (TUSBEndpoint, unit) prog" where
  "USBEndpoint pDevice = block
     [modify (\<lambda>e. e\<lparr>m_pDevice := pDevice, m_ucNumber := 0, m_Type := EndpointTypeControl,
        m_bDirectionIn := False, m_nMaxPacketSize := USB_DEFAULT_MAX_PACKET_SIZE, m_nInterval := 1,
        m_NextPID := USBPIDSetup\<rparr>),
      UK_ASSERT (pDevice \<noteq> None)]"

text \<open>The milliseconds of an interrupt endpoint's \<open>bInterval\<close>.\<close>

definition interval_ms :: "TUSBSpeed \<Rightarrow> u8 \<Rightarrow> u32" where
  "interval_ms speed bInterval =
     (let ucInterval = (if bInterval < 1 then 1 else bInterval) in
      if speed \<noteq> USBSpeedHigh then ucast ucInterval
      else
        let i = (if ucInterval > 16 then 16 else ucInterval);
            nValue = push_bit (unat (i - 1)) (1 :: u32);
            n = nValue div 8
        in if n < 1 then 1 else n)"

text \<open>The descriptor is its bytes; \<open>speed\<close> is the speed of the device.\<close>

definition USBEndpoint2 :: "nat option \<Rightarrow> TUSBSpeed \<Rightarrow> u8 list \<Rightarrow> (TUSBEndpoint, unit) prog" where
  "USBEndpoint2 pDevice speed pDesc =
     bind (modify (\<lambda>e. e\<lparr>m_pDevice := pDevice, m_nInterval := 1\<rparr>)) (\<lambda>_.
     bind (UK_ASSERT (pDevice \<noteq> None)) (\<lambda>_.
     if length pDesc < 7 then halt Out_of_bounds else
     bind (UK_ASSERT (bLength pDesc 0 = sizeof_TUSBEndpointDescriptor \<or>
                      bLength pDesc 0 = sizeof_TUSBAudioEndpointDescriptor)) (\<lambda>_.
     bind (UK_ASSERT (bDescriptorType pDesc 0 = DESCRIPTOR_ENDPOINT)) (\<lambda>_.
     let attr = pDesc ! 3 AND 3 in
     bind (if attr = 2 then modify (\<lambda>e. e\<lparr>m_Type := EndpointTypeBulk, m_NextPID := USBPIDData0\<rparr>)
           else if attr = 3
             then modify (\<lambda>e. e\<lparr>m_Type := EndpointTypeInterrupt, m_NextPID := USBPIDData0\<rparr>)
           else halt Assert_failed) (\<lambda>_.
     block
       [modify (\<lambda>e. e\<lparr>m_ucNumber := pDesc ! 2 AND 0x0F\<rparr>),
        modify (\<lambda>e. e\<lparr>m_bDirectionIn := (pDesc ! 2 AND 0x80 \<noteq> 0)\<rparr>),
        modify (\<lambda>e. e\<lparr>m_nMaxPacketSize := ucast (le16 (pDesc ! 4) (pDesc ! 5))\<rparr>),
        modify (\<lambda>e. if m_Type e = EndpointTypeInterrupt
          then e\<lparr>m_nInterval := interval_ms speed (pDesc ! 6)\<rparr> else e)])))))"

definition USBEndpointCopy :: "TUSBEndpoint \<Rightarrow> nat option \<Rightarrow> (TUSBEndpoint, unit) prog" where
  "USBEndpointCopy pEndpoint pDevice = block
     [modify (\<lambda>e. e\<lparr>m_pDevice := pDevice\<rparr>),
      UK_ASSERT (pDevice \<noteq> None),
      modify (\<lambda>e. e\<lparr>m_ucNumber := m_ucNumber pEndpoint, m_Type := m_Type pEndpoint,
        m_bDirectionIn := m_bDirectionIn pEndpoint, m_nMaxPacketSize := m_nMaxPacketSize pEndpoint,
        m_nInterval := m_nInterval pEndpoint, m_NextPID := m_NextPID pEndpoint\<rparr>)]"

definition USBEndpoint_destroy :: "(TUSBEndpoint, unit) prog" where
  "USBEndpoint_destroy = modify (\<lambda>e. e\<lparr>m_pDevice := None\<rparr>)"

definition USBEndpointGetDevice :: "(TUSBEndpoint, nat) prog" where
  "USBEndpointGetDevice = bind (gets m_pDevice) (the_or Assert_failed)"

definition USBEndpointGetNumber :: "(TUSBEndpoint, u8) prog" where
  "USBEndpointGetNumber = gets m_ucNumber"

definition USBEndpointGetType :: "(TUSBEndpoint, TEndpointType) prog" where
  "USBEndpointGetType = gets m_Type"

definition USBEndpointIsDirectionIn :: "(TUSBEndpoint, bool) prog" where
  "USBEndpointIsDirectionIn = gets m_bDirectionIn"

definition USBEndpointSetMaxPacketSize :: "u32 \<Rightarrow> (TUSBEndpoint, unit) prog" where
  "USBEndpointSetMaxPacketSize n = modify (\<lambda>e. e\<lparr>m_nMaxPacketSize := n\<rparr>)"

definition USBEndpointGetMaxPacketSize :: "(TUSBEndpoint, u32) prog" where
  "USBEndpointGetMaxPacketSize = gets m_nMaxPacketSize"

definition USBEndpointGetInterval :: "(TUSBEndpoint, u32) prog" where
  "USBEndpointGetInterval =
     bind (gets m_Type) (\<lambda>ty. bind (UK_ASSERT (ty = EndpointTypeInterrupt)) (\<lambda>_. gets m_nInterval))"

definition USBEndpointGetNextPID :: "bool \<Rightarrow> (TUSBEndpoint, TUSBPID) prog" where
  "USBEndpointGetNextPID bStatusStage =
     (if bStatusStage
      then bind (gets m_Type) (\<lambda>ty.
           bind (UK_ASSERT (ty = EndpointTypeControl)) (\<lambda>_. return USBPIDData1))
      else gets m_NextPID)"

definition USBEndpointSkipPID :: "u32 \<Rightarrow> bool \<Rightarrow> (TUSBEndpoint, unit) prog" where
  "USBEndpointSkipPID nPackets bStatusStage =
     bind (gets m_Type) (\<lambda>ty.
     bind (UK_ASSERT (ty \<in> {EndpointTypeControl, EndpointTypeBulk, EndpointTypeInterrupt})) (\<lambda>_.
     if \<not> bStatusStage then
       bind (gets m_NextPID) (\<lambda>pid. case pid of
           USBPIDSetup \<Rightarrow> modify (\<lambda>e. e\<lparr>m_NextPID := USBPIDData1\<rparr>)
         | USBPIDData0 \<Rightarrow> cond (nPackets AND 1 \<noteq> 0) (modify (\<lambda>e. e\<lparr>m_NextPID := USBPIDData1\<rparr>))
         | USBPIDData1 \<Rightarrow> cond (nPackets AND 1 \<noteq> 0) (modify (\<lambda>e. e\<lparr>m_NextPID := USBPIDData0\<rparr>)))
     else
       bind (UK_ASSERT (ty = EndpointTypeControl)) (\<lambda>_.
       modify (\<lambda>e. e\<lparr>m_NextPID := USBPIDSetup\<rparr>))))"

definition USBEndpointResetPID :: "(TUSBEndpoint, unit) prog" where
  "USBEndpointResetPID =
     bind (gets m_Type) (\<lambda>ty.
     bind (UK_ASSERT (ty = EndpointTypeBulk)) (\<lambda>_. modify (\<lambda>e. e\<lparr>m_NextPID := USBPIDData0\<rparr>)))"

section \<open>Requests\<close>

text \<open>
  Buffers are addresses, 0 is null.  The completion routine is a value; the driver has one
  routine of its own, others belong to the callers of \<open>DWHCIDeviceSubmitAsyncRequest\<close>.
\<close>

datatype completion = DWHCI_CompletionRoutine | Client_CompletionRoutine nat

record TUSBRequest =
  m_pEndpoint :: "nat option"
  m_pSetupData :: u64
  m_pBuffer :: u64
  m_nBufLen :: u32
  m_bStatus :: bool
  m_nResultLen :: u32
  m_pCompletionRoutine :: "completion option"

definition USBRequest :: "nat option \<Rightarrow> u64 \<Rightarrow> u32 \<Rightarrow> u64 \<Rightarrow> (TUSBRequest, unit) prog" where
  "USBRequest pEndpoint pBuffer nBufLen pSetupData = block
     [modify (\<lambda>r. r\<lparr>m_pEndpoint := pEndpoint, m_pSetupData := pSetupData, m_pBuffer := pBuffer,
        m_nBufLen := nBufLen, m_bStatus := False, m_nResultLen := 0, m_pCompletionRoutine := None\<rparr>),
      UK_ASSERT (pEndpoint \<noteq> None),
      UK_ASSERT (pBuffer \<noteq> 0 \<or> nBufLen = 0)]"

definition USBRequest_destroy :: "(TUSBRequest, unit) prog" where
  "USBRequest_destroy = modify (\<lambda>r. r\<lparr>m_pEndpoint := None, m_pSetupData := 0, m_pBuffer := 0,
     m_pCompletionRoutine := None\<rparr>)"

definition USBRequestGetEndpoint :: "(TUSBRequest, nat) prog" where
  "USBRequestGetEndpoint = bind (gets m_pEndpoint) (the_or Assert_failed)"

definition USBRequestSetStatus :: "bool \<Rightarrow> (TUSBRequest, unit) prog" where
  "USBRequestSetStatus b = modify (\<lambda>r. r\<lparr>m_bStatus := b\<rparr>)"

definition USBRequestSetResultLen :: "u32 \<Rightarrow> (TUSBRequest, unit) prog" where
  "USBRequestSetResultLen n = modify (\<lambda>r. r\<lparr>m_nResultLen := n\<rparr>)"

definition USBRequestGetStatus :: "(TUSBRequest, bool) prog" where
  "USBRequestGetStatus = gets m_bStatus"

definition USBRequestGetResultLength :: "(TUSBRequest, u32) prog" where
  "USBRequestGetResultLength =
     bind (gets m_bStatus) (\<lambda>b. bind (UK_ASSERT b) (\<lambda>_. gets m_nResultLen))"

text \<open>The endpoint's type is looked up through the request.\<close>

definition USBRequestGetSetupData :: "TEndpointType \<Rightarrow> (TUSBRequest, u64) prog" where
  "USBRequestGetSetupData endpoint_type =
     bind (UK_ASSERT (endpoint_type = EndpointTypeControl)) (\<lambda>_.
     bind (gets m_pSetupData) (\<lambda>p. bind (UK_ASSERT (p \<noteq> 0)) (\<lambda>_. return p)))"

definition USBRequestGetBuffer :: "(TUSBRequest, u64) prog" where
  "USBRequestGetBuffer =
     bind (gets m_pBuffer) (\<lambda>p.
     bind (gets m_nBufLen) (\<lambda>n.
     bind (UK_ASSERT (p \<noteq> 0 \<or> n = 0)) (\<lambda>_. return p)))"

definition USBRequestGetBufLen :: "(TUSBRequest, u32) prog" where
  "USBRequestGetBufLen = gets m_nBufLen"

definition USBRequestSetCompletionRoutine :: "completion option \<Rightarrow> (TUSBRequest, unit) prog" where
  "USBRequestSetCompletionRoutine pRoutine =
     bind (modify (\<lambda>r. r\<lparr>m_pCompletionRoutine := pRoutine\<rparr>)) (\<lambda>_. UK_ASSERT (pRoutine \<noteq> None))"

definition USBRequestCallCompletionRoutine ::
  "(completion \<Rightarrow> ('s, unit) prog) \<Rightarrow> ('s \<Rightarrow> TUSBRequest) \<Rightarrow> ('s, unit) prog" where
  "USBRequestCallCompletionRoutine call request =
     bind (gets (m_pCompletionRoutine \<circ> request)) (\<lambda>p. bind (the_or Assert_failed p) call)"

section \<open>Facts\<close>

lemma interval_ms_bounds: "1 \<le> interval_ms speed b" "interval_ms speed b \<le> 4096"
proof -
  have u: "ucast i \<le> (255 :: u32)" for i :: u8
    using unat_u8_less [of i] by (simp add: word_le_nat_alt)
  have one: "1 \<le> (ucast i :: u32)" if "1 \<le> i" for i :: u8
    using that by (simp add: word_le_nat_alt)
  have hs: "push_bit (unat (i - 1)) (1 :: u32) div 8 \<le> 4096" if "1 \<le> i" "i \<le> 16" for i :: u8
  proof -
    have "unat (i - 1) \<in> set [0..<16]" using that by (simp add: unat_sub word_le_nat_alt)
    then show ?thesis by (auto simp: upt_rec)
  qed
  show "1 \<le> interval_ms speed b"
    using one [of b] one [of 1]
    by (auto simp: interval_ms_def Let_def word_le_nat_alt word_less_nat_alt)
  show "interval_ms speed b \<le> 4096"
  proof (cases "speed = USBSpeedHigh")
    case False
    then have "interval_ms speed b \<le> 255" using u by (simp add: interval_ms_def Let_def)
    then show ?thesis by (rule order_trans) simp
  next
    case True
    define c where "c = (if b < 1 then 1 else if b > 16 then 16 else b)"
    have "1 \<le> c" "c \<le> 16" by (auto simp: c_def not_less word_le_nat_alt Suc_le_eq unat_gt_0)
    then show ?thesis using True hs [of c] by (auto simp: interval_ms_def c_def Let_def)
  qed
qed

lemma odd_and_1: "n AND 1 \<noteq> 0 \<longleftrightarrow> odd (unat n)" for n :: u32
proof -
  have "odd (unat n) \<longleftrightarrow> bit (unat n) 0" by (simp only: bit_0)
  also have "\<dots> \<longleftrightarrow> bit n 0" by (simp only: bit_unsigned_iff) simp
  also have "\<dots> \<longleftrightarrow> n AND 1 \<noteq> 0" by (simp add: and_one_eq bit_0 odd_iff_mod_2_eq_one)
  finally show ?thesis by simp
qed

lemma SkipPID_run:
  "m_Type e \<in> {EndpointTypeControl, EndpointTypeBulk, EndpointTypeInterrupt} \<Longrightarrow>
   USBEndpointSkipPID n False e = Done () (e\<lparr>m_NextPID :=
     (case m_NextPID e of USBPIDSetup \<Rightarrow> USBPIDData1
      | USBPIDData0 \<Rightarrow> if odd (unat n) then USBPIDData1 else USBPIDData0
      | USBPIDData1 \<Rightarrow> if odd (unat n) then USBPIDData0 else USBPIDData1)\<rparr>)"
  by (auto simp: USBEndpointSkipPID_def bind_run odd_and_1 split: TUSBPID.split)

lemma SkipPID_status_run:
  "m_Type e = EndpointTypeControl \<Longrightarrow>
   USBEndpointSkipPID n True e = Done () (e\<lparr>m_NextPID := USBPIDSetup\<rparr>)"
  by (simp add: USBEndpointSkipPID_def bind_run)

text \<open>
  C28. The data toggle: a bulk or interrupt endpoint that starts at DATA0 and completes transfers of
  \<open>ns\<close> packets sends DATA1 next exactly when the total number of packets is odd (the counts are
  32-bit values; the total is not bounded).
\<close>

theorem data_toggle:
  assumes "m_Type e \<in> {EndpointTypeBulk, EndpointTypeInterrupt}" and "m_NextPID e = USBPIDData0"
  shows "\<exists>e'. for_each ns (\<lambda>n. USBEndpointSkipPID n False) e = Done () e' \<and>
     USBEndpointGetNextPID False e' =
       Done (if odd (sum_list (map unat ns)) then USBPIDData1 else USBPIDData0) e'"
proof -
  have "\<exists>e'. for_each ns (\<lambda>n. USBEndpointSkipPID n False) e = Done () e' \<and>
      m_NextPID e' = (if odd (sum_list (map unat ns)) = (m_NextPID e = USBPIDData0)
                      then USBPIDData1 else USBPIDData0)"
    if "m_Type e \<in> {EndpointTypeBulk, EndpointTypeInterrupt}" and "m_NextPID e \<noteq> USBPIDSetup" for e
    using that
  proof (induction ns arbitrary: e)
    case (Cons n ns)
    obtain p where p: "USBEndpointSkipPID n False e = Done () (e\<lparr>m_NextPID := p\<rparr>)" "p \<noteq> USBPIDSetup"
        "(p = USBPIDData0) = ((m_NextPID e = USBPIDData0) = even (unat n))"
      using Cons.prems by (cases "m_NextPID e") (auto simp: SkipPID_run)
    from Cons.IH [of "e\<lparr>m_NextPID := p\<rparr>"] Cons.prems p(2) obtain e' where
        "for_each ns (\<lambda>n. USBEndpointSkipPID n False) (e\<lparr>m_NextPID := p\<rparr>) = Done () e'"
        "m_NextPID e' = (if odd (sum_list (map unat ns)) = (p = USBPIDData0) then USBPIDData1 else USBPIDData0)"
      by auto
    with p show ?case by (auto simp: bind_run)
  next
    case (Nil e)
    then show ?case by (cases "m_NextPID e") simp_all
  qed
  from this [OF assms(1)] assms(2) show ?thesis
    by (auto simp: USBEndpointGetNextPID_def)
qed

theorem data_toggle_witness:
  "\<exists>e'. for_each [3, 2, 0xFFFFFFFF, 1] (\<lambda>n. USBEndpointSkipPID n False)
      \<lparr>m_pDevice = Some 1, m_ucNumber = 1, m_Type = EndpointTypeBulk, m_bDirectionIn = True,
       m_nMaxPacketSize = 512, m_nInterval = 1, m_NextPID = USBPIDData0\<rparr> = Done () e' \<and>
     USBEndpointGetNextPID False e' = Done USBPIDData1 e'"
  using data_toggle [of "\<lparr>m_pDevice = Some 1, m_ucNumber = 1, m_Type = EndpointTypeBulk,
      m_bDirectionIn = True, m_nMaxPacketSize = 512, m_nInterval = 1, m_NextPID = USBPIDData0\<rparr>"
      "[3, 2, 0xFFFFFFFF, 1]"]
  by simp

end
