(* ===== verification/Timer.thy ===== *)
theory Timer
  imports Services CString
begin

text \<open>
  The kernel timers of \<^verbatim>\<open>eth/lib/timer2.c\<close>: the tick count, the table of armed
  timers, the interrupt handler that counts a tick and polls the table.  The handler
  functions are values of a type \<open>'h\<close> (function, parameter and context in one); what
  calling one does is an argument of the operations that call them.  The timer object is static
  (\<^verbatim>\<open>s_Env.m_Timer\<close>); \<open>s_pTimer\<close> says whether the constructor has registered it.
\<close>

section \<open>State\<close>

definition HZ :: u32 where "HZ = 100"
definition CLOCKHZ :: u32 where "CLOCKHZ = 1000000"
definition KERNEL_TIMERS :: nat where "KERNEL_TIMERS = 20"
definition ARM_SYSTIMER_CS :: u32 where "ARM_SYSTIMER_CS = 0x3F003000"
definition ARM_SYSTIMER_CLO :: u32 where "ARM_SYSTIMER_CLO = 0x3F003004"
definition ARM_SYSTIMER_C3 :: u32 where "ARM_SYSTIMER_C3 = 0x3F003018"

record 'h TKernelTimer =
  m_pHandler :: "'h option"
  m_nElapsesAt :: u32

record 'h TTimer =
  m_nTicks :: u32
  m_nTime :: u32
  m_KernelTimer :: "'h TKernelTimer list"
  m_nMsDelay :: u32
  m_nusDelay :: u32

record 'h timer_hw = hw +
  timer :: "'h TTimer"
  s_pTimer :: bool

definition upd_timer ::
  "('h TTimer \<Rightarrow> 'h TTimer) \<Rightarrow> (('h, 'b) timer_hw_scheme, unit) prog" where
  "upd_timer f = modify (\<lambda>s. s\<lparr>timer := f (timer s)\<rparr>)"

definition set_handler :: "nat \<Rightarrow> 'h option \<Rightarrow> 'h TTimer \<Rightarrow> 'h TTimer" where
  "set_handler i h t =
     t\<lparr>m_KernelTimer := (m_KernelTimer t)[i := (m_KernelTimer t ! i)\<lparr>m_pHandler := h\<rparr>]\<rparr>"

section \<open>Construction and access\<close>

definition Timer :: "(('h, 'b) timer_hw_scheme, unit) prog" where
  "Timer = block
     [upd_timer (\<lambda>t. t\<lparr>m_nTicks := 0, m_nTime := 0, m_nMsDelay := 350000, m_nusDelay := 350\<rparr>),
      bind (gets s_pTimer) (\<lambda>p. UK_ASSERT (\<not> p)),
      modify (\<lambda>s. s\<lparr>s_pTimer := True\<rparr>),
      for_each [0..<KERNEL_TIMERS] (\<lambda>i. upd_timer (set_handler i None))]"

definition Timer_destroy :: "(('h, 'b) timer_hw_scheme, unit) prog" where
  "Timer_destroy = modify (\<lambda>s. s\<lparr>s_pTimer := False\<rparr>)"

definition TimerGet :: "(('h, 'b) timer_hw_scheme, unit) prog" where
  "TimerGet = bind (gets s_pTimer) UK_ASSERT"

definition TimerGetClockTicks :: "('b hw_scheme, u32) prog" where
  "TimerGetClockTicks =
     bind DataMemBarrier (\<lambda>_.
     bind (read32 ARM_SYSTIMER_CLO) (\<lambda>nResult.
     bind DataMemBarrier (\<lambda>_. return nResult)))"

definition TimerGetTicks :: "(('h, 'b) timer_hw_scheme, u32) prog" where
  "TimerGetTicks = gets (m_nTicks \<circ> timer)"

definition TimerGetTime :: "(('h, 'b) timer_hw_scheme, u32) prog" where
  "TimerGetTime = gets (m_nTime \<circ> timer)"

text \<open>The format wants an \<open>unsigned long\<close> for the hundredths; an \<open>unsigned\<close> is passed.\<close>

definition TimerGetTimeString ::
  "TString \<Rightarrow> (('h, 'b) timer_hw_scheme, TString option) prog" where
  "TimerGetTimeString fresh =
     bind uspi_EnterCritical (\<lambda>_.
     bind (gets (m_nTime \<circ> timer)) (\<lambda>nTime.
     bind (gets (m_nTicks \<circ> timer)) (\<lambda>nTicks.
     bind uspi_LeaveCritical (\<lambda>_.
     if nTicks = 0 then return None
     else let nSecond = nTime mod 60; nMinute = nTime div 60 mod 60; nHours = nTime div 60 div 60 in
       bind (zoom (\<lambda>_. String0 fresh) (\<lambda>_ s. s) (bind
          (StringFormat ''%02u:%02u:%02u.%02lu''
            [VInt nHours, VInt nMinute, VInt nSecond, VInt (nTicks mod HZ)]) (\<lambda>_. gets id)))
       (\<lambda>str. return (Some str))))))"

section \<open>Delays on the system timer\<close>

definition TimerSimpleusDelay :: "u32 \<Rightarrow> ('b hw_scheme, unit) prog" where
  "TimerSimpleusDelay nMicroSeconds = cond (nMicroSeconds > 0)
     (let nTicks = nMicroSeconds * (CLOCKHZ div 1000000) in
      bind DataMemBarrier (\<lambda>_.
      bind (read32 ARM_SYSTIMER_CLO) (\<lambda>nStartTicks.
      bind (hw_until (bind (read32 ARM_SYSTIMER_CLO) (\<lambda>now.
          return (if now - nStartTicks < nTicks then None else Some ())))) (\<lambda>_.
      DataMemBarrier))))"

definition TimerSimpleMsDelay :: "u32 \<Rightarrow> ('b hw_scheme, unit) prog" where
  "TimerSimpleMsDelay nMilliSeconds =
     cond (nMilliSeconds > 0) (TimerSimpleusDelay (nMilliSeconds * 1000))"

section \<open>Kernel timers\<close>

fun free_slot :: "'h TKernelTimer list \<Rightarrow> nat" where
  "free_slot [] = 0"
| "free_slot (t # ts) = (if m_pHandler t = None then 0 else Suc (free_slot ts))"

definition TimerStartKernelTimer :: "u32 \<Rightarrow> 'h \<Rightarrow> (('h, 'b) timer_hw_scheme, nat) prog" where
  "TimerStartKernelTimer nDelay pHandler =
     bind uspi_EnterCritical (\<lambda>_.
     bind (gets (free_slot \<circ> take KERNEL_TIMERS \<circ> m_KernelTimer \<circ> timer)) (\<lambda>hTimer.
     if hTimer \<ge> KERNEL_TIMERS then
       bind uspi_LeaveCritical (\<lambda>_.
       bind (bind LoggerGet (\<lambda>l. LoggerWriteV l LogPanic ''System limit of kernel timers exceeded''))
         (\<lambda>_. return 0))
     else
       bind (upd_timer (\<lambda>t. t\<lparr>m_KernelTimer := (m_KernelTimer t)[hTimer :=
          \<lparr>m_pHandler = Some pHandler, m_nElapsesAt = m_nTicks t + nDelay\<rparr>]\<rparr>)) (\<lambda>_.
       bind uspi_LeaveCritical (\<lambda>_. return (hTimer + 1)))))"

definition TimerCancelKernelTimer :: "nat \<Rightarrow> (('h, 'b) timer_hw_scheme, unit) prog" where
  "TimerCancelKernelTimer hTimer =
     bind (UK_ASSERT (1 \<le> hTimer \<and> hTimer \<le> KERNEL_TIMERS)) (\<lambda>_.
     upd_timer (set_handler (hTimer - 1) None))"

definition poll_slot ::
  "(nat \<Rightarrow> 'h \<Rightarrow> (('h, 'b) timer_hw_scheme, unit) prog) \<Rightarrow> nat \<Rightarrow> (('h, 'b) timer_hw_scheme, unit) prog"
  where
  "poll_slot call hTimer =
     bind (gets (\<lambda>s. m_KernelTimer (timer s) ! hTimer)) (\<lambda>pTimer.
     bind (gets (m_nTicks \<circ> timer)) (\<lambda>nTicks.
     case m_pHandler pTimer of
       None \<Rightarrow> return ()
     | Some pHandler \<Rightarrow> cond (m_nElapsesAt pTimer - nTicks <=s 0)
         (block [upd_timer (set_handler hTimer None), call (hTimer + 1) pHandler])))"

definition TimerPollKernelTimers ::
  "(nat \<Rightarrow> 'h \<Rightarrow> (('h, 'b) timer_hw_scheme, unit) prog) \<Rightarrow> (('h, 'b) timer_hw_scheme, unit) prog"
  where
  "TimerPollKernelTimers call = block
     [uspi_EnterCritical, for_each [0..<KERNEL_TIMERS] (poll_slot call), uspi_LeaveCritical]"

definition TimerInterruptHandler ::
  "(nat \<Rightarrow> 'h \<Rightarrow> (('h, 'b) timer_hw_scheme, unit) prog) \<Rightarrow> (('h, 'b) timer_hw_scheme, unit) prog"
  where
  "TimerInterruptHandler call =
     bind DataMemBarrier (\<lambda>_.
     bind (read32 ARM_SYSTIMER_CS) (\<lambda>cs.
     bind (UK_ASSERT (cs AND 8 \<noteq> 0)) (\<lambda>_.
     bind (read32 ARM_SYSTIMER_C3) (\<lambda>c3.
     let nCompare = c3 + CLOCKHZ div HZ in
     bind (write32 ARM_SYSTIMER_C3 nCompare) (\<lambda>_.
     bind (read32 ARM_SYSTIMER_CLO) (\<lambda>clo.
     bind (cond (nCompare < clo)
       (bind (read32 ARM_SYSTIMER_CLO) (\<lambda>clo2.
        write32 ARM_SYSTIMER_C3 (clo2 + CLOCKHZ div HZ)))) (\<lambda>_.
     block [write32 ARM_SYSTIMER_CS 8,
       DataMemBarrier,
       upd_timer (\<lambda>t. let t' = t\<lparr>m_nTicks := m_nTicks t + 1\<rparr> in
         if m_nTicks t' mod HZ = 0 then t'\<lparr>m_nTime := m_nTime t' + 1\<rparr> else t'),
       TimerPollKernelTimers call])))))))"

text \<open>
  The calibration: the ticks that pass during a delay of a second.  Interrupts are delivered
  during the delay; \<open>ticks\<close> is their number.
\<close>

definition TimerTuneMsDelay :: "u32 \<Rightarrow> (('h, 'b) timer_hw_scheme, unit) prog" where
  "TimerTuneMsDelay ticks =
     bind TimerGetTicks (\<lambda>nTicks0.
     bind (MsDelay 1000) (\<lambda>_.
     bind (upd_timer (\<lambda>t. t\<lparr>m_nTicks := m_nTicks t + ticks\<rparr>)) (\<lambda>_.
     bind TimerGetTicks (\<lambda>nTicks1.
     let nTicks = nTicks1 - nTicks0 in
     if nTicks = 0 then halt Div_by_zero
     else let nFactor = 100 * HZ div nTicks in
       upd_timer (\<lambda>t. let t' = t\<lparr>m_nMsDelay := m_nMsDelay t * nFactor div 100\<rparr> in
         t'\<lparr>m_nusDelay := (m_nMsDelay t' + 500) div 1000\<rparr>)))))"

text \<open>
  \<open>rc\<close> is the result of registering the handler with the platform (\<open>ukplat_irq_register\<close>).
\<close>

definition TimerInitialize :: "int \<Rightarrow> u32 \<Rightarrow> (('h, 'b) timer_hw_scheme, bool) prog" where
  "TimerInitialize rc ticks =
     bind (if rc < 0 then halt Crashed else return ()) (\<lambda>_.
     bind (InterruptSystemEnableIRQ 3) (\<lambda>_.
     bind DataMemBarrier (\<lambda>_.
     bind (write32 ARM_SYSTIMER_CLO (- (30 * CLOCKHZ))) (\<lambda>_.
     bind (read32 ARM_SYSTIMER_CLO) (\<lambda>clo.
     bind (write32 ARM_SYSTIMER_C3 (clo + CLOCKHZ div HZ)) (\<lambda>_.
     bind (TimerTuneMsDelay ticks) (\<lambda>_.
     bind DataMemBarrier (\<lambda>_. return True))))))))"

text \<open>\<^verbatim>\<open>uspibind.c\<close>: \<open>StartKernelTimer\<close>.\<close>

definition StartKernelTimer :: "u32 \<Rightarrow> 'h \<Rightarrow> (('h, 'b) timer_hw_scheme, nat) prog" where
  "StartKernelTimer nDelay pHandler =
     bind (emit (EvPrint ''Starting kernel timer.'')) (\<lambda>_.
     bind TimerGet (\<lambda>_. TimerStartKernelTimer nDelay pHandler))"

definition MSEC2HZ :: "u32 \<Rightarrow> u32" where
  "MSEC2HZ msec = msec * HZ div 1000"

section \<open>When a timer is due\<close>

definition due :: "u32 \<Rightarrow> 'h TKernelTimer \<Rightarrow> 'h option" where
  "due now t = (if m_nElapsesAt t - now <=s 0 then m_pHandler t else None)"

lemma sint_small: "n < 2 ^ 31 \<Longrightarrow> sint n = uint n" for n :: u32
proof -
  assume "n < 2 ^ 31"
  then have "uint n < 2 ^ 31" by (simp add: word_less_def)
  moreover have "0 \<le> uint n" by simp
  ultimately have "signed_take_bit 31 (uint n) = uint n"
    by (intro signed_take_bit_int_eq_self) linarith+
  then show ?thesis by (simp add: sint_uint)
qed

lemma due_offset:
  assumes "n < 2 ^ 31" and "k < 2 ^ 31"
  shows "(t0 + n) - (t0 + k) <=s (0 :: u32) \<longleftrightarrow> n \<le> k"
proof -
  have b: "0 \<le> uint n" "uint n < 2 ^ 31" "0 \<le> uint k" "uint k < 2 ^ 31"
    using assms by (simp_all add: word_less_def)
  have "sint (n - k) = signed_take_bit 31 (sint n - sint k)"
    using sint_word_ariths(2) [of n k] by simp
  also have "\<dots> = uint n - uint k"
    unfolding sint_small [OF assms(1)] sint_small [OF assms(2)]
    using b by (intro signed_take_bit_int_eq_self) linarith+
  finally show ?thesis by (simp add: word_sle_eq word_le_def)
qed

lemma free_slot_spec:
  "free_slot ts \<le> length ts" "free_slot ts < length ts \<Longrightarrow> m_pHandler (ts ! free_slot ts) = None"
  "free_slot ts = length ts \<longleftrightarrow> (\<forall>t \<in> set ts. m_pHandler t \<noteq> None)"
  by (induction ts) auto

text \<open>The table has its twenty slots, and keeps them.\<close>

definition timers_ok :: "('h, 'b) timer_hw_scheme \<Rightarrow> bool" where
  "timers_ok s \<longleftrightarrow> length (m_KernelTimer (timer s)) = KERNEL_TIMERS"

text \<open>
  A timer started with a delay of \<open>n\<close> ticks is due after \<open>k\<close> further ticks exactly when
  \<open>n \<le> k\<close>, across the wrap-around of the 32-bit tick count; starting it takes a free slot and
  leaves every other slot as it is, and with the nesting level of the critical sections restored.
\<close>

theorem StartKernelTimer_due:
  assumes "timers_ok s" and "free_slot (m_KernelTimer (timer s)) < KERNEL_TIMERS"
    and "s_nCriticalLevel s < 0xFFFFFFFF" and "n < 2 ^ 31"
  shows "\<exists>i s'. TimerStartKernelTimer n h s = Done (i + 1) s' \<and> i < KERNEL_TIMERS \<and> timers_ok s' \<and>
     m_pHandler (m_KernelTimer (timer s) ! i) = None \<and>
     (\<forall>k < 2 ^ 31. due (m_nTicks (timer s) + k) (m_KernelTimer (timer s') ! i) =
        (if n \<le> k then Some h else None)) \<and>
     (\<forall>j. j \<noteq> i \<longrightarrow> m_KernelTimer (timer s') ! j = m_KernelTimer (timer s) ! j) \<and>
     s_nCriticalLevel s' = s_nCriticalLevel s \<and> m_nTicks (timer s') = m_nTicks (timer s)"
proof -
  let ?i = "free_slot (m_KernelTimer (timer s))"
  have len: "length (m_KernelTimer (timer s)) = KERNEL_TIMERS" using assms(1) by (simp add: timers_ok_def)
  have nz: "s_nCriticalLevel s + 1 \<noteq> 0" using assms(3) by (rule less_max_succ)
  have "wp (TimerStartKernelTimer n h)
     (\<lambda>r s'. r = ?i + 1 \<and> timer s' = (timer s)\<lparr>m_KernelTimer := (m_KernelTimer (timer s))[?i :=
          \<lparr>m_pHandler = Some h, m_nElapsesAt = m_nTicks (timer s) + n\<rparr>]\<rparr> \<and>
        s_nCriticalLevel s' = s_nCriticalLevel s) (\<lambda>_ _. False) s"
    using assms(2) nz len by (simp add: TimerStartKernelTimer_def wp_simps upd_timer_def)
  then obtain s' where s': "TimerStartKernelTimer n h s = Done (?i + 1) s'"
      "timer s' = (timer s)\<lparr>m_KernelTimer := (m_KernelTimer (timer s))[?i :=
          \<lparr>m_pHandler = Some h, m_nElapsesAt = m_nTicks (timer s) + n\<rparr>]\<rparr>"
      "s_nCriticalLevel s' = s_nCriticalLevel s"
    by (auto simp: wp_def split: outcome.splits)
  have "m_pHandler (m_KernelTimer (timer s) ! ?i) = None"
    using assms(2) len by (intro free_slot_spec) simp
  then show ?thesis
    using s' assms(2,4) len due_offset [OF assms(4)]
    by (intro exI [of _ ?i] exI [of _ s']) (auto simp: timers_ok_def due_def)
qed

text \<open>
  What a poll does, when the handlers it calls leave the timers alone: it calls exactly the
  handlers that are due, in the order of their slots, each one after its slot has been freed.
\<close>

definition due_slots :: "u32 \<Rightarrow> 'h TKernelTimer list \<Rightarrow> (nat \<times> 'h) list" where
  "due_slots now ts = concat (map (\<lambda>i. case due now (ts ! i) of None \<Rightarrow> [] | Some h \<Rightarrow> [(i, h)]) [0..<length ts])"

definition quiet ::
  "(nat \<Rightarrow> 'h \<Rightarrow> (('h, 'b) timer_hw_scheme, unit) prog) \<Rightarrow> bool" where
  "quiet call \<longleftrightarrow> (\<forall>i h s. \<exists>t. call i h s = Done () t \<and> timer t = timer s \<and>
     s_nCriticalLevel t = s_nCriticalLevel s)"

lemma poll_slots_run:
  assumes "quiet call" and "distinct is" and "\<forall>i \<in> set is. i < length (m_KernelTimer (timer s))"
  shows "for_each is (poll_slot call) s =
    for_each (concat (map (\<lambda>i. case due (m_nTicks (timer s)) (m_KernelTimer (timer s) ! i) of
        None \<Rightarrow> [] | Some h \<Rightarrow> [(i, h)]) is))
      (\<lambda>(i, h). block [upd_timer (set_handler i None), call (i + 1) h]) s"
  using assms(2,3)
proof (induction "is" arbitrary: s)
  case (Cons i "is")
  let ?t = "m_KernelTimer (timer s) ! i"
  show ?case
  proof (cases "due (m_nTicks (timer s)) ?t")
    case None
    then have "poll_slot call i s = Done () s"
      by (auto simp: poll_slot_def due_def bind_run split: if_splits option.split)
    with None Cons show ?thesis by (simp add: bind_run)
  next
    case (Some h)
    let ?s = "s\<lparr>timer := set_handler i None (timer s)\<rparr>"
    obtain t where t: "call (i + 1) h ?s = Done () t" "timer t = set_handler i None (timer s)"
      using assms(1) by (force simp: quiet_def)
    have run: "poll_slot call i s = Done () t"
      using Some t by (auto simp: poll_slot_def due_def bind_run upd_timer_def split: if_splits)
    have same: "m_KernelTimer (timer t) ! j = m_KernelTimer (timer s) ! j"
        if "j \<noteq> i" for j
      using that by (simp add: t(2) set_handler_def)
    have ticks: "m_nTicks (timer t) = m_nTicks (timer s)"
      by (simp add: t(2) set_handler_def)
    have eq: "map (\<lambda>j. case due (m_nTicks (timer t)) (m_KernelTimer (timer t) ! j) of
          None \<Rightarrow> [] | Some h \<Rightarrow> [(j, h)]) is =
        map (\<lambda>j. case due (m_nTicks (timer s)) (m_KernelTimer (timer s) ! j) of
          None \<Rightarrow> [] | Some h \<Rightarrow> [(j, h)]) is"
    proof (intro map_cong refl)
      fix j
      assume "j \<in> set is"
      then have "m_KernelTimer (timer t) ! j = m_KernelTimer (timer s) ! j"
        using Cons.prems(1) by (intro same) auto
      then show "(case due (m_nTicks (timer t)) (m_KernelTimer (timer t) ! j) of
          None \<Rightarrow> [] | Some h \<Rightarrow> [(j, h)]) = (case due (m_nTicks (timer s)) (m_KernelTimer (timer s) ! j) of
          None \<Rightarrow> [] | Some h \<Rightarrow> [(j, h)])"
        by (simp add: ticks)
    qed
    have "\<forall>j \<in> set is. j < length (m_KernelTimer (timer t))"
      using Cons.prems(2) by (simp add: t(2) set_handler_def)
    note ih = Cons.IH [of t, unfolded eq, OF _ this]
    show ?thesis
      using Some t Cons.prems(1) run by (simp add: bind_run upd_timer_def ih)
  qed
qed simp

text \<open>
  C23. A poll of the kernel timers calls exactly the due handlers, in slot order, each after its slot
  was freed, between entering and leaving a critical section, for all handlers that leave the timer
  table alone.
\<close>

theorem TimerPoll_calls_due:
  assumes "quiet call" and "timers_ok s"
  shows "TimerPollKernelTimers call s = block [uspi_EnterCritical,
     for_each (due_slots (m_nTicks (timer s)) (m_KernelTimer (timer s)))
       (\<lambda>(i, h). block [upd_timer (set_handler i None), call (i + 1) h]),
     uspi_LeaveCritical] s"
proof -
  obtain u where u: "uspi_EnterCritical s = Done () u" "timer u = timer s"
    by (simp add: uspi_EnterCritical_def bind_run DataMemBarrier_def)
  show ?thesis
    using poll_slots_run [OF assms(1), of "[0..<KERNEL_TIMERS]" u] assms(2) u
    by (simp add: TimerPollKernelTimers_def due_slots_def timers_ok_def bind_run)
qed

text \<open>A state with an empty timer table, for closed examples.\<close>

definition timer_hw0 :: "nat timer_hw" where
  "timer_hw0 = \<lparr>mmio_in = [], sleeps = [], rev_trace = [], mem = \<lambda>_. 0, irq_on = True,
     s_nCriticalLevel = 0, s_bWereEnabled = False, log_level = Some LOG_DEBUG,
     timer = \<lparr>m_nTicks = 0xFFFFFFFE, m_nTime = 0,
       m_KernelTimer = replicate KERNEL_TIMERS \<lparr>m_pHandler = None, m_nElapsesAt = 0\<rparr>,
       m_nMsDelay = 0, m_nusDelay = 0\<rparr>,
     s_pTimer = True\<rparr>"

lemma timer_hw0_ok: "timers_ok timer_hw0" "free_slot (m_KernelTimer (timer timer_hw0)) = 0"
  by (simp_all add: timers_ok_def timer_hw0_def KERNEL_TIMERS_def numeral_eq_Suc)

theorem StartKernelTimer_due_witness:
  "\<exists>i s'. TimerStartKernelTimer 5 (0 :: nat) timer_hw0 = Done (i + 1) s' \<and>
     due (0xFFFFFFFE + 4) (m_KernelTimer (timer s') ! i) = None \<and>
     due (0xFFFFFFFE + 5) (m_KernelTimer (timer s') ! i) = Some 0"
proof -
  have c: "s_nCriticalLevel timer_hw0 < 0xFFFFFFFF" "m_nTicks (timer timer_hw0) = 0xFFFFFFFE"
    by (simp_all add: timer_hw0_def)
  obtain i s' where r: "TimerStartKernelTimer 5 (0 :: nat) timer_hw0 = Done (i + 1) s'"
      "\<And>k. k < 2 ^ 31 \<Longrightarrow> due (m_nTicks (timer timer_hw0) + k) (m_KernelTimer (timer s') ! i) =
         (if 5 \<le> k then Some 0 else None)"
    using StartKernelTimer_due [of timer_hw0 5 0] timer_hw0_ok c(1) by (auto simp: KERNEL_TIMERS_def)
  have "due (0xFFFFFFFE + 4) (m_KernelTimer (timer s') ! i) = None"
      "due (0xFFFFFFFE + 5) (m_KernelTimer (timer s') ! i) = Some 0"
    using r(2) [of 4] r(2) [of 5] unfolding c(2) by simp_all
  with r(1) show ?thesis by blast
qed

theorem TimerPoll_calls_due_witness:
  "\<exists>s :: nat timer_hw. timers_ok s \<and> due_slots (m_nTicks (timer s)) (m_KernelTimer (timer s)) = [(0, 7 :: nat)] \<and>
     TimerPollKernelTimers (\<lambda>_ _. return ()) s = block [uspi_EnterCritical,
       for_each [(0, 7 :: nat)] (\<lambda>(i, h). block [upd_timer (set_handler i None), return ()]),
       uspi_LeaveCritical] s"
proof -
  let ?s = "timer_hw0\<lparr>timer := (timer timer_hw0)\<lparr>m_nTicks := 3,
      m_KernelTimer := \<lparr>m_pHandler = Some 7, m_nElapsesAt = 3\<rparr> # replicate 19 \<lparr>m_pHandler = None, m_nElapsesAt = 0\<rparr>\<rparr>\<rparr>"
  have q: "quiet (\<lambda>_ _. return ())" by (simp add: quiet_def)
  have ok: "timers_ok ?s" by (simp add: timers_ok_def KERNEL_TIMERS_def)
  have d: "due_slots (m_nTicks (timer ?s)) (m_KernelTimer (timer ?s)) = [(0, 7)]"
    by (simp add: due_slots_def due_def upt_rec numeral_eq_Suc)
  show ?thesis
    by (rule exI [of _ ?s], intro conjI ok d, rule TimerPoll_calls_due [OF q ok, unfolded d])
qed

end
