(* ===== verification/UsbWorld.thy ===== *)
theory UsbWorld
  imports FrameSched Endpoint Timer
begin

text \<open>
  The state of the USB host driver: the object \<open>TDWHCIDevice\<close> of
  \<^verbatim>\<open>include/uspi/dwhcidevice.h\<close> with the stage data of its channels
  (\<^verbatim>\<open>dwhcixferstagedata.h\<close>), and the objects it reaches through pointers: endpoints,
  requests and devices (\<^verbatim>\<open>usbdevice.h\<close>).  An object is a number in a store of
  its type; the number of an object on the heap is its address.  Data the hardware reads and
  writes (descriptors, buffers) is in the memory of the machine.
\<close>

section \<open>Objects\<close>

datatype TStageState =
  StageStateNoSplitTransfer | StageStateStartSplit | StageStateCompleteSplit |
  StageStatePeriodicDelay | StageStateUnknown

datatype TStageSubState =
  StageSubStateWaitForChannelDisable | StageSubStateWaitForTransactionComplete | StageSubStateUnknown

record TDWHCITransferStageData =
  m_nChannel :: u32
  m_pURB :: "nat option"
  m_bIn :: bool
  m_bStatusStage :: bool
  m_bSplitTransaction :: bool
  m_bSplitComplete :: bool
  sd_pDevice :: "nat option"
  sd_pEndpoint :: "nat option"
  sd_Speed :: TUSBSpeed
  sd_nMaxPacketSize :: u32
  m_nTransferSize :: u32
  m_nPackets :: u32
  m_nBytesPerTransaction :: u32
  m_nPacketsPerTransaction :: u32
  m_nTotalBytesTransfered :: u32
  sd_nState :: TStageState
  m_nSubState :: TStageSubState
  m_nTransactionStatus :: u32
  m_pBufferPointer :: u64
  m_bFrameSchedulerUsed :: bool
  m_FrameScheduler :: TDWHCIFrameScheduler

record TUSBString =
  us_pDevice :: "nat option"
  m_pUSBString :: u64
  m_pString :: u64

record TUSBDevice =
  m_pHost :: bool
  m_ucAddress :: u8
  m_Speed :: TUSBSpeed
  m_pEndpoint0 :: "nat option"
  m_bSplitTransfer :: bool
  m_ucHubAddress :: u8
  m_ucHubPortNumber :: u8
  m_pDeviceDesc :: u64
  m_pConfigDesc :: u64
  m_pConfigParser :: u64
  m_ManufacturerString :: TUSBString
  m_ProductString :: TUSBString
  m_pFunction :: "u64 list"

text \<open>
  Interrupts are delivered while the driver spins on \<open>m_bWaiting\<close> with interrupts enabled;
  \<open>irqs\<close> lists the ones to come.  \<open>mallocs\<close> lists the addresses the allocator
  will return, a null pointer when it has none.  \<open>temp_addr\<close> holds the addresses of the
  buffers \<open>m_TempBuffer\<close>, \<open>setup_addr\<close> the address of the local \<open>SetupData\<close>,
  \<open>junk\<close> what unwritten memory holds.  \<open>completed\<close> records the calls of the
  completion routines of other callers, which are not part of the driver.
\<close>

datatype irq = IRQ_USB | IRQ_TIMER

record usb = "nat timer_hw" +
  m_nChannels :: u32
  m_nChannelAllocated :: u32
  m_StageData :: "nat \<Rightarrow> TDWHCITransferStageData"
  m_bWaiting :: bool
  endpoints :: "nat \<Rightarrow> TUSBEndpoint"
  urbs :: "nat \<Rightarrow> TUSBRequest"
  devs :: "nat \<Rightarrow> TUSBDevice"
  rootport_device :: "nat option"
  s_ucNextAddress :: u8
  irqs :: "irq list"
  mallocs :: "u64 list"
  temp_addr :: "nat \<Rightarrow> u64"
  setup_addr :: u64
  junk :: u32
  completed :: "nat list"

section \<open>Access\<close>

definition on_endpoint :: "nat \<Rightarrow> (TUSBEndpoint, 'a) prog \<Rightarrow> ('b usb_scheme, 'a) prog" where
  "on_endpoint i = zoom (\<lambda>s. endpoints s i) (\<lambda>e s. s\<lparr>endpoints := (endpoints s)(i := e)\<rparr>)"

definition on_urb :: "nat \<Rightarrow> (TUSBRequest, 'a) prog \<Rightarrow> ('b usb_scheme, 'a) prog" where
  "on_urb i = zoom (\<lambda>s. urbs s i) (\<lambda>e s. s\<lparr>urbs := (urbs s)(i := e)\<rparr>)"

definition upd_stage ::
  "nat \<Rightarrow> (TDWHCITransferStageData \<Rightarrow> TDWHCITransferStageData) \<Rightarrow> ('b usb_scheme, unit) prog" where
  "upd_stage c f = modify (\<lambda>s. s\<lparr>m_StageData := (m_StageData s)(c := f (m_StageData s c))\<rparr>)"

definition get_stage :: "nat \<Rightarrow> (TDWHCITransferStageData \<Rightarrow> 'a) \<Rightarrow> ('b usb_scheme, 'a) prog" where
  "get_stage c f = gets (\<lambda>s. f (m_StageData s c))"

definition malloc :: "('b usb_scheme, u64) prog" where
  "malloc = (\<lambda>s. case mallocs s of [] \<Rightarrow> Done 0 s | p # ps \<Rightarrow> Done p (s\<lparr>mallocs := ps\<rparr>))"

lemma wp_on_endpoint [wp_simps]:
  "wp (on_endpoint i m) Q E s =
     wp m (\<lambda>x e. Q x (s\<lparr>endpoints := (endpoints s)(i := e)\<rparr>))
       (\<lambda>h e. E h (s\<lparr>endpoints := (endpoints s)(i := e)\<rparr>)) (endpoints s i)"
  by (simp add: on_endpoint_def wp_zoom)

lemma wp_on_urb [wp_simps]:
  "wp (on_urb i m) Q E s =
     wp m (\<lambda>x e. Q x (s\<lparr>urbs := (urbs s)(i := e)\<rparr>)) (\<lambda>h e. E h (s\<lparr>urbs := (urbs s)(i := e)\<rparr>)) (urbs s i)"
  by (simp add: on_urb_def wp_zoom)

lemma wp_upd_stage [wp_simps]:
  "wp (upd_stage c f) Q E s = Q () (s\<lparr>m_StageData := (m_StageData s)(c := f (m_StageData s c))\<rparr>)"
  by (simp add: upd_stage_def wp_simps)

lemma wp_get_stage [wp_simps]: "wp (get_stage c f) Q E s = Q (f (m_StageData s c)) s"
  by (simp add: get_stage_def wp_simps)

lemma wp_malloc [wp_simps]:
  "wp malloc Q E s = (case mallocs s of [] \<Rightarrow> Q 0 s | p # ps \<Rightarrow> Q p (s\<lparr>mallocs := ps\<rparr>))"
  by (simp add: malloc_def wp_def split: list.split)

lemma same_store [simp]: "f(i := f i) = f"
  by simp

lemma usb_upd_same [simp]:
  "s\<lparr>endpoints := endpoints s\<rparr> = (s :: 'b usb_scheme)" "s\<lparr>urbs := urbs s\<rparr> = s"
  "s\<lparr>m_StageData := m_StageData s\<rparr> = s"
  by simp_all

section \<open>Rules of the endpoint and request operations\<close>

lemma wp_endpoint_get [wp_simps]:
  "wp USBEndpointGetType Q1 E e = Q1 (m_Type e) e"
  "wp USBEndpointGetNumber Q2 E e = Q2 (m_ucNumber e) e"
  "wp USBEndpointIsDirectionIn Q3 E e = Q3 (m_bDirectionIn e) e"
  "wp USBEndpointGetMaxPacketSize Q4 E e = Q4 (m_nMaxPacketSize e) e"
  "wp USBEndpointGetDevice Q5 E e = (case m_pDevice e of None \<Rightarrow> E Assert_failed e | Some d \<Rightarrow> Q5 d e)"
  by (simp_all add: USBEndpointGetType_def USBEndpointGetNumber_def USBEndpointIsDirectionIn_def
      USBEndpointGetMaxPacketSize_def USBEndpointGetDevice_def wp_simps)

lemma wp_endpoint_set [wp_simps]:
  "wp (USBEndpointSetMaxPacketSize n) Q E e = Q () (e\<lparr>m_nMaxPacketSize := n\<rparr>)"
  "wp (USBEndpoint_destroy) Q E e = Q () (e\<lparr>m_pDevice := None\<rparr>)"
  by (simp_all add: USBEndpointSetMaxPacketSize_def USBEndpoint_destroy_def wp_simps)

lemma wp_endpoint_interval [wp_simps]:
  "wp USBEndpointGetInterval Q E e =
     (if m_Type e = EndpointTypeInterrupt then Q (m_nInterval e) e else E Assert_failed e)"
  by (simp add: USBEndpointGetInterval_def wp_simps)

lemma wp_endpoint_pid [wp_simps]:
  "wp (USBEndpointGetNextPID b) Q E e =
     (if b then if m_Type e = EndpointTypeControl then Q USBPIDData1 e else E Assert_failed e
      else Q (m_NextPID e) e)"
  by (simp add: USBEndpointGetNextPID_def wp_simps)

lemma wp_SkipPID:
  assumes "\<And>p. Q () (e\<lparr>m_NextPID := p\<rparr>)" and "E Assert_failed e"
  shows "wp (USBEndpointSkipPID n b) Q E e"
proof -
  have "Q () e" using assms(1) [of "m_NextPID e"] by simp
  with assms show ?thesis
    by (auto simp: USBEndpointSkipPID_def wp_simps split: TUSBPID.split)
qed

lemma wp_request_get [wp_simps]:
  "wp USBRequestGetEndpoint Q1 E r = (case m_pEndpoint r of None \<Rightarrow> E Assert_failed r | Some e \<Rightarrow> Q1 e r)"
  "wp USBRequestGetStatus Q2 E r = Q2 (m_bStatus r) r"
  "wp USBRequestGetResultLength Q3 E r = (if m_bStatus r then Q3 (m_nResultLen r) r else E Assert_failed r)"
  "wp USBRequestGetBuffer Q4 E r =
     (if TUSBRequest.m_pBuffer r \<noteq> 0 \<or> m_nBufLen r = 0 then Q4 (TUSBRequest.m_pBuffer r) r else E Assert_failed r)"
  "wp USBRequestGetBufLen Q3 E r = Q3 (m_nBufLen r) r"
  by (simp_all add: USBRequestGetEndpoint_def USBRequestGetStatus_def USBRequestGetResultLength_def
      USBRequestGetBuffer_def USBRequestGetBufLen_def wp_simps)

lemma wp_request_setup [wp_simps]:
  "wp (USBRequestGetSetupData ty) Q E r =
     (if ty = EndpointTypeControl \<and> m_pSetupData r \<noteq> 0 then Q (m_pSetupData r) r else E Assert_failed r)"
  by (simp add: USBRequestGetSetupData_def wp_simps)

lemma wp_request_set [wp_simps]:
  "wp (USBRequestSetStatus b) Q E r = Q () (r\<lparr>m_bStatus := b\<rparr>)"
  "wp (USBRequestSetResultLen n) Q E r = Q () (r\<lparr>m_nResultLen := n\<rparr>)"
  "wp USBRequest_destroy Q E r = Q () (r\<lparr>m_pEndpoint := None, m_pSetupData := 0, TUSBRequest.m_pBuffer := 0,
     m_pCompletionRoutine := None\<rparr>)"
  by (simp_all add: USBRequestSetStatus_def USBRequestSetResultLen_def USBRequest_destroy_def wp_simps)

section \<open>A state for closed examples\<close>

text \<open>
  A full-speed bulk endpoint 1 of device 1 at a port of the root, and a request 0 with a buffer of
  20 bytes for it; the controller has eight channels, and none is in use.
\<close>

definition stage0 :: TDWHCITransferStageData where
  "stage0 = \<lparr>m_nChannel = 0, m_pURB = None, m_bIn = False, m_bStatusStage = False,
     m_bSplitTransaction = False, m_bSplitComplete = False, sd_pDevice = None, sd_pEndpoint = None,
     sd_Speed = USBSpeedUnknown, sd_nMaxPacketSize = 0, m_nTransferSize = 0, m_nPackets = 0,
     m_nBytesPerTransaction = 0, m_nPacketsPerTransaction = 0, m_nTotalBytesTransfered = 0,
     sd_nState = StageStateNoSplitTransfer, m_nSubState = StageSubStateWaitForChannelDisable,
     m_nTransactionStatus = 0, m_pBufferPointer = 0, m_bFrameSchedulerUsed = False,
     m_FrameScheduler = NoSplit (DWHCIFrameSchedulerNoSplit False)\<rparr>"

definition endpoint1 :: TUSBEndpoint where
  "endpoint1 = \<lparr>m_pDevice = Some 1, m_ucNumber = 1, m_Type = EndpointTypeBulk, m_bDirectionIn = True,
     m_nMaxPacketSize = 8, m_nInterval = 1, m_NextPID = USBPIDData0\<rparr>"

definition urb0 :: TUSBRequest where
  "urb0 = \<lparr>m_pEndpoint = Some 1, m_pSetupData = 0, m_pBuffer = 0x1000, m_nBufLen = 20, m_bStatus = False,
     m_nResultLen = 0, m_pCompletionRoutine = None\<rparr>"

definition string0 :: TUSBString where
  "string0 = \<lparr>us_pDevice = Some 1, m_pUSBString = 0, m_pString = 0\<rparr>"

definition device1 :: TUSBDevice where
  "device1 = \<lparr>m_pHost = True, m_ucAddress = 1, m_Speed = USBSpeedHigh, m_pEndpoint0 = Some 2,
     m_bSplitTransfer = False, m_ucHubAddress = 0, m_ucHubPortNumber = 1, m_pDeviceDesc = 0,
     m_pConfigDesc = 0, m_pConfigParser = 0, m_ManufacturerString = string0,
     m_ProductString = string0, m_pFunction = replicate 10 0\<rparr>"

definition usb0 :: usb where
  "usb0 = \<lparr>mmio_in = [], sleeps = [], rev_trace = [], mem = \<lambda>_. 0, irq_on = True,
     s_nCriticalLevel = 0, s_bWereEnabled = False, log_level = Some LOG_DEBUG,
     timer = timer timer_hw0, s_pTimer = False,
     m_nChannels = 8, m_nChannelAllocated = 0, m_StageData = \<lambda>_. stage0, m_bWaiting = False,
     endpoints = \<lambda>_. endpoint1, urbs = \<lambda>_. urb0, devs = \<lambda>_. device1, rootport_device = None,
     s_ucNextAddress = 1, irqs = [], mallocs = [], temp_addr = \<lambda>c. 0x8000 + 4 * of_nat c,
     setup_addr = 0x9000, junk = 0, completed = []\<rparr>"

lemma sleep_ok_usb0: "sleep_ok usb0"
  by (simp add: sleep_ok_def usb0_def)

end
