(* ===== verification/StageData.thy ===== *)
theory StageData
  imports UsbWorld
begin

text \<open>
  The stage of a transfer on a channel: \<^verbatim>\<open>eth/lib/dwhcixferstagedata.c\<close>.  The
  object of channel \<open>c\<close> is \<open>m_StageData s c\<close>; every operation takes the channel
  in place of the pointer.
\<close>

section \<open>Construction\<close>

definition sizeof_TSetupData :: u32 where "sizeof_TSetupData = 8"

definition DWHCITransferStageDataIsPeriodic :: "nat \<Rightarrow> ('b usb_scheme, bool) prog" where
  "DWHCITransferStageDataIsPeriodic c =
     bind (get_stage c sd_pEndpoint) (\<lambda>p.
     bind (the_or Assert_failed p) (\<lambda>ep.
     bind (on_endpoint ep USBEndpointGetType) (\<lambda>ty.
     return (ty = EndpointTypeInterrupt \<or> ty = EndpointTypeIsochronous))))"

definition URB_SetupData :: "nat \<Rightarrow> nat \<Rightarrow> ('b usb_scheme, u64) prog" where
  "URB_SetupData u ep = bind (on_endpoint ep USBEndpointGetType) (\<lambda>ty. on_urb u (USBRequestGetSetupData ty))"

text \<open>The buffer and the size of a stage that carries data.\<close>

definition stage_buffer :: "nat \<Rightarrow> nat \<Rightarrow> ('b usb_scheme, u64 \<times> u32) prog" where
  "stage_buffer u ep =
     bind (on_endpoint ep (USBEndpointGetNextPID False)) (\<lambda>pid.
     if pid = USBPIDSetup
     then bind (URB_SetupData u ep) (\<lambda>p. return (p, sizeof_TSetupData))
     else bind (on_urb u USBRequestGetBuffer) (\<lambda>p.
          bind (on_urb u USBRequestGetBufLen) (\<lambda>n. return (p, n))))"

definition set_data_stage :: "u64 \<Rightarrow> u32 \<Rightarrow> TDWHCITransferStageData \<Rightarrow> TDWHCITransferStageData" where
  "set_data_stage p n d =
     (let packets = (n + sd_nMaxPacketSize d - 1) div sd_nMaxPacketSize d;
          d' = d\<lparr>m_pBufferPointer := p, m_nTransferSize := n, m_nPackets := packets\<rparr>
      in if m_bSplitTransaction d
         then d'\<lparr>m_nBytesPerTransaction := (if n > sd_nMaxPacketSize d then sd_nMaxPacketSize d else n),
                 m_nPacketsPerTransaction := 1\<rparr>
         else d'\<lparr>m_nBytesPerTransaction := n, m_nPacketsPerTransaction := packets\<rparr>)"

definition set_status_stage :: "u64 \<Rightarrow> TDWHCITransferStageData \<Rightarrow> TDWHCITransferStageData" where
  "set_status_stage temp d =
     d\<lparr>m_pBufferPointer := temp, m_nTransferSize := 0, m_nBytesPerTransaction := 0, m_nPackets := 1,
       m_nPacketsPerTransaction := 1\<rparr>"

definition set_scheduler :: "nat \<Rightarrow> u8 \<Rightarrow> ('b usb_scheme, unit) prog" where
  "set_scheduler c hub =
     bind (get_stage c m_bSplitTransaction) (\<lambda>split.
     bind (get_stage c sd_Speed) (\<lambda>speed.
     bind (gets junk) (\<lambda>tries.
     if split then
       bind (DWHCITransferStageDataIsPeriodic c) (\<lambda>periodic.
       upd_stage c (\<lambda>d. d\<lparr>m_FrameScheduler :=
           (if periodic then Periodic (DWHCIFrameSchedulerPeriodic tries)
            else NonPeriodic (DWHCIFrameSchedulerNonPeriodic tries)),
         m_bFrameSchedulerUsed := True\<rparr>))
     else if hub = 0 \<and> speed \<noteq> USBSpeedHigh then
       bind (DWHCITransferStageDataIsPeriodic c) (\<lambda>periodic.
       upd_stage c (\<lambda>d. d\<lparr>m_FrameScheduler := NoSplit (DWHCIFrameSchedulerNoSplit periodic),
         m_bFrameSchedulerUsed := True\<rparr>))
     else return ())))"

definition DWHCITransferStageData ::
  "nat \<Rightarrow> nat \<Rightarrow> bool \<Rightarrow> bool \<Rightarrow> ('b usb_scheme, unit) prog" where
  "DWHCITransferStageData c pURB bIn bStatusStage =
     bind (upd_stage c (\<lambda>d. d\<lparr>m_nChannel := of_nat c, m_pURB := Some pURB, m_bIn := bIn,
        m_bStatusStage := bStatusStage, m_bSplitComplete := False, m_nTotalBytesTransfered := 0,
        sd_nState := StageStateNoSplitTransfer, m_nSubState := StageSubStateWaitForChannelDisable,
        m_nTransactionStatus := 0, m_bFrameSchedulerUsed := False\<rparr>)) (\<lambda>_.
     bind (on_urb pURB USBRequestGetEndpoint) (\<lambda>ep.
     bind (upd_stage c (\<lambda>d. d\<lparr>sd_pEndpoint := Some ep\<rparr>)) (\<lambda>_.
     bind (on_endpoint ep USBEndpointGetDevice) (\<lambda>dev.
     bind (gets (\<lambda>s. devs s dev)) (\<lambda>D.
     bind (on_endpoint ep USBEndpointGetMaxPacketSize) (\<lambda>maxp.
     bind (upd_stage c (\<lambda>d. d\<lparr>sd_pDevice := Some dev, sd_Speed := TUSBDevice.m_Speed D, sd_nMaxPacketSize := maxp,
        m_bSplitTransaction := (m_ucHubAddress D \<noteq> 0 \<and> TUSBDevice.m_Speed D \<noteq> USBSpeedHigh)\<rparr>)) (\<lambda>_.
     bind (if \<not> bStatusStage then
             bind (stage_buffer pURB ep) (\<lambda>(p, n).
             if maxp = 0 then halt Div_by_zero else upd_stage c (set_data_stage p n))
           else bind (gets (\<lambda>s. temp_addr s c)) (\<lambda>t. upd_stage c (set_status_stage t))) (\<lambda>_.
     bind (get_stage c m_pBufferPointer) (\<lambda>p.
     bind (UK_ASSERT (p \<noteq> 0)) (\<lambda>_.
     bind (UK_ASSERT (p AND 3 = 0)) (\<lambda>_.
     set_scheduler c (m_ucHubAddress D))))))))))))"

definition DWHCITransferStageData_destroy :: "nat \<Rightarrow> ('b usb_scheme, unit) prog" where
  "DWHCITransferStageData_destroy c = upd_stage c (\<lambda>d.
     (if m_bFrameSchedulerUsed d then d\<lparr>m_FrameScheduler := FS_destroy (m_FrameScheduler d)\<rparr> else d)
       \<lparr>m_pBufferPointer := 0, sd_pEndpoint := None, sd_pDevice := None, m_pURB := None\<rparr>)"

section \<open>The end of a transaction\<close>

definition stage_transfered :: "u32 \<Rightarrow> u32 \<Rightarrow> TDWHCITransferStageData \<Rightarrow> u32 \<times> u32" where
  "stage_transfered nPacketsLeft nBytesLeft d =
     (let packets = m_nPacketsPerTransaction d - nPacketsLeft;
          bytes = m_nBytesPerTransaction d - nBytesLeft
      in (packets, if m_bSplitTransaction d \<and> m_bSplitComplete d \<and> bytes = 0 \<and> m_nBytesPerTransaction d > 0
          then sd_nMaxPacketSize d * packets else bytes))"

definition DWHCITransferStageDataTransactionComplete ::
  "nat \<Rightarrow> u32 \<Rightarrow> u32 \<Rightarrow> u32 \<Rightarrow> ('b usb_scheme, unit) prog" where
  "DWHCITransferStageDataTransactionComplete c nStatus nPacketsLeft nBytesLeft =
     bind (upd_stage c (\<lambda>d. d\<lparr>m_nTransactionStatus := nStatus\<rparr>)) (\<lambda>_.
     if nStatus AND (CHAN_INT_ERROR_MASK OR CHAN_INT_NAK OR CHAN_INT_NYET) \<noteq> 0 then return ()
     else
     bind (get_stage c (stage_transfered nPacketsLeft nBytesLeft)) (\<lambda>(nPacketsTransfered, nBytesTransfered).
     bind (upd_stage c (\<lambda>d. d\<lparr>m_nTotalBytesTransfered := m_nTotalBytesTransfered d + nBytesTransfered,
        m_pBufferPointer := m_pBufferPointer d + ucast nBytesTransfered\<rparr>)) (\<lambda>_.
     bind (get_stage c (\<lambda>d. d)) (\<lambda>d.
     bind (cond (\<not> m_bSplitTransaction d \<or> m_bSplitComplete d)
       (bind (the_or Assert_failed (sd_pEndpoint d)) (\<lambda>ep.
        on_endpoint ep (USBEndpointSkipPID nPacketsTransfered (m_bStatusStage d))))) (\<lambda>_.
     bind (UK_ASSERT (nPacketsTransfered \<le> m_nPackets d)) (\<lambda>_.
     bind (upd_stage c (\<lambda>d. d\<lparr>m_nPackets := m_nPackets d - nPacketsTransfered\<rparr>)) (\<lambda>_.
     cond (m_nTransferSize d - m_nTotalBytesTransfered d < m_nBytesPerTransaction d)
       (bind (UK_ASSERT (m_nTotalBytesTransfered d \<le> m_nTransferSize d)) (\<lambda>_.
        upd_stage c (\<lambda>d. d\<lparr>m_nBytesPerTransaction := m_nTransferSize d - m_nTotalBytesTransfered d\<rparr>))))))))))"

section \<open>Access\<close>

definition DWHCITransferStageDataSetSplitComplete :: "nat \<Rightarrow> bool \<Rightarrow> ('b usb_scheme, unit) prog" where
  "DWHCITransferStageDataSetSplitComplete c bComplete =
     bind (get_stage c m_bSplitTransaction) (\<lambda>b. bind (UK_ASSERT b) (\<lambda>_.
     upd_stage c (\<lambda>d. d\<lparr>m_bSplitComplete := bComplete\<rparr>)))"

definition DWHCITransferStageDataSetState :: "nat \<Rightarrow> TStageState \<Rightarrow> ('b usb_scheme, unit) prog" where
  "DWHCITransferStageDataSetState c nState = upd_stage c (\<lambda>d. d\<lparr>sd_nState := nState\<rparr>)"

definition DWHCITransferStageDataGetState :: "nat \<Rightarrow> ('b usb_scheme, TStageState) prog" where
  "DWHCITransferStageDataGetState c = get_stage c sd_nState"

definition DWHCITransferStageDataSetSubState :: "nat \<Rightarrow> TStageSubState \<Rightarrow> ('b usb_scheme, unit) prog" where
  "DWHCITransferStageDataSetSubState c nSubState = upd_stage c (\<lambda>d. d\<lparr>m_nSubState := nSubState\<rparr>)"

definition DWHCITransferStageDataGetSubState :: "nat \<Rightarrow> ('b usb_scheme, TStageSubState) prog" where
  "DWHCITransferStageDataGetSubState c = get_stage c m_nSubState"

definition DWHCITransferStageDataBeginSplitCycle :: "nat \<Rightarrow> ('b usb_scheme, bool) prog" where
  "DWHCITransferStageDataBeginSplitCycle c = return True"

definition DWHCITransferStageDataGetChannelNumber :: "nat \<Rightarrow> ('b usb_scheme, u32) prog" where
  "DWHCITransferStageDataGetChannelNumber c = get_stage c m_nChannel"

definition DWHCITransferStageDataGetDeviceAddress :: "nat \<Rightarrow> ('b usb_scheme, u8) prog" where
  "DWHCITransferStageDataGetDeviceAddress c =
     bind (get_stage c sd_pDevice) (\<lambda>p. bind (the_or Assert_failed p) (\<lambda>d. gets (\<lambda>s. m_ucAddress (devs s d))))"

definition DWHCITransferStageDataGetEndpointType :: "nat \<Rightarrow> ('b usb_scheme, u8) prog" where
  "DWHCITransferStageDataGetEndpointType c =
     bind (get_stage c sd_pEndpoint) (\<lambda>p.
     bind (the_or Assert_failed p) (\<lambda>ep.
     bind (on_endpoint ep USBEndpointGetType) (\<lambda>ty. case ty of
         EndpointTypeControl \<Rightarrow> return 0
       | EndpointTypeBulk \<Rightarrow> return 2
       | EndpointTypeInterrupt \<Rightarrow> return 3
       | _ \<Rightarrow> halt Assert_failed)))"

definition DWHCITransferStageDataGetEndpointNumber :: "nat \<Rightarrow> ('b usb_scheme, u8) prog" where
  "DWHCITransferStageDataGetEndpointNumber c =
     bind (get_stage c sd_pEndpoint) (\<lambda>p.
     bind (the_or Assert_failed p) (\<lambda>ep. on_endpoint ep USBEndpointGetNumber))"

definition DWHCITransferStageDataGetMaxPacketSize :: "nat \<Rightarrow> ('b usb_scheme, u32) prog" where
  "DWHCITransferStageDataGetMaxPacketSize c = get_stage c sd_nMaxPacketSize"

definition DWHCITransferStageDataGetSpeed :: "nat \<Rightarrow> ('b usb_scheme, TUSBSpeed) prog" where
  "DWHCITransferStageDataGetSpeed c = get_stage c sd_Speed"

definition DWHCITransferStageDataGetPID :: "nat \<Rightarrow> ('b usb_scheme, u8) prog" where
  "DWHCITransferStageDataGetPID c =
     bind (get_stage c sd_pEndpoint) (\<lambda>p.
     bind (the_or Assert_failed p) (\<lambda>ep.
     bind (get_stage c m_bStatusStage) (\<lambda>st.
     bind (on_endpoint ep (USBEndpointGetNextPID st)) (\<lambda>pid.
     return (case pid of USBPIDSetup \<Rightarrow> 3 | USBPIDData0 \<Rightarrow> 0 | USBPIDData1 \<Rightarrow> 2)))))"

definition DWHCITransferStageDataIsDirectionIn :: "nat \<Rightarrow> ('b usb_scheme, bool) prog" where
  "DWHCITransferStageDataIsDirectionIn c = get_stage c m_bIn"

definition DWHCITransferStageDataIsStatusStage :: "nat \<Rightarrow> ('b usb_scheme, bool) prog" where
  "DWHCITransferStageDataIsStatusStage c = get_stage c m_bStatusStage"

definition DWHCITransferStageDataGetDMAAddress :: "nat \<Rightarrow> ('b usb_scheme, u32) prog" where
  "DWHCITransferStageDataGetDMAAddress c =
     bind (get_stage c m_pBufferPointer) (\<lambda>p. bind (UK_ASSERT (p \<noteq> 0)) (\<lambda>_. return (ucast p)))"

definition DWHCITransferStageDataGetBytesToTransfer :: "nat \<Rightarrow> ('b usb_scheme, u32) prog" where
  "DWHCITransferStageDataGetBytesToTransfer c = get_stage c m_nBytesPerTransaction"

definition DWHCITransferStageDataGetPacketsToTransfer :: "nat \<Rightarrow> ('b usb_scheme, u32) prog" where
  "DWHCITransferStageDataGetPacketsToTransfer c = get_stage c m_nPacketsPerTransaction"

definition DWHCITransferStageDataIsSplit :: "nat \<Rightarrow> ('b usb_scheme, bool) prog" where
  "DWHCITransferStageDataIsSplit c = get_stage c m_bSplitTransaction"

definition DWHCITransferStageDataIsSplitComplete :: "nat \<Rightarrow> ('b usb_scheme, bool) prog" where
  "DWHCITransferStageDataIsSplitComplete c =
     bind (get_stage c m_bSplitTransaction) (\<lambda>b. bind (UK_ASSERT b) (\<lambda>_. get_stage c m_bSplitComplete))"

definition stage_split_device :: "nat \<Rightarrow> (TUSBDevice \<Rightarrow> 'a) \<Rightarrow> ('b usb_scheme, 'a) prog" where
  "stage_split_device c f =
     bind (get_stage c m_bSplitTransaction) (\<lambda>b.
     bind (UK_ASSERT b) (\<lambda>_.
     bind (get_stage c sd_pDevice) (\<lambda>p.
     bind (the_or Assert_failed p) (\<lambda>d. gets (\<lambda>s. f (devs s d))))))"

definition DWHCITransferStageDataGetHubAddress :: "nat \<Rightarrow> ('b usb_scheme, u8) prog" where
  "DWHCITransferStageDataGetHubAddress c = stage_split_device c m_ucHubAddress"

definition DWHCITransferStageDataGetHubPortAddress :: "nat \<Rightarrow> ('b usb_scheme, u8) prog" where
  "DWHCITransferStageDataGetHubPortAddress c = stage_split_device c m_ucHubPortNumber"

definition DWHCITransferStageDataGetSplitPosition :: "nat \<Rightarrow> ('b usb_scheme, u8) prog" where
  "DWHCITransferStageDataGetSplitPosition c = return 3"

definition DWHCITransferStageDataGetStatusMask :: "nat \<Rightarrow> ('b usb_scheme, u32) prog" where
  "DWHCITransferStageDataGetStatusMask c =
     (let nMask = CHAN_INT_XFER_COMPLETE OR CHAN_INT_HALTED OR CHAN_INT_ERROR_MASK;
          all = return (nMask OR (CHAN_INT_ACK OR CHAN_INT_NAK OR CHAN_INT_NYET))
      in bind (get_stage c m_bSplitTransaction) (\<lambda>split.
         if split then all
         else bind (DWHCITransferStageDataIsPeriodic c) (\<lambda>periodic. if periodic then all else return nMask)))"

definition DWHCITransferStageDataGetTransactionStatus :: "nat \<Rightarrow> ('b usb_scheme, u32) prog" where
  "DWHCITransferStageDataGetTransactionStatus c =
     bind (get_stage c m_nTransactionStatus) (\<lambda>st. bind (UK_ASSERT (st \<noteq> 0)) (\<lambda>_. return st))"

definition DWHCITransferStageDataIsStageComplete :: "nat \<Rightarrow> ('b usb_scheme, bool) prog" where
  "DWHCITransferStageDataIsStageComplete c = get_stage c (\<lambda>d. m_nPackets d = 0)"

definition DWHCITransferStageDataGetResultLen :: "nat \<Rightarrow> ('b usb_scheme, u32) prog" where
  "DWHCITransferStageDataGetResultLen c = get_stage c (\<lambda>d.
     if m_nTotalBytesTransfered d > m_nTransferSize d then m_nTransferSize d else m_nTotalBytesTransfered d)"

definition DWHCITransferStageDataGetURB :: "nat \<Rightarrow> ('b usb_scheme, nat) prog" where
  "DWHCITransferStageDataGetURB c = bind (get_stage c m_pURB) (the_or Assert_failed)"

definition DWHCITransferStageDataGetFrameScheduler ::
  "nat \<Rightarrow> ('b usb_scheme, TDWHCIFrameScheduler option) prog" where
  "DWHCITransferStageDataGetFrameScheduler c =
     get_stage c (\<lambda>d. if m_bFrameSchedulerUsed d then Some (m_FrameScheduler d) else None)"

text \<open>
  A call through the pointer to the frame scheduler of a channel works on the scheduler in place; a
  null pointer is an error.
\<close>

definition on_scheduler ::
  "nat \<Rightarrow> (TDWHCIFrameScheduler \<Rightarrow> ('b usb_scheme, 'a \<times> TDWHCIFrameScheduler) prog) \<Rightarrow> ('b usb_scheme, 'a) prog" where
  "on_scheduler c m =
     bind (DWHCITransferStageDataGetFrameScheduler c) (\<lambda>p.
     bind (the_or Null_deref p) (\<lambda>fs.
     bind (m fs) (\<lambda>(x, fs').
     bind (upd_stage c (\<lambda>d. d\<lparr>m_FrameScheduler := fs'\<rparr>)) (\<lambda>_. return x))))"

definition proc :: "('b usb_scheme, TDWHCIFrameScheduler) prog \<Rightarrow> ('b usb_scheme, unit \<times> TDWHCIFrameScheduler) prog" where
  "proc m = bind m (\<lambda>fs. return ((), fs))"

lemmas stage_defs = DWHCITransferStageDataSetSplitComplete_def DWHCITransferStageDataSetState_def
  DWHCITransferStageDataGetState_def DWHCITransferStageDataSetSubState_def DWHCITransferStageDataGetSubState_def
  DWHCITransferStageDataBeginSplitCycle_def DWHCITransferStageDataGetChannelNumber_def
  DWHCITransferStageDataGetDeviceAddress_def DWHCITransferStageDataGetEndpointType_def
  DWHCITransferStageDataGetEndpointNumber_def DWHCITransferStageDataGetMaxPacketSize_def
  DWHCITransferStageDataGetSpeed_def DWHCITransferStageDataGetPID_def DWHCITransferStageDataIsDirectionIn_def
  DWHCITransferStageDataIsStatusStage_def DWHCITransferStageDataGetDMAAddress_def
  DWHCITransferStageDataGetBytesToTransfer_def DWHCITransferStageDataGetPacketsToTransfer_def
  DWHCITransferStageDataIsSplit_def DWHCITransferStageDataIsSplitComplete_def stage_split_device_def
  DWHCITransferStageDataGetHubAddress_def DWHCITransferStageDataGetHubPortAddress_def
  DWHCITransferStageDataGetSplitPosition_def DWHCITransferStageDataGetStatusMask_def
  DWHCITransferStageDataGetTransactionStatus_def DWHCITransferStageDataIsStageComplete_def
  DWHCITransferStageDataGetResultLen_def DWHCITransferStageDataGetURB_def
  DWHCITransferStageDataGetFrameScheduler_def DWHCITransferStageDataIsPeriodic_def

section \<open>The window of a stage\<close>

text \<open>
  A stage moves through the buffer that starts at \<open>base\<close>: the pointer is \<open>base\<close> plus the bytes
  transferred, and the bytes of the next transaction are within what is left of the buffer.  A report
  of the hardware is credible if it leaves no more packets and bytes than the transaction had; a
  complete-split that reports no bytes is counted as full packets, which must fit too.
\<close>

definition stage_ok :: "u64 \<Rightarrow> TDWHCITransferStageData \<Rightarrow> bool" where
  "stage_ok base d \<longleftrightarrow>
     m_pBufferPointer d = base + ucast (m_nTotalBytesTransfered d) \<and>
     unat (m_nTotalBytesTransfered d) + unat (m_nBytesPerTransaction d) \<le> unat (m_nTransferSize d)"

definition report_ok :: "u32 \<Rightarrow> u32 \<Rightarrow> TDWHCITransferStageData \<Rightarrow> bool" where
  "report_ok packets bytes d \<longleftrightarrow>
     packets \<le> m_nPacketsPerTransaction d \<and> bytes \<le> m_nBytesPerTransaction d \<and>
     unat (m_nTotalBytesTransfered d) + unat (snd (stage_transfered packets bytes d)) \<le> unat (m_nTransferSize d)"

definition status_bad :: "u32 \<Rightarrow> bool" where
  "status_bad st \<longleftrightarrow> st AND (CHAN_INT_ERROR_MASK OR CHAN_INT_NAK OR CHAN_INT_NYET) \<noteq> 0"

lemma ucast_add_u32:
  "unat a + unat b < 2 ^ 32 \<Longrightarrow> (ucast (a + b) :: u64) = ucast a + ucast (b :: u32)"
proof -
  assume "unat a + unat b < 2 ^ 32"
  then have "unat (ucast (a + b) :: u64) = unat (ucast a + ucast b :: u64)"
    by (simp add: unat_u32_add unat_u64_add)
  then show ?thesis by (simp only: word_unat_eq_iff)
qed

lemma window_next:
  fixes total n bytes size :: u32
  assumes "unat total + unat n \<le> unat size" and "unat total + unat bytes \<le> unat size"
  defines "total' \<equiv> total + n"
  defines "bytes' \<equiv> (if size - total' < bytes then size - total' else bytes)"
  shows "unat total' = unat total + unat n" "total' \<le> size"
    "(ucast total' :: u64) = ucast total + ucast n" "unat total' + unat bytes' \<le> unat size"
proof -
  have b: "unat size < 2 ^ 32" by (rule unat_u32_less)
  show t: "unat total' = unat total + unat n"
    using assms(1) b by (simp add: total'_def unat_u32_add)
  then show le: "total' \<le> size" using assms(1) by (simp add: word_le_nat_alt)
  show "(ucast total' :: u64) = ucast total + ucast n"
    using assms(1) b by (simp add: total'_def ucast_add_u32)
  have "unat (size - total') = unat size - unat total'" using le by (simp add: unat_sub)
  then show "unat total' + unat bytes' \<le> unat size"
    using le by (auto simp: bytes'_def word_le_nat_alt word_less_nat_alt not_less)
qed

lemma stage_transfered_status:
  "stage_transfered p b (d\<lparr>m_nTransactionStatus := st\<rparr>) = stage_transfered p b d"
  by (cases d) (simp only: stage_transfered_def TDWHCITransferStageData.select_convs
      TDWHCITransferStageData.update_convs)

lemma wp_TransactionComplete_stage:
  fixes s :: "'b usb_scheme" and c :: nat
  defines "d \<equiv> m_StageData s c"
  assumes "stage_ok base d" and "report_ok packets bytes d"
    and bad: "status_bad st \<Longrightarrow> Q () (s\<lparr>m_StageData := (m_StageData s)(c := d\<lparr>m_nTransactionStatus := st\<rparr>)\<rparr>)"
    and good: "\<And>d' es. \<not> status_bad st \<Longrightarrow> stage_ok base d' \<Longrightarrow>
        m_nTotalBytesTransfered d' = m_nTotalBytesTransfered d + snd (stage_transfered packets bytes d) \<Longrightarrow>
        m_nPackets d' = m_nPackets d - fst (stage_transfered packets bytes d) \<Longrightarrow>
        fst (stage_transfered packets bytes d) \<le> m_nPackets d \<Longrightarrow>
        m_nTransferSize d' = m_nTransferSize d \<Longrightarrow> m_nTransactionStatus d' = st \<Longrightarrow>
        d' = d\<lparr>m_nTransactionStatus := st, m_nTotalBytesTransfered := m_nTotalBytesTransfered d',
          m_pBufferPointer := m_pBufferPointer d', m_nPackets := m_nPackets d',
          m_nBytesPerTransaction := m_nBytesPerTransaction d'\<rparr> \<Longrightarrow>
        Q () (s\<lparr>endpoints := es, m_StageData := (m_StageData s)(c := d')\<rparr>)"
    and err: "\<And>t. E Assert_failed t"
  shows "wp (DWHCITransferStageDataTransactionComplete c st packets bytes) Q E s"
proof (cases "status_bad st")
  case True
  then show ?thesis
    using bad by (simp add: DWHCITransferStageDataTransactionComplete_def wp_simps status_bad_def d_def)
next
  case False
  define p n where "p = fst (stage_transfered packets bytes d)" and "n = snd (stage_transfered packets bytes d)"
  define total where "total = m_nTotalBytesTransfered d + n"
  define bytes' where "bytes' = (if m_nTransferSize d - total < m_nBytesPerTransaction d
      then m_nTransferSize d - total else m_nBytesPerTransaction d)"
  have a: "unat (m_nTotalBytesTransfered d) + unat n \<le> unat (m_nTransferSize d)"
      "unat (m_nTotalBytesTransfered d) + unat (m_nBytesPerTransaction d) \<le> unat (m_nTransferSize d)"
    using assms(2,3) unfolding stage_ok_def report_ok_def n_def by blast+
  note w = window_next(2-4) [OF a, folded total_def, folded bytes'_def]
  have Q: "Q () (s\<lparr>endpoints := es, m_StageData := (m_StageData s)(c := d\<lparr>m_nTransactionStatus := st,
        m_nTotalBytesTransfered := total, m_pBufferPointer := m_pBufferPointer d + ucast n,
        m_nPackets := m_nPackets d - p, m_nBytesPerTransaction := bytes'\<rparr>)\<rparr>)"
      if "p \<le> m_nPackets d" for es
    using assms(2) w that False
    by (intro good) (simp_all add: stage_ok_def total_def p_def n_def)
  have st: "stage_transfered packets bytes (d\<lparr>m_nTransactionStatus := st\<rparr>) = (p, n)"
    by (simp add: stage_transfered_status p_def n_def)
  have Q': "p \<le> m_nPackets d \<Longrightarrow> Q () (s\<lparr>m_StageData := (m_StageData s)(c := d\<lparr>m_nTransactionStatus := st,
        m_nTotalBytesTransfered := total, m_pBufferPointer := m_pBufferPointer d + ucast n,
        m_nPackets := m_nPackets d - p, m_nBytesPerTransaction := bytes'\<rparr>)\<rparr>)"
    using Q [of "endpoints s"] by simp
  show ?thesis
    using False w(1) Q Q' err
    by (auto simp: DWHCITransferStageDataTransactionComplete_def wp_simps status_bad_def d_def [symmetric] st
        total_def [symmetric] bytes'_def split: option.split intro!: wp_SkipPID)
qed

text \<open>
  C18. A transaction moves the window of its stage inside the buffer: for any credible report of the
  hardware the pointer stays at the start of the buffer plus the bytes transferred, the next
  transaction stays inside the buffer, the number of bytes grows by the reported ones and the number of
  packets falls; after an error, NAK or NYET the stage stands where it was.  (A report of more
  packets than the stage has left is caught by an assertion.)
\<close>

theorem TransactionComplete_window:
  fixes s :: "'b usb_scheme" and c :: nat
  defines "d \<equiv> m_StageData s c"
  assumes "stage_ok base d" and "report_ok packets bytes d"
  shows "wp (DWHCITransferStageDataTransactionComplete c st packets bytes)
     (\<lambda>_ t. let d' = m_StageData t c in
        stage_ok base d' \<and> m_nTransactionStatus d' = st \<and> m_nTransferSize d' = m_nTransferSize d \<and>
        (if status_bad st then m_nTotalBytesTransfered d' = m_nTotalBytesTransfered d \<and> m_nPackets d' = m_nPackets d
         else unat (m_nTotalBytesTransfered d') =
                unat (m_nTotalBytesTransfered d) + unat (snd (stage_transfered packets bytes d)) \<and>
              unat (m_nPackets d') = unat (m_nPackets d) - unat (fst (stage_transfered packets bytes d))) \<and>
        (\<forall>j. j \<noteq> c \<longrightarrow> m_StageData t j = m_StageData s j))
     (\<lambda>h _. h = Assert_failed) s"
proof (rule wp_TransactionComplete_stage)
  have u: "unat (m_nTotalBytesTransfered d + snd (stage_transfered packets bytes d)) =
      unat (m_nTotalBytesTransfered d) + unat (snd (stage_transfered packets bytes d))"
    using assms(2,3) unfolding stage_ok_def report_ok_def by (intro window_next(1)) blast+
  show "stage_ok base (m_StageData s c)" "report_ok packets bytes (m_StageData s c)"
    using assms by simp_all
  fix d' es
  assume "stage_ok base d'" "\<not> status_bad st" "m_nTransactionStatus d' = st"
    and "m_nTransferSize d' = m_nTransferSize (m_StageData s c)"
    and "m_nTotalBytesTransfered d' = m_nTotalBytesTransfered (m_StageData s c) +
      snd (stage_transfered packets bytes (m_StageData s c))"
    and "m_nPackets d' = m_nPackets (m_StageData s c) - fst (stage_transfered packets bytes (m_StageData s c))"
    and "fst (stage_transfered packets bytes (m_StageData s c)) \<le> m_nPackets (m_StageData s c)"
  then show "let d'' = m_StageData (s\<lparr>endpoints := es, m_StageData := (m_StageData s)(c := d')\<rparr>) c in
      stage_ok base d'' \<and> m_nTransactionStatus d'' = st \<and> m_nTransferSize d'' = m_nTransferSize d \<and>
      (if status_bad st then m_nTotalBytesTransfered d'' = m_nTotalBytesTransfered d \<and> m_nPackets d'' = m_nPackets d
       else unat (m_nTotalBytesTransfered d'') =
              unat (m_nTotalBytesTransfered d) + unat (snd (stage_transfered packets bytes d)) \<and>
            unat (m_nPackets d'') = unat (m_nPackets d) - unat (fst (stage_transfered packets bytes d))) \<and>
      (\<forall>j. j \<noteq> c \<longrightarrow> m_StageData (s\<lparr>endpoints := es, m_StageData := (m_StageData s)(c := d')\<rparr>) j =
         m_StageData s j)"
    using u by (simp add: Let_def d_def unat_sub word_le_nat_alt)
qed (use assms in \<open>simp_all add: stage_ok_def Let_def\<close>)

theorem TransactionComplete_window_witness:
  "\<exists>t. DWHCITransferStageDataTransactionComplete 0 CHAN_INT_XFER_COMPLETE 1 4
      (usb0\<lparr>m_StageData := (\<lambda>_. stage0\<lparr>sd_pEndpoint := Some 1, m_nTransferSize := 20, m_nPackets := 3,
         m_nBytesPerTransaction := 20, m_nPacketsPerTransaction := 3, m_pBufferPointer := 0x1000\<rparr>)\<rparr>) = Done () t \<and>
     stage_ok 0x1000 (m_StageData t 0) \<and> unat (m_nTotalBytesTransfered (m_StageData t 0)) = 16 \<and>
     unat (m_nPackets (m_StageData t 0)) = 1"
proof -
  let ?s = "usb0\<lparr>m_StageData := (\<lambda>_. stage0\<lparr>sd_pEndpoint := Some 1, m_nTransferSize := 20, m_nPackets := 3,
     m_nBytesPerTransaction := 20, m_nPacketsPerTransaction := 3, m_pBufferPointer := 0x1000\<rparr>)\<rparr>"
  have ok: "stage_ok 0x1000 (m_StageData ?s 0)" by (simp add: stage_ok_def stage0_def)
  have rep: "report_ok 1 4 (m_StageData ?s 0)" by (simp add: report_ok_def stage_transfered_def stage0_def)
  have st: "\<not> status_bad CHAN_INT_XFER_COMPLETE" by (simp add: status_bad_def chan_int_defs)
  have "wp (DWHCITransferStageDataTransactionComplete 0 CHAN_INT_XFER_COMPLETE 1 4)
      (\<lambda>_ t. stage_ok 0x1000 (m_StageData t 0) \<and> unat (m_nTotalBytesTransfered (m_StageData t 0)) = 16 \<and>
         unat (m_nPackets (m_StageData t 0)) = 1) (\<lambda>_ _. True) ?s"
    by (rule wp_mono [OF TransactionComplete_window [OF ok rep]])
      (simp_all add: st Let_def stage_transfered_def stage0_def)
  moreover have "\<exists>t. DWHCITransferStageDataTransactionComplete 0 CHAN_INT_XFER_COMPLETE 1 4 ?s = Done () t"
    by (simp add: DWHCITransferStageDataTransactionComplete_def bind_run upd_stage_def get_stage_def stage0_def
        chan_int_defs stage_transfered_def USBEndpointSkipPID_def on_endpoint_def zoom_def usb0_def endpoint1_def)
  ultimately show ?thesis by (auto simp: wp_def)
qed

end
