(* ===== verification/DwhciInit.thy ===== *)
theory DwhciInit
  imports UsbWorld
begin

text \<open>
  Bringing up the host controller: the initialisation part of
  \<^verbatim>\<open>eth/lib/dwhcidevice.c\<close> (core, host, reset, FIFOs, root port, interrupt masks)
  and its polling loop \<open>DWHCIDeviceWaitForBit\<close>.  Local register objects are values; a
  sequence of calls on one is a \<open>chain\<close>.
\<close>

section \<open>Register bits\<close>

abbreviation (input) "DWHCI_CORE_AHB_CFG_GLOBALINT_MASK \<equiv> (0x1 :: u32)"
abbreviation (input) "DWHCI_CORE_AHB_CFG_MAX_AXI_BURST__MASK \<equiv> (0x6 :: u32)"
abbreviation (input) "DWHCI_CORE_AHB_CFG_WAIT_AXI_WRITES \<equiv> (0x10 :: u32)"
abbreviation (input) "DWHCI_CORE_AHB_CFG_DMAENABLE \<equiv> (0x20 :: u32)"
abbreviation (input) "DWHCI_CORE_USB_CFG_PHYIF \<equiv> (0x8 :: u32)"
abbreviation (input) "DWHCI_CORE_USB_CFG_ULPI_UTMI_SEL \<equiv> (0x10 :: u32)"
abbreviation (input) "DWHCI_CORE_USB_CFG_SRP_CAPABLE \<equiv> (0x100 :: u32)"
abbreviation (input) "DWHCI_CORE_USB_CFG_HNP_CAPABLE \<equiv> (0x200 :: u32)"
abbreviation (input) "DWHCI_CORE_USB_CFG_ULPI_FSLS \<equiv> (0x20000 :: u32)"
abbreviation (input) "DWHCI_CORE_USB_CFG_ULPI_CLK_SUS_M \<equiv> (0x80000 :: u32)"
abbreviation (input) "DWHCI_CORE_USB_CFG_ULPI_EXT_VBUS_DRV \<equiv> (0x100000 :: u32)"
abbreviation (input) "DWHCI_CORE_USB_CFG_TERM_SEL_DL_PULSE \<equiv> (0x400000 :: u32)"
abbreviation (input) "DWHCI_CORE_RESET_SOFT_RESET \<equiv> (0x1 :: u32)"
abbreviation (input) "DWHCI_CORE_RESET_RX_FIFO_FLUSH \<equiv> (0x10 :: u32)"
abbreviation (input) "DWHCI_CORE_RESET_TX_FIFO_FLUSH \<equiv> (0x20 :: u32)"
abbreviation (input) "DWHCI_CORE_RESET_TX_FIFO_NUM__MASK \<equiv> (0x7C0 :: u32)"
abbreviation (input) "DWHCI_CORE_RESET_AHB_IDLE \<equiv> (0x80000000 :: u32)"
abbreviation (input) "DWHCI_CORE_INT_MASK_HC_INTR \<equiv> (0x2000000 :: u32)"
abbreviation (input) "DWHCI_HOST_CFG_FSLS_PCLK_SEL__MASK \<equiv> (0x3 :: u32)"
abbreviation (input) "DWHCI_HOST_CFG_FSLS_PCLK_SEL_30_60_MHZ \<equiv> (0x0 :: u32)"
abbreviation (input) "DWHCI_HOST_CFG_FSLS_PCLK_SEL_48_MHZ \<equiv> (0x1 :: u32)"
abbreviation (input) "DWHCI_HOST_PORT_CONNECT \<equiv> (0x1 :: u32)"
abbreviation (input) "DWHCI_HOST_PORT_OVERCURRENT \<equiv> (0x10 :: u32)"
abbreviation (input) "DWHCI_HOST_PORT_RESET \<equiv> (0x100 :: u32)"
abbreviation (input) "DWHCI_HOST_PORT_POWER \<equiv> (0x1000 :: u32)"
abbreviation (input) "DWHCI_HOST_PORT_DEFAULT_MASK \<equiv> (0x2E :: u32)"
abbreviation (input) "DWC_CFG_HOST_RX_FIFO_SIZE \<equiv> (1024 :: u32)"
abbreviation (input) "DWC_CFG_HOST_NPER_TX_FIFO_SIZE \<equiv> (1024 :: u32)"
abbreviation (input) "DWC_CFG_HOST_PER_TX_FIFO_SIZE \<equiv> (1024 :: u32)"

definition DWHCI_CORE_HW_CFG2_ARCHITECTURE :: "u32 \<Rightarrow> u32" where
  "DWHCI_CORE_HW_CFG2_ARCHITECTURE reg = drop_bit 3 reg AND 3"
definition DWHCI_CORE_HW_CFG2_HS_PHY_TYPE :: "u32 \<Rightarrow> u32" where
  "DWHCI_CORE_HW_CFG2_HS_PHY_TYPE reg = drop_bit 6 reg AND 3"
definition DWHCI_CORE_HW_CFG2_FS_PHY_TYPE :: "u32 \<Rightarrow> u32" where
  "DWHCI_CORE_HW_CFG2_FS_PHY_TYPE reg = drop_bit 8 reg AND 3"
definition DWHCI_CORE_HW_CFG2_NUM_HOST_CHANNELS :: "u32 \<Rightarrow> u32" where
  "DWHCI_CORE_HW_CFG2_NUM_HOST_CHANNELS reg = (drop_bit 14 reg AND 0xF) + 1"
definition DWHCI_HOST_PORT_SPEED :: "u32 \<Rightarrow> u32" where
  "DWHCI_HOST_PORT_SPEED reg = drop_bit 17 reg AND 3"

section \<open>Waiting for a bit\<close>

definition bit_pending :: "u32 \<Rightarrow> bool \<Rightarrow> u32 \<Rightarrow> bool" where
  "bit_pending nMask bWaitUntilSet v = (if v AND nMask \<noteq> 0 then \<not> bWaitUntilSet else bWaitUntilSet)"

primrec wait_loop ::
  "u32 \<Rightarrow> bool \<Rightarrow> nat \<Rightarrow> TDWHCIRegister \<Rightarrow> ('b hw_scheme, bool \<times> TDWHCIRegister) prog" where
  "wait_loop nMask bSet 0 r = return (False, r)"
| "wait_loop nMask bSet (Suc n) r =
     bind (DWHCIRegisterRead r) (\<lambda>r'.
     if bit_pending nMask bSet (m_nBuffer r')
     then bind (MsDelay 1) (\<lambda>_. wait_loop nMask bSet n r')
     else return (True, r'))"

definition DWHCIDeviceWaitForBit ::
  "TDWHCIRegister \<Rightarrow> u32 \<Rightarrow> bool \<Rightarrow> u32 \<Rightarrow> ('b hw_scheme, bool \<times> TDWHCIRegister) prog" where
  "DWHCIDeviceWaitForBit pRegister nMask bWaitUntilSet nMsTimeout =
     bind (UK_ASSERT (nMask \<noteq> 0)) (\<lambda>_.
     bind (UK_ASSERT (nMsTimeout > 0)) (\<lambda>_.
     wait_loop nMask bWaitUntilSet (unat nMsTimeout) pRegister))"

section \<open>Core\<close>

definition DWHCIDeviceReset :: "('b hw_scheme, bool) prog" where
  "DWHCIDeviceReset =
     bind (DWHCIDeviceWaitForBit (DWHCIRegister2 DWHCI_CORE_RESET 0) DWHCI_CORE_RESET_AHB_IDLE True 100)
       (\<lambda>(ok, Reset).
     if \<not> ok then return False else
     bind (chain Reset [DWHCIRegisterOr DWHCI_CORE_RESET_SOFT_RESET, DWHCIRegisterWrite]) (\<lambda>Reset.
     bind (DWHCIDeviceWaitForBit Reset DWHCI_CORE_RESET_SOFT_RESET False 10) (\<lambda>(ok, _).
     if \<not> ok then return False else
     bind (MsDelay 100) (\<lambda>_. return True))))"

definition DWHCIDeviceEnableGlobalInterrupts :: "('b hw_scheme, unit) prog" where
  "DWHCIDeviceEnableGlobalInterrupts =
     bind (chain (DWHCIRegister DWHCI_CORE_AHB_CFG)
       [DWHCIRegisterRead, DWHCIRegisterOr DWHCI_CORE_AHB_CFG_GLOBALINT_MASK, DWHCIRegisterWrite])
     (\<lambda>_. return ())"

definition DWHCIDeviceEnableCommonInterrupts :: "('b hw_scheme, unit) prog" where
  "DWHCIDeviceEnableCommonInterrupts =
     bind (chain (DWHCIRegister DWHCI_CORE_INT_STAT) [DWHCIRegisterSetAll, DWHCIRegisterWrite]) (\<lambda>_. return ())"

definition DWHCIDeviceEnableHostInterrupts :: "('b hw_scheme, unit) prog" where
  "DWHCIDeviceEnableHostInterrupts =
     bind (chain (DWHCIRegister2 DWHCI_CORE_INT_MASK 0) [DWHCIRegisterWrite]) (\<lambda>IntMask.
     bind DWHCIDeviceEnableCommonInterrupts (\<lambda>_.
     bind (chain IntMask [DWHCIRegisterRead, DWHCIRegisterOr DWHCI_CORE_INT_MASK_HC_INTR, DWHCIRegisterWrite])
     (\<lambda>_. return ())))"

definition ulpi_phy :: "u32 \<Rightarrow> bool" where
  "ulpi_phy cfg2 \<longleftrightarrow> DWHCI_CORE_HW_CFG2_HS_PHY_TYPE cfg2 = 2 \<and> DWHCI_CORE_HW_CFG2_FS_PHY_TYPE cfg2 = 1"

definition DWHCIDeviceInitCore :: "('b usb_scheme, bool) prog" where
  "DWHCIDeviceInitCore =
     bind (chain (DWHCIRegister DWHCI_CORE_USB_CFG)
       [DWHCIRegisterRead, DWHCIRegisterAnd (NOT DWHCI_CORE_USB_CFG_ULPI_EXT_VBUS_DRV),
        DWHCIRegisterAnd (NOT DWHCI_CORE_USB_CFG_TERM_SEL_DL_PULSE), DWHCIRegisterWrite]) (\<lambda>USBConfig.
     bind DWHCIDeviceReset (\<lambda>ok.
     if \<not> ok then bind (LogWrite LOG_ERROR ''Reset failed'') (\<lambda>_. return False) else
     bind (chain USBConfig
       [DWHCIRegisterRead, DWHCIRegisterAnd (NOT DWHCI_CORE_USB_CFG_ULPI_UTMI_SEL),
        DWHCIRegisterAnd (NOT DWHCI_CORE_USB_CFG_PHYIF), DWHCIRegisterWrite]) (\<lambda>USBConfig.
     bind (DWHCIRegisterRead (DWHCIRegister DWHCI_CORE_HW_CFG2)) (\<lambda>HWConfig2.
     bind (DWHCIRegisterGet HWConfig2) (\<lambda>cfg2.
     bind (UK_ASSERT (DWHCI_CORE_HW_CFG2_ARCHITECTURE cfg2 = 2)) (\<lambda>_.
     bind (DWHCIRegisterRead USBConfig) (\<lambda>USBConfig.
     bind (chain USBConfig
       (if ulpi_phy cfg2
        then [DWHCIRegisterOr DWHCI_CORE_USB_CFG_ULPI_FSLS, DWHCIRegisterOr DWHCI_CORE_USB_CFG_ULPI_CLK_SUS_M,
              DWHCIRegisterWrite]
        else [DWHCIRegisterAnd (NOT DWHCI_CORE_USB_CFG_ULPI_FSLS),
              DWHCIRegisterAnd (NOT DWHCI_CORE_USB_CFG_ULPI_CLK_SUS_M), DWHCIRegisterWrite])) (\<lambda>USBConfig.
     bind (gets m_nChannels) (\<lambda>n.
     bind (UK_ASSERT (n = 0)) (\<lambda>_.
     bind (modify (\<lambda>s. s\<lparr>m_nChannels := DWHCI_CORE_HW_CFG2_NUM_HOST_CHANNELS cfg2\<rparr>)) (\<lambda>_.
     bind (gets m_nChannels) (\<lambda>n.
     bind (UK_ASSERT (4 \<le> n \<and> n \<le> DWHCI_MAX_CHANNELS)) (\<lambda>_.
     bind (chain (DWHCIRegister DWHCI_CORE_AHB_CFG)
       [DWHCIRegisterRead, DWHCIRegisterOr DWHCI_CORE_AHB_CFG_DMAENABLE,
        DWHCIRegisterOr DWHCI_CORE_AHB_CFG_WAIT_AXI_WRITES,
        DWHCIRegisterAnd (NOT DWHCI_CORE_AHB_CFG_MAX_AXI_BURST__MASK), DWHCIRegisterWrite]) (\<lambda>_.
     bind (chain USBConfig
       [DWHCIRegisterRead, DWHCIRegisterAnd (NOT DWHCI_CORE_USB_CFG_HNP_CAPABLE),
        DWHCIRegisterAnd (NOT DWHCI_CORE_USB_CFG_SRP_CAPABLE), DWHCIRegisterWrite]) (\<lambda>_.
     bind DWHCIDeviceEnableCommonInterrupts (\<lambda>_. return True))))))))))))))))"

section \<open>Host\<close>

definition DWHCIDeviceFlushTxFIFO :: "u32 \<Rightarrow> ('b hw_scheme, unit) prog" where
  "DWHCIDeviceFlushTxFIFO nFIFO =
     bind (chain (DWHCIRegister2 DWHCI_CORE_RESET 0)
       [DWHCIRegisterOr DWHCI_CORE_RESET_TX_FIFO_FLUSH, DWHCIRegisterAnd (NOT DWHCI_CORE_RESET_TX_FIFO_NUM__MASK),
        DWHCIRegisterOr (push_bit 6 nFIFO), DWHCIRegisterWrite]) (\<lambda>Reset.
     bind (DWHCIDeviceWaitForBit Reset DWHCI_CORE_RESET_TX_FIFO_FLUSH False 10) (\<lambda>(ok, _).
     cond ok (usDelay 1)))"

definition DWHCIDeviceFlushRxFIFO :: "('b hw_scheme, unit) prog" where
  "DWHCIDeviceFlushRxFIFO =
     bind (chain (DWHCIRegister2 DWHCI_CORE_RESET 0)
       [DWHCIRegisterOr DWHCI_CORE_RESET_RX_FIFO_FLUSH, DWHCIRegisterWrite]) (\<lambda>Reset.
     bind (DWHCIDeviceWaitForBit Reset DWHCI_CORE_RESET_RX_FIFO_FLUSH False 10) (\<lambda>(ok, _).
     cond ok (usDelay 1)))"

definition fsls_48_mhz :: "('b hw_scheme, bool) prog" where
  "fsls_48_mhz =
     bind (DWHCIRegisterRead (DWHCIRegister DWHCI_CORE_HW_CFG2)) (\<lambda>HWConfig2.
     if ulpi_phy (m_nBuffer HWConfig2) then
       bind (DWHCIRegisterRead (DWHCIRegister DWHCI_CORE_USB_CFG)) (\<lambda>USBConfig.
       return (m_nBuffer USBConfig AND DWHCI_CORE_USB_CFG_ULPI_FSLS \<noteq> 0))
     else return False)"

definition power_port :: "('b hw_scheme, unit) prog" where
  "power_port =
     bind (chain (DWHCIRegister DWHCI_HOST_PORT)
       [DWHCIRegisterRead, DWHCIRegisterAnd (NOT DWHCI_HOST_PORT_DEFAULT_MASK)]) (\<lambda>HostPort.
     bind (DWHCIRegisterGet HostPort) (\<lambda>v.
     cond (v AND DWHCI_HOST_PORT_POWER = 0)
       (bind (chain HostPort [DWHCIRegisterOr DWHCI_HOST_PORT_POWER, DWHCIRegisterWrite]) (\<lambda>_. return ()))))"

definition DWHCIDeviceInitHost :: "('b hw_scheme, bool) prog" where
  "DWHCIDeviceInitHost =
     bind (DWHCIRegisterWrite (DWHCIRegister2 ARM_USB_POWER 0)) (\<lambda>_.
     bind (chain (DWHCIRegister DWHCI_HOST_CFG)
       [DWHCIRegisterRead, DWHCIRegisterAnd (NOT DWHCI_HOST_CFG_FSLS_PCLK_SEL__MASK)]) (\<lambda>HostConfig.
     bind fsls_48_mhz (\<lambda>b.
     bind (chain HostConfig
       [DWHCIRegisterOr (if b then DWHCI_HOST_CFG_FSLS_PCLK_SEL_48_MHZ else DWHCI_HOST_CFG_FSLS_PCLK_SEL_30_60_MHZ),
        DWHCIRegisterWrite]) (\<lambda>_.
     bind (DWHCIRegisterWrite (DWHCIRegister2 DWHCI_CORE_RX_FIFO_SIZ DWC_CFG_HOST_RX_FIFO_SIZE)) (\<lambda>_.
     bind (chain (DWHCIRegister2 DWHCI_CORE_NPER_TX_FIFO_SIZ 0)
       [DWHCIRegisterOr DWC_CFG_HOST_RX_FIFO_SIZE, DWHCIRegisterOr (push_bit 16 DWC_CFG_HOST_NPER_TX_FIFO_SIZE),
        DWHCIRegisterWrite]) (\<lambda>_.
     bind (chain (DWHCIRegister2 DWHCI_CORE_HOST_PER_TX_FIFO_SIZ 0)
       [DWHCIRegisterOr (DWC_CFG_HOST_RX_FIFO_SIZE + DWC_CFG_HOST_NPER_TX_FIFO_SIZE),
        DWHCIRegisterOr (push_bit 16 DWC_CFG_HOST_PER_TX_FIFO_SIZE), DWHCIRegisterWrite]) (\<lambda>_.
     bind (DWHCIDeviceFlushTxFIFO 0x10) (\<lambda>_.
     bind DWHCIDeviceFlushRxFIFO (\<lambda>_.
     bind power_port (\<lambda>_.
     bind DWHCIDeviceEnableHostInterrupts (\<lambda>_. return True)))))))))))"

definition DWHCIDeviceEnableRootPort :: "('b hw_scheme, bool) prog" where
  "DWHCIDeviceEnableRootPort =
     bind (DWHCIDeviceWaitForBit (DWHCIRegister DWHCI_HOST_PORT) DWHCI_HOST_PORT_CONNECT True 20) (\<lambda>(ok, HostPort).
     if \<not> ok then return False else
     bind (MsDelay 100) (\<lambda>_.
     bind (chain HostPort
       [DWHCIRegisterRead, DWHCIRegisterAnd (NOT DWHCI_HOST_PORT_DEFAULT_MASK),
        DWHCIRegisterOr DWHCI_HOST_PORT_RESET, DWHCIRegisterWrite]) (\<lambda>HostPort.
     bind (MsDelay 50) (\<lambda>_.
     bind (chain HostPort
       [DWHCIRegisterRead, DWHCIRegisterAnd (NOT DWHCI_HOST_PORT_DEFAULT_MASK),
        DWHCIRegisterAnd (NOT DWHCI_HOST_PORT_RESET), DWHCIRegisterWrite]) (\<lambda>_.
     bind (MsDelay 20) (\<lambda>_. return True))))))"

section \<open>Root port status\<close>

definition DWHCIDeviceGetPortSpeed :: "('b hw_scheme, TUSBSpeed) prog" where
  "DWHCIDeviceGetPortSpeed =
     bind (DWHCIRegisterRead (DWHCIRegister DWHCI_HOST_PORT)) (\<lambda>HostPort.
     let sp = DWHCI_HOST_PORT_SPEED (m_nBuffer HostPort) in
     return (if sp = 0 then USBSpeedHigh else if sp = 1 then USBSpeedFull else if sp = 2 then USBSpeedLow
             else USBSpeedUnknown))"

definition DWHCIDeviceOvercurrentDetected :: "('b hw_scheme, bool) prog" where
  "DWHCIDeviceOvercurrentDetected =
     bind (DWHCIRegisterRead (DWHCIRegister DWHCI_HOST_PORT)) (\<lambda>HostPort.
     return (m_nBuffer HostPort AND DWHCI_HOST_PORT_OVERCURRENT \<noteq> 0))"

definition DWHCIDeviceDisableRootPort :: "('b hw_scheme, unit) prog" where
  "DWHCIDeviceDisableRootPort =
     bind (chain (DWHCIRegister DWHCI_HOST_PORT)
       [DWHCIRegisterRead, DWHCIRegisterAnd (NOT DWHCI_HOST_PORT_POWER), DWHCIRegisterWrite]) (\<lambda>_. return ())"

section \<open>Channel interrupt enable\<close>

definition DWHCIDeviceEnableChannelInterrupt :: "nat \<Rightarrow> ('b hw_scheme, unit) prog" where
  "DWHCIDeviceEnableChannelInterrupt nChannel =
     bind uspi_EnterCritical (\<lambda>_.
     bind (chain (DWHCIRegister DWHCI_HOST_ALLCHAN_INT_MASK)
       [DWHCIRegisterRead, DWHCIRegisterOr (push_bit nChannel 1), DWHCIRegisterWrite]) (\<lambda>_.
     uspi_LeaveCritical))"

definition DWHCIDeviceDisableChannelInterrupt :: "nat \<Rightarrow> ('b hw_scheme, unit) prog" where
  "DWHCIDeviceDisableChannelInterrupt nChannel =
     bind uspi_EnterCritical (\<lambda>_.
     bind (chain (DWHCIRegister DWHCI_HOST_ALLCHAN_INT_MASK)
       [DWHCIRegisterRead, DWHCIRegisterAnd (NOT (push_bit nChannel 1)), DWHCIRegisterWrite]) (\<lambda>_.
     uspi_LeaveCritical))"

section \<open>Register dumps\<close>

definition DWHCIDeviceDumpRegister :: "u32 \<Rightarrow> ('b hw_scheme, unit) prog" where
  "DWHCIDeviceDumpRegister nAddress =
     bind DataMemBarrier (\<lambda>_.
     bind (DWHCIRegisterRead (DWHCIRegister nAddress)) (\<lambda>_. LogWrite LOG_DEBUG ''0x%08X %s''))"

definition dump_registers :: "u32 \<Rightarrow> u32 list" where
  "dump_registers nChannel =
     [ARM_USB_CORE_BASE, DWHCI_CORE_AHB_CFG, DWHCI_CORE_USB_CFG, DWHCI_CORE_RESET, DWHCI_CORE_INT_STAT,
      DWHCI_CORE_INT_MASK, DWHCI_CORE_RX_FIFO_SIZ, DWHCI_CORE_NPER_TX_FIFO_SIZ, ARM_USB_CORE_BASE + 0x2C,
      DWHCI_CORE_HOST_PER_TX_FIFO_SIZ, DWHCI_HOST_CFG, ARM_USB_HOST_BASE + 0x10, DWHCI_HOST_ALLCHAN_INT,
      DWHCI_HOST_ALLCHAN_INT_MASK, DWHCI_HOST_PORT, DWHCI_HOST_CHAN_CHARACTER nChannel,
      DWHCI_HOST_CHAN_SPLIT_CTRL nChannel, DWHCI_HOST_CHAN_INT nChannel, DWHCI_HOST_CHAN_INT_MASK nChannel,
      DWHCI_HOST_CHAN_XFER_SIZ nChannel, DWHCI_HOST_CHAN_DMA_ADDR nChannel]"

definition DWHCIDeviceDumpStatus :: "u32 \<Rightarrow> ('b hw_scheme, unit) prog" where
  "DWHCIDeviceDumpStatus nChannel = for_each (dump_registers nChannel) DWHCIDeviceDumpRegister"

section \<open>Waiting ends\<close>

lemma wait_loop_run:
  fixes s :: "'b hw_scheme" and bits :: u32 and bSet :: bool
  assumes "sleep_ok (s :: 'b hw_scheme)" and "n \<le> length (mmio_in s)"
  defines "j \<equiv> length (takeWhile (\<lambda>a. bit_pending bits bSet (fst a)) (take n (mmio_in s)))"
  shows "\<exists>r' t. wait_loop bits bSet n r s = Done (j < n, r') t \<and> sleep_ok t \<and>
     mmio_in t = drop (min (Suc j) n) (mmio_in s) \<and> same_rest s t \<and>
     (n > 0 \<longrightarrow> m_nBuffer r' = fst (mmio_in s ! min j (n - 1)) \<and> TDWHCIRegister.m_bValid r' \<and> m_nAddress r' = m_nAddress r)"
  using assms(1,2) unfolding j_def
proof (induction n arbitrary: s r)
  case (Suc n)
  then obtain v ws rest where m: "mmio_in s = (v, ws) # rest" by (cases "mmio_in s") auto
  define u where "u = s\<lparr>mmio_in := rest, mem := dma_writes ws (mem s), rev_trace := EvRead (m_nAddress r) v # rev_trace s\<rparr>"
  let ?r = "r\<lparr>m_nBuffer := v, TDWHCIRegister.m_bValid := True\<rparr>"
  have read: "DWHCIRegisterRead r s = Done ?r u"
    by (simp add: DWHCIRegisterRead_def bind_run vread_def m u_def)
  have okr: "sleep_ok u" "same_rest s u" "mmio_in u = rest"
    using Suc.prems(1) by (simp_all add: u_def)
  show ?case
  proof (cases "bit_pending bits bSet v")
    case False
    then show ?thesis using okr by (auto simp: bind_run read m)
  next
    case True
    have "wp (MsDelay 1) (\<lambda>_ t. sleep_ok t \<and> mmio_in t = rest \<and> same_rest u t) (\<lambda>_ _. False) u"
      using okr by (auto intro!: wp_MsDelay)
    then obtain w where w: "MsDelay 1 u = Done () w" "sleep_ok w" "mmio_in w = rest" "same_rest u w"
      by (auto simp: wp_def split: outcome.splits)
    let ?j = "length (takeWhile (\<lambda>a. bit_pending bits bSet (fst a)) (take n rest))"
    from Suc.IH [of w ?r] w Suc.prems m obtain r' t where
        "wait_loop bits bSet n ?r w = Done (?j < n, r') t" "sleep_ok t" "same_rest w t"
        "mmio_in t = drop (min (Suc ?j) n) rest"
        "n > 0 \<longrightarrow> m_nBuffer r' = fst (rest ! min ?j (n - 1)) \<and> TDWHCIRegister.m_bValid r' \<and> m_nAddress r' = m_nAddress r"
      by auto
    moreover have "same_rest s t"
      using \<open>same_rest w t\<close> w(4) okr(2) by (blast intro: same_rest_trans)
    moreover have "wait_loop bits bSet (Suc n) r s = wait_loop bits bSet n ?r w"
      using True w(1) by (simp add: bind_run read)
    ultimately show ?thesis
      using True by (cases n) (auto simp: m nth_Cons')
  qed
qed simp

lemma takeWhile_shorter: "length (takeWhile P xs) < length xs \<longleftrightarrow> (\<exists>x \<in> set xs. \<not> P x)"
  by (induction xs) auto

text \<open>
  Waiting for a bit of a register ends: with a timeout of \<open>n\<close> it reads the register at most \<open>n\<close>
  times, up to the first value that has the bit as wanted, and returns whether there was one; the
  last value read is left in the register object.
\<close>

theorem WaitForBit_polls:
  fixes s :: "'b hw_scheme" and bits :: u32 and bSet :: bool
  assumes "sleep_ok s" and "bits \<noteq> 0" and "0 < timeout" and "unat timeout \<le> length (mmio_in s)"
  defines "j \<equiv> length (takeWhile (\<lambda>a. (fst a AND bits \<noteq> 0) \<noteq> bSet) (take (unat timeout) (mmio_in s)))"
  shows "\<exists>r' t. DWHCIDeviceWaitForBit r bits bSet timeout s =
        Done (\<exists>a \<in> set (take (unat timeout) (mmio_in s)). (fst a AND bits \<noteq> 0) = bSet, r') t \<and>
     mmio_in t = drop (min (Suc j) (unat timeout)) (mmio_in s) \<and>
     m_nBuffer r' = fst (mmio_in s ! min j (unat timeout - 1)) \<and> same_rest s t"
proof -
  let ?n = "unat timeout"
  have n: "0 < ?n" using assms(3) by (simp add: unat_gt_0 word_gt_0)
  have P: "(\<lambda>a. bit_pending bits bSet (fst a)) = (\<lambda>a :: answer. (fst a AND bits \<noteq> 0) \<noteq> bSet)"
    by (auto simp: bit_pending_def)
  have "length (take ?n (mmio_in s)) = ?n" using assms(4) by simp
  with takeWhile_shorter [of "\<lambda>a. (fst a AND bits \<noteq> 0) \<noteq> bSet" "take ?n (mmio_in s)"]
  have j: "(\<exists>a \<in> set (take ?n (mmio_in s)). (fst a AND bits \<noteq> 0) = bSet) = (j < ?n)"
    unfolding j_def by (auto simp del: takeWhile_eq_all_conv)
  obtain r' t where r: "wait_loop bits bSet ?n r s = Done (j < ?n, r') t"
      "mmio_in t = drop (min (Suc j) ?n) (mmio_in s)" "same_rest s t"
      "m_nBuffer r' = fst (mmio_in s ! min j (?n - 1))"
    using wait_loop_run [OF assms(1,4), of bits bSet r] n unfolding P j_def by auto
  then show ?thesis
    using assms(2,3) unfolding j
    by (intro exI [of _ r'] exI [of _ t]) (simp add: DWHCIDeviceWaitForBit_def)
qed

theorem WaitForBit_polls_witness:
  "\<exists>r' t. DWHCIDeviceWaitForBit (DWHCIRegister DWHCI_HOST_PORT) DWHCI_HOST_PORT_CONNECT True 3
     (usb0\<lparr>mmio_in := [ans 0, ans 1, ans 7]\<rparr>) = Done (True, r') t \<and> mmio_in t = [ans 7] \<and> m_nBuffer r' = 1"
  using WaitForBit_polls [of "usb0\<lparr>mmio_in := [ans 0, ans 1, ans 7]\<rparr>" 1 3 "DWHCIRegister DWHCI_HOST_PORT" True]
  by (force simp: sleep_ok_usb0 ans_def)

section \<open>Writes to the port register\<close>

text \<open>
  The bits of \<open>DWHCI_HOST_PORT_DEFAULT_MASK\<close> are cleared by writing a one: the change bits
  lose a pending change, and the enable bit disables the port.
\<close>

definition port_writes_clear :: "event list \<Rightarrow> bool" where
  "port_writes_clear es \<longleftrightarrow> (\<forall>(a, v) \<in> set (writes es).
     a = ucast DWHCI_HOST_PORT \<longrightarrow> v AND DWHCI_HOST_PORT_DEFAULT_MASK = 0)"

definition host_port_safe :: "'b hw_scheme \<Rightarrow> bool" where
  "host_port_safe s \<longleftrightarrow> port_writes_clear (rev_trace s)"

lemma port_writes_clear_Cons [simp]:
  "port_writes_clear (e # es) \<longleftrightarrow> port_writes_clear es \<and>
     (case e of EvWrite a v \<Rightarrow> a = ucast DWHCI_HOST_PORT \<longrightarrow> v AND DWHCI_HOST_PORT_DEFAULT_MASK = 0 | _ \<Rightarrow> True)"
  by (auto simp: port_writes_clear_def split: event.split)

lemma pres_bindP:
  assumes "\<And>s. I s \<Longrightarrow> wp m (\<lambda>x t. P x \<and> I t) (\<lambda>_. I) s" and "\<And>x. P x \<Longrightarrow> pres I (f x)"
  shows "pres I (bind m f)"
  using assms by (auto simp: pres_def intro!: wp_seq)

lemma pres_nanosleep:
  assumes "\<And>s as ts. I s \<Longrightarrow> I (s\<lparr>sleeps := as, rev_trace := EvSleep ts # rev_trace s\<rparr>)"
    and "\<And>s ts. I s \<Longrightarrow> I (s\<lparr>rev_trace := EvSleep ts # rev_trace s\<rparr>)"
  shows "pres I (nanosleep_loop as ts)"
proof (induction as ts rule: nanosleep_loop.induct)
  case (3 rem as ts)
  then show ?case using assms(2) by (simp add: pres_bind pres_emit)
qed (use assms(1) in \<open>simp_all add: pres_def wp_def\<close>)

lemma host_port_nanosleep: "pres host_port_safe (nanosleep_loop as ts)"
  by (rule pres_nanosleep) (simp_all add: host_port_safe_def)

lemma host_port_prims [pres_intros]:
  "pres host_port_safe (MsDelay n)" "pres host_port_safe (usDelay n)" "pres host_port_safe (DWHCIRegisterRead r)"
  "pres host_port_safe (LogWrite sev msg)"
proof -
  show "pres host_port_safe (MsDelay n)" "pres host_port_safe (usDelay n)"
    by (simp_all add: MsDelay_def usDelay_def pres_bind pres_gets host_port_nanosleep)
  show "pres host_port_safe (DWHCIRegisterRead r)"
    by (rule presI) (simp add: wp_simps host_port_safe_def split: list.split)
  show "pres host_port_safe (LogWrite sev msg)"
    by (rule presI) (simp add: wp_simps host_port_safe_def split: option.split)
qed

lemma host_port_wait [pres_intros]: "pres host_port_safe (DWHCIDeviceWaitForBit r bits bSet n)"
proof -
  have "pres host_port_safe (wait_loop bits bSet k r)" for k r
    by (induction k arbitrary: r) (auto intro!: pres_intros)
  then show ?thesis unfolding DWHCIDeviceWaitForBit_def by (intro pres_intros)
qed

lemma ucast_eq_u32: "(ucast a :: u64) = ucast (b :: u32) \<longleftrightarrow> a = b"
  by (metis unat_ucast_up(6) word_unat_eq_iff)

lemmas port_simps = wp_simps register_simps host_port_safe_def ucast_eq_u32 DWHCI_HOST_PORT_def
  ARM_USB_HOST_BASE_def ARM_USB_CORE_BASE_def ARM_USB_POWER_def DWHCI_HOST_CFG_def DWHCI_CORE_RX_FIFO_SIZ_def
  DWHCI_CORE_NPER_TX_FIFO_SIZ_def DWHCI_CORE_HOST_PER_TX_FIFO_SIZ_def DWHCI_CORE_RESET_def
  DWHCI_CORE_INT_STAT_def DWHCI_CORE_INT_MASK_def

lemma and_or_masks [simp]:
  "(v AND - 47) AND 46 = (0 :: u32)" "(v AND - 47 OR 256) AND 46 = (0 :: u32)" "((v AND - 47) AND - 257) AND 46 = (0 :: u32)"
  "v AND 46 = 0 \<Longrightarrow> (v OR 4096) AND 46 = (0 :: u32)"
  by (simp_all add: bit.conj_disj_distrib2) (simp_all add: and.assoc)

lemma host_port_pieces [pres_intros]:
  "pres host_port_safe (DWHCIDeviceFlushTxFIFO n)" "pres host_port_safe DWHCIDeviceFlushRxFIFO"
  "pres host_port_safe power_port" "pres host_port_safe DWHCIDeviceEnableHostInterrupts"
proof -
  show "pres host_port_safe (DWHCIDeviceFlushTxFIFO n)"
    unfolding DWHCIDeviceFlushTxFIFO_def
    by (rule pres_bindP [where P = "\<lambda>_. True"])
      (simp_all add: port_simps pres_bind pres_case_prod pres_cond host_port_wait host_port_prims)
  show "pres host_port_safe DWHCIDeviceFlushRxFIFO"
    unfolding DWHCIDeviceFlushRxFIFO_def
    by (rule pres_bindP [where P = "\<lambda>_. True"])
      (simp_all add: port_simps pres_bind pres_case_prod pres_cond host_port_wait host_port_prims)
  show "pres host_port_safe power_port"
    unfolding power_port_def
  proof (rule pres_bindP [where P = "\<lambda>r. TDWHCIRegister.m_bValid r \<and> m_nBuffer r AND 0x2E = 0"])
    fix r :: TDWHCIRegister
    assume r: "TDWHCIRegister.m_bValid r \<and> m_nBuffer r AND 0x2E = 0"
    then show "pres host_port_safe (bind (DWHCIRegisterGet r) (\<lambda>v. cond (v AND DWHCI_HOST_PORT_POWER = 0)
        (bind (chain r [DWHCIRegisterOr DWHCI_HOST_PORT_POWER, DWHCIRegisterWrite]) (\<lambda>_. return ()))))"
      by (intro presI) (simp add: port_simps)
  qed (simp add: port_simps split: list.split)
  show "pres host_port_safe DWHCIDeviceEnableHostInterrupts"
    unfolding DWHCIDeviceEnableHostInterrupts_def DWHCIDeviceEnableCommonInterrupts_def
    by (rule presI) (simp add: port_simps split: list.split)
qed

lemma host_port_writes:
  "pres host_port_safe (DWHCIRegisterWrite (DWHCIRegister2 ARM_USB_POWER 0))"
  "pres host_port_safe (DWHCIRegisterWrite (DWHCIRegister2 DWHCI_CORE_RX_FIFO_SIZ x))"
  "pres host_port_safe (chain (DWHCIRegister2 DWHCI_CORE_NPER_TX_FIFO_SIZ 0)
     [DWHCIRegisterOr x, DWHCIRegisterOr y, DWHCIRegisterWrite])"
  "pres host_port_safe (chain (DWHCIRegister2 DWHCI_CORE_HOST_PER_TX_FIFO_SIZ 0)
     [DWHCIRegisterOr x, DWHCIRegisterOr y, DWHCIRegisterWrite])"
  "m_nAddress r = ucast DWHCI_HOST_CFG \<Longrightarrow> pres host_port_safe (chain r [DWHCIRegisterOr x, DWHCIRegisterWrite])"
  "pres host_port_safe (chain r [DWHCIRegisterRead, DWHCIRegisterAnd (NOT DWHCI_HOST_PORT_DEFAULT_MASK),
     DWHCIRegisterOr DWHCI_HOST_PORT_RESET, DWHCIRegisterWrite])"
  "pres host_port_safe (chain r [DWHCIRegisterRead, DWHCIRegisterAnd (NOT DWHCI_HOST_PORT_DEFAULT_MASK),
     DWHCIRegisterAnd (NOT DWHCI_HOST_PORT_RESET), DWHCIRegisterWrite])"
  by (rule presI, simp add: port_simps split: list.split)+

lemma host_port_fsls: "pres host_port_safe fsls_48_mhz"
  unfolding fsls_48_mhz_def by (intro pres_intros)

text \<open>
  C27. The bring-up of the host never disables the port nor loses a change by accident: every value that
  \<open>DWHCIDeviceInitHost\<close> and \<open>DWHCIDeviceEnableRootPort\<close> write to the port register has the
  write-one-to-clear bits clear, whatever the hardware answers.
\<close>

theorem port_writes_safe:
  "pres host_port_safe (DWHCIDeviceInitHost :: ('b hw_scheme, bool) prog) \<and>
   pres host_port_safe (DWHCIDeviceEnableRootPort :: ('b hw_scheme, bool) prog)"
proof
  show "pres host_port_safe DWHCIDeviceInitHost"
    unfolding DWHCIDeviceInitHost_def
    by (rule pres_bind [OF host_port_writes(1)],
        rule pres_bindP [where P = "\<lambda>r. m_nAddress r = ucast DWHCI_HOST_CFG"],
        simp add: port_simps split: list.split,
        intro pres_bind host_port_writes host_port_fsls host_port_pieces pres_return)
  show "pres host_port_safe DWHCIDeviceEnableRootPort"
    unfolding DWHCIDeviceEnableRootPort_def by (intro pres_intros host_port_writes)
qed

end
