(* ===== verification/Mailbox.thy ===== *)
theory Mailbox
  imports Services
begin

text \<open>
  The mailbox to the VideoCore firmware: \<^verbatim>\<open>eth/lib/bcmmailbox.c\<close>, the property
  tag messages of \<^verbatim>\<open>eth/lib/bcmpropertytags.c\<close>, their two users in
  \<^verbatim>\<open>eth/lib/uspibind.c\<close>, and the platform's own \<open>mbox_call\<close>
  (\<^verbatim>\<open>mbox.c\<close>).  The answer of the firmware is a DMA write that comes with the answer of a
  status read.  Local variables live at addresses given as arguments, and what the code leaves
  uninitialised in them is an argument too.
\<close>

section \<open>Registers\<close>

definition MAILBOX0_READ :: u32 where "MAILBOX0_READ = 0x3F00B880"
definition MAILBOX0_STATUS :: u32 where "MAILBOX0_STATUS = 0x3F00B898"
definition MAILBOX1_WRITE :: u32 where "MAILBOX1_WRITE = 0x3F00B8A0"
definition MAILBOX1_STATUS :: u32 where "MAILBOX1_STATUS = 0x3F00B8B8"
definition MAILBOX_STATUS_EMPTY :: u32 where "MAILBOX_STATUS_EMPTY = 0x40000000"
definition MAILBOX_STATUS_FULL :: u32 where "MAILBOX_STATUS_FULL = 0x80000000"
definition BCM_MAILBOX_PROP_OUT :: u32 where "BCM_MAILBOX_PROP_OUT = 8"

lemmas mailbox_regs = MAILBOX0_READ_def MAILBOX0_STATUS_def MAILBOX1_WRITE_def MAILBOX1_STATUS_def
  MAILBOX_STATUS_EMPTY_def MAILBOX_STATUS_FULL_def

definition BUS_ADDRESS :: "u32 \<Rightarrow> u32" where
  "BUS_ADDRESS p = (p AND NOT 0xC0000000) OR 0xC0000000"

section \<open>The mailbox\<close>

text \<open>The mailbox object is its channel number.\<close>

definition BcmMailBoxFlush :: "('b hw_scheme, unit) prog" where
  "BcmMailBoxFlush = hw_until
     (bind (read32 MAILBOX0_STATUS) (\<lambda>st.
      if st AND MAILBOX_STATUS_EMPTY = 0
      then bind (read32 MAILBOX0_READ) (\<lambda>_. bind (MsDelay 20) (\<lambda>_. return None))
      else return (Some ())))"

definition BcmMailBoxRead :: "u32 \<Rightarrow> ('b hw_scheme, u32) prog" where
  "BcmMailBoxRead m_nChannel = hw_until
     (bind (hw_until (bind (read32 MAILBOX0_STATUS) (\<lambda>st.
        return (if st AND MAILBOX_STATUS_EMPTY \<noteq> 0 then None else Some ())))) (\<lambda>_.
      bind (read32 MAILBOX0_READ) (\<lambda>nResult.
      return (if nResult AND 0xF \<noteq> m_nChannel then None else Some (nResult AND NOT 0xF)))))"

definition BcmMailBoxWrite :: "u32 \<Rightarrow> u32 \<Rightarrow> ('b hw_scheme, unit) prog" where
  "BcmMailBoxWrite m_nChannel nData =
     bind (hw_until (bind (read32 MAILBOX1_STATUS) (\<lambda>st.
        return (if st AND MAILBOX_STATUS_FULL \<noteq> 0 then None else Some ())))) (\<lambda>_.
     bind (UK_ASSERT (nData AND 0xF = 0)) (\<lambda>_.
     write32 MAILBOX1_WRITE (m_nChannel OR nData)))"

text \<open>The cache line operation works on the line of the local \<open>nData\<close>, not on the message.\<close>

definition BcmMailBoxWriteRead :: "u64 \<Rightarrow> u32 \<Rightarrow> u32 \<Rightarrow> ('b hw_scheme, u32) prog" where
  "BcmMailBoxWriteRead nData_address m_nChannel nData =
     bind (block [DataMemBarrier, BcmMailBoxFlush, emit (EvCleanLine nData_address),
                  BcmMailBoxWrite m_nChannel nData]) (\<lambda>_.
     bind (BcmMailBoxRead m_nChannel) (\<lambda>nResult.
     bind DataMemBarrier (\<lambda>_. return nResult)))"

section \<open>Property tags\<close>

definition CODE_REQUEST :: u32 where "CODE_REQUEST = 0"
definition CODE_RESPONSE_SUCCESS :: u32 where "CODE_RESPONSE_SUCCESS = 0x80000000"
definition VALUE_LENGTH_RESPONSE :: u32 where "VALUE_LENGTH_RESPONSE = 0x80000000"
definition PROPTAG_END :: u32 where "PROPTAG_END = 0"
definition PROPTAG_GET_MAC_ADDRESS :: u32 where "PROPTAG_GET_MAC_ADDRESS = 0x00010003"
definition PROPTAG_SET_POWER_STATE :: u32 where "PROPTAG_SET_POWER_STATE = 0x00028001"
definition POWER_STATE_ON :: u32 where "POWER_STATE_ON = 1"
definition POWER_STATE_WAIT :: u32 where "POWER_STATE_WAIT = 2"
definition POWER_STATE_NO_DEVICE :: u32 where "POWER_STATE_NO_DEVICE = 2"

text \<open>The 16-byte aligned buffer inside of the local array at \<open>Buffer\<close>.\<close>

definition pBuffer_of :: "u64 \<Rightarrow> u32" where
  "pBuffer_of Buffer = (ucast Buffer + 15) AND NOT 15"

definition build_request ::
  "u64 \<Rightarrow> u32 \<Rightarrow> u32 \<Rightarrow> u8 list \<Rightarrow> u32 \<Rightarrow> ('b hw_scheme, unit) prog" where
  "build_request pBuffer nBufferSize nTagId pTag nRequestParmSize = block
     [store32 pBuffer nBufferSize,
      store32 (pBuffer + 4) CODE_REQUEST,
      store (pBuffer + 8) pTag,
      store32 (pBuffer + 8) nTagId,
      store32 (pBuffer + 12) (of_nat (length pTag) - 12),
      store32 (pBuffer + 16) (nRequestParmSize AND NOT VALUE_LENGTH_RESPONSE),
      store32 (pBuffer + 8 + of_nat (length pTag)) PROPTAG_END]"

definition BcmPropertyTagsGetTag ::
  "u64 \<Rightarrow> u64 \<Rightarrow> u32 \<Rightarrow> u8 list \<Rightarrow> u32 \<Rightarrow> ('b hw_scheme, bool \<times> u8 list) prog" where
  "BcmPropertyTagsGetTag nData_address Buffer nTagId pTag nRequestParmSize =
     bind (UK_ASSERT (of_nat (length pTag) \<ge> (16 :: u32))) (\<lambda>_.
     let nBufferSize = 8 + of_nat (length pTag) + 4; pBuffer = ucast (pBuffer_of Buffer) in
     bind (UK_ASSERT (nBufferSize AND 3 = 0)) (\<lambda>_.
     bind (build_request pBuffer nBufferSize nTagId pTag nRequestParmSize) (\<lambda>_.
     bind (emit (EvCacheRange pBuffer (ucast nBufferSize))) (\<lambda>_.
     bind DataSyncBarrier (\<lambda>_.
     let nBufferAddress = BUS_ADDRESS (pBuffer_of Buffer) in
     bind (BcmMailBoxWriteRead nData_address BCM_MAILBOX_PROP_OUT nBufferAddress) (\<lambda>nResult.
     if nResult \<noteq> nBufferAddress then return (False, pTag) else
     bind (emit (EvCacheRange pBuffer (ucast nBufferSize))) (\<lambda>_.
     bind DataSyncBarrier (\<lambda>_.
     bind (load32 (pBuffer + 4)) (\<lambda>nCode.
     if nCode \<noteq> CODE_RESPONSE_SUCCESS then return (False, pTag) else
     bind (load32 (pBuffer + 16)) (\<lambda>nValueLength.
     if nValueLength AND VALUE_LENGTH_RESPONSE = 0 then return (False, pTag) else
     let n = nValueLength AND NOT VALUE_LENGTH_RESPONSE in
     bind (store32 (pBuffer + 16) n) (\<lambda>_.
     if n = 0 then return (False, pTag) else
     bind (load (pBuffer + 8) (length pTag)) (\<lambda>tag. return (True, tag)))))))))))))"

section \<open>Users of the property tags\<close>

text \<open>\<open>Tag\<close>: the header of the local tag structure, which the code does not initialise.\<close>

definition SetPowerStateOn :: "u64 \<Rightarrow> u64 \<Rightarrow> u8 list \<Rightarrow> u32 \<Rightarrow> ('b hw_scheme, u32) prog" where
  "SetPowerStateOn nData_address Buffer Tag nDeviceId =
     bind (BcmPropertyTagsGetTag nData_address Buffer PROPTAG_SET_POWER_STATE
        (Tag @ bytes32 nDeviceId @ bytes32 (POWER_STATE_ON OR POWER_STATE_WAIT)) 8) (\<lambda>(ok, PowerState).
     let nState = read_le32 (drop 16 PowerState) in
     if \<not> ok \<or> nState AND POWER_STATE_NO_DEVICE \<noteq> 0 \<or> nState AND POWER_STATE_ON = 0
     then return 0 else return 1)"

definition GetMACAddress :: "u64 \<Rightarrow> u64 \<Rightarrow> u8 list \<Rightarrow> ('b hw_scheme, u8 list option) prog" where
  "GetMACAddress nData_address Buffer MACAddress =
     bind (BcmPropertyTagsGetTag nData_address Buffer PROPTAG_GET_MAC_ADDRESS MACAddress 0)
       (\<lambda>(ok, tag). return (if ok then Some (slice 12 6 tag) else None))"

section \<open>The platform's mailbox call\<close>

definition MBOX_RESPONSE :: u32 where "MBOX_RESPONSE = 0x80000000"
definition MBOX_FULL :: u32 where "MBOX_FULL = 0x80000000"
definition MBOX_EMPTY :: u32 where "MBOX_EMPTY = 0x40000000"
definition MBOX_BUFFER_LENGTH :: nat where "MBOX_BUFFER_LENGTH = 36"
definition MBOX_READ :: u64 where "MBOX_READ = 0x3F00B880"
definition MBOX_STATUS :: u64 where "MBOX_STATUS = 0x3F00B898"
definition MBOX_WRITE :: u64 where "MBOX_WRITE = 0x3F00B8A0"

definition mbox_call :: "u64 \<Rightarrow> u8 \<Rightarrow> ('b hw_scheme, bool) prog" where
  "mbox_call mbox ch =
     (let r = (ucast mbox AND NOT 0xF) OR (ucast ch AND 0xF) in
      bind (emit (EvCacheRange mbox (of_nat MBOX_BUFFER_LENGTH))) (\<lambda>_.
      bind (hw_until (bind (vread MBOX_STATUS) (\<lambda>st.
         return (if st AND MBOX_FULL \<noteq> 0 then None else Some ())))) (\<lambda>_.
      bind (vwrite MBOX_WRITE r) (\<lambda>_.
      hw_until
        (bind (hw_until (bind (vread MBOX_STATUS) (\<lambda>st.
           return (if st AND MBOX_EMPTY \<noteq> 0 then None else Some ())))) (\<lambda>_.
         bind (vread MBOX_READ) (\<lambda>v.
         if r = v
         then bind (emit (EvCacheRange mbox (of_nat MBOX_BUFFER_LENGTH))) (\<lambda>_.
              bind (load32 (mbox + 4)) (\<lambda>code. return (Some (code = MBOX_RESPONSE))))
         else return None)))))))"

section \<open>Facts\<close>

lemma pBuffer_aligned: "pBuffer_of b AND 15 = 0"
  by (simp only: pBuffer_of_def and_not_self)

lemma BUS_ADDRESS_aligned: "p AND 15 = 0 \<Longrightarrow> BUS_ADDRESS p AND 15 = 0"
proof -
  assume p: "p AND 15 = 0"
  have "(p AND NOT 0xC0000000) AND 15 = (p AND 15) AND NOT 0xC0000000"
    by (simp only: and.assoc and.commute [of "NOT 0xC0000000"])
  with p show ?thesis by (simp add: BUS_ADDRESS_def bit.conj_disj_distrib2)
qed

text \<open>What is in memory after the answers \<open>as\<close>, each with the DMA writes that come with it.\<close>

definition answered :: "answer list \<Rightarrow> (u64 \<Rightarrow> u8) \<Rightarrow> (u64 \<Rightarrow> u8)" where
  "answered as m = fold (\<lambda>(v, ws). dma_writes ws) as m"

text \<open>
  From \<open>s\<close> to \<open>t\<close> the code has read the answers \<open>as\<close> and has stored nothing itself.
\<close>

definition follows :: "answer list \<Rightarrow> 'b hw_scheme \<Rightarrow> 'b hw_scheme \<Rightarrow> bool" where
  "follows as s t \<longleftrightarrow> sleep_ok t \<and> mmio_in s = as @ mmio_in t \<and> mem t = answered as (mem s)"

lemma answered_append: "answered (as @ bs) m = answered bs (answered as m)"
  by (simp add: answered_def)

lemma follows_refl: "sleep_ok s \<Longrightarrow> follows [] s s"
  by (simp add: follows_def answered_def)

lemma follows_trans: "follows as s t \<Longrightarrow> follows bs t u \<Longrightarrow> follows (as @ bs) s u"
  by (simp add: follows_def answered_append)

lemma follows_sleep_ok: "follows as s t \<Longrightarrow> sleep_ok t"
  by (simp add: follows_def)

lemma follows_upd [simp]:
  "follows as s (t\<lparr>rev_trace := x\<rparr>) = follows as s t"
  "Sleep_error \<notin> set w \<Longrightarrow> sleep_ok t \<Longrightarrow> follows as s (t\<lparr>sleeps := w\<rparr>) = follows as s t"
  by (auto simp: follows_def sleep_ok_def)

lemma wp_read_follows:
  assumes "follows as s0 s" and "\<And>v ws t. follows (as @ [(v, ws)]) s0 t \<Longrightarrow> Q v t" and "\<And>t. E Starved t"
  shows "wp (read32 r) Q E s"
proof (cases "mmio_in s")
  case Nil
  then show ?thesis using assms(3) by (simp add: wp_simps)
next
  case (Cons x xs)
  obtain v ws where x: "x = (v, ws)" by force
  have "follows (as @ [(v, ws)]) s0 (s\<lparr>mmio_in := xs, mem := dma_writes ws (mem s), rev_trace := EvRead (ucast r) v # rev_trace s\<rparr>)"
    using assms(1) Cons x by (simp add: follows_def answered_append) (simp add: answered_def)
  with Cons x show ?thesis by (simp add: wp_simps assms(2))
qed

lemma wp_wait:
  assumes "follows as s0 s" and "\<And>bs t. follows bs s0 t \<Longrightarrow> Q () t" and "\<And>t. E Starved t"
  shows "wp (hw_until (bind (read32 a) (\<lambda>st. return (if P st then None else Some ())))) Q E s"
proof (rule wp_hw_until [where I = "\<lambda>t. \<exists>bs. follows bs s0 t"])
  fix s assume "\<exists>bs. follows bs s0 s"
  then obtain bs where "follows bs s0 s" ..
  then show "wp (bind (read32 a) (\<lambda>st. return (if P st then None else Some ())))
      (\<lambda>r t. case r of None \<Rightarrow> \<exists>bs. follows bs s0 t | Some x \<Rightarrow> Q x t) E s"
    unfolding wp_bind by (rule wp_read_follows) (use assms in \<open>auto simp: wp_simps\<close>)
qed (use assms in auto)

lemma wp_BcmMailBoxFlush:
  assumes "follows as s0 s" and "\<And>bs t. follows bs s0 t \<Longrightarrow> Q () t" and "\<And>t. E Starved t"
  shows "wp BcmMailBoxFlush Q E s"
  unfolding BcmMailBoxFlush_def
proof (rule wp_hw_until [where I = "\<lambda>t. \<exists>bs. follows bs s0 t"])
  fix s :: "'a hw_scheme"
  assume "\<exists>bs. follows bs s0 s"
  then obtain bs where bs: "follows bs s0 s" ..
  let ?Q = "\<lambda>r t. case r of None \<Rightarrow> \<exists>bs. follows bs s0 t | Some x \<Rightarrow> Q x t"
  have ms: "wp (MsDelay 20) (\<lambda>_. wp (return None) ?Q E) E t" if "follows cs s0 t" for cs and t :: "'a hw_scheme"
    by (rule wp_MsDelay [OF follows_sleep_ok [OF that]]) (use that in \<open>auto simp: wp_return follows_sleep_ok\<close>)
  have rd: "wp (read32 MAILBOX0_READ) (\<lambda>_. wp (bind (MsDelay 20) (\<lambda>_. return None)) ?Q E) E t"
    if "follows cs s0 t" for cs and t :: "'a hw_scheme"
    unfolding wp_bind using that by (rule wp_read_follows) (rule ms, auto simp: assms)
  show "wp (bind (read32 MAILBOX0_STATUS) (\<lambda>st.
      if st AND MAILBOX_STATUS_EMPTY = 0
      then bind (read32 MAILBOX0_READ) (\<lambda>_. bind (MsDelay 20) (\<lambda>_. return None))
      else return (Some ()))) ?Q E s"
    unfolding wp_bind
    by (rule wp_read_follows [OF bs]) (use assms rd in \<open>auto simp: wp_bind wp_return\<close>)
qed (use assms in auto)

lemma wp_BcmMailBoxWrite:
  assumes "follows as s0 s" and "\<And>bs t. follows bs s0 t \<Longrightarrow> Q () t" and "\<And>t. E Starved t" and "n AND 0xF = 0"
  shows "wp (BcmMailBoxWrite ch n) Q E s"
  unfolding BcmMailBoxWrite_def wp_bind
  by (rule wp_wait [OF assms(1)]) (use assms in \<open>auto simp: wp_simps\<close>)

text \<open>The result of a read is the last answer, with the channel taken off.\<close>

lemma wp_BcmMailBoxRead:
  assumes "follows as s0 s" and "\<And>bs v ws t. follows (bs @ [(v, ws)]) s0 t \<Longrightarrow> v AND 0xF = ch \<Longrightarrow> Q (v AND NOT 0xF) t"
    and "\<And>t. E Starved t"
  shows "wp (BcmMailBoxRead ch) Q E s"
  unfolding BcmMailBoxRead_def
proof (rule wp_hw_until [where I = "\<lambda>t. \<exists>bs. follows bs s0 t"])
  fix s :: "'a hw_scheme"
  assume "\<exists>bs. follows bs s0 s"
  then obtain bs where bs: "follows bs s0 s" ..
  let ?Q = "\<lambda>r t. case r of None \<Rightarrow> \<exists>bs. follows bs s0 t | Some x \<Rightarrow> Q x t"
  have rd: "wp (bind (read32 MAILBOX0_READ) (\<lambda>nResult.
         return (if nResult AND 0xF \<noteq> ch then None else Some (nResult AND NOT 0xF)))) ?Q E t"
    if "follows cs s0 t" for cs and t :: "'a hw_scheme"
    unfolding wp_bind using that
    by (rule wp_read_follows) (use assms in \<open>auto simp: wp_return\<close>)
  show "wp (bind (hw_until (bind (read32 MAILBOX0_STATUS) (\<lambda>st.
        return (if st AND MAILBOX_STATUS_EMPTY \<noteq> 0 then None else Some ()))))
      (\<lambda>_. bind (read32 MAILBOX0_READ) (\<lambda>nResult.
         return (if nResult AND 0xF \<noteq> ch then None else Some (nResult AND NOT 0xF))))) ?Q E s"
    unfolding wp_bind
    by (rule wp_wait [OF bs]) (use assms rd [unfolded wp_bind] in auto)
qed (use assms in auto)

lemma wp_BcmMailBoxWriteRead:
  assumes "sleep_ok s" and "\<And>as v ws t. follows (as @ [(v, ws)]) s t \<Longrightarrow> v AND 0xF = ch \<Longrightarrow> Q (v AND NOT 0xF) t"
    and "\<And>t. E Starved t" and "n AND 0xF = 0"
  shows "wp (BcmMailBoxWriteRead a ch n) Q E s"
proof -
  have r: "wp (BcmMailBoxRead ch) (\<lambda>x. wp (bind DataMemBarrier (\<lambda>_. return x)) Q E) E t"
    if "follows as s t" for as and t :: "'a hw_scheme"
    using that by (rule wp_BcmMailBoxRead) (use assms in \<open>auto simp: wp_simps\<close>)
  have w: "wp (BcmMailBoxWrite ch n)
      (\<lambda>_. wp (BcmMailBoxRead ch) (\<lambda>x. wp (bind DataMemBarrier (\<lambda>_. return x)) Q E) E) E t"
    if "follows as s t" for as and t :: "'a hw_scheme"
    using that by (rule wp_BcmMailBoxWrite) (use assms r in auto)
  have f: "follows [] s (s\<lparr>rev_trace := x\<rparr>)" for x using follows_refl [OF assms(1)] by simp
  show ?thesis
    unfolding BcmMailBoxWriteRead_def wp_bind wp_block wp_DataMemBarrier
    by (rule wp_BcmMailBoxFlush [OF f])
      (auto simp: assms wp_emit wp_block intro!: w [unfolded wp_bind wp_DataMemBarrier])
qed

definition tag_length_ok :: "u8 list \<Rightarrow> bool" where
  "tag_length_ok tag \<longleftrightarrow> 16 \<le> length tag \<and> length tag < 2 ^ 31 \<and> 4 dvd length tag"

text \<open>The memory with a request in it, before the firmware sees it.\<close>

definition request_memory :: "u64 \<Rightarrow> u32 \<Rightarrow> u8 list \<Rightarrow> u32 \<Rightarrow> (u64 \<Rightarrow> u8) \<Rightarrow> (u64 \<Rightarrow> u8)" where
  "request_memory p nTagId pTag nRequestParmSize m =
     fold (\<lambda>(a, bs). store_bytes a bs)
      [(p, bytes32 (8 + of_nat (length pTag) + 4)), (p + 4, bytes32 CODE_REQUEST), (p + 8, pTag),
       (p + 8, bytes32 nTagId), (p + 12, bytes32 (of_nat (length pTag) - 12)),
       (p + 16, bytes32 (nRequestParmSize AND NOT VALUE_LENGTH_RESPONSE)),
       (p + 8 + of_nat (length pTag), bytes32 PROPTAG_END)] m"

lemma wp_build_request:
  "wp (build_request p (8 + of_nat (length pTag) + 4) nTagId pTag n) Q E s = Q () (s\<lparr>mem := request_memory p nTagId pTag n (mem s)\<rparr>)"
  by (simp add: build_request_def request_memory_def wp_simps)

text \<open>The firmware has answered: its last word and the memory it leaves, for the message at \<open>p\<close>.\<close>

definition responded :: "u32 \<Rightarrow> u64 \<Rightarrow> u32 \<Rightarrow> (u64 \<Rightarrow> u8) \<Rightarrow> bool" where
  "responded bus p v m \<longleftrightarrow> v AND NOT 0xF = bus \<and>
     read_le32 (load_bytes (p + 4) 4 m) = CODE_RESPONSE_SUCCESS \<and>
     (let n = read_le32 (load_bytes (p + 16) 4 m) in
      n AND VALUE_LENGTH_RESPONSE \<noteq> 0 \<and> n AND NOT VALUE_LENGTH_RESPONSE \<noteq> 0)"

text \<open>The tag structure in that memory, with the response flag taken off its length word.\<close>

definition response_tag :: "u64 \<Rightarrow> nat \<Rightarrow> (u64 \<Rightarrow> u8) \<Rightarrow> u8 list" where
  "response_tag p k m = load_bytes (p + 8) k
     (store_bytes (p + 16) (bytes32 (read_le32 (load_bytes (p + 16) 4 m) AND NOT VALUE_LENGTH_RESPONSE)) m)"

text \<open>
  C15. \<open>BcmPropertyTagsGetTag\<close>, for every behaviour of the firmware, as long as sleeping does not fail and
  the tag structure has at least 16 bytes, a multiple of four.  No assertion fails (the message
  address that goes into the mailbox register has its channel bits free wherever the buffer
  lies); the only way not to return is to wait for the firmware.  When the function returns, the last
  answer came on the property channel, and success is reported exactly when that answer is the address of
  the message and the memory, which is the request with the firmware's writes over it and nothing else, has
  the success code, the response flag of the tag and a length that is not zero.  Then the structure
  returned is the tag of that memory with the flag taken off its length; otherwise it is the caller's.
\<close>

theorem GetTag_safe:
  assumes "sleep_ok s" and "tag_length_ok tag" and "p = ucast (pBuffer_of B)"
  shows "wp (BcmPropertyTagsGetTag a B nTagId tag n)
     (\<lambda>(ok, tag') t. \<exists>as v ws. mmio_in s = as @ (v, ws) # mmio_in t \<and> v AND 0xF = BCM_MAILBOX_PROP_OUT \<and>
        (let m = answered (as @ [(v, ws)]) (request_memory p nTagId tag n (mem s)) in
         (ok \<longleftrightarrow> responded (BUS_ADDRESS (pBuffer_of B)) p v m) \<and>
         tag' = (if ok then response_tag p (length tag) m else tag)))
     (\<lambda>h _. h = Starved) s"
proof -
  have len: "16 \<le> (of_nat (length tag) :: u32)"
    using assms(2) by (simp add: tag_length_ok_def word_le_nat_alt unat_of_nat)
  have "4 dvd length tag + 12" using assms(2) by (simp add: tag_length_ok_def)
  then have al: "(8 + of_nat (length tag) + 4 :: u32) AND 3 = 0"
    using four_dvd_and_3 [of "length tag + 12"] by (simp add: ac_simps)
  have al2: "BUS_ADDRESS (pBuffer_of B) AND 0xF = 0"
    by (simp add: BUS_ADDRESS_aligned pBuffer_aligned)
  show ?thesis
    unfolding BcmPropertyTagsGetTag_def wp_bind wp_Let wp_UK_ASSERT if_P [OF len] if_P [OF al]
      wp_build_request wp_emit wp_DataSyncBarrier
    by (rule wp_BcmMailBoxWriteRead)
      (use assms al2 in \<open>auto simp: wp_simps follows_def responded_def response_tag_def Let_def\<close>)
qed

text \<open>A response of the firmware to a power state request.\<close>

definition power_response :: "u32 \<Rightarrow> u8 list \<Rightarrow> u32 \<Rightarrow> u32 \<Rightarrow> u32 \<Rightarrow> u8 list" where
  "power_response code rest dev vlen st =
     bytes32 32 @ bytes32 code @ rest @ bytes32 vlen @ bytes32 dev @ bytes32 st @ bytes32 0"

lemma power_loads:
  assumes "length rest = 8"
  shows "load_bytes (p + 4) 4 (store_bytes p (power_response code rest dev vlen st) m) = bytes32 code"
    and "load_bytes (p + 16) 4 (store_bytes p (power_response code rest dev vlen st) m) = bytes32 vlen"
    and "load_bytes (p + 8) 20 (store_bytes (p + 16) (bytes32 w) (store_bytes p (power_response code rest dev vlen st) m)) =
      rest @ bytes32 w @ bytes32 dev @ bytes32 st"
proof -
  let ?r = "power_response code rest dev vlen st"
  have len: "length ?r = 32" using assms by (simp add: power_response_def)
  show "load_bytes (p + 4) 4 (store_bytes p ?r m) = bytes32 code"
    using load_store_inside [of 4 4 ?r p m] len by (simp add: slice_def power_response_def bytes32_def)
  show "load_bytes (p + 16) 4 (store_bytes p ?r m) = bytes32 vlen"
    using load_store_inside [of 16 4 ?r p m] len assms by (simp add: slice_def power_response_def)
  show "load_bytes (p + 8) 20 (store_bytes (p + 16) (bytes32 w) (store_bytes p ?r m)) = rest @ bytes32 w @ bytes32 dev @ bytes32 st"
    using load_store_inside [of 8 20 "splice 16 (bytes32 w) ?r" p m] len assms store_store_inside [of 16 "bytes32 w" ?r p m]
    by (simp add: slice_def power_response_def splice_def)
qed

lemma read_bytes32: "read_le32 (bytes32 v) = v"
  using read_le32_bytes32 [of v "[]"] by simp

lemma message_address:
  "BUS_ADDRESS (pBuffer_of B) AND 0xF = 0"
  "(BUS_ADDRESS (pBuffer_of B) OR 8) AND 0xF = 8"
  "(BUS_ADDRESS (pBuffer_of B) OR 8) AND NOT 0xF = BUS_ADDRESS (pBuffer_of B)"
proof -
  show al: "BUS_ADDRESS (pBuffer_of B) AND 0xF = 0"
    by (simp add: BUS_ADDRESS_aligned pBuffer_aligned)
  show "(BUS_ADDRESS (pBuffer_of B) OR 8) AND 0xF = 8"
    using al by (simp add: bit.conj_disj_distrib2)
  show "(BUS_ADDRESS (pBuffer_of B) OR 8) AND NOT 0xF = BUS_ADDRESS (pBuffer_of B)"
    using and_not_eq [OF al] by (simp add: bit.conj_disj_distrib2)
qed

lemmas mailbox_runs = BcmPropertyTagsGetTag_def build_request_def BcmMailBoxWriteRead_def BcmMailBoxFlush_def
  BcmMailBoxRead_def BcmMailBoxWrite_def hw_until_def bind_run Let_def read32_def vread_def ans_def DataMemBarrier_def
  DataSyncBarrier_def store32_def store_def load32_def load_def dma_writes_def write32_def BCM_MAILBOX_PROP_OUT_def mailbox_regs
  trace_def

text \<open>
  C16. \<open>SetPowerStateOn\<close> in the exchange the firmware documents: the mailbox is empty and not full, the
  response is in memory before the mailbox shows its address on the property channel.  The
  function then reports success exactly when the response code is the success code, the tag was
  answered with a non-empty value, and the returned state has the on bit and not the
  no-device bit.
\<close>

theorem SetPowerStateOn_exchange:
  assumes "length Tag = 12" and "length rest = 8"
    and "mmio_in s = [ans MAILBOX_STATUS_EMPTY, ans 0,
          (0, [(ucast (pBuffer_of B), power_response code rest dev vlen st)]),
          ans (BUS_ADDRESS (pBuffer_of B) OR 8)]"
  shows "\<exists>t. SetPowerStateOn a B Tag dev s = Done
     (if code = CODE_RESPONSE_SUCCESS \<and> vlen AND VALUE_LENGTH_RESPONSE \<noteq> 0 \<and>
         vlen AND NOT VALUE_LENGTH_RESPONSE \<noteq> 0 \<and> st AND 1 \<noteq> 0 \<and> st AND 2 = 0 then 1 else 0) t \<and>
     writes (trace t) = writes (trace s) @ [(ucast MAILBOX1_WRITE, 8 OR BUS_ADDRESS (pBuffer_of B))]"
  using assms message_address [of B]
  by (simp add: SetPowerStateOn_def mailbox_runs power_loads [OF assms(2)] read_bytes32
    POWER_STATE_NO_DEVICE_def POWER_STATE_ON_def)

theorem SetPowerStateOn_exchange_witness:
  "\<exists>t. SetPowerStateOn 0 0 (replicate 12 0) 3
     \<lparr>mmio_in = [ans MAILBOX_STATUS_EMPTY, ans 0,
          (0, [(ucast (pBuffer_of 0), power_response CODE_RESPONSE_SUCCESS (replicate 8 0) 3 0x80000008 1)]),
          ans (BUS_ADDRESS (pBuffer_of 0) OR 8)],
      sleeps = [], rev_trace = [], mem = \<lambda>_. 0, irq_on = False, s_nCriticalLevel = 0,
      s_bWereEnabled = False, log_level = None\<rparr> = Done 1 t"
  using SetPowerStateOn_exchange [of "replicate 12 0" "replicate 8 0"
     "\<lparr>mmio_in = [ans MAILBOX_STATUS_EMPTY, ans 0,
          (0, [(ucast (pBuffer_of 0), power_response CODE_RESPONSE_SUCCESS (replicate 8 0) 3 0x80000008 1)]),
          ans (BUS_ADDRESS (pBuffer_of 0) OR 8)],
      sleeps = [], rev_trace = [], mem = \<lambda>_. 0, irq_on = False, s_nCriticalLevel = 0,
      s_bWereEnabled = False, log_level = None\<rparr>" 0 CODE_RESPONSE_SUCCESS 3 "0x80000008" 1 0]
  by (auto simp: VALUE_LENGTH_RESPONSE_def)

text \<open>The same exchange for the function itself.\<close>

lemma GetTag_returns:
  assumes "length Tag = 20" and "length rest = 8"
    and "mmio_in s = [ans MAILBOX_STATUS_EMPTY, ans 0,
          (0, [(ucast (pBuffer_of B), power_response code rest dev vlen st)]),
          ans (BUS_ADDRESS (pBuffer_of B) OR 8)]"
  shows "\<exists>r t. BcmPropertyTagsGetTag a B tagid Tag n s = Done r t \<and> mmio_in t = []"
  using assms message_address [of B]
  by (simp add: mailbox_runs power_loads [OF assms(2)] read_bytes32) auto

definition powered :: hw where
  "powered = \<lparr>mmio_in = [ans MAILBOX_STATUS_EMPTY, ans 0,
      (0, [(ucast (pBuffer_of 64), power_response CODE_RESPONSE_SUCCESS (replicate 8 7) 3 0x80000008 1)]),
      ans (BUS_ADDRESS (pBuffer_of 64) OR 8)],
    sleeps = [], rev_trace = [], mem = \<lambda>_. 0, irq_on = False, s_nCriticalLevel = 0, s_bWereEnabled = False, log_level = None\<rparr>"

theorem GetTag_safe_witness:
  "\<exists>t. BcmPropertyTagsGetTag 0 64 PROPTAG_SET_POWER_STATE (replicate 20 0) 8 powered =
     Done (True, replicate 8 7 @ bytes32 8 @ bytes32 3 @ bytes32 1) t"
proof -
  let ?p = "ucast (pBuffer_of 64) :: u64"
  let ?r = "power_response CODE_RESPONSE_SUCCESS (replicate 8 7) 3 0x80000008 1"
  obtain ok tag' t where t: "BcmPropertyTagsGetTag 0 64 PROPTAG_SET_POWER_STATE (replicate 20 0) 8 powered = Done (ok, tag') t"
      "mmio_in t = []"
    using GetTag_returns [of "replicate 20 0" "replicate 8 7" powered 64 CODE_RESPONSE_SUCCESS 3 "0x80000008" 1 0 PROPTAG_SET_POWER_STATE 8]
    by (auto simp: powered_def)
  have ok: "sleep_ok powered" "tag_length_ok (replicate 20 0)"
    by (simp_all add: sleep_ok_def powered_def tag_length_ok_def)
  obtain as v ws where e: "mmio_in powered = as @ [(v, ws)]"
      "ok \<longleftrightarrow> responded (BUS_ADDRESS (pBuffer_of 64)) ?p v
         (answered (as @ [(v, ws)]) (request_memory ?p PROPTAG_SET_POWER_STATE (replicate 20 0) 8 (mem powered)))"
      "tag' = (if ok then response_tag ?p 20
         (answered (as @ [(v, ws)]) (request_memory ?p PROPTAG_SET_POWER_STATE (replicate 20 0) 8 (mem powered))) else replicate 20 0)"
    using GetTag_safe [OF ok refl, of 0 64 PROPTAG_SET_POWER_STATE 8] t by (auto simp: wp_def Let_def)
  have last: "as = [ans MAILBOX_STATUS_EMPTY, ans 0, (0, [(?p, ?r)])]" "v = BUS_ADDRESS (pBuffer_of 64) OR 8" "ws = []"
    using e(1) by (auto simp: powered_def ans_def append_eq_Cons_conv)
  have mem: "answered (as @ [(v, ws)]) m = store_bytes ?p ?r m" for m
    by (simp add: last answered_def ans_def dma_writes_def)
  have 8: "length (replicate 8 (7 :: u8)) = 8" by simp
  have "ok" unfolding e(2) mem
    using message_address [of 64] by (simp add: last responded_def Let_def power_loads [OF 8] read_bytes32 VALUE_LENGTH_RESPONSE_def)
  with e(3) t(1) show ?thesis
    by (simp add: mem response_tag_def power_loads [OF 8] read_bytes32 VALUE_LENGTH_RESPONSE_def)
qed

end
