(* ===== verification/DwhciChannel.thy ===== *)
theory DwhciChannel
  imports StageData DwhciInit Mailbox
begin

text \<open>
  The channels of the host controller: the transfer part of
  \<^verbatim>\<open>eth/lib/dwhcidevice.c\<close>, from the allocation of a channel over the programming
  of its registers to the interrupt handler, the requests of the USB core, and the loop that waits
  for an interrupt.
\<close>

section \<open>Allocation\<close>

primrec find_channel :: "u32 \<Rightarrow> nat \<Rightarrow> nat \<Rightarrow> nat option" where
  "find_channel allocated c 0 = None"
| "find_channel allocated c (Suc n) =
     (if allocated AND push_bit c 1 = 0 then Some c else find_channel allocated (Suc c) n)"

definition DWHCIDeviceAllocateChannel :: "('b usb_scheme, nat) prog" where
  "DWHCIDeviceAllocateChannel =
     bind uspi_EnterCritical (\<lambda>_.
     bind (gets (\<lambda>s. find_channel (m_nChannelAllocated s) 0 (unat (m_nChannels s)))) (\<lambda>r. case r of
         Some c \<Rightarrow>
           bind (modify (\<lambda>s. s\<lparr>m_nChannelAllocated := m_nChannelAllocated s OR push_bit c 1\<rparr>)) (\<lambda>_.
           bind uspi_LeaveCritical (\<lambda>_. return c))
       | None \<Rightarrow> bind uspi_LeaveCritical (\<lambda>_. return (unat DWHCI_MAX_CHANNELS))))"

definition DWHCIDeviceFreeChannel :: "nat \<Rightarrow> ('b usb_scheme, unit) prog" where
  "DWHCIDeviceFreeChannel nChannel =
     bind (gets m_nChannels) (\<lambda>n.
     bind (UK_ASSERT (nChannel < unat n)) (\<lambda>_.
     bind uspi_EnterCritical (\<lambda>_.
     bind (gets m_nChannelAllocated) (\<lambda>a.
     bind (UK_ASSERT (a AND push_bit nChannel 1 \<noteq> 0)) (\<lambda>_.
     bind (modify (\<lambda>s. s\<lparr>m_nChannelAllocated := m_nChannelAllocated s AND NOT (push_bit nChannel 1)\<rparr>)) (\<lambda>_.
     uspi_LeaveCritical))))))"

section \<open>Starting a transaction\<close>

abbreviation (input) "CHAN_CHARACTER_ENABLE \<equiv> (0x80000000 :: u32)"
abbreviation (input) "CHAN_CHARACTER_DISABLE \<equiv> (0x40000000 :: u32)"
abbreviation (input) "CHAN_CHARACTER_PER_ODD_FRAME \<equiv> (0x20000000 :: u32)"
abbreviation (input) "CHAN_CHARACTER_LOW_SPEED_DEVICE \<equiv> (0x20000 :: u32)"
abbreviation (input) "CHAN_CHARACTER_EP_DIRECTION_IN \<equiv> (0x8000 :: u32)"
abbreviation (input) "CHAN_CHARACTER_MAX_PKT_SIZ__MASK \<equiv> (0x7FF :: u32)"
abbreviation (input) "CHAN_CHARACTER_MULTI_CNT__MASK \<equiv> (0x300000 :: u32)"
abbreviation (input) "CHAN_CHARACTER_DEVICE_ADDRESS__MASK \<equiv> (0x1FC00000 :: u32)"
abbreviation (input) "CHAN_CHARACTER_EP_TYPE__MASK \<equiv> (0xC0000 :: u32)"
abbreviation (input) "CHAN_CHARACTER_EP_NUMBER__MASK \<equiv> (0x7800 :: u32)"
abbreviation (input) "CHAN_XFER_SIZ_BYTES__MASK \<equiv> (0x7FFFF :: u32)"
abbreviation (input) "CHAN_XFER_SIZ_PACKETS__MASK \<equiv> (0x1FF80000 :: u32)"
abbreviation (input) "CHAN_SPLIT_CTRL_COMPLETE_SPLIT \<equiv> (0x10000 :: u32)"
abbreviation (input) "CHAN_SPLIT_CTRL_SPLIT_ENABLE \<equiv> (0x80000000 :: u32)"

definition DWHCI_HOST_CHAN_XFER_SIZ_PACKETS :: "u32 \<Rightarrow> u32" where
  "DWHCI_HOST_CHAN_XFER_SIZ_PACKETS reg = drop_bit 19 reg AND 0x3FF"
definition DWHCI_HOST_CHAN_XFER_SIZ_PID :: "u32 \<Rightarrow> u32" where
  "DWHCI_HOST_CHAN_XFER_SIZ_PID reg = drop_bit 29 reg AND 3"

definition set_or_clear :: "bool \<Rightarrow> u32 \<Rightarrow> TDWHCIRegister \<Rightarrow> ('s, TDWHCIRegister) prog" where
  "set_or_clear b nMask = (if b then DWHCIRegisterOr nMask else DWHCIRegisterAnd (NOT nMask))"

text \<open>Transfer size, packet count, PID, and the DMA address.\<close>

definition program_transfer :: "nat \<Rightarrow> u32 \<Rightarrow> ('b usb_scheme, unit) prog" where
  "program_transfer c nChannel =
     bind (DWHCITransferStageDataGetBytesToTransfer c) (\<lambda>bytes.
     bind (DWHCITransferStageDataGetPacketsToTransfer c) (\<lambda>packets.
     bind (DWHCITransferStageDataGetPID c) (\<lambda>pid.
     bind (chain (DWHCIRegister2 (DWHCI_HOST_CHAN_XFER_SIZ nChannel) 0)
       [DWHCIRegisterOr (bytes AND CHAN_XFER_SIZ_BYTES__MASK),
        DWHCIRegisterOr (push_bit 19 packets AND CHAN_XFER_SIZ_PACKETS__MASK),
        DWHCIRegisterOr (push_bit 29 (ucast pid)), DWHCIRegisterWrite]) (\<lambda>_.
     bind (DWHCITransferStageDataGetDMAAddress c) (\<lambda>dma.
     bind (DWHCIRegisterWrite (DWHCIRegister2 (DWHCI_HOST_CHAN_DMA_ADDR nChannel) (BUS_ADDRESS dma))) (\<lambda>_.
     bind (uspi_CleanAndInvalidateDataCacheRange (ucast dma) (ucast bytes)) (\<lambda>_.
     DataMemBarrier)))))))"

definition program_split :: "nat \<Rightarrow> u32 \<Rightarrow> ('b usb_scheme, unit) prog" where
  "program_split c nChannel =
     (let SplitControl = DWHCIRegister2 (DWHCI_HOST_CHAN_SPLIT_CTRL nChannel) 0 in
      bind (DWHCITransferStageDataIsSplit c) (\<lambda>split.
      bind (if split then
              bind (DWHCITransferStageDataGetHubPortAddress c) (\<lambda>port.
              bind (DWHCITransferStageDataGetHubAddress c) (\<lambda>hub.
              bind (DWHCITransferStageDataGetSplitPosition c) (\<lambda>pos.
              bind (DWHCITransferStageDataIsSplitComplete c) (\<lambda>complete.
              chain SplitControl
                ([DWHCIRegisterOr (ucast port), DWHCIRegisterOr (push_bit 7 (ucast hub)),
                  DWHCIRegisterOr (push_bit 14 (ucast pos))] @
                 (if complete then [DWHCIRegisterOr CHAN_SPLIT_CTRL_COMPLETE_SPLIT] else []) @
                 [DWHCIRegisterOr CHAN_SPLIT_CTRL_SPLIT_ENABLE])))))
            else return SplitControl) (\<lambda>SplitControl.
      bind (DWHCIRegisterWrite SplitControl) (\<lambda>_. return ()))))"

definition program_character :: "nat \<Rightarrow> u32 \<Rightarrow> ('b usb_scheme, TDWHCIRegister) prog" where
  "program_character c nChannel =
     bind (DWHCIRegisterRead (DWHCIRegister (DWHCI_HOST_CHAN_CHARACTER nChannel))) (\<lambda>Character.
     bind (DWHCITransferStageDataGetMaxPacketSize c) (\<lambda>maxp.
     bind (DWHCITransferStageDataIsDirectionIn c) (\<lambda>dir_in.
     bind (DWHCITransferStageDataGetSpeed c) (\<lambda>speed.
     bind (DWHCITransferStageDataGetDeviceAddress c) (\<lambda>addr.
     bind (DWHCITransferStageDataGetEndpointType c) (\<lambda>ty.
     bind (DWHCITransferStageDataGetEndpointNumber c) (\<lambda>num.
     chain Character
       [DWHCIRegisterAnd (NOT CHAN_CHARACTER_MAX_PKT_SIZ__MASK),
        DWHCIRegisterOr (maxp AND CHAN_CHARACTER_MAX_PKT_SIZ__MASK),
        DWHCIRegisterAnd (NOT CHAN_CHARACTER_MULTI_CNT__MASK),
        DWHCIRegisterOr (push_bit 20 1),
        set_or_clear dir_in CHAN_CHARACTER_EP_DIRECTION_IN,
        set_or_clear (speed = USBSpeedLow) CHAN_CHARACTER_LOW_SPEED_DEVICE,
        DWHCIRegisterAnd (NOT CHAN_CHARACTER_DEVICE_ADDRESS__MASK),
        DWHCIRegisterOr (push_bit 22 (ucast addr)),
        DWHCIRegisterAnd (NOT CHAN_CHARACTER_EP_TYPE__MASK),
        DWHCIRegisterOr (push_bit 18 (ucast ty)),
        DWHCIRegisterAnd (NOT CHAN_CHARACTER_EP_NUMBER__MASK),
        DWHCIRegisterOr (push_bit 11 (ucast num))])))))))"

definition DWHCIDeviceStartChannel :: "nat \<Rightarrow> ('b usb_scheme, unit) prog" where
  "DWHCIDeviceStartChannel c =
     bind (DWHCITransferStageDataGetChannelNumber c) (\<lambda>nChannel.
     bind (gets m_nChannels) (\<lambda>n.
     bind (UK_ASSERT (nChannel < n)) (\<lambda>_.
     bind (DWHCITransferStageDataSetSubState c StageSubStateWaitForTransactionComplete) (\<lambda>_.
     bind (chain (DWHCIRegister (DWHCI_HOST_CHAN_INT nChannel)) [DWHCIRegisterSetAll, DWHCIRegisterWrite]) (\<lambda>_.
     bind (program_transfer c nChannel) (\<lambda>_.
     bind (program_split c nChannel) (\<lambda>_.
     bind (program_character c nChannel) (\<lambda>Character.
     bind (DWHCITransferStageDataGetFrameScheduler c) (\<lambda>pFrameScheduler.
     bind (case pFrameScheduler of
             None \<Rightarrow> return Character
           | Some _ \<Rightarrow>
               bind (on_scheduler c (proc \<circ> FS_WaitForFrame)) (\<lambda>_.
               bind (on_scheduler c (\<lambda>fs. return (FS_IsOddFrame fs, fs))) (\<lambda>odd.
               set_or_clear odd CHAN_CHARACTER_PER_ODD_FRAME Character))) (\<lambda>Character.
     bind (DWHCITransferStageDataGetStatusMask c) (\<lambda>nMask.
     bind (chain (DWHCIRegister (DWHCI_HOST_CHAN_INT_MASK nChannel))
       [DWHCIRegisterSet nMask, DWHCIRegisterWrite]) (\<lambda>_.
     bind (chain Character [DWHCIRegisterOr CHAN_CHARACTER_ENABLE, DWHCIRegisterAnd (NOT CHAN_CHARACTER_DISABLE),
        DWHCIRegisterWrite]) (\<lambda>_. return ())))))))))))))"

definition DWHCIDeviceStartTransaction :: "nat \<Rightarrow> ('b usb_scheme, unit) prog" where
  "DWHCIDeviceStartTransaction c =
     bind (DWHCITransferStageDataGetChannelNumber c) (\<lambda>nChannel.
     bind (gets m_nChannels) (\<lambda>n.
     bind (UK_ASSERT (nChannel < n)) (\<lambda>_.
     bind (DWHCIRegisterRead (DWHCIRegister (DWHCI_HOST_CHAN_CHARACTER nChannel))) (\<lambda>Character.
     bind (DWHCIRegisterIsSet CHAN_CHARACTER_ENABLE Character) (\<lambda>enabled.
     if enabled then
       bind (DWHCITransferStageDataSetSubState c StageSubStateWaitForChannelDisable) (\<lambda>_.
       bind (chain Character [DWHCIRegisterAnd (NOT CHAN_CHARACTER_ENABLE), DWHCIRegisterOr CHAN_CHARACTER_DISABLE,
          DWHCIRegisterWrite]) (\<lambda>_.
       bind (chain (DWHCIRegister (DWHCI_HOST_CHAN_INT_MASK nChannel))
         [DWHCIRegisterSet CHAN_INT_HALTED, DWHCIRegisterWrite]) (\<lambda>_. return ())))
     else DWHCIDeviceStartChannel c)))))"

section \<open>The end of a request\<close>

definition DWHCIDeviceCompletionRoutine :: "('b usb_scheme, unit) prog" where
  "DWHCIDeviceCompletionRoutine = modify (\<lambda>s. s\<lparr>m_bWaiting := False\<rparr>)"

definition call_completion :: "completion \<Rightarrow> ('b usb_scheme, unit) prog" where
  "call_completion p = (case p of
       DWHCI_CompletionRoutine \<Rightarrow> DWHCIDeviceCompletionRoutine
     | Client_CompletionRoutine n \<Rightarrow> modify (\<lambda>s. s\<lparr>completed := n # completed s\<rparr>))"

definition complete_urb :: "nat \<Rightarrow> ('b usb_scheme, unit) prog" where
  "complete_urb u = USBRequestCallCompletionRoutine call_completion (\<lambda>s. urbs s u)"

definition finish_channel :: "nat \<Rightarrow> nat \<Rightarrow> ('b usb_scheme, unit) prog" where
  "finish_channel c pURB = block
     [DWHCIDeviceDisableChannelInterrupt c, DWHCITransferStageData_destroy c, DWHCIDeviceFreeChannel c,
      complete_urb pURB]"

definition fail_channel :: "nat \<Rightarrow> nat \<Rightarrow> ('b usb_scheme, unit) prog" where
  "fail_channel c pURB = block
     [LogWrite LOG_ERROR ''Transaction failed (status 0x%X)'', on_urb pURB (USBRequestSetStatus False),
      finish_channel c pURB]"

definition set_result_len :: "nat \<Rightarrow> nat \<Rightarrow> ('b usb_scheme, unit) prog" where
  "set_result_len c pURB =
     bind (DWHCITransferStageDataIsStatusStage c) (\<lambda>st. cond (\<not> st)
       (bind (DWHCITransferStageDataGetResultLen c) (\<lambda>n. on_urb pURB (USBRequestSetResultLen n))))"

definition start_periodic_delay :: "nat \<Rightarrow> nat \<Rightarrow> ('b usb_scheme, unit) prog" where
  "start_periodic_delay c pURB =
     bind (DWHCITransferStageDataSetState c StageStatePeriodicDelay) (\<lambda>_.
     bind (on_urb pURB USBRequestGetEndpoint) (\<lambda>ep.
     bind (on_endpoint ep USBEndpointGetInterval) (\<lambda>nInterval.
     bind (StartKernelTimer (MSEC2HZ nInterval) c) (\<lambda>_. return ()))))"

definition start_split :: "nat \<Rightarrow> ('b usb_scheme, unit) prog" where
  "start_split c = block
     [DWHCITransferStageDataSetState c StageStateStartSplit, DWHCITransferStageDataSetSplitComplete c False,
      on_scheduler c (proc \<circ> FS_StartSplit)]"

section \<open>The interrupt of a channel\<close>

definition handle_no_split :: "nat \<Rightarrow> nat \<Rightarrow> ('b usb_scheme, unit) prog" where
  "handle_no_split c pURB =
     bind (DWHCITransferStageDataGetTransactionStatus c) (\<lambda>nStatus.
     if nStatus AND CHAN_INT_ERROR_MASK \<noteq> 0 then fail_channel c pURB
     else
       bind (if nStatus AND (CHAN_INT_NAK OR CHAN_INT_NYET) \<noteq> 0
             then DWHCITransferStageDataIsPeriodic c else return False) (\<lambda>delay.
       if delay then start_periodic_delay c pURB
       else block [set_result_len c pURB, on_urb pURB (USBRequestSetStatus True), finish_channel c pURB]))"

definition leave_complete_split :: "nat \<Rightarrow> nat \<Rightarrow> ('b usb_scheme, unit) prog" where
  "leave_complete_split c pURB =
     bind (DWHCITransferStageDataIsStageComplete c) (\<lambda>done.
     if \<not> done then
       bind (DWHCITransferStageDataBeginSplitCycle c) (\<lambda>ok.
       if \<not> ok then block [on_urb pURB (USBRequestSetStatus False), finish_channel c pURB]
       else
         bind (DWHCITransferStageDataIsPeriodic c) (\<lambda>periodic.
         if \<not> periodic then block [start_split c, DWHCIDeviceStartTransaction c]
         else start_periodic_delay c pURB))
     else block
       [DWHCIDeviceDisableChannelInterrupt c, set_result_len c pURB, on_urb pURB (USBRequestSetStatus True),
        DWHCITransferStageData_destroy c, DWHCIDeviceFreeChannel c, complete_urb pURB])"

definition handle_start_split :: "nat \<Rightarrow> nat \<Rightarrow> ('b usb_scheme, unit) prog" where
  "handle_start_split c pURB =
     bind (DWHCITransferStageDataGetTransactionStatus c) (\<lambda>nStatus.
     if nStatus AND CHAN_INT_ERROR_MASK \<noteq> 0 \<or> nStatus AND CHAN_INT_NAK \<noteq> 0 \<or> nStatus AND CHAN_INT_NYET \<noteq> 0
     then fail_channel c pURB
     else
       bind (on_scheduler c (proc \<circ> FS_TransactionComplete nStatus)) (\<lambda>_.
       bind (DWHCITransferStageDataSetState c StageStateCompleteSplit) (\<lambda>_.
       bind (DWHCITransferStageDataSetSplitComplete c True) (\<lambda>_.
       bind (on_scheduler c FS_CompleteSplit) (\<lambda>go.
       if \<not> go then leave_complete_split c pURB else DWHCIDeviceStartTransaction c)))))"

definition handle_complete_split :: "nat \<Rightarrow> nat \<Rightarrow> ('b usb_scheme, unit) prog" where
  "handle_complete_split c pURB =
     bind (DWHCITransferStageDataGetTransactionStatus c) (\<lambda>nStatus.
     if nStatus AND CHAN_INT_ERROR_MASK \<noteq> 0 then fail_channel c pURB
     else
       bind (on_scheduler c (proc \<circ> FS_TransactionComplete nStatus)) (\<lambda>_.
       bind (on_scheduler c FS_CompleteSplit) (\<lambda>go.
       if go then DWHCIDeviceStartTransaction c else leave_complete_split c pURB)))"

text \<open>The first part of the handler: whether the transaction has ended and has been recorded.\<close>

definition end_transaction :: "nat \<Rightarrow> ('b usb_scheme, bool) prog" where
  "end_transaction c =
     bind (DWHCITransferStageDataGetSubState c) (\<lambda>sub. case sub of
         StageSubStateWaitForChannelDisable \<Rightarrow> bind (DWHCIDeviceStartChannel c) (\<lambda>_. return False)
       | StageSubStateWaitForTransactionComplete \<Rightarrow>
           bind (DWHCITransferStageDataGetDMAAddress c) (\<lambda>dma.
           bind (DWHCITransferStageDataGetBytesToTransfer c) (\<lambda>bytes.
           bind (uspi_CleanAndInvalidateDataCacheRange (ucast dma) (ucast bytes)) (\<lambda>_.
           bind DataMemBarrier (\<lambda>_.
           bind (DWHCIRegisterRead (DWHCIRegister (DWHCI_HOST_CHAN_XFER_SIZ (of_nat c)))) (\<lambda>TransferSize.
           bind (DWHCIRegisterRead (DWHCIRegister (DWHCI_HOST_CHAN_INT (of_nat c)))) (\<lambda>ChanInterrupt.
           if m_nBuffer ChanInterrupt = CHAN_INT_HALTED
           then bind (DWHCIDeviceStartTransaction c) (\<lambda>_. return False)
           else
             bind (DWHCITransferStageDataIsPeriodic c) (\<lambda>periodic.
             bind (DWHCIRegisterGet TransferSize) (\<lambda>siz.
             bind (UK_ASSERT (\<not> periodic \<or> DWHCI_HOST_CHAN_XFER_SIZ_PID siz \<noteq> 3)) (\<lambda>_.
             bind (DWHCIRegisterRead ChanInterrupt) (\<lambda>ChanInterrupt.
             bind (DWHCITransferStageDataTransactionComplete c (m_nBuffer ChanInterrupt)
               (DWHCI_HOST_CHAN_XFER_SIZ_PACKETS siz) (siz AND CHAN_XFER_SIZ_BYTES__MASK)) (\<lambda>_.
             return True)))))))))))
       | StageSubStateUnknown \<Rightarrow> halt Assert_failed)"

definition DWHCIDeviceChannelInterruptHandler :: "nat \<Rightarrow> ('b usb_scheme, unit) prog" where
  "DWHCIDeviceChannelInterruptHandler c =
     bind (DWHCITransferStageDataGetURB c) (\<lambda>pURB.
     bind (end_transaction c) (\<lambda>ended. cond ended
       (bind (DWHCITransferStageDataGetState c) (\<lambda>st. case st of
           StageStateNoSplitTransfer \<Rightarrow> handle_no_split c pURB
         | StageStateStartSplit \<Rightarrow> handle_start_split c pURB
         | StageStateCompleteSplit \<Rightarrow> handle_complete_split c pURB
         | _ \<Rightarrow> halt Assert_failed))))"

section \<open>Interrupt and timer handlers\<close>

definition handle_channel :: "u32 \<Rightarrow> nat \<Rightarrow> ('b usb_scheme, unit) prog" where
  "handle_channel pending c = cond (pending AND push_bit c 1 \<noteq> 0)
     (bind (DWHCIRegisterWrite (DWHCIRegister2 (DWHCI_HOST_CHAN_INT_MASK (of_nat c)) 0)) (\<lambda>_.
      DWHCIDeviceChannelInterruptHandler c))"

definition DWHCIDeviceInterruptHandler :: "('b usb_scheme, unit) prog" where
  "DWHCIDeviceInterruptHandler =
     bind DataMemBarrier (\<lambda>_.
     bind (DWHCIRegisterRead (DWHCIRegister DWHCI_CORE_INT_STAT)) (\<lambda>IntStatus.
     bind (DWHCIRegisterGet IntStatus) (\<lambda>st.
     bind (cond (st AND DWHCI_CORE_INT_MASK_HC_INTR \<noteq> 0)
       (bind (chain (DWHCIRegister DWHCI_HOST_ALLCHAN_INT) [DWHCIRegisterRead, DWHCIRegisterWrite]) (\<lambda>All.
        bind (gets m_nChannels) (\<lambda>n.
        for_each [0..<unat n] (handle_channel (m_nBuffer All)))))) (\<lambda>_.
     bind (DWHCIRegisterWrite IntStatus) (\<lambda>_. DataMemBarrier)))))"

definition DWHCIDeviceTimerHandler :: "nat \<Rightarrow> ('b usb_scheme, unit) prog" where
  "DWHCIDeviceTimerHandler c =
     bind DataMemBarrier (\<lambda>_.
     bind (DWHCITransferStageDataGetState c) (\<lambda>st.
     bind (UK_ASSERT (st = StageStatePeriodicDelay)) (\<lambda>_.
     bind (DWHCITransferStageDataIsSplit c) (\<lambda>split.
     bind (if split then
             bind (DWHCITransferStageDataSetState c StageStateStartSplit) (\<lambda>_.
             bind (DWHCITransferStageDataSetSplitComplete c False) (\<lambda>_.
             bind (DWHCITransferStageDataGetFrameScheduler c) (\<lambda>p.
             bind (UK_ASSERT (p \<noteq> None)) (\<lambda>_. on_scheduler c (proc \<circ> FS_StartSplit)))))
           else DWHCITransferStageDataSetState c StageStateNoSplitTransfer) (\<lambda>_.
     bind (DWHCIDeviceStartTransaction c) (\<lambda>_. DataMemBarrier))))))"

section \<open>Waiting for the end of a stage\<close>

text \<open>An interrupt runs with interrupts disabled and enables them again when it returns.\<close>

definition interrupt :: "irq \<Rightarrow> ('b usb_scheme, unit) prog" where
  "interrupt i = block
     [modify (\<lambda>s. s\<lparr>irq_on := False\<rparr>),
      (case i of IRQ_USB \<Rightarrow> DWHCIDeviceInterruptHandler
       | IRQ_TIMER \<Rightarrow> TimerInterruptHandler (\<lambda>_. DWHCIDeviceTimerHandler)),
      modify (\<lambda>s. s\<lparr>irq_on := True\<rparr>)]"

primrec spin :: "irq list \<Rightarrow> ('b usb_scheme, unit) prog" where
  "spin [] = bind (gets m_bWaiting) (\<lambda>w. if w then halt Starved else return ())"
| "spin (i # is) =
     bind (gets m_bWaiting) (\<lambda>w.
     bind (gets irq_on) (\<lambda>on.
     if \<not> w then return ()
     else if \<not> on then halt Starved
     else bind (modify (\<lambda>s. s\<lparr>irqs := is\<rparr>)) (\<lambda>_. bind (interrupt i) (\<lambda>_. spin is))))"

definition start_stage :: "nat \<Rightarrow> ('b usb_scheme, bool) prog" where
  "start_stage c =
     bind (DWHCITransferStageDataIsSplit c) (\<lambda>split.
     if \<not> split then
       bind (DWHCITransferStageDataSetState c StageStateNoSplitTransfer) (\<lambda>_.
       bind (DWHCIDeviceStartTransaction c) (\<lambda>_. return True))
     else
       bind (DWHCITransferStageDataBeginSplitCycle c) (\<lambda>ok.
       if \<not> ok then
         bind (block [DWHCIDeviceDisableChannelInterrupt c, DWHCITransferStageData_destroy c,
           DWHCIDeviceFreeChannel c]) (\<lambda>_. return False)
       else
         bind (DWHCITransferStageDataSetState c StageStateStartSplit) (\<lambda>_.
         bind (DWHCITransferStageDataSetSplitComplete c False) (\<lambda>_.
         bind (DWHCITransferStageDataGetFrameScheduler c) (\<lambda>p.
         bind (UK_ASSERT (p \<noteq> None)) (\<lambda>_.
         bind (on_scheduler c (proc \<circ> FS_StartSplit)) (\<lambda>_.
         bind (DWHCIDeviceStartTransaction c) (\<lambda>_. return True))))))))"

definition DWHCIDeviceTransferStageAsync :: "nat \<Rightarrow> bool \<Rightarrow> bool \<Rightarrow> ('b usb_scheme, bool) prog" where
  "DWHCIDeviceTransferStageAsync pURB bIn bStatusStage =
     bind DWHCIDeviceAllocateChannel (\<lambda>c.
     bind (gets m_nChannels) (\<lambda>n.
     if c \<ge> unat n then return False else
     bind (DWHCITransferStageData c pURB bIn bStatusStage) (\<lambda>_.
     bind (DWHCIDeviceEnableChannelInterrupt c) (\<lambda>_. start_stage c))))"

definition DWHCIDeviceTransferStage :: "nat \<Rightarrow> bool \<Rightarrow> bool \<Rightarrow> ('b usb_scheme, bool) prog" where
  "DWHCIDeviceTransferStage pURB bIn bStatusStage =
     bind (on_urb pURB (USBRequestSetCompletionRoutine (Some DWHCI_CompletionRoutine))) (\<lambda>_.
     bind (gets m_bWaiting) (\<lambda>w.
     bind (UK_ASSERT (\<not> w)) (\<lambda>_.
     bind (modify (\<lambda>s. s\<lparr>m_bWaiting := True\<rparr>)) (\<lambda>_.
     bind (DWHCIDeviceTransferStageAsync pURB bIn bStatusStage) (\<lambda>ok.
     if \<not> ok then bind (modify (\<lambda>s. s\<lparr>m_bWaiting := False\<rparr>)) (\<lambda>_. return False)
     else
       bind (gets irqs) (\<lambda>is.
       bind (spin is) (\<lambda>_. on_urb pURB USBRequestGetStatus)))))))"

section \<open>Requests\<close>

abbreviation (input) "REQUEST_IN \<equiv> (0x80 :: u8)"
abbreviation (input) "REQUEST_OUT \<equiv> (0 :: u8)"

definition URB_Type :: "nat \<Rightarrow> ('b usb_scheme, TEndpointType) prog" where
  "URB_Type u = bind (on_urb u USBRequestGetEndpoint) (\<lambda>ep. on_endpoint ep USBEndpointGetType)"

definition control_stages :: "nat \<Rightarrow> ('b usb_scheme, bool) prog" where
  "control_stages pURB =
     bind (on_urb pURB USBRequestGetEndpoint) (\<lambda>ep.
     bind (URB_SetupData pURB ep) (\<lambda>pSetup.
     bind (load pSetup 1) (\<lambda>b.
     if hd b AND REQUEST_IN \<noteq> 0 then
       bind (on_urb pURB USBRequestGetBufLen) (\<lambda>n.
       bind (UK_ASSERT (n > 0)) (\<lambda>_.
       all_ok [DWHCIDeviceTransferStage pURB False False, DWHCIDeviceTransferStage pURB True False,
         DWHCIDeviceTransferStage pURB False True]))
     else
       bind (on_urb pURB USBRequestGetBufLen) (\<lambda>n.
       if n = 0 then
         all_ok [DWHCIDeviceTransferStage pURB False False, DWHCIDeviceTransferStage pURB True True]
       else
         all_ok [DWHCIDeviceTransferStage pURB False False, DWHCIDeviceTransferStage pURB False False,
           DWHCIDeviceTransferStage pURB True True]))))"

definition bulk_stage :: "nat \<Rightarrow> TEndpointType \<Rightarrow> ('b usb_scheme, bool) prog" where
  "bulk_stage pURB ty =
     bind (UK_ASSERT (ty = EndpointTypeBulk \<or> ty = EndpointTypeInterrupt)) (\<lambda>_.
     bind (on_urb pURB USBRequestGetBufLen) (\<lambda>n.
     bind (UK_ASSERT (n > 0)) (\<lambda>_.
     bind (on_urb pURB USBRequestGetEndpoint) (\<lambda>ep.
     bind (on_endpoint ep USBEndpointIsDirectionIn) (\<lambda>dir_in.
     DWHCIDeviceTransferStage pURB dir_in False)))))"

definition DWHCIDeviceSubmitBlockingRequest :: "nat \<Rightarrow> ('b usb_scheme, bool) prog" where
  "DWHCIDeviceSubmitBlockingRequest pURB =
     bind DataMemBarrier (\<lambda>_.
     bind (on_urb pURB (USBRequestSetStatus False)) (\<lambda>_.
     bind (URB_Type pURB) (\<lambda>ty.
     bind (if ty = EndpointTypeControl then control_stages pURB else bulk_stage pURB ty) (\<lambda>ok.
     if \<not> ok then return False else bind DataMemBarrier (\<lambda>_. return True)))))"

definition DWHCIDeviceSubmitAsyncRequest :: "nat \<Rightarrow> ('b usb_scheme, bool) prog" where
  "DWHCIDeviceSubmitAsyncRequest pURB =
     bind DataMemBarrier (\<lambda>_.
     bind (URB_Type pURB) (\<lambda>ty.
     bind (UK_ASSERT (ty = EndpointTypeBulk \<or> ty = EndpointTypeInterrupt)) (\<lambda>_.
     bind (on_urb pURB USBRequestGetBufLen) (\<lambda>n.
     bind (UK_ASSERT (n > 0)) (\<lambda>_.
     bind (on_urb pURB (USBRequestSetStatus False)) (\<lambda>_.
     bind (on_urb pURB USBRequestGetEndpoint) (\<lambda>ep.
     bind (on_endpoint ep USBEndpointIsDirectionIn) (\<lambda>dir_in.
     bind (DWHCIDeviceTransferStageAsync pURB dir_in False) (\<lambda>bOK.
     bind DataMemBarrier (\<lambda>_. return bOK))))))))))"

text \<open>The local request is object 0, the local setup packet is at \<open>setup_addr\<close>.\<close>

definition local_request :: "nat option \<Rightarrow> u64 \<Rightarrow> u32 \<Rightarrow> u64 \<Rightarrow> ('b usb_scheme, u32) prog" where
  "local_request pEndpoint pBuffer nBufLen pSetupData =
     bind (on_urb 0 (USBRequest pEndpoint pBuffer nBufLen pSetupData)) (\<lambda>_.
     bind (DWHCIDeviceSubmitBlockingRequest 0) (\<lambda>ok.
     bind (if ok then on_urb 0 USBRequestGetResultLength else return (- 1)) (\<lambda>nResult.
     bind (on_urb 0 USBRequest_destroy) (\<lambda>_. return nResult))))"

definition setup_packet :: "u8 \<Rightarrow> u8 \<Rightarrow> u16 \<Rightarrow> u16 \<Rightarrow> u16 \<Rightarrow> u8 list" where
  "setup_packet ucRequestType ucRequest usValue usIndex usDataSize =
     [ucRequestType, ucRequest] @ bytes16 usValue @ bytes16 usIndex @ bytes16 usDataSize"

definition DWHCIDeviceControlMessage ::
  "nat option \<Rightarrow> u8 \<Rightarrow> u8 \<Rightarrow> u16 \<Rightarrow> u16 \<Rightarrow> u64 \<Rightarrow> u16 \<Rightarrow> ('b usb_scheme, u32) prog" where
  "DWHCIDeviceControlMessage pEndpoint ucRequestType ucRequest usValue usIndex pData usDataSize =
     bind (gets setup_addr) (\<lambda>pSetup.
     bind (store pSetup (setup_packet ucRequestType ucRequest usValue usIndex usDataSize)) (\<lambda>_.
     local_request pEndpoint pData (ucast usDataSize) pSetup))"

definition DWHCIDeviceTransfer :: "nat option \<Rightarrow> u64 \<Rightarrow> u32 \<Rightarrow> ('b usb_scheme, u32) prog" where
  "DWHCIDeviceTransfer pEndpoint pBuffer nBufSize = local_request pEndpoint pBuffer nBufSize 0"

definition DWHCIDeviceGetDescriptor ::
  "nat option \<Rightarrow> u8 \<Rightarrow> u8 \<Rightarrow> u64 \<Rightarrow> u32 \<Rightarrow> u8 \<Rightarrow> ('b usb_scheme, u32) prog" where
  "DWHCIDeviceGetDescriptor pEndpoint ucType ucIndex pBuffer nBufSize ucRequestType =
     DWHCIDeviceControlMessage pEndpoint ucRequestType 6 (push_bit 8 (ucast ucType) OR ucast ucIndex) 0
       pBuffer (ucast nBufSize)"

definition DWHCIDeviceSetAddress :: "nat option \<Rightarrow> u8 \<Rightarrow> ('b usb_scheme, bool) prog" where
  "DWHCIDeviceSetAddress pEndpoint ucDeviceAddress =
     bind (DWHCIDeviceControlMessage pEndpoint REQUEST_OUT 5 (ucast ucDeviceAddress) 0 0 0) (\<lambda>r.
     if r <s 0 then return False else bind (MsDelay 50) (\<lambda>_. return True))"

definition DWHCIDeviceSetConfiguration :: "nat option \<Rightarrow> u8 \<Rightarrow> ('b usb_scheme, bool) prog" where
  "DWHCIDeviceSetConfiguration pEndpoint ucConfigurationValue =
     bind (DWHCIDeviceControlMessage pEndpoint REQUEST_OUT 9 (ucast ucConfigurationValue) 0 0 0) (\<lambda>r.
     if r <s 0 then return False else bind (MsDelay 50) (\<lambda>_. return True))"

end
