(* ===== verification/DwhciHost.thy ===== *)
theory DwhciHost
  imports DwhciChannel
begin

text \<open>
  The blocking requests of the host controller: a channel is taken for a stage of a transfer and
  given back when the stage ends, whatever the hardware reports.
\<close>

section \<open>The allocator of channels\<close>

lemma find_channel_Some:
  "find_channel a c n = Some k \<Longrightarrow> c \<le> k \<and> k < c + n \<and> a AND push_bit k 1 = 0 \<and>
     (\<forall>i. c \<le> i \<and> i < k \<longrightarrow> a AND push_bit i 1 \<noteq> 0)"
proof (induction n arbitrary: c)
  case (Suc n)
  then show ?case
    by (auto split: if_splits simp: less_Suc_eq_le dest!: Suc.IH) (metis le_antisym not_less_eq_eq)
qed simp

lemma find_channel_None:
  "find_channel a c n = None \<Longrightarrow> c \<le> i \<Longrightarrow> i < c + n \<Longrightarrow> a AND push_bit i 1 \<noteq> 0"
proof (induction n arbitrary: c)
  case (Suc n)
  then show ?case by (cases "i = c") (auto split: if_splits)
qed simp

lemma and_bit_zero: "a AND push_bit i 1 = 0 \<longleftrightarrow> \<not> bit a i" for a :: u32
  by (simp add: push_bit_eq_mult and_exp_eq_0_iff_not_bit)

lemma set_clear_bit: "\<not> bit a i \<Longrightarrow> (a OR push_bit i 1) AND NOT (push_bit i 1) = (a :: u32)"
  by (rule bit_word_eqI) (auto simp: bit_simps)

text \<open>
  The allocator of channels: it returns the lowest channel that is not in use and marks it, or
  \<open>DWHCI_MAX_CHANNELS\<close> and marks nothing when all channels are in use; freeing the channel then
  restores the set of channels in use.  Both leave the nesting of critical sections and the interrupt
  flag as they were and fail no assertion.
\<close>

theorem channel_alloc_free:
  assumes "m_nChannels s \<le> 16" and "s_nCriticalLevel s < 0xFFFFFFFF" and "s_nCriticalLevel s \<noteq> 0 \<Longrightarrow> \<not> irq_on s"
  shows "wp DWHCIDeviceAllocateChannel (\<lambda>c t.
      s_nCriticalLevel t = s_nCriticalLevel s \<and> irq_on t = irq_on s \<and>
      (if \<exists>i < unat (m_nChannels s). \<not> bit (m_nChannelAllocated s) i
       then c = (LEAST i. \<not> bit (m_nChannelAllocated s) i) \<and> c < unat (m_nChannels s) \<and>
         m_nChannelAllocated t = m_nChannelAllocated s OR push_bit c 1 \<and>
         wp (DWHCIDeviceFreeChannel c) (\<lambda>_ u. m_nChannelAllocated u = m_nChannelAllocated s \<and>
            s_nCriticalLevel u = s_nCriticalLevel s \<and> irq_on u = irq_on s) (\<lambda>_ _. False) t
       else c = 16 \<and> m_nChannelAllocated t = m_nChannelAllocated s)) (\<lambda>_ _. False) s"
proof -
  let ?a = "m_nChannelAllocated s" and ?n = "unat (m_nChannels s)"
  have n: "?n \<le> 16" using assms(1) by (simp add: word_le_nat_alt)
  have crit: "s_nCriticalLevel s + 1 \<noteq> 0" using assms(2) by (rule less_max_succ)
  show ?thesis
  proof (cases "find_channel ?a 0 ?n")
    case None
    then have all: "bit ?a i" if "i < ?n" for i
      using find_channel_None [OF None, of i] and_bit_zero [of ?a i] that n by simp
    then show ?thesis
      using None assms(3) crit
      by (auto simp: DWHCIDeviceAllocateChannel_def wp_simps DWHCI_MAX_CHANNELS_def)
  next
    case (Some c)
    note c = find_channel_Some [OF Some]
    have bits: "\<not> bit ?a c" "\<And>i. i < c \<Longrightarrow> bit ?a i"
      using c n and_bit_zero [of ?a] by auto
    have least: "(LEAST i. \<not> bit ?a i) = c"
      using bits by (intro Least_equality) (auto simp: not_less [symmetric])
    have set_bit: "(?a OR push_bit c 1) AND push_bit c 1 \<noteq> 0"
      using c n by (simp add: and_bit_zero bit_simps)
    have ex: "\<exists>i < ?n. \<not> bit ?a i" using c bits by auto
    show ?thesis
      using Some assms(3) crit c set_bit set_clear_bit [OF bits(1)] least ex
      by (auto simp: DWHCIDeviceAllocateChannel_def DWHCIDeviceFreeChannel_def wp_simps)
  qed
qed

theorem channel_alloc_free_witness:
  "\<exists>t. DWHCIDeviceAllocateChannel (usb0\<lparr>m_nChannelAllocated := 0x5\<rparr>) = Done 1 t \<and> m_nChannelAllocated t = 7 \<and>
     (\<exists>u. DWHCIDeviceFreeChannel 1 t = Done () u \<and> m_nChannelAllocated u = 5 \<and> irq_on u)"
proof -
  let ?s = "usb0\<lparr>m_nChannelAllocated := 0x5\<rparr>"
  have ex: "\<exists>i < unat (m_nChannels ?s). \<not> bit (m_nChannelAllocated ?s) i"
    by (rule exI [of _ 1]) (simp add: usb0_def)
  have least: "(LEAST i. \<not> bit (5 :: u32) i) = 1"
  proof (rule Least_equality)
    show "1 \<le> i" if "\<not> bit (5 :: u32) i" for i using that by (cases i) simp_all
  qed simp
  have "wp DWHCIDeviceAllocateChannel (\<lambda>c t. c = 1 \<and> m_nChannelAllocated t = 7 \<and>
      wp (DWHCIDeviceFreeChannel 1) (\<lambda>_ u. m_nChannelAllocated u = 5 \<and> irq_on u) (\<lambda>_ _. False) t) (\<lambda>_ _. False) ?s"
  proof (rule wp_mono [OF channel_alloc_free])
    show "m_nChannels ?s \<le> 16" "s_nCriticalLevel ?s < 0xFFFFFFFF"
      "s_nCriticalLevel ?s \<noteq> 0 \<Longrightarrow> \<not> irq_on ?s" by (simp_all add: usb0_def)
  qed (use ex least in \<open>auto simp: usb0_def elim: wp_mono\<close>)
  then show ?thesis by (auto simp: wp_def split: outcome.splits)
qed

section \<open>One channel for one request\<close>

text \<open>
  Between blocking requests the controller is \<open>idle\<close>: no channel is in use and nothing is waited
  for.  During one it is \<open>busy\<close> with it: channel 0 is in use by the request, whose completion ends
  the waiting.  \<open>crit_ok\<close> fixes the nesting level of the critical sections and the interrupt
  flag, which is off inside a critical section.
\<close>

definition idle :: "'b usb_scheme \<Rightarrow> bool" where
  "idle s \<longleftrightarrow> m_nChannelAllocated s = 0 \<and> (\<forall>c. m_pURB (m_StageData s c) = None) \<and> \<not> m_bWaiting s"

definition busy :: "nat \<Rightarrow> 'b usb_scheme \<Rightarrow> bool" where
  "busy u s \<longleftrightarrow> m_nChannelAllocated s = 1 \<and> m_pURB (m_StageData s 0) = Some u \<and>
     m_nChannel (m_StageData s 0) = 0 \<and> (\<forall>c > 0. m_pURB (m_StageData s c) = None) \<and> m_bWaiting s \<and>
     m_pCompletionRoutine (urbs s u) = Some DWHCI_CompletionRoutine"

definition crit_ok :: "u32 \<Rightarrow> bool \<Rightarrow> bool \<Rightarrow> 'b hw_scheme \<Rightarrow> bool" where
  "crit_ok k on were s \<longleftrightarrow> s_nCriticalLevel s = k \<and> irq_on s = on \<and> k < 0xFFFF \<and>
     (k \<noteq> 0 \<longrightarrow> \<not> on \<and> s_bWereEnabled s = were)"

definition host_inv :: "nat \<Rightarrow> u32 \<Rightarrow> bool \<Rightarrow> bool \<Rightarrow> 'b usb_scheme \<Rightarrow> bool" where
  "host_inv u k on were s \<longleftrightarrow> (idle s \<or> busy u s) \<and> crit_ok k on were s"

text \<open>What the machine's operations leave alone, field by field.\<close>

lemma same_rest_usb:
  fixes s t :: "'b usb_scheme"
  assumes "same_rest s t"
  shows "timer t = timer s" "s_pTimer t = s_pTimer s" "m_nChannels t = m_nChannels s"
    "m_nChannelAllocated t = m_nChannelAllocated s" "m_StageData t = m_StageData s"
    "m_bWaiting t = m_bWaiting s" "endpoints t = endpoints s" "urbs t = urbs s" "devs t = devs s"
    "rootport_device t = rootport_device s" "s_ucNextAddress t = s_ucNextAddress s" "irqs t = irqs s"
    "mallocs t = mallocs s" "temp_addr t = temp_addr s" "setup_addr t = setup_addr s"
    "irq_on t = irq_on s" "s_nCriticalLevel t = s_nCriticalLevel s" "s_bWereEnabled t = s_bWereEnabled s"
    "log_level t = log_level s" "usb.more t = usb.more s"
  using assms by (cases s rule: usb.cases_scheme; cases t rule: usb.cases_scheme; simp add: same_rest_def)+

lemma host_inv_same_rest: "same_rest s t \<Longrightarrow> host_inv u k on were s \<Longrightarrow> host_inv u k on were t"
  by (simp add: host_inv_def idle_def busy_def crit_ok_def same_rest_usb)

lemma upholds_keeps: "keeps m \<Longrightarrow> (\<And>s t. same_rest s t \<Longrightarrow> I s \<Longrightarrow> I t) \<Longrightarrow> upholds I m"
  unfolding upholds_def by (blast intro: wp_mono keeps_wp)

lemma host_hw: "keeps m \<Longrightarrow> upholds (host_inv u k on were) m"
  by (rule upholds_keeps) (auto intro: host_inv_same_rest)

lemma keeps_set_or_clear [keeps_intros]: "keeps (set_or_clear b n r)"
  by (simp add: set_or_clear_def keeps_intros)

lemmas host_hw_ops [upholds_intros] = keeps_Register [THEN host_hw] keeps_MsDelay [THEN host_hw]
  keeps_usDelay [THEN host_hw] keeps_LogWrite [THEN host_hw] keeps_DataMemBarrier [THEN host_hw]
  keeps_clean [THEN host_hw] keeps_set_or_clear [THEN host_hw] keeps_store [THEN host_hw] keeps_load [THEN host_hw]
  keeps_read32 [THEN host_hw] keeps_write32 [THEN host_hw]

lemma host_upd_stage [upholds_intros]:
  "(\<And>d. m_pURB (f d) = m_pURB d) \<Longrightarrow> (\<And>d. m_nChannel (f d) = m_nChannel d) \<Longrightarrow>
   upholds (host_inv u k on were) (upd_stage c f)"
  by (rule upholdsI) (auto simp: wp_simps host_inv_def idle_def busy_def crit_ok_def)

lemma host_on_endpoint [upholds_intros]: "upholds (host_inv u k on were) (on_endpoint e m)"
proof (rule upholdsI)
  fix s assume "host_inv u k on were s"
  then have "host_inv u k on were (s\<lparr>endpoints := es\<rparr>)" for es
    by (simp add: host_inv_def idle_def busy_def crit_ok_def)
  then show "wp (on_endpoint e m) (\<lambda>_. host_inv u k on were) (\<lambda>_ _. True) s"
    by (auto simp: wp_simps) (auto simp: wp_def split: outcome.split)
qed

definition keeps_routine :: "(TUSBRequest, 'a) prog \<Rightarrow> bool" where
  "keeps_routine m \<longleftrightarrow> (\<forall>r. wp m (\<lambda>_ r'. m_pCompletionRoutine r' = m_pCompletionRoutine r) (\<lambda>_ _. True) r)"

lemma host_on_urb [upholds_intros]: "keeps_routine m \<Longrightarrow> upholds (host_inv u k on were) (on_urb v m)"
proof (rule upholdsI)
  fix s assume m: "keeps_routine m" and s: "host_inv u k on were s"
  have "host_inv u k on were (s\<lparr>urbs := (urbs s)(v := r)\<rparr>)"
    if "m_pCompletionRoutine r = m_pCompletionRoutine (urbs s v)" for r
    using that s by (auto simp: host_inv_def idle_def busy_def crit_ok_def)
  with m show "wp (on_urb v m) (\<lambda>_. host_inv u k on were) (\<lambda>_ _. True) s"
    unfolding wp_on_urb keeps_routine_def by (auto intro: wp_mono)
qed

lemma keeps_routine_ops [simp]:
  "keeps_routine USBRequestGetEndpoint" "keeps_routine USBRequestGetStatus" "keeps_routine USBRequestGetResultLength"
  "keeps_routine USBRequestGetBuffer" "keeps_routine USBRequestGetBufLen" "keeps_routine (USBRequestGetSetupData ty)"
  "keeps_routine (USBRequestSetStatus b)" "keeps_routine (USBRequestSetResultLen n)"
  by (simp_all add: keeps_routine_def wp_simps split: option.split)

lemma host_get_stage [upholds_intros]: "upholds (host_inv u k on were) (get_stage c f)"
  by (simp add: get_stage_def upholds_gets)

text \<open>Critical sections of their own.\<close>

lemma crit_ok_nz: "crit_ok k on were s \<Longrightarrow> s_nCriticalLevel s + 1 \<noteq> 0"
  by (intro less_max_succ) (auto simp: crit_ok_def elim: less_trans)

lemma host_channel_interrupt [upholds_intros]:
  "upholds (host_inv u k on were) (DWHCIDeviceEnableChannelInterrupt c)"
  "upholds (host_inv u k on were) (DWHCIDeviceDisableChannelInterrupt c)"
proof -
  show "upholds (host_inv u k on were) (DWHCIDeviceEnableChannelInterrupt c)"
  proof (rule upholdsI, goal_cases)
    case (1 s)
    then show ?case
      using crit_ok_nz [of k on were s]
      by (auto simp: DWHCIDeviceEnableChannelInterrupt_def wp_simps register_simps host_inv_def idle_def busy_def
          crit_ok_def split: list.split)
  qed
  show "upholds (host_inv u k on were) (DWHCIDeviceDisableChannelInterrupt c)"
  proof (rule upholdsI, goal_cases)
    case (1 s)
    then show ?case
      using crit_ok_nz [of k on were s]
      by (auto simp: DWHCIDeviceDisableChannelInterrupt_def wp_simps register_simps host_inv_def idle_def busy_def
          crit_ok_def split: list.split)
  qed
qed

lemma host_StartKernelTimer [upholds_intros]: "upholds (host_inv u k on were) (StartKernelTimer n h)"
proof (rule upholdsI, goal_cases)
  case (1 s)
  then show ?case
    using crit_ok_nz [of k on were s]
    by (auto simp: StartKernelTimer_def TimerGet_def TimerStartKernelTimer_def LoggerGet_def LoggerWriteV_def
        upd_timer_def wp_simps host_inv_def idle_def busy_def crit_ok_def split: option.split)
qed

lemma host_on_scheduler [upholds_intros]:
  "(\<And>fs. keeps (m fs)) \<Longrightarrow> upholds (host_inv u k on were) (on_scheduler c m)"
  unfolding on_scheduler_def DWHCITransferStageDataGetFrameScheduler_def
  by (intro upholds_intros host_hw) simp_all

lemma keeps_scheduler_calls [intro]:
  "keeps ((proc \<circ> FS_WaitForFrame) fs)" "keeps ((proc \<circ> FS_StartSplit) fs)"
  "keeps ((proc \<circ> FS_TransactionComplete st) fs)" "keeps (return (FS_IsOddFrame fs, fs))"
  by (auto simp: proc_def intro!: keeps_intros)

section \<open>Transactions leave the channel to its request\<close>

lemma host_stage_ops [upholds_intros]:
  "upholds (host_inv u k on were) (DWHCITransferStageDataIsPeriodic c)"
  "upholds (host_inv u k on were) (DWHCITransferStageDataSetSplitComplete c b)"
  "upholds (host_inv u k on were) (DWHCITransferStageDataSetState c st)"
  "upholds (host_inv u k on were) (DWHCITransferStageDataSetSubState c sub)"
  "upholds (host_inv u k on were) (DWHCITransferStageDataGetState c)"
  "upholds (host_inv u k on were) (DWHCITransferStageDataGetSubState c)"
  "upholds (host_inv u k on were) (DWHCITransferStageDataBeginSplitCycle c)"
  "upholds (host_inv u k on were) (DWHCITransferStageDataGetChannelNumber c)"
  "upholds (host_inv u k on were) (DWHCITransferStageDataGetDeviceAddress c)"
  "upholds (host_inv u k on were) (DWHCITransferStageDataGetEndpointNumber c)"
  "upholds (host_inv u k on were) (DWHCITransferStageDataGetMaxPacketSize c)"
  "upholds (host_inv u k on were) (DWHCITransferStageDataGetSpeed c)"
  "upholds (host_inv u k on were) (DWHCITransferStageDataGetPID c)"
  "upholds (host_inv u k on were) (DWHCITransferStageDataIsDirectionIn c)"
  "upholds (host_inv u k on were) (DWHCITransferStageDataIsStatusStage c)"
  "upholds (host_inv u k on were) (DWHCITransferStageDataGetDMAAddress c)"
  "upholds (host_inv u k on were) (DWHCITransferStageDataGetBytesToTransfer c)"
  "upholds (host_inv u k on were) (DWHCITransferStageDataGetPacketsToTransfer c)"
  "upholds (host_inv u k on were) (DWHCITransferStageDataIsSplit c)"
  "upholds (host_inv u k on were) (DWHCITransferStageDataIsSplitComplete c)"
  "upholds (host_inv u k on were) (DWHCITransferStageDataGetHubAddress c)"
  "upholds (host_inv u k on were) (DWHCITransferStageDataGetHubPortAddress c)"
  "upholds (host_inv u k on were) (DWHCITransferStageDataGetSplitPosition c)"
  "upholds (host_inv u k on were) (DWHCITransferStageDataGetTransactionStatus c)"
  "upholds (host_inv u k on were) (DWHCITransferStageDataIsStageComplete c)"
  "upholds (host_inv u k on were) (DWHCITransferStageDataGetResultLen c)"
  "upholds (host_inv u k on were) (DWHCITransferStageDataGetURB c)"
  "upholds (host_inv u k on were) (DWHCITransferStageDataGetFrameScheduler c)"
  unfolding stage_defs by (intro upholds_intros; simp)+

lemma host_endpoint_type [upholds_intros]:
  "upholds (host_inv u k on were) (DWHCITransferStageDataGetEndpointType c)"
proof -
  have "upholds (host_inv u k on were) (case ty of EndpointTypeControl \<Rightarrow> return (0 :: u8) | EndpointTypeBulk \<Rightarrow> return 2
       | EndpointTypeInterrupt \<Rightarrow> return 3 | EndpointTypeIsochronous \<Rightarrow> halt Assert_failed)" for ty
    by (cases ty) (simp_all add: upholds_intros)
  then show ?thesis unfolding DWHCITransferStageDataGetEndpointType_def by (intro upholds_intros)
qed

lemma host_status_mask [upholds_intros]:
  "upholds (host_inv u k on were) (DWHCITransferStageDataGetStatusMask c)"
  unfolding DWHCITransferStageDataGetStatusMask_def Let_def by (intro upholds_intros)

lemma host_TransactionComplete [upholds_intros]:
  "upholds (host_inv u k on were) (DWHCITransferStageDataTransactionComplete c st p n)"
  unfolding DWHCITransferStageDataTransactionComplete_def by (intro upholds_intros) simp_all

lemma host_program [upholds_intros]:
  "upholds (host_inv u k on were) (program_transfer c n)"
  "upholds (host_inv u k on were) (program_split c n)"
  "upholds (host_inv u k on were) (program_character c n)"
proof -
  show "upholds (host_inv u k on were) (program_transfer c n)"
    unfolding program_transfer_def by (intro upholds_intros)
  show "upholds (host_inv u k on were) (program_split c n)"
    unfolding program_split_def Let_def by (intro upholds_intros) (auto intro!: upholds_intros)
  show "upholds (host_inv u k on were) (program_character c n)"
    unfolding program_character_def by (intro upholds_intros)
qed

lemma host_StartChannel [upholds_intros]: "upholds (host_inv u k on were) (DWHCIDeviceStartChannel c)"
  unfolding DWHCIDeviceStartChannel_def by (intro upholds_intros keeps_scheduler_calls)

lemma host_StartTransaction [upholds_intros]: "upholds (host_inv u k on were) (DWHCIDeviceStartTransaction c)"
  unfolding DWHCIDeviceStartTransaction_def by (intro upholds_intros)

section \<open>The end of a stage\<close>

lemma host_release [upholds_intros]:
  "upholds (host_inv u k on were) (block [DWHCITransferStageData_destroy 0, DWHCIDeviceFreeChannel 0, complete_urb u])"
proof (rule upholdsI, goal_cases)
  case (1 s)
  show ?case
  proof (cases "m_nChannelAllocated s = 0")
    case True
    then show ?thesis
      by (simp add: DWHCITransferStageData_destroy_def DWHCIDeviceFreeChannel_def wp_simps)
  next
    case False
    with 1 have b: "busy u s" "crit_ok k on were s" by (simp_all add: host_inv_def idle_def)
    have d: "m_pURB (if x then a else b) = (if x then m_pURB a else m_pURB b)" for x a b by simp
    from b show ?thesis
      using crit_ok_nz [OF b(2)]
      by (auto simp: DWHCITransferStageData_destroy_def DWHCIDeviceFreeChannel_def complete_urb_def
          USBRequestCallCompletionRoutine_def call_completion_def DWHCIDeviceCompletionRoutine_def
          wp_simps busy_def host_inv_def idle_def crit_ok_def)
  qed
qed

lemma host_finish [upholds_intros]:
  "upholds (host_inv u k on were) (finish_channel 0 u)" "upholds (host_inv u k on were) (fail_channel 0 u)"
proof -
  show f: "upholds (host_inv u k on were) (finish_channel 0 u)"
    unfolding finish_channel_def by (rule upholds_block(2) [OF host_channel_interrupt(2) host_release])
  show "upholds (host_inv u k on were) (fail_channel 0 u)"
    unfolding fail_channel_def by (intro upholds_intros f) simp
qed

lemma host_result_len [upholds_intros]: "upholds (host_inv u k on were) (set_result_len c v)"
  unfolding set_result_len_def by (intro upholds_intros) simp

lemma host_periodic_delay [upholds_intros]: "upholds (host_inv u k on were) (start_periodic_delay c v)"
  unfolding start_periodic_delay_def by (intro upholds_intros) simp

lemma host_start_split [upholds_intros]: "upholds (host_inv u k on were) (start_split c)"
  unfolding start_split_def by (intro upholds_intros keeps_scheduler_calls)

lemma host_leave [upholds_intros]: "upholds (host_inv u k on were) (leave_complete_split 0 u)"
proof -
  have "upholds (host_inv u k on were) (block [DWHCIDeviceDisableChannelInterrupt 0, set_result_len 0 u,
      on_urb u (USBRequestSetStatus True), DWHCITransferStageData_destroy 0, DWHCIDeviceFreeChannel 0, complete_urb u])"
    by (intro upholds_block(2) host_release host_channel_interrupt host_result_len host_on_urb) simp
  then show ?thesis
    unfolding leave_complete_split_def by (intro upholds_intros; simp)
qed

lemma host_handlers [upholds_intros]:
  "upholds (host_inv u k on were) (handle_no_split 0 u)"
  "upholds (host_inv u k on were) (handle_start_split 0 u)"
  "upholds (host_inv u k on were) (handle_complete_split 0 u)"
proof -
  show "upholds (host_inv u k on were) (handle_no_split 0 u)"
    unfolding handle_no_split_def by (intro upholds_intros; simp)
  show "upholds (host_inv u k on were) (handle_start_split 0 u)"
    unfolding handle_start_split_def by (intro upholds_intros keeps_scheduler_calls keeps_FS)
  show "upholds (host_inv u k on were) (handle_complete_split 0 u)"
    unfolding handle_complete_split_def by (intro upholds_intros keeps_scheduler_calls keeps_FS)
qed

lemma upholds_case_substate [upholds_intros]:
  "upholds I a \<Longrightarrow> upholds I b \<Longrightarrow> upholds I c \<Longrightarrow>
   upholds I (case sub of StageSubStateWaitForChannelDisable \<Rightarrow> a | StageSubStateWaitForTransactionComplete \<Rightarrow> b
     | StageSubStateUnknown \<Rightarrow> c)"
  by (cases sub) simp_all

lemma upholds_case_state [upholds_intros]:
  "upholds I a \<Longrightarrow> upholds I b \<Longrightarrow> upholds I c \<Longrightarrow> upholds I d \<Longrightarrow> upholds I e \<Longrightarrow>
   upholds I (case st of StageStateNoSplitTransfer \<Rightarrow> a | StageStateStartSplit \<Rightarrow> b | StageStateCompleteSplit \<Rightarrow> c
     | StageStatePeriodicDelay \<Rightarrow> d | StageStateUnknown \<Rightarrow> e)"
  by (cases st) simp_all

lemma host_end_transaction [upholds_intros]: "upholds (host_inv u k on were) (end_transaction c)"
  unfolding end_transaction_def by (intro upholds_intros)

lemma host_ChannelInterrupt [upholds_intros]:
  "upholds (host_inv u k on were) (DWHCIDeviceChannelInterruptHandler c)"
proof (rule upholdsI, goal_cases)
  case (1 s)
  show ?case
  proof (cases "m_pURB (m_StageData s c)")
    case None
    then show ?thesis
      by (simp add: DWHCIDeviceChannelInterruptHandler_def DWHCITransferStageDataGetURB_def wp_simps)
  next
    case (Some v)
    with 1 have c: "c = 0" "v = u" by (cases "c = 0"; auto simp: host_inv_def idle_def busy_def)+
    have "upholds (host_inv u k on were) (bind (end_transaction 0) (\<lambda>ended. cond ended
       (bind (DWHCITransferStageDataGetState 0) (\<lambda>st. case st of
           StageStateNoSplitTransfer \<Rightarrow> handle_no_split 0 u
         | StageStateStartSplit \<Rightarrow> handle_start_split 0 u
         | StageStateCompleteSplit \<Rightarrow> handle_complete_split 0 u
         | _ \<Rightarrow> halt Assert_failed))))"
      by (intro upholds_intros)
    from upholdsD [OF this 1] show ?thesis
      using Some
      by (simp add: DWHCIDeviceChannelInterruptHandler_def DWHCITransferStageDataGetURB_def wp_simps c)
  qed
qed

lemma host_InterruptHandler [upholds_intros]: "upholds (host_inv u k on were) DWHCIDeviceInterruptHandler"
  unfolding DWHCIDeviceInterruptHandler_def handle_channel_def by (intro upholds_intros)

lemma host_TimerHandler [upholds_intros]: "upholds (host_inv u k on were) (DWHCIDeviceTimerHandler c)"
  unfolding DWHCIDeviceTimerHandler_def by (intro upholds_intros keeps_scheduler_calls)

section \<open>Interrupts while a stage is waited for\<close>

lemma host_upd_timer [upholds_intros]: "upholds (host_inv u k on were) (upd_timer f)"
  unfolding upd_timer_def by (rule upholds_modify) (auto simp: host_inv_def idle_def busy_def crit_ok_def)

lemma upholds_section:
  assumes "upholds (host_inv u 1 False False) m"
  shows "upholds (host_inv u 0 False were) (block [uspi_EnterCritical, m, uspi_LeaveCritical])"
proof (rule upholdsI, goal_cases)
  case (1 s)
  have inner: "host_inv u 1 False False (s\<lparr>irq_on := False, s_nCriticalLevel := 1, s_bWereEnabled := False,
      rev_trace := EvBarrier # rev_trace s\<rparr>)"
    using 1 by (auto simp: host_inv_def idle_def busy_def crit_ok_def)
  have leave: "host_inv u 1 False False t \<Longrightarrow> wp uspi_LeaveCritical (\<lambda>_. host_inv u 0 False were) (\<lambda>_ _. True) t" for t
    by (auto simp: wp_simps host_inv_def idle_def busy_def crit_ok_def)
  have "s_nCriticalLevel s = 0" "\<not> irq_on s" using 1 by (simp_all add: host_inv_def crit_ok_def)
  moreover have "wp m (\<lambda>_. wp uspi_LeaveCritical (\<lambda>_. host_inv u 0 False were) (\<lambda>_ _. True)) (\<lambda>_ _. True)
      (s\<lparr>irq_on := False, s_nCriticalLevel := 1, s_bWereEnabled := False, rev_trace := EvBarrier # rev_trace s\<rparr>)"
    by (rule wp_mono [OF upholdsD [OF assms inner]]) (simp_all add: leave)
  ultimately show ?case
    by (simp add: wp_bind wp_EnterCritical)
qed

lemma host_TimerInterrupt: "upholds (host_inv u 0 False were) (TimerInterruptHandler (\<lambda>_. DWHCIDeviceTimerHandler))"
proof -
  have "upholds (host_inv u 1 False False) (for_each is (poll_slot (\<lambda>_. DWHCIDeviceTimerHandler)))" for "is"
    unfolding poll_slot_def by (intro upholds_intros)
  then have "upholds (host_inv u 0 False were) (TimerPollKernelTimers (\<lambda>_. DWHCIDeviceTimerHandler))"
    unfolding TimerPollKernelTimers_def by (rule upholds_section)
  then show ?thesis
    unfolding TimerInterruptHandler_def by (intro upholds_intros)
qed

lemma host_interrupt: "upholds (host_inv u 0 True were) (interrupt i)"
proof (rule upholdsI, goal_cases)
  case (1 s)
  then have s: "host_inv u 0 False were (s\<lparr>irq_on := False\<rparr>)"
    by (auto simp: host_inv_def idle_def busy_def crit_ok_def)
  have on: "host_inv u 0 False were t \<Longrightarrow> host_inv u 0 True were (t\<lparr>irq_on := True\<rparr>)" for t
    by (auto simp: host_inv_def idle_def busy_def crit_ok_def)
  have u: "upholds (host_inv u 0 False were) (case i of IRQ_USB \<Rightarrow> DWHCIDeviceInterruptHandler
      | IRQ_TIMER \<Rightarrow> TimerInterruptHandler (\<lambda>_. DWHCIDeviceTimerHandler))"
    using host_InterruptHandler host_TimerInterrupt by (cases i) simp_all
  have "wp (case i of IRQ_USB \<Rightarrow> DWHCIDeviceInterruptHandler
      | IRQ_TIMER \<Rightarrow> TimerInterruptHandler (\<lambda>_. DWHCIDeviceTimerHandler))
      (\<lambda>_ t. host_inv u 0 True were (t\<lparr>irq_on := True\<rparr>)) (\<lambda>_ _. True) (s\<lparr>irq_on := False\<rparr>)"
    by (rule wp_mono [OF upholdsD [OF u s]]) (simp_all add: on)
  then show ?case
    by (simp add: interrupt_def wp_bind wp_modify [abs_def])
qed

lemma wp_spin:
  "host_inv u 0 True were s \<Longrightarrow>
   wp (spin is) (\<lambda>_ t. host_inv u 0 True were t \<and> \<not> m_bWaiting t) (\<lambda>_ _. True) s"
proof (induction "is" arbitrary: s)
  case (Cons i "is")
  have "host_inv u 0 True were (s\<lparr>irqs := is\<rparr>)"
    using Cons.prems by (auto simp: host_inv_def idle_def busy_def crit_ok_def)
  from upholdsD [OF host_interrupt this]
  have "wp (interrupt i) (\<lambda>_. wp (spin is) (\<lambda>_ t. host_inv u 0 True were t \<and> \<not> m_bWaiting t) (\<lambda>_ _. True))
      (\<lambda>_ _. True) (s\<lparr>irqs := is\<rparr>)"
    by (rule wp_mono) (simp_all add: Cons.IH)
  with Cons.prems show ?case by (simp add: wp_simps)
qed (simp add: wp_simps)

section \<open>A stage and a request\<close>

text \<open>What the driver looks like between requests.\<close>

definition ready :: "'b usb_scheme \<Rightarrow> bool" where
  "ready s \<longleftrightarrow> idle s \<and> s_nCriticalLevel s = 0 \<and> irq_on s"

lemma ready_host: "ready s \<Longrightarrow> host_inv u 0 True were s"
  by (auto simp: ready_def host_inv_def crit_ok_def)

lemma host_ready: "host_inv u 0 True were s \<Longrightarrow> \<not> m_bWaiting s \<Longrightarrow> ready s"
  by (auto simp: ready_def host_inv_def crit_ok_def busy_def)

text \<open>
  Taking the channel: with the request prepared and waited for, the allocator gives channel 0 to an
  idle controller, and the first step of the stage makes it busy with the request.
\<close>

definition prepared :: "nat \<Rightarrow> nat \<Rightarrow> 'b usb_scheme \<Rightarrow> bool" where
  "prepared u n s \<longleftrightarrow> m_nChannelAllocated s = of_nat n \<and> (\<forall>c. m_pURB (m_StageData s c) = None) \<and> m_bWaiting s \<and>
     m_pCompletionRoutine (urbs s u) = Some DWHCI_CompletionRoutine"

lemma wp_allocate_prepared:
  assumes "prepared u 0 s" and "crit_ok k on were s"
    and "\<And>t. crit_ok k on were t \<Longrightarrow> m_nChannels t = 0 \<Longrightarrow> prepared u 0 t \<Longrightarrow> Q 16 t"
    and "\<And>t were. crit_ok k on were t \<Longrightarrow> m_nChannels t \<noteq> 0 \<Longrightarrow> prepared u 1 t \<Longrightarrow> Q 0 t"
  shows "wp DWHCIDeviceAllocateChannel Q E s"
proof (cases "m_nChannels s = 0")
  case True
  then show ?thesis
    using assms crit_ok_nz [OF assms(2)]
    by (auto simp: DWHCIDeviceAllocateChannel_def wp_simps DWHCI_MAX_CHANNELS_def prepared_def crit_ok_def)
next
  case False
  then obtain n where n: "unat (m_nChannels s) = Suc n" by (metis not0_implies_Suc unat_eq_zero)
  show ?thesis
    using assms False n crit_ok_nz [OF assms(2)]
    by (auto simp: DWHCIDeviceAllocateChannel_def wp_simps prepared_def crit_ok_def)
qed

lemma host_set_scheduler [upholds_intros]: "upholds (host_inv u k on were) (set_scheduler c hub)"
  unfolding set_scheduler_def by (intro upholds_intros) simp_all

lemma host_stage_buffer [upholds_intros]: "upholds (host_inv u k on were) (stage_buffer v ep)"
  unfolding stage_buffer_def URB_SetupData_def by (intro upholds_intros) simp_all

lemma stage_setters [simp]:
  "m_pURB (set_data_stage p n d) = m_pURB d" "m_nChannel (set_data_stage p n d) = m_nChannel d"
  "m_pURB (set_status_stage t d) = m_pURB d" "m_nChannel (set_status_stage t d) = m_nChannel d"
  by (simp_all add: set_data_stage_def set_status_stage_def Let_def)

lemma wp_stage_prepared:
  assumes "prepared u 1 s" and "crit_ok k on were s"
  shows "wp (DWHCITransferStageData 0 u bIn bSt) (\<lambda>_. host_inv u k on were) (\<lambda>_ _. True) s"
  unfolding DWHCITransferStageData_def
proof (rule wp_seq)
  show "wp (upd_stage 0 (\<lambda>d. d\<lparr>m_nChannel := of_nat 0, m_pURB := Some u, m_bIn := bIn, m_bStatusStage := bSt,
      m_bSplitComplete := False, m_nTotalBytesTransfered := 0, sd_nState := StageStateNoSplitTransfer,
      m_nSubState := StageSubStateWaitForChannelDisable, m_nTransactionStatus := 0, m_bFrameSchedulerUsed := False\<rparr>))
      (\<lambda>_. host_inv u k on were) (\<lambda>_ _. True) s"
    using assms by (auto simp: wp_simps host_inv_def busy_def prepared_def crit_ok_def)
qed (rule upholdsD, intro upholds_intros; simp)

text \<open>\<open>DWHCITransferStageDataBeginSplitCycle\<close> never fails, so a stage that starts returns true.\<close>

lemma start_stage_alt:
  "start_stage c = bind (bind (DWHCITransferStageDataIsSplit c) (\<lambda>split. if \<not> split then
       bind (DWHCITransferStageDataSetState c StageStateNoSplitTransfer) (\<lambda>_. DWHCIDeviceStartTransaction c)
     else
       bind (DWHCITransferStageDataSetState c StageStateStartSplit) (\<lambda>_.
       bind (DWHCITransferStageDataSetSplitComplete c False) (\<lambda>_.
       bind (DWHCITransferStageDataGetFrameScheduler c) (\<lambda>p.
       bind (UK_ASSERT (p \<noteq> None)) (\<lambda>_.
       bind (on_scheduler c (proc \<circ> FS_StartSplit)) (\<lambda>_. DWHCIDeviceStartTransaction c))))))) (\<lambda>_. return True)"
  unfolding start_stage_def DWHCITransferStageDataBeginSplitCycle_def
  by (simp add: bind_assoc if_distrib [of "\<lambda>m. bind m _"] cong: if_cong)

lemma wp_start_stage:
  assumes "host_inv u k on were s"
  shows "wp (start_stage c) (\<lambda>ok t. ok \<and> host_inv u k on were t) (\<lambda>_ _. True) s"
  unfolding start_stage_alt wp_bind [of _ "\<lambda>_. return True"] wp_return [abs_def]
  by (rule wp_mono [OF upholdsD [where I = "host_inv u k on were", OF _ assms]]) (intro upholds_intros keeps_scheduler_calls, simp_all)

lemma wp_Async_prepared:
  assumes "prepared u 0 s" and "crit_ok k on were s"
  shows "wp (DWHCIDeviceTransferStageAsync u bIn bSt)
     (\<lambda>ok t. if ok then \<exists>were. host_inv u k on were t else prepared u 0 t \<and> crit_ok k on were t)
     (\<lambda>_ _. True) s"
  unfolding DWHCIDeviceTransferStageAsync_def wp_bind [of DWHCIDeviceAllocateChannel]
proof (rule wp_allocate_prepared [OF assms])
  fix t w
  assume t: "crit_ok k on w t" "m_nChannels t \<noteq> 0" "prepared u 1 t"
  have "wp (bind (DWHCITransferStageData 0 u bIn bSt) (\<lambda>_. bind (DWHCIDeviceEnableChannelInterrupt 0)
      (\<lambda>_. start_stage 0))) (\<lambda>ok t. ok \<and> host_inv u k on w t) (\<lambda>_ _. True) t"
    by (rule wp_seq [OF wp_stage_prepared [OF t(3,1)]], rule wp_seq [OF upholdsD [OF host_channel_interrupt(1)]],
        assumption, rule wp_start_stage)
  then show "wp (bind (gets m_nChannels) (\<lambda>n. if 0 \<ge> unat n then return False else
      bind (DWHCITransferStageData 0 u bIn bSt) (\<lambda>_. bind (DWHCIDeviceEnableChannelInterrupt 0) (\<lambda>_. start_stage 0))))
      (\<lambda>ok t. if ok then \<exists>were. host_inv u k on were t else prepared u 0 t \<and> crit_ok k on were t)
      (\<lambda>_ _. True) t"
    using t(2) unat_gt_0 [of "m_nChannels t"] by (auto simp: wp_bind [of "gets _"] wp_gets elim!: wp_mono)
qed (simp add: wp_simps)

lemma ready_TransferStage: "upholds ready (DWHCIDeviceTransferStage u bIn bSt)"
proof (rule upholdsI, goal_cases)
  case (1 s)
  let ?s = "s\<lparr>urbs := (urbs s)(u := (urbs s u)\<lparr>m_pCompletionRoutine := Some DWHCI_CompletionRoutine\<rparr>), m_bWaiting := True\<rparr>"
  have s: "prepared u 0 ?s" "crit_ok 0 True False ?s" "\<not> m_bWaiting s"
    using 1 by (auto simp: ready_def idle_def prepared_def crit_ok_def)
  have spin: "wp (bind (gets irqs) (\<lambda>is. bind (spin is) (\<lambda>_. on_urb u USBRequestGetStatus))) (\<lambda>_. ready) (\<lambda>_ _. True) t"
    if "host_inv u 0 True were t" for were t
    unfolding wp_bind [of "gets _"] wp_gets
    by (rule wp_seq [OF wp_spin [OF that]]) (auto simp: wp_simps ready_def idle_def busy_def host_inv_def crit_ok_def)
  have "wp (bind (DWHCIDeviceTransferStageAsync u bIn bSt) (\<lambda>ok.
     if \<not> ok then bind (modify (\<lambda>s. s\<lparr>m_bWaiting := False\<rparr>)) (\<lambda>_. return False)
     else bind (gets irqs) (\<lambda>is. bind (spin is) (\<lambda>_. on_urb u USBRequestGetStatus)))) (\<lambda>_. ready) (\<lambda>_ _. True) ?s"
    by (rule wp_seq [OF wp_Async_prepared [OF s(1,2)]])
      (auto simp: wp_modify wp_bind [of "modify _"] wp_return ready_def prepared_def crit_ok_def idle_def
        split: if_splits dest!: spin)
  then show ?case
    using s(3) by (simp add: DWHCIDeviceTransferStage_def wp_bind [of "on_urb _ _"] wp_bind [of "gets m_bWaiting"]
        wp_bind [of "UK_ASSERT _"] wp_bind [of "modify _"] wp_on_urb wp_gets wp_UK_ASSERT wp_modify
        USBRequestSetCompletionRoutine_def)
qed

lemma ready_hw: "keeps m \<Longrightarrow> upholds ready m"
  by (rule upholds_keeps) (auto simp: ready_def idle_def same_rest_usb)

lemma ready_on [upholds_intros]: "upholds ready (on_urb v m)" "upholds ready (on_endpoint e n)"
  by (auto simp: upholds_def on_urb_def on_endpoint_def zoom_def wp_def ready_def idle_def split: outcome.splits)

lemmas ready_hw_ops [upholds_intros] = keeps_MsDelay [THEN ready_hw] keeps_DataMemBarrier [THEN ready_hw]
  keeps_store [THEN ready_hw] keeps_load [THEN ready_hw] keeps_LogWrite [THEN ready_hw]

lemma ready_requests [upholds_intros]:
  "upholds ready (DWHCIDeviceSubmitBlockingRequest u)"
  "upholds ready (DWHCIDeviceControlMessage ep ty rq v i p n)"
  "upholds ready (DWHCIDeviceTransfer ep p m)"
proof -
  show b: "upholds ready (DWHCIDeviceSubmitBlockingRequest u)" for u
    unfolding DWHCIDeviceSubmitBlockingRequest_def control_stages_def bulk_stage_def URB_Type_def URB_SetupData_def
    by (intro upholds_intros ready_TransferStage)
  show "upholds ready (DWHCIDeviceControlMessage ep ty rq v i p n)" "upholds ready (DWHCIDeviceTransfer ep p m)"
    unfolding DWHCIDeviceControlMessage_def DWHCIDeviceTransfer_def local_request_def
    by (intro upholds_intros b)+
qed

lemma ready_host_ops [upholds_intros]:
  "upholds ready (DWHCIDeviceGetDescriptor ep ty i p n rt)"
  "upholds ready (DWHCIDeviceSetAddress ep a)" "upholds ready (DWHCIDeviceSetConfiguration ep a)"
  unfolding DWHCIDeviceGetDescriptor_def DWHCIDeviceSetAddress_def DWHCIDeviceSetConfiguration_def
  by (intro upholds_intros)+

text \<open>
  C1. No blocking request leaks a channel or leaves the driver waiting: whenever a control message
  or a transfer returns, with success or failure and whatever the interrupts and register values were,
  no channel is in use, no stage refers to a request, nothing is waited for, and interrupts are
  enabled outside of every critical section, as they were before.
\<close>

theorem requests_return_ready:
  assumes "ready s"
    and "DWHCIDeviceControlMessage ep ty rq v i p n s = Done r t \<or> DWHCIDeviceTransfer ep p m s = Done r t"
  shows "ready t"
  using assms ready_requests(2,3) by (blast intro: upholds_DoneD)

end
