(* ===== verification/HostFrame.thy ===== *)
theory HostFrame
  imports DwhciHost
begin

text \<open>
  The frame of the host controller driver: what its requests leave alone.  \<open>calm w s0\<close> says that a
  state differs from \<open>s0\<close> only in what the controller itself uses (its channels, the request and
  endpoint objects, the timers, the machine), and with \<open>w\<close> that no wait has ended; \<open>calm1\<close> also lets interrupts be used up.  The layers
  above (strings, functions, devices, hubs) keep their objects in the part that is left alone.
\<close>

definition same_host :: "'b usb_scheme \<Rightarrow> 'b usb_scheme \<Rightarrow> bool" where
  "same_host s t \<longleftrightarrow> usb.more t = usb.more s \<and> mallocs t = mallocs s \<and> devs t = devs s \<and>
     s_ucNextAddress t = s_ucNextAddress s \<and> rootport_device t = rootport_device s \<and>
     temp_addr t = temp_addr s \<and> setup_addr t = setup_addr s \<and> m_nChannels t = m_nChannels s \<and>
     log_level t = log_level s"

definition calm :: "bool \<Rightarrow> 'b usb_scheme \<Rightarrow> 'b usb_scheme \<Rightarrow> bool" where
  "calm w s t \<longleftrightarrow> same_host s t \<and> irqs t = irqs s \<and> (w \<longrightarrow> m_bWaiting t = m_bWaiting s)"

definition calm1 :: "'b usb_scheme \<Rightarrow> 'b usb_scheme \<Rightarrow> bool" where
  "calm1 s t \<longleftrightarrow> same_host s t \<and> length (irqs t) \<le> length (irqs s)"

lemma calm_refl [simp]: "calm w s s" "calm1 s s"
  by (simp_all add: calm_def calm1_def same_host_def)

lemma calm_calm1: "calm w s t \<Longrightarrow> calm1 s t"
  by (simp add: calm_def calm1_def)

lemma calm_trans: "calm w s t \<Longrightarrow> calm w t u \<Longrightarrow> calm w s u" "calm1 s t \<Longrightarrow> calm1 t u \<Longrightarrow> calm1 s u"
  by (auto simp: calm_def calm1_def same_host_def)

lemma calm1_if_calm: "(\<And>s0. pres (calm w s0) m) \<Longrightarrow> pres (calm1 s0) m"
proof (rule presI)
  fix s assume p: "\<And>s0. pres (calm w s0) m" and s: "calm1 s0 s"
  show "wp m (\<lambda>_. calm1 s0) (\<lambda>_. calm1 s0) s"
    by (rule wp_mono [OF presD [OF p calm_refl(1)]]) (use s in \<open>blast intro: calm_trans calm_calm1\<close>)+
qed

lemma same_host_hw [simp]:
  "same_host s (t\<lparr>rev_trace := a1\<rparr>) = same_host s t" "same_host s (t\<lparr>mmio_in := a2\<rparr>) = same_host s t"
  "same_host s (t\<lparr>mem := a3\<rparr>) = same_host s t" "same_host s (t\<lparr>sleeps := a4\<rparr>) = same_host s t"
  by (simp_all add: same_host_def)

lemma same_host_crit [simp]:
  "same_host s (t\<lparr>irq_on := a5\<rparr>) = same_host s t" "same_host s (t\<lparr>s_nCriticalLevel := a6\<rparr>) = same_host s t"
  "same_host s (t\<lparr>s_bWereEnabled := a7\<rparr>) = same_host s t" "same_host s (t\<lparr>timer := a8\<rparr>) = same_host s t"
  by (simp_all add: same_host_def)

lemma same_host_usb [simp]:
  "same_host s (t\<lparr>m_nChannelAllocated := a9\<rparr>) = same_host s t" "same_host s (t\<lparr>m_StageData := b1\<rparr>) = same_host s t"
  "same_host s (t\<lparr>m_bWaiting := b2\<rparr>) = same_host s t" "same_host s (t\<lparr>endpoints := b3\<rparr>) = same_host s t"
  "same_host s (t\<lparr>urbs := b4\<rparr>) = same_host s t" "same_host s (t\<lparr>completed := b5\<rparr>) = same_host s t"
  by (simp_all add: same_host_def)

lemma calm_upd [simp]:
  "calm w s (t\<lparr>rev_trace := a1\<rparr>) = calm w s t" "calm w s (t\<lparr>mmio_in := a2\<rparr>) = calm w s t"
  "calm w s (t\<lparr>mem := a3\<rparr>) = calm w s t" "calm w s (t\<lparr>sleeps := a4\<rparr>) = calm w s t"
  "calm w s (t\<lparr>irq_on := a5\<rparr>) = calm w s t" "calm w s (t\<lparr>s_nCriticalLevel := a6\<rparr>) = calm w s t"
  "calm w s (t\<lparr>s_bWereEnabled := a7\<rparr>) = calm w s t" "calm w s (t\<lparr>timer := a8\<rparr>) = calm w s t"
  "calm w s (t\<lparr>m_nChannelAllocated := a9\<rparr>) = calm w s t" "calm w s (t\<lparr>m_StageData := b1\<rparr>) = calm w s t"
  "calm False s (t\<lparr>m_bWaiting := b2\<rparr>) = calm False s t" "calm w s (t\<lparr>endpoints := b3\<rparr>) = calm w s t"
  "calm w s (t\<lparr>urbs := b4\<rparr>) = calm w s t" "calm w s (t\<lparr>completed := b5\<rparr>) = calm w s t"
  by (simp_all add: calm_def)

named_theorems calm_intros "operations of the host controller driver that leave the layers above alone"

lemma calm_keeps:
  fixes s0 :: "'b usb_scheme"
  assumes k: "keeps m"
  shows "pres (calm w s0) m"
proof -
  have "calm w s0 s \<Longrightarrow> same_rest s t \<Longrightarrow> calm w s0 t" for s t :: "'b usb_scheme"
    by (simp add: calm_def same_host_def same_rest_usb)
  then show "pres (calm w s0) m"
    unfolding pres_def using keeps_wp [OF k] by (blast intro: wp_mono)
qed

lemma calm_hw [calm_intros]:
  "pres (calm w s0) (DWHCIRegisterRead r)" "pres (calm w s0) (DWHCIRegisterWrite r)" "pres (calm w s0) (DWHCIRegisterGet r)"
  "pres (calm w s0) (DWHCIRegisterSet v r)" "pres (calm w s0) (DWHCIRegisterIsSet v r)" "pres (calm w s0) (DWHCIRegisterAnd v r)"
  "pres (calm w s0) (DWHCIRegisterOr v r)" "pres (calm w s0) (DWHCIRegisterSetAll r)" "pres (calm w s0) (MsDelay n)"
  "pres (calm w s0) (usDelay n)" "pres (calm w s0) (LogWrite sev msg)" "pres (calm w s0) DataMemBarrier"
  "pres (calm w s0) (uspi_CleanAndInvalidateDataCacheRange a v1)" "pres (calm w s0) (set_or_clear b v r)"
  "pres (calm w s0) (store p bs)" "pres (calm w s0) (load p k)" "pres (calm w s0) (read32 v)" "pres (calm w s0) (write32 v v2)"
  by (intro calm_keeps keeps_intros)+

lemma calm_enter [calm_intros]: "pres (calm w s0) uspi_EnterCritical" "pres (calm w s0) uspi_LeaveCritical"
  by (simp_all add: pres_def wp_simps)

lemma calm_on [calm_intros]: "pres (calm w s0) (on_endpoint e m1)" "pres (calm w s0) (on_urb u m2)"
  by (simp_all add: pres_def wp_simps) (simp_all add: wp_def split: outcome.split)

lemma calm_stage [calm_intros]: "pres (calm w s0) (upd_stage c f)" "pres (calm w s0) (get_stage c g)"
  by (simp_all add: pres_def wp_simps)

lemma calm_on_scheduler [calm_intros]: "(\<And>fs. keeps (m fs)) \<Longrightarrow> pres (calm w s0) (on_scheduler c m)"
  unfolding on_scheduler_def DWHCITransferStageDataGetFrameScheduler_def
  by (intro pres_intros calm_intros calm_keeps) simp_all

lemma calm_StartKernelTimer [calm_intros]: "pres (calm w s0) (StartKernelTimer n h)"
  by (auto simp: pres_def StartKernelTimer_def TimerGet_def TimerStartKernelTimer_def LoggerGet_def LoggerWriteV_def
      upd_timer_def wp_simps split: option.split)

lemma pres_cases [calm_intros]:
  "pres I m1 \<Longrightarrow> pres I m2 \<Longrightarrow> pres I m3 \<Longrightarrow>
   pres I (case sub of StageSubStateWaitForChannelDisable \<Rightarrow> m1 | StageSubStateWaitForTransactionComplete \<Rightarrow> m2
     | StageSubStateUnknown \<Rightarrow> m3)"
  "pres J n1 \<Longrightarrow> pres J n2 \<Longrightarrow> pres J n3 \<Longrightarrow> pres J n4 \<Longrightarrow> pres J n5 \<Longrightarrow>
   pres J (case st of StageStateNoSplitTransfer \<Rightarrow> n1 | StageStateStartSplit \<Rightarrow> n2 | StageStateCompleteSplit \<Rightarrow> n3
     | StageStatePeriodicDelay \<Rightarrow> n4 | StageStateUnknown \<Rightarrow> n5)"
  "pres K k1 \<Longrightarrow> pres K k2 \<Longrightarrow> pres K k3 \<Longrightarrow> pres K k4 \<Longrightarrow>
   pres K (case ty of EndpointTypeControl \<Rightarrow> k1 | EndpointTypeBulk \<Rightarrow> k2
       | EndpointTypeInterrupt \<Rightarrow> k3 | EndpointTypeIsochronous \<Rightarrow> k4)"
  by (cases sub, simp_all) (cases st, simp_all, cases ty, simp_all)

lemma calm_stage_ops [calm_intros]:
  "pres (calm w s0) (DWHCITransferStageDataIsPeriodic c)"
  "pres (calm w s0) (DWHCITransferStageDataSetSplitComplete c b)"
  "pres (calm w s0) (DWHCITransferStageDataSetState c st)"
  "pres (calm w s0) (DWHCITransferStageDataSetSubState c sub)"
  "pres (calm w s0) (DWHCITransferStageDataGetState c)"
  "pres (calm w s0) (DWHCITransferStageDataGetSubState c)"
  "pres (calm w s0) (DWHCITransferStageDataBeginSplitCycle c)"
  "pres (calm w s0) (DWHCITransferStageDataGetChannelNumber c)"
  "pres (calm w s0) (DWHCITransferStageDataGetDeviceAddress c)"
  "pres (calm w s0) (DWHCITransferStageDataGetEndpointNumber c)"
  "pres (calm w s0) (DWHCITransferStageDataGetMaxPacketSize c)"
  "pres (calm w s0) (DWHCITransferStageDataGetSpeed c)"
  "pres (calm w s0) (DWHCITransferStageDataGetPID c)"
  "pres (calm w s0) (DWHCITransferStageDataIsDirectionIn c)"
  "pres (calm w s0) (DWHCITransferStageDataIsStatusStage c)"
  "pres (calm w s0) (DWHCITransferStageDataGetDMAAddress c)"
  "pres (calm w s0) (DWHCITransferStageDataGetBytesToTransfer c)"
  "pres (calm w s0) (DWHCITransferStageDataGetPacketsToTransfer c)"
  "pres (calm w s0) (DWHCITransferStageDataIsSplit c)"
  "pres (calm w s0) (DWHCITransferStageDataIsSplitComplete c)"
  "pres (calm w s0) (DWHCITransferStageDataGetHubAddress c)"
  "pres (calm w s0) (DWHCITransferStageDataGetHubPortAddress c)"
  "pres (calm w s0) (DWHCITransferStageDataGetSplitPosition c)"
  "pres (calm w s0) (DWHCITransferStageDataGetTransactionStatus c)"
  "pres (calm w s0) (DWHCITransferStageDataIsStageComplete c)"
  "pres (calm w s0) (DWHCITransferStageDataGetResultLen c)"
  "pres (calm w s0) (DWHCITransferStageDataGetURB c)"
  "pres (calm w s0) (DWHCITransferStageDataGetFrameScheduler c)"
  "pres (calm w s0) (DWHCITransferStageDataGetEndpointType c)"
  "pres (calm w s0) (DWHCITransferStageDataTransactionComplete c v1 v2 v3)"
  "pres (calm w s0) (DWHCITransferStageData_destroy c)"
  unfolding stage_defs DWHCITransferStageDataGetEndpointType_def DWHCITransferStageDataTransactionComplete_def
    DWHCITransferStageData_destroy_def
  by (intro pres_intros calm_intros)+

lemma calm_status_mask [calm_intros]: "pres (calm w s0) (DWHCITransferStageDataGetStatusMask c)"
  unfolding DWHCITransferStageDataGetStatusMask_def Let_def by (intro pres_intros calm_intros)

lemma calm_interrupt_mask [calm_intros]:
  "pres (calm w s0) (DWHCIDeviceEnableChannelInterrupt c)" "pres (calm w s0) (DWHCIDeviceDisableChannelInterrupt c)"
  unfolding DWHCIDeviceEnableChannelInterrupt_def DWHCIDeviceDisableChannelInterrupt_def
  by (intro pres_intros calm_intros)+

lemma calm_start [calm_intros]:
  "pres (calm w s0) (DWHCIDeviceStartChannel c)" "pres (calm w s0) (DWHCIDeviceStartTransaction c)"
proof -
  have t: "pres (calm w s0) (program_transfer c n)" for n
    unfolding program_transfer_def by (intro pres_intros calm_intros)
  have sp: "pres (calm w s0) (program_split c n)" for n
    unfolding program_split_def Let_def by (intro pres_intros calm_intros) (auto intro!: pres_intros calm_intros)
  have ch: "pres (calm w s0) (program_character c n)" for n
    unfolding program_character_def by (intro pres_intros calm_intros)
  show "pres (calm w s0) (DWHCIDeviceStartChannel c)"
    unfolding DWHCIDeviceStartChannel_def by (intro pres_intros calm_intros t sp ch keeps_scheduler_calls)
  then show "pres (calm w s0) (DWHCIDeviceStartTransaction c)"
    unfolding DWHCIDeviceStartTransaction_def by (intro pres_intros calm_intros)
qed

lemma calm_channels [calm_intros]:
  "pres (calm w s0) DWHCIDeviceAllocateChannel" "pres (calm w s0) (DWHCIDeviceFreeChannel c)"
  unfolding DWHCIDeviceAllocateChannel_def DWHCIDeviceFreeChannel_def
  by (intro pres_intros calm_intros pres_modify; simp)+

lemma calm_complete [calm_intros]: "pres (calm False s0) (complete_urb u)"
proof -
  have "pres (calm False s0) (call_completion p)" for p
    by (cases p) (simp_all add: call_completion_def DWHCIDeviceCompletionRoutine_def pres_modify)
  then show ?thesis
    unfolding complete_urb_def USBRequestCallCompletionRoutine_def by (intro pres_intros)
qed

lemma calm_finish [calm_intros]: "pres (calm False s0) (finish_channel c u)" "pres (calm False s0) (fail_channel c u)"
proof -
  show f: "pres (calm False s0) (finish_channel c u)"
    unfolding finish_channel_def by (intro pres_intros calm_intros)
  show "pres (calm False s0) (fail_channel c u)"
    unfolding fail_channel_def by (intro pres_intros calm_intros f)
qed

lemma calm_parts [calm_intros]:
  "pres (calm False s0) (set_result_len c u)" "pres (calm False s0) (start_periodic_delay c u)" "pres (calm False s0) (start_split c)"
  unfolding set_result_len_def start_periodic_delay_def start_split_def
  by (intro pres_intros calm_intros keeps_scheduler_calls)+

lemma calm_leave [calm_intros]: "pres (calm False s0) (leave_complete_split c u)"
  unfolding leave_complete_split_def by (intro pres_intros calm_intros)

lemma calm_handlers [calm_intros]:
  "pres (calm False s0) (handle_no_split c u)" "pres (calm False s0) (handle_start_split c u)"
  "pres (calm False s0) (handle_complete_split c u)" "pres (calm False s0) (end_transaction c)"
  unfolding handle_no_split_def handle_start_split_def handle_complete_split_def end_transaction_def
  by (intro pres_intros calm_intros keeps_scheduler_calls keeps_FS)+

lemma calm_ChannelInterrupt [calm_intros]: "pres (calm False s0) (DWHCIDeviceChannelInterruptHandler c)"
  unfolding DWHCIDeviceChannelInterruptHandler_def by (intro pres_intros calm_intros)

lemma calm_InterruptHandlers [calm_intros]:
  "pres (calm False s0) DWHCIDeviceInterruptHandler" "pres (calm False s0) (DWHCIDeviceTimerHandler c)"
  unfolding DWHCIDeviceInterruptHandler_def handle_channel_def DWHCIDeviceTimerHandler_def
  by (intro pres_intros calm_intros keeps_scheduler_calls)+

lemma calm_timer_interrupt [calm_intros]:
  "pres (calm False s0) (TimerInterruptHandler (\<lambda>_. DWHCIDeviceTimerHandler))"
proof -
  have "pres (calm False s0) (upd_timer f)" for f unfolding upd_timer_def by (rule pres_modify) simp
  then show ?thesis
    unfolding TimerInterruptHandler_def TimerPollKernelTimers_def poll_slot_def Let_def
    by (intro pres_intros calm_intros)
qed

lemma calm_interrupt: "pres (calm False s0) (interrupt i)"
  unfolding interrupt_def by (cases i) (auto intro!: pres_intros calm_intros pres_modify)

section \<open>Waiting and requests\<close>

text \<open>The wait for the end of a stage uses interrupts up, and at least one when it had to wait.\<close>

lemma wp_spin_calm:
  "calm False s0 s \<Longrightarrow> irqs s = is \<Longrightarrow>
   wp (spin is) (\<lambda>_ t. calm1 s0 t \<and> (m_bWaiting s \<longrightarrow> length (irqs t) < length is)) (\<lambda>_. calm1 s0) s"
proof (induction "is" arbitrary: s s0)
  case (Cons i "is")
  let ?s = "s\<lparr>irqs := is\<rparr>"
  have "length is \<le> length (irqs s0)" using Cons.prems by (cases "irqs s0") (auto simp: calm_def)
  then have le: "calm1 s0 ?s" using Cons.prems by (simp add: calm_def calm1_def same_host_def)
  have "wp (interrupt i) (\<lambda>_ t. calm False ?s t) (\<lambda>_. calm False ?s) ?s"
    using presD [OF calm_interrupt calm_refl(1)] .
  then have "wp (interrupt i) (\<lambda>_. wp (spin is)
      (\<lambda>_ t. calm1 s0 t \<and> length (irqs t) < length (i # is)) (\<lambda>_. calm1 s0)) (\<lambda>_. calm1 s0) ?s"
  proof (rule wp_mono)
    fix x t assume t: "calm False ?s t"
    then have "irqs t = is" by (simp add: calm_def)
    from Cons.IH [OF calm_refl(1) this]
    show "wp (spin is) (\<lambda>_ t. calm1 s0 t \<and> length (irqs t) < length (i # is)) (\<lambda>_. calm1 s0) t"
    proof (rule wp_mono)
      fix x u assume "calm1 t u \<and> (m_bWaiting t \<longrightarrow> length (irqs u) < length is)"
      with t le \<open>irqs t = is\<close> show "calm1 s0 u \<and> length (irqs u) < length (i # is)"
        by (auto simp: calm1_def calm_def same_host_def)
    qed (use t le in \<open>blast intro: calm_trans calm_calm1\<close>)
  qed (use le in \<open>blast intro: calm_trans calm_calm1\<close>)
  then show ?case
    using Cons.prems calm_calm1 [OF Cons.prems(1)]
    by (auto simp: wp_simps elim!: wp_mono)
qed (auto simp: wp_simps intro: calm_calm1)

lemma calm_upd_irqs [simp]: "calm1 s (t\<lparr>m_bWaiting := b\<rparr>) = calm1 s t"
  by (simp add: calm1_def)

lemma calm_construct [calm_intros]: "pres (calm w s0) (DWHCITransferStageData c u bIn st)"
proof -
  have "pres (calm w s0) (stage_buffer u e)" for e
    unfolding stage_buffer_def URB_SetupData_def by (intro pres_intros calm_intros)
  moreover have "pres (calm w s0) (set_scheduler c h)" for h
    unfolding set_scheduler_def by (intro pres_intros calm_intros)
  ultimately show ?thesis
    unfolding DWHCITransferStageData_def by (intro pres_intros calm_intros)
qed

lemma calm_Async: "pres (calm w s0) (DWHCIDeviceTransferStageAsync u bIn st)"
  unfolding DWHCIDeviceTransferStageAsync_def start_stage_def
  by (intro pres_intros calm_intros keeps_scheduler_calls)

lemma wp_TransferStage_calm:
  fixes s0 :: "'b usb_scheme"
  assumes "calm1 s0 s"
  shows "wp (DWHCIDeviceTransferStage u bIn st)
     (\<lambda>ok t. calm1 s0 t \<and> (ok \<longrightarrow> length (irqs t) < length (irqs s0))) (\<lambda>_. calm1 s0) s"
proof -
  let ?Q = "\<lambda>ok t. calm1 s0 t \<and> (ok \<longrightarrow> length (irqs t) < length (irqs s0))"
  have spun: "wp (bind (gets irqs) (\<lambda>is. bind (spin is) (\<lambda>_. on_urb u USBRequestGetStatus))) ?Q (\<lambda>_. calm1 s0) t"
    if t: "calm True v t" and v: "m_bWaiting v" "calm1 s0 v" for v t :: "'b usb_scheme"
  proof -
    have w: "m_bWaiting t" "calm1 s0 t" using t v by (auto simp: calm_def calm1_def same_host_def)
    have "wp (spin (irqs t)) (\<lambda>_ x. calm1 t x \<and> (m_bWaiting t \<longrightarrow> length (irqs x) < length (irqs t))) (\<lambda>_. calm1 t) t"
      by (rule wp_spin_calm [OF calm_refl(1) refl])
    then show ?thesis
      unfolding wp_bind wp_gets
    proof (rule wp_mono)
      fix x t' assume "calm1 t t' \<and> (m_bWaiting t \<longrightarrow> length (irqs t') < length (irqs t))"
      with w have "?Q True t'" by (auto simp: calm1_def same_host_def)
      then show "wp (on_urb u USBRequestGetStatus) ?Q (\<lambda>_. calm1 s0) t'"
        by (auto simp: wp_simps calm1_def same_host_def)
    qed (use w in \<open>blast intro: calm_trans\<close>)
  qed
  have started: "wp (DWHCIDeviceTransferStageAsync u bIn st)
      (\<lambda>ok. wp (if \<not> ok then bind (modify (\<lambda>s. s\<lparr>m_bWaiting := False\<rparr>)) (\<lambda>_. return False)
        else bind (gets irqs) (\<lambda>is. bind (spin is) (\<lambda>_. on_urb u USBRequestGetStatus))) ?Q (\<lambda>_. calm1 s0))
      (\<lambda>_. calm1 s0) v" if v: "m_bWaiting v" "calm1 s0 v" for v
  proof (rule wp_mono [OF presD [OF calm_Async [of True v] calm_refl(1)]])
    fix ok t assume t: "calm True v t"
    have "calm1 s0 t" using t v(2) by (blast intro: calm_trans calm_calm1)
    then show "wp (if \<not> ok then bind (modify (\<lambda>s. s\<lparr>m_bWaiting := False\<rparr>)) (\<lambda>_. return False)
        else bind (gets irqs) (\<lambda>is. bind (spin is) (\<lambda>_. on_urb u USBRequestGetStatus))) ?Q (\<lambda>_. calm1 s0) t"
      using spun [OF t v] by (simp add: wp_bind wp_modify [abs_def] wp_return)
  qed (use v in \<open>blast intro: calm_trans calm_calm1\<close>)
  have urb: "wp (on_urb u (USBRequestSetCompletionRoutine r)) (\<lambda>_. calm1 s0) (\<lambda>_. calm1 s0) s" for r
    using assms by (intro presD [OF calm1_if_calm [OF calm_on(2)]])
  show ?thesis
    unfolding DWHCIDeviceTransferStage_def wp_bind
    by (rule wp_mono [OF urb]) (simp_all add: wp_simps(1-4) wp_UK_ASSERT wp_gets wp_modify started)
qed

text \<open>\<open>eats P m\<close>: \<open>m\<close> leaves the layers above alone, and a result with \<open>P\<close> has taken an interrupt.\<close>

definition eats :: "('a \<Rightarrow> bool) \<Rightarrow> ('b usb_scheme, 'a) prog \<Rightarrow> bool" where
  "eats P m \<longleftrightarrow> (\<forall>s0 s. calm1 s0 s \<longrightarrow>
     wp m (\<lambda>x t. calm1 s0 t \<and> (P x \<longrightarrow> length (irqs t) < length (irqs s0))) (\<lambda>_. calm1 s0) s)"

lemma eats_calm1: "eats P m \<Longrightarrow> pres (calm1 s0) m"
  unfolding eats_def by (rule presI) (blast intro: wp_mono)

lemma eats_wp: "eats P m \<Longrightarrow> wp m (\<lambda>x t. calm1 s t \<and> (P x \<longrightarrow> length (irqs t) < length (irqs s))) (\<lambda>_. calm1 s) s"
  by (simp add: eats_def)

lemma eats_stage: "eats (\<lambda>ok. ok) (DWHCIDeviceTransferStage u bIn st)"
  unfolding eats_def by (intro allI impI wp_TransferStage_calm)

lemma eats_then:
  fixes m :: "('b usb_scheme, 'c) prog"
  assumes "\<And>s0. pres (calm1 s0) m" and "\<And>x. eats P (f x)"
  shows "eats P (bind m f)"
  unfolding eats_def wp_bind
proof (intro allI impI)
  fix s0 s :: "'b usb_scheme"
  assume s: "calm1 s0 s"
  show "wp m (\<lambda>x. wp (f x) (\<lambda>x t. calm1 s0 t \<and> (P x \<longrightarrow> length (irqs t) < length (irqs s0)))
      (\<lambda>_. calm1 s0)) (\<lambda>_. calm1 s0) s"
    by (rule wp_mono [OF presD [OF assms(1) s]]) (use assms(2) in \<open>simp_all add: eats_def\<close>)
qed

lemma eats_first:
  fixes m :: "('b usb_scheme, 'c) prog"
  assumes "eats P m" and "\<And>x s0. pres (calm1 s0) (f x)"
    and "\<And>x s. \<not> P x \<Longrightarrow> wp (f x) (\<lambda>y _. \<not> R y) (\<lambda>_ _. True) s"
  shows "eats R (bind m f)"
  unfolding eats_def wp_bind
proof (intro allI impI)
  fix s0 s :: "'b usb_scheme"
  assume s: "calm1 s0 s"
  then have "wp m (\<lambda>x t. calm1 s0 t \<and> (P x \<longrightarrow> length (irqs t) < length (irqs s0))) (\<lambda>_. calm1 s0) s"
    using assms(1) by (simp add: eats_def)
  then show "wp m (\<lambda>x. wp (f x) (\<lambda>x t. calm1 s0 t \<and> (R x \<longrightarrow> length (irqs t) < length (irqs s0)))
      (\<lambda>_. calm1 s0)) (\<lambda>_. calm1 s0) s"
  proof (rule wp_mono)
    fix x t assume t: "calm1 s0 t \<and> (P x \<longrightarrow> length (irqs t) < length (irqs s0))"
    show "wp (f x) (\<lambda>x t. calm1 s0 t \<and> (R x \<longrightarrow> length (irqs t) < length (irqs s0))) (\<lambda>_. calm1 s0) t"
    proof (cases "P x")
      case True
      have "wp (f x) (\<lambda>_. calm1 t) (\<lambda>_. calm1 t) t" by (rule presD [OF assms(2)]) simp
      then show ?thesis by (rule wp_mono) (use t True in \<open>auto intro: calm_trans simp: calm1_def\<close>,
          auto simp: same_host_def)
    next
      case False
      have "calm1 s0 t" using t by simp
      from wp_conj [OF presD [OF assms(2) this] assms(3) [OF False]] show ?thesis
        by (rule wp_mono) simp_all
    qed
  qed simp
qed

lemma eats_all_ok: "eats (\<lambda>ok. ok) m \<Longrightarrow> (\<And>s0. pres (calm1 s0) (all_ok ms)) \<Longrightarrow> eats (\<lambda>ok. ok) (all_ok (m # ms))"
  unfolding all_ok.simps by (rule eats_first [where P = "\<lambda>ok. ok"]) (auto intro!: pres_intros simp: wp_simps)

lemma eats_if: "eats P m \<Longrightarrow> eats P n \<Longrightarrow> eats P (if b then m else n)"
  by simp

lemmas calm1_stage = eats_calm1 [OF eats_stage]
lemmas calm1_intros = calm_on [THEN calm1_if_calm] calm_hw [THEN calm1_if_calm]

lemma eats_requests: "eats (\<lambda>ok. ok) (DWHCIDeviceSubmitBlockingRequest u)"
proof -
  have c: "eats (\<lambda>ok. ok) (control_stages u)"
    unfolding control_stages_def URB_SetupData_def
    by (intro eats_then eats_if eats_all_ok eats_stage pres_intros calm1_intros calm1_stage)
  have b: "eats (\<lambda>ok. ok) (bulk_stage u ty)" for ty
    unfolding bulk_stage_def by (intro eats_then eats_stage pres_intros calm1_intros)
  show ?thesis
    unfolding DWHCIDeviceSubmitBlockingRequest_def URB_Type_def
    by (intro eats_then pres_intros calm1_intros eats_first [OF eats_if [OF c b]]) (simp add: wp_simps)
qed

lemma eats_local: "eats (\<lambda>r. \<not> r <s 0) (local_request ep p n su)"
  unfolding local_request_def
  by (rule eats_then, rule calm1_intros, rule eats_first [OF eats_requests], (intro pres_intros calm1_intros))
    (simp add: wp_simps)

lemma eats_control:
  "eats (\<lambda>r. \<not> r <s 0) (DWHCIDeviceControlMessage ep ty rq v i p n)"
  "eats (\<lambda>r. \<not> r <s 0) (DWHCIDeviceTransfer ep p k)"
  "eats (\<lambda>r. \<not> r <s 0) (DWHCIDeviceGetDescriptor ep dty ix p k ty)"
proof -
  show c: "eats (\<lambda>r. \<not> r <s 0) (DWHCIDeviceControlMessage ep ty rq v i p n)" for ty rq v i p n
    unfolding DWHCIDeviceControlMessage_def by (intro eats_then eats_local pres_intros calm1_intros)
  show "eats (\<lambda>r. \<not> r <s 0) (DWHCIDeviceTransfer ep p k)"
    unfolding DWHCIDeviceTransfer_def by (rule eats_local)
  show "eats (\<lambda>r. \<not> r <s 0) (DWHCIDeviceGetDescriptor ep dty ix p k ty)"
    unfolding DWHCIDeviceGetDescriptor_def by (rule c)
qed

lemma eats_set:
  "eats (\<lambda>ok. ok) (DWHCIDeviceSetAddress ep a)" "eats (\<lambda>ok. ok) (DWHCIDeviceSetConfiguration ep a)"
  unfolding DWHCIDeviceSetAddress_def DWHCIDeviceSetConfiguration_def
  by (rule eats_first [OF eats_control(1)], (intro pres_intros calm1_intros), simp add: wp_simps)+

lemmas calm1_requests = eats_control [THEN eats_calm1] eats_set [THEN eats_calm1]

end
