(* ===== verification/DwhciTransfer.thy ===== *)
theory DwhciTransfer
  imports HostFrame
begin

text \<open>
  A whole transfer of the host controller, run against a controller that answers as its manual
  says: the request of a bulk transfer returns the number of bytes that were transferred.
\<close>

section \<open>Steps of a plain transfer\<close>

text \<open>The start of a transaction of a stage without splits and without a frame scheduler.\<close>

lemma wp_start_plain:
  fixes s :: "'b usb_scheme" and c :: nat
  defines "d \<equiv> m_StageData s c"
  assumes "mmio_in s = (cha, wa) # (chb, wb) # rest" and "cha AND CHAN_CHARACTER_ENABLE = 0"
    and "m_nChannel d < m_nChannels s" and "\<not> m_bSplitTransaction d" and "\<not> m_bFrameSchedulerUsed d"
    and "sd_pEndpoint d = Some e" and "sd_pDevice d = Some v" and "m_Type (endpoints s e) \<noteq> EndpointTypeInterrupt \<and> m_Type (endpoints s e) \<noteq> EndpointTypeIsochronous"
    and "m_pBufferPointer d \<noteq> 0" and "m_bStatusStage d \<longrightarrow> m_Type (endpoints s e) = EndpointTypeControl"
    and "\<And>tr. Q () (s\<lparr>m_StageData := (m_StageData s)(c := d\<lparr>m_nSubState := StageSubStateWaitForTransactionComplete\<rparr>),
          mmio_in := rest, mem := dma_writes wb (dma_writes wa (mem s)), rev_trace := tr\<rparr>)"
  shows "wp (DWHCIDeviceStartTransaction c) Q E s"
  using assms(2-)
  by (cases "m_Type (endpoints s e)"; simp add: DWHCIDeviceStartTransaction_def DWHCIDeviceStartChannel_def program_transfer_def program_split_def
     program_character_def stage_defs wp_simps register_simps set_or_clear_def d_def[symmetric])

lemma handle_channel_other: "handle_channel 1 (Suc c) = return ()"
proof -
  have "1 AND push_bit (Suc c) 1 = (0 :: u32)" using and_bit_zero [of 1 "Suc c"] by simp
  then show ?thesis unfolding handle_channel_def by simp
qed

lemma for_each_others: "for_each (map Suc xs) (handle_channel 1) = return ()"
  by (induction xs) (simp_all only: list.map for_each.simps handle_channel_other bind_return)

lemma for_each_one: "for_each [0..<Suc n] (handle_channel 1) = handle_channel 1 0"
proof -
  have "[0..<Suc n] = 0 # map Suc [0..<n]" by (simp add: map_Suc_upt upt_conv_Cons)
  then show ?thesis by (simp only: for_each.simps for_each_others bind_unit_right)
qed

lemma wp_spin_over: "\<not> m_bWaiting s \<Longrightarrow> wp (spin is) Q E s = Q () s"
  by (cases "is") (simp_all add: wp_simps)

text \<open>The interrupt at the end of a plain transaction: the stage is over and its channel is free.\<close>

definition plain_stage ::
  "nat \<Rightarrow> nat \<Rightarrow> nat \<Rightarrow> bool \<Rightarrow> u32 \<Rightarrow> u32 \<Rightarrow> TDWHCITransferStageData \<Rightarrow> bool" where
  "plain_stage u e v bSt n packets d \<longleftrightarrow> m_pURB d = Some u \<and> m_nChannel d = 0 \<and> m_bStatusStage d = bSt \<and>
     \<not> m_bSplitTransaction d \<and> \<not> m_bFrameSchedulerUsed d \<and> sd_pEndpoint d = Some e \<and> sd_pDevice d = Some v \<and>
     m_nTotalBytesTransfered d = 0 \<and> m_nTransferSize d = n \<and> m_nBytesPerTransaction d = n \<and>
     m_nPackets d = packets \<and> m_nPacketsPerTransaction d = packets \<and> m_pBufferPointer d \<noteq> 0 \<and>
     sd_nState d = StageStateNoSplitTransfer"

lemma wp_plain_interrupt:
  fixes s :: "'b usb_scheme" and n siz :: u32
  assumes "plain_stage u e v bSt n packets (m_StageData s 0)"
    and "m_nSubState (m_StageData s 0) = StageSubStateWaitForTransactionComplete"
    and "m_Type (endpoints s e) \<noteq> EndpointTypeInterrupt \<and> m_Type (endpoints s e) \<noteq> EndpointTypeIsochronous"
    and "m_nChannelAllocated s = 1" and "s_nCriticalLevel s = 0" and "m_nChannels s \<noteq> 0"
    and "m_pCompletionRoutine (urbs s u) = Some DWHCI_CompletionRoutine"
    and "mmio_in s = [(st, wa), (1, wb), (siz, wc), (inta, wd), (intb, we), (im, wx)] @ rest"
    and "st AND DWHCI_CORE_INT_MASK_HC_INTR \<noteq> 0"
    and "siz AND 0x7FFFF \<le> n" and "DWHCI_HOST_CHAN_XFER_SIZ_PACKETS siz \<le> packets"
    and "inta \<noteq> CHAN_INT_HALTED" and "\<not> status_bad intb" and "intb \<noteq> 0"
    and skip: "wp (USBEndpointSkipPID (packets - DWHCI_HOST_CHAN_XFER_SIZ_PACKETS siz) bSt) (\<lambda>_ ep. ep = E') (\<lambda>_ _. False)
        (endpoints s e)"
    and Q: "\<And>t. \<not> m_bWaiting t \<Longrightarrow> mmio_in t = rest \<Longrightarrow> irqs t = irqs s \<Longrightarrow>
        mem t = fold dma_writes [wa, wb, wc, wd, we, wx] (mem s) \<Longrightarrow> endpoints t = (endpoints s)(e := E') \<Longrightarrow> sleeps t = sleeps s \<Longrightarrow>
        urbs t = (urbs s)(u := (urbs s u)\<lparr>m_nResultLen := (if bSt then m_nResultLen (urbs s u) else n - (siz AND 0x7FFFF)),
          m_bStatus := True\<rparr>) \<Longrightarrow> Q () t"
  shows "wp (interrupt IRQ_USB) Q E s"
proof -
  have bits: "intb AND CHAN_INT_ERROR_MASK = 0" "intb AND (CHAN_INT_NAK OR CHAN_INT_NYET) = 0"
      "intb AND (CHAN_INT_ERROR_MASK OR CHAN_INT_NAK OR CHAN_INT_NYET) = 0"
    using assms(13) by (auto simp: status_bad_def bit.conj_disj_distrib or_eq_0_iff)
  have le: "\<not> n < n - (siz AND 0x7FFFF)" "packets - DWHCI_HOST_CHAN_XFER_SIZ_PACKETS siz \<le> packets"
    using assms(10,11) by (simp_all add: not_less word_sub_le)
  obtain k where k: "unat (m_nChannels s) = Suc k"
    using assms(6) by (metis not0_implies_Suc unat_eq_zero)
  note d = assms(1) [unfolded plain_stage_def]
  show ?thesis
    using d assms(2-9) k le
    apply (simp add: wp_simps interrupt_def DWHCIDeviceInterruptHandler_def register_simps for_each_one del: upt_Suc)
    apply (simp add: handle_channel_def DWHCIDeviceChannelInterruptHandler_def end_transaction_def wp_simps
        register_simps stage_defs assms(12) DWHCITransferStageDataTransactionComplete_def bits
        stage_transfered_def)
    apply (rule wp_mono [OF skip], simp_all)
    apply (simp add: handle_no_split_def wp_simps stage_defs set_result_len_def finish_channel_def
        DWHCIDeviceDisableChannelInterrupt_def register_simps bits assms(14) DWHCITransferStageData_destroy_def
        DWHCIDeviceFreeChannel_def complete_urb_def USBRequestCallCompletionRoutine_def call_completion_def
        DWHCIDeviceCompletionRoutine_def)
    apply (auto intro!: Q)
    done
qed

section \<open>A whole stage\<close>

text \<open>
  The answers of the controller during a stage of \<open>n\<close> bytes in some packets: the channel is disabled
  when it is started, one interrupt reports channel 0, the transfer size register \<open>siz\<close> counts the
  bytes and packets that are left, and the status of the channel has no error, NAK or NYET bit.
  Any answer may come with DMA.
\<close>

definition stage_answer :: "u32 \<Rightarrow> u32 \<Rightarrow> u32 \<Rightarrow> answer list \<Rightarrow> bool" where
  "stage_answer n packets siz as \<longleftrightarrow> length as = 9 \<and>
     fst (as ! 1) AND CHAN_CHARACTER_ENABLE = 0 \<and> fst (as ! 3) AND DWHCI_CORE_INT_MASK_HC_INTR \<noteq> 0 \<and>
     fst (as ! 4) = 1 \<and> fst (as ! 5) = siz \<and> siz AND 0x7FFFF \<le> n \<and>
     DWHCI_HOST_CHAN_XFER_SIZ_PACKETS siz \<le> packets \<and> fst (as ! 6) \<noteq> CHAN_INT_HALTED \<and>
     \<not> status_bad (fst (as ! 7)) \<and> fst (as ! 7) \<noteq> 0"

definition dma_all :: "answer list \<Rightarrow> (u64 \<Rightarrow> u8) \<Rightarrow> (u64 \<Rightarrow> u8)" where
  "dma_all as m = fold (\<lambda>a. dma_writes (snd a)) as m"

lemma stage_answerE:
  assumes "stage_answer n packets siz as"
  obtains im0 w0 ch0 w1 ch1 w2 st w3 w4 w5 int1 w6 int2 w7 im1 w8
  where "as = [(im0, w0), (ch0, w1), (ch1, w2), (st, w3), (1, w4), (siz, w5), (int1, w6), (int2, w7), (im1, w8)]"
    and "ch0 AND CHAN_CHARACTER_ENABLE = 0" and "st AND DWHCI_CORE_INT_MASK_HC_INTR \<noteq> 0"
    and "siz AND 0x7FFFF \<le> n" and "DWHCI_HOST_CHAN_XFER_SIZ_PACKETS siz \<le> packets"
    and "int1 \<noteq> CHAN_INT_HALTED" and "\<not> status_bad int2" and "int2 \<noteq> 0"
proof -
  from assms have "length as = 9" by (simp add: stage_answer_def)
  then obtain a0 a1 a2 a3 a4 a5 a6 a7 a8 where as: "as = [a0, a1, a2, a3, a4, a5, a6, a7, a8]"
    by (auto simp: eval_nat_numeral length_Suc_conv)
  show thesis
    by (rule that [of "fst a0" "snd a0" "fst a1" "snd a1" "fst a2" "snd a2" "fst a3" "snd a3" "snd a4" "snd a5"
          "fst a6" "snd a6" "fst a7" "snd a7" "fst a8" "snd a8"])
      (use assms as in \<open>auto simp: stage_answer_def prod_eq_iff\<close>)
qed

text \<open>The buffer, size and packets of a stage, and the endpoint it can be run on without splits.\<close>

definition stage_plan :: "'b usb_scheme \<Rightarrow> nat \<Rightarrow> nat \<Rightarrow> bool \<Rightarrow> u64 \<times> u32 \<times> u32" where
  "stage_plan s u e bSt =
     (let maxp = m_nMaxPacketSize (endpoints s e); packets = (\<lambda>n. (n + maxp - 1) div maxp) in
      if bSt then (temp_addr s 0, 0, 1)
      else if m_NextPID (endpoints s e) = USBPIDSetup then (m_pSetupData (urbs s u), 8, packets 8)
      else (TUSBRequest.m_pBuffer (urbs s u), m_nBufLen (urbs s u), packets (m_nBufLen (urbs s u))))"

definition plain_endpoint :: "'b usb_scheme \<Rightarrow> nat \<Rightarrow> bool \<Rightarrow> bool" where
  "plain_endpoint s e bSt \<longleftrightarrow>
     (m_Type (endpoints s e) = EndpointTypeControl \<or> m_Type (endpoints s e) = EndpointTypeBulk \<and>
        \<not> bSt \<and> m_NextPID (endpoints s e) \<noteq> USBPIDSetup) \<and>
     (\<exists>v. m_pDevice (endpoints s e) = Some v \<and> TUSBDevice.m_Speed (devs s v) = USBSpeedHigh) \<and>
     m_nMaxPacketSize (endpoints s e) \<noteq> 0"

lemma plain_stage_facts:
  "plain_stage u e v bSt n packets d \<Longrightarrow> m_pURB d = Some u \<and> m_nChannel d = 0 \<and> m_bStatusStage d = bSt \<and>
     \<not> m_bSplitTransaction d \<and> \<not> m_bFrameSchedulerUsed d \<and> sd_pEndpoint d = Some e \<and> sd_pDevice d = Some v \<and>
     m_pBufferPointer d \<noteq> 0"
  by (simp add: plain_stage_def)

lemma wp_construct_plain:
  fixes s :: "'b usb_scheme"
  assumes "m_pEndpoint (urbs s u) = Some e" and "plain_endpoint s e bSt"
    and plan: "stage_plan s u e bSt = (p, n, packets)" and "p \<noteq> 0" and "p AND 3 = 0"
    and Q: "\<And>d v. plain_stage u e v bSt n packets d \<Longrightarrow> Q () (s\<lparr>m_StageData := (m_StageData s)(0 := d)\<rparr>)"
  shows "wp (DWHCITransferStageData 0 u bIn bSt) Q E s"
proof -
  obtain v where ep: "m_pDevice (endpoints s e) = Some v" "TUSBDevice.m_Speed (devs s v) = USBSpeedHigh"
      "m_nMaxPacketSize (endpoints s e) \<noteq> 0"
      "m_NextPID (endpoints s e) = USBPIDSetup \<Longrightarrow> \<not> bSt \<Longrightarrow> m_Type (endpoints s e) = EndpointTypeControl"
    using assms(2) by (auto simp: plain_endpoint_def)
  note run = DWHCITransferStageData_def wp_simps stage_buffer_def Let_def stage_defs stage_plan_def
    set_scheduler_def URB_SetupData_def sizeof_TSetupData_def set_data_stage_def set_status_stage_def
  show ?thesis
  proof (cases "bSt \<or> m_NextPID (endpoints s e) \<noteq> USBPIDSetup")
    case True
    then show ?thesis
      using ep(1-3) assms(1,4,5) plan
      by (cases bSt) (simp add: run; rule Q [where v = v]; auto simp: plain_stage_def)+
  next
    case False
    then show ?thesis
      using ep assms(1,4,5) plan by (simp add: run) (rule Q [where v = v], auto simp: plain_stage_def)
  qed
qed

lemma wp_plain_stage_core:
  fixes s :: "'b usb_scheme"
  assumes "ready s" and "m_nChannels s \<noteq> 0" and "m_pEndpoint (urbs s u) = Some e" and "plain_endpoint s e bSt"
    and plan: "stage_plan s u e bSt = (p, n, packets)" and "p \<noteq> 0" and "p AND 3 = 0"
    and "irqs s = IRQ_USB # ints" and "mmio_in s = as @ rest" and ans: "stage_answer n packets siz as"
    and skip: "wp (USBEndpointSkipPID (packets - DWHCI_HOST_CHAN_XFER_SIZ_PACKETS siz) bSt) (\<lambda>_ ep. ep = E') (\<lambda>_ _. False)
        (endpoints s e)"
    and Q: "\<And>t. mmio_in t = rest \<Longrightarrow> irqs t = ints \<Longrightarrow> mem t = dma_all as (mem s) \<Longrightarrow>
        endpoints t = (endpoints s)(e := E') \<Longrightarrow> sleeps t = sleeps s \<Longrightarrow>
        urbs t = (urbs s)(u := (urbs s u)\<lparr>m_pCompletionRoutine := Some DWHCI_CompletionRoutine,
          m_nResultLen := (if bSt then m_nResultLen (urbs s u) else n - (siz AND 0x7FFFF)), m_bStatus := True\<rparr>) \<Longrightarrow>
        Q True t"
  shows "wp (DWHCIDeviceTransferStage u bIn bSt) Q E s"
proof -
  obtain im0 w0 ch0 w1 ch1 w2 st w3 w4 w5 int1 w6 int2 w7 im1 w8
    where as: "as = [(im0, w0), (ch0, w1), (ch1, w2), (st, w3), (1, w4), (siz, w5), (int1, w6), (int2, w7), (im1, w8)]"
    and ch0: "ch0 AND CHAN_CHARACTER_ENABLE = 0"
    and last: "st AND DWHCI_CORE_INT_MASK_HC_INTR \<noteq> 0" "siz AND 0x7FFFF \<le> n"
      "DWHCI_HOST_CHAN_XFER_SIZ_PACKETS siz \<le> packets" "int1 \<noteq> CHAN_INT_HALTED" "\<not> status_bad int2" "int2 \<noteq> 0"
    using ans by (elim stage_answerE)
  obtain v where ep: "m_pDevice (endpoints s e) = Some v" "TUSBDevice.m_Speed (devs s v) = USBSpeedHigh"
      "m_nMaxPacketSize (endpoints s e) \<noteq> 0" "m_Type (endpoints s e) \<noteq> EndpointTypeInterrupt \<and> m_Type (endpoints s e) \<noteq> EndpointTypeIsochronous"
      "bSt \<Longrightarrow> m_Type (endpoints s e) = EndpointTypeControl"
      "m_NextPID (endpoints s e) = USBPIDSetup \<Longrightarrow> m_Type (endpoints s e) = EndpointTypeControl"
    using assms(4) by (auto simp: plain_endpoint_def)
  have r: "m_nChannelAllocated s = 0" "\<not> m_bWaiting s" "s_nCriticalLevel s = 0" "irq_on s"
    using assms(1) by (simp_all add: ready_def idle_def)
  obtain k where k: "unat (m_nChannels s) = Suc k"
    using assms(2) by (metis not0_implies_Suc unat_eq_zero)
  have started: "wp (bind (DWHCIDeviceTransferStageAsync u bIn bSt) (\<lambda>ok.
      if \<not> ok then bind (modify (\<lambda>s. s\<lparr>m_bWaiting := False\<rparr>)) (\<lambda>_. return False)
      else bind (gets irqs) (\<lambda>is. bind (spin is) (\<lambda>_. on_urb u USBRequestGetStatus)))) Q E
      (s\<lparr>urbs := (urbs s)(u := (urbs s u)\<lparr>m_pCompletionRoutine := Some DWHCI_CompletionRoutine\<rparr>), m_bWaiting := True\<rparr>)"
    using r k assms(2,3,8,9)
    apply (simp add: DWHCIDeviceTransferStageAsync_def DWHCIDeviceAllocateChannel_def wp_simps)
    apply (rule wp_construct_plain [where e = e and p = p and n = n and packets = packets])
         apply (simp_all add: assms(6,7))
      apply (use assms(4) in \<open>simp add: plain_endpoint_def\<close>)
     subgoal using plan by (cases bSt; cases "m_NextPID (endpoints s e)") (simp_all add: stage_plan_def Let_def)
    subgoal for d v
      apply (frule plain_stage_facts)
      apply (simp add: as wp_simps DWHCIDeviceEnableChannelInterrupt_def start_stage_def register_simps stage_defs)
      apply (rule wp_start_plain [where e = e and v = v and cha = ch0 and wa = w1 and chb = ch1 and wb = w2
          and rest = "[(st, w3), (1, w4), (siz, w5), (int1, w6), (int2, w7), (im1, w8)] @ rest"])
                apply (use ch0 ep in \<open>simp_all add: word_gt_0 wp_simps\<close>)
      apply (rule wp_plain_interrupt [where u = u and e = e and v = v and bSt = bSt and n = n and packets = packets
          and siz = siz and rest = rest and st = st and inta = int1 and intb = int2 and im = im1 and E' = E'
          and wa = w3 and wb = w4 and wc = w5 and wd = w6 and we = w7 and wx = w8])
                     apply (use last ep skip in \<open>simp_all add: plain_stage_def word_gt_0\<close>)
      apply (simp add: wp_spin_over wp_simps Q as dma_all_def)
      done
    done
  show ?thesis
    using r by (simp add: DWHCIDeviceTransferStage_def wp_bind [of "on_urb _ _"] wp_bind [of "gets m_bWaiting"] 
        wp_bind [of "UK_ASSERT _"] wp_bind [of "modify (\<lambda>s. s\<lparr>m_bWaiting := True\<rparr>)"]
        wp_on_urb wp_gets wp_UK_ASSERT wp_modify started USBRequestSetCompletionRoutine_def)
qed

text \<open>The PID after a stage, and the whole stage with what it establishes.\<close>

definition next_pid :: "u32 \<Rightarrow> bool \<Rightarrow> TUSBPID \<Rightarrow> TUSBPID" where
  "next_pid n bSt pid = (if bSt then USBPIDSetup else case pid of USBPIDSetup \<Rightarrow> USBPIDData1
      | USBPIDData0 \<Rightarrow> if odd (unat n) then USBPIDData1 else USBPIDData0
      | USBPIDData1 \<Rightarrow> if odd (unat n) then USBPIDData0 else USBPIDData1)"

definition after_stage :: "'b usb_scheme \<Rightarrow> nat \<Rightarrow> nat \<Rightarrow> bool \<Rightarrow> u32 \<Rightarrow> u32 \<Rightarrow> u32 \<Rightarrow> answer list \<Rightarrow>
    irq list \<Rightarrow> answer list \<Rightarrow> 'b usb_scheme \<Rightarrow> bool" where
  "after_stage s u e bSt n packets siz as ints rest t \<longleftrightarrow> ready t \<and> calm1 s t \<and> mmio_in t = rest \<and> irqs t = ints \<and>
     mem t = dma_all as (mem s) \<and> sleeps t = sleeps s \<and>
     endpoints t = (endpoints s)(e := (endpoints s e)\<lparr>m_NextPID :=
       next_pid (packets - DWHCI_HOST_CHAN_XFER_SIZ_PACKETS siz) bSt (m_NextPID (endpoints s e))\<rparr>) \<and>
     urbs t = (urbs s)(u := (urbs s u)\<lparr>m_pCompletionRoutine := Some DWHCI_CompletionRoutine,
       m_nResultLen := (if bSt then m_nResultLen (urbs s u) else n - (siz AND 0x7FFFF)), m_bStatus := True\<rparr>)"

lemma wp_plain_stage:
  fixes s :: "'b usb_scheme"
  assumes "ready s" and "m_nChannels s \<noteq> 0" and "m_pEndpoint (urbs s u) = Some e" and ep: "plain_endpoint s e bSt"
    and "stage_plan s u e bSt = (p, n, packets)" and "p \<noteq> 0" and "p AND 3 = 0"
    and "irqs s = IRQ_USB # ints" and "mmio_in s = as @ rest" and "stage_answer n packets siz as"
    and Q: "\<And>t. after_stage s u e bSt n packets siz as ints rest t \<Longrightarrow> Q True t"
  shows "wp (DWHCIDeviceTransferStage u bIn bSt) Q E s"
proof -
  let ?E = "(endpoints s e)\<lparr>m_NextPID :=
       next_pid (packets - DWHCI_HOST_CHAN_XFER_SIZ_PACKETS siz) bSt (m_NextPID (endpoints s e))\<rparr>"
  have skip: "wp (USBEndpointSkipPID (packets - DWHCI_HOST_CHAN_XFER_SIZ_PACKETS siz) bSt) (\<lambda>_ ep. ep = ?E)
      (\<lambda>_ _. False) (endpoints s e)"
    using ep by (cases bSt) (auto simp: plain_endpoint_def wp_def SkipPID_run SkipPID_status_run next_pid_def)
  let ?F = "\<lambda>ok t. ok \<and> mmio_in t = rest \<and> irqs t = ints \<and> mem t = dma_all as (mem s) \<and> sleeps t = sleeps s \<and>
      endpoints t = (endpoints s)(e := ?E) \<and>
      urbs t = (urbs s)(u := (urbs s u)\<lparr>m_pCompletionRoutine := Some DWHCI_CompletionRoutine,
        m_nResultLen := (if bSt then m_nResultLen (urbs s u) else n - (siz AND 0x7FFFF)), m_bStatus := True\<rparr>)"
  have "wp (DWHCIDeviceTransferStage u bIn bSt) ?F (\<lambda>_ _. False) s"
    using assms(1-10) skip by (rule wp_plain_stage_core) simp
  from wp_conj [OF this wp_conj [OF upholdsD [OF ready_TransferStage assms(1)]
      presD [OF eats_calm1 [OF eats_stage] calm_refl(2)]]]
  show ?thesis
    by (rule wp_mono) (auto intro!: Q simp: after_stage_def)
qed

end
