(* ===== verification/DwhciRequest.thy ===== *)
theory DwhciRequest
  imports DwhciTransfer
begin

text \<open>
  Whole requests of the host controller, run against a controller that answers as its manual says:
  bulk transfers and the three kinds of control transfer.
\<close>

section \<open>Bulk transfers\<close>

lemma wp_request_object:
  assumes "p \<noteq> 0 \<or> n = 0" and "\<And>r. r = \<lparr>m_pEndpoint = Some e, m_pSetupData = ps, m_pBuffer = p, m_nBufLen = n,
      m_bStatus = False, m_nResultLen = 0, m_pCompletionRoutine = None\<rparr> \<Longrightarrow> Q () (s\<lparr>urbs := (urbs s)(u := r)\<rparr>)"
  shows "wp (on_urb u (USBRequest (Some e) p n ps)) Q E s"
  using assms by (cases "urbs s u") (simp add: USBRequest_def wp_simps)

lemma ready_frame [simp]:
  "ready (s\<lparr>urbs := x\<rparr>) = ready s" "ready (s\<lparr>mem := m\<rparr>) = ready s" "ready (s\<lparr>rev_trace := tr\<rparr>) = ready s"
  by (simp_all add: ready_def idle_def)

lemma plain_endpoint_frame [simp]:
  "plain_endpoint (s\<lparr>urbs := x\<rparr>) e b = plain_endpoint s e b" "plain_endpoint (s\<lparr>mem := m\<rparr>) e b = plain_endpoint s e b"
  "plain_endpoint (s\<lparr>rev_trace := tr\<rparr>) e b = plain_endpoint s e b"
  by (simp_all add: plain_endpoint_def)

lemma wp_total: "wp m Q (\<lambda>_ _. False) s \<Longrightarrow> \<exists>x t. m s = Done x t \<and> Q x t"
  by (cases "m s") (auto simp: wp_def)

definition packets_of :: "u32 \<Rightarrow> u32 \<Rightarrow> u32" where
  "packets_of maxp n = (n + maxp - 1) div maxp"

lemma wp_bulk_transfer:
  assumes "ready s" and "m_nChannels s \<noteq> 0" and "m_Type (endpoints s e) = EndpointTypeBulk"
    and "plain_endpoint s e False" and "p \<noteq> 0" and "p AND 3 = 0" and "n \<noteq> 0"
    and "irqs s = IRQ_USB # ints" and "mmio_in s = as @ rest"
    and "stage_answer n (packets_of (m_nMaxPacketSize (endpoints s e)) n) siz as"
  shows "wp (DWHCIDeviceTransfer (Some e) p n) (\<lambda>r t. r = n - (siz AND 0x7FFFF) \<and> ready t \<and> calm1 s t \<and>
      mmio_in t = rest \<and> irqs t = ints \<and> sleeps t = sleeps s \<and> mem t = dma_all as (mem s)) (\<lambda>_ _. False) s"
proof -
  have pid: "m_NextPID (endpoints s e) \<noteq> USBPIDSetup"
    using assms(3,4) by (auto simp: plain_endpoint_def)
  have run: "wp (DWHCIDeviceTransfer (Some e) p n) (\<lambda>r t. r = n - (siz AND 0x7FFFF) \<and> ready t \<and>
      mmio_in t = rest \<and> irqs t = ints \<and> sleeps t = sleeps s \<and> mem t = dma_all as (mem s)) (\<lambda>_ _. False) s"
    unfolding DWHCIDeviceTransfer_def local_request_def wp_bind [of "on_urb _ _"]
    apply (rule wp_request_object)
    using assms(5) apply simp
    using assms(3) apply (simp add: DWHCIDeviceSubmitBlockingRequest_def URB_Type_def bulk_stage_def wp_simps
      word_neq_0_conv [symmetric] assms(7))
    apply (rule wp_plain_stage [where e = e and p = p and n = n and siz = siz and ints = ints and rest = rest and as = as
      and packets = "packets_of (m_nMaxPacketSize (endpoints s e)) n"])
              apply (use assms pid in \<open>simp_all add: stage_plan_def packets_of_def Let_def\<close>)
    apply (simp add: wp_simps after_stage_def)
    done
  show ?thesis
    by (rule wp_mono [OF wp_conj [OF run presD [OF calm1_requests(2) calm_refl(2)]]]) auto
qed

text \<open>
  C9. A bulk transfer: on a ready controller, a request of \<open>n > 0\<close> bytes for a bulk endpoint of a
  high-speed device, with an aligned buffer, is one stage.  When the controller answers it and reports
  channel 0, the request returns \<open>n\<close> less the bytes the transfer size register counts as left, memory
  is what it was with the DMA of the answers, one interrupt is used and the controller is ready again.
\<close>

theorem bulk_transfer_result:
  assumes "ready s" and "m_nChannels s \<noteq> 0" and "m_Type (endpoints s e) = EndpointTypeBulk"
    and "plain_endpoint s e False" and "p \<noteq> 0" and "p AND 3 = 0" and "n \<noteq> 0"
    and "irqs s = IRQ_USB # ints" and "mmio_in s = as @ rest"
    and "stage_answer n (packets_of (m_nMaxPacketSize (endpoints s e)) n) siz as"
  shows "\<exists>t. DWHCIDeviceTransfer (Some e) p n s = Done (n - (siz AND 0x7FFFF)) t \<and> ready t \<and>
      mmio_in t = rest \<and> irqs t = ints \<and> mem t = dma_all as (mem s)"
  using wp_total [OF wp_bulk_transfer [OF assms]] by auto

text \<open>A request for 20 bytes to which the device sends 16, in two packets of 8 bytes.\<close>

definition bulk_answer :: "answer list" where
  "bulk_answer = map (\<lambda>v. (v, [])) [0, 0, 0, 0x2000000, 1, 4, 0x23, 0x23, 1]"

definition bulk0 :: usb where
  "bulk0 = usb0\<lparr>irqs := [IRQ_USB], mmio_in := bulk_answer\<rparr>"

lemmas run_values = usb0_def endpoint1_def device1_def urb0_def stage0_def stage_answer_def packets_of_def status_bad_def
  chan_int_defs register_simps DWHCI_HOST_CHAN_XFER_SIZ_PACKETS_def ready_def idle_def plain_endpoint_def

lemma bulk0_facts:
  "ready bulk0" "m_nChannels bulk0 \<noteq> 0" "m_Type (endpoints bulk0 0) = EndpointTypeBulk" "plain_endpoint bulk0 0 False"
  "irqs bulk0 = IRQ_USB # []" "mmio_in bulk0 = bulk_answer @ []"
  "stage_answer 20 (packets_of (m_nMaxPacketSize (endpoints bulk0 0)) 20) 4 bulk_answer"
  by (simp_all add: bulk0_def bulk_answer_def run_values)

theorem bulk_transfer_result_witness:
  "\<exists>t. DWHCIDeviceTransfer (Some 0) 0x1000 20 bulk0 = Done 16 t \<and> irqs t = []"
  using bulk_transfer_result [OF bulk0_facts(1-4) _ _ _ bulk0_facts(5-7), where p = "0x1000"] by auto

theorem requests_return_ready_witness: "\<exists>t. DWHCIDeviceTransfer (Some 0) 0x1000 20 bulk0 = Done 16 t \<and> ready t"
proof -
  obtain t where t: "DWHCIDeviceTransfer (Some 0) 0x1000 20 bulk0 = Done 16 t"
    using wp_total [OF wp_bulk_transfer [OF bulk0_facts(1-4) _ _ _ bulk0_facts(5-7), where p = "0x1000"]] by auto
  with requests_return_ready [OF bulk0_facts(1), where ep = "Some 0" and p = "0x1000" and m = 20 and r = 16 and t = t]
  show ?thesis by auto
qed

section \<open>Control transfers\<close>

text \<open>
  The state of a control transfer between its stages: the request object holds the request, the
  endpoint is at \<open>pid\<close>, \<open>res\<close> bytes have been transferred by the last stage, and the interrupts, the
  answers of the controller and the memory are the given ones.
\<close>

definition control_state :: "nat \<Rightarrow> u64 \<Rightarrow> u64 \<Rightarrow> u32 \<Rightarrow> u32 \<Rightarrow> TUSBPID \<Rightarrow> u32 option \<Rightarrow> irq list \<Rightarrow> answer list \<Rightarrow>
    (u64 \<Rightarrow> u8) \<Rightarrow> sleep_answer list \<Rightarrow> 'b usb_scheme \<Rightarrow> bool" where
  "control_state e ps p n maxp pid res ints as m sl s \<longleftrightarrow> ready s \<and> m_nChannels s \<noteq> 0 \<and> plain_endpoint s e True \<and>
     m_nMaxPacketSize (endpoints s e) = maxp \<and> m_NextPID (endpoints s e) = pid \<and> temp_addr s 0 \<noteq> 0 \<and>
     temp_addr s 0 AND 3 = 0 \<and> m_pEndpoint (urbs s 0) = Some e \<and> m_pSetupData (urbs s 0) = ps \<and>
     TUSBRequest.m_pBuffer (urbs s 0) = p \<and> m_nBufLen (urbs s 0) = n \<and>
     (\<forall>r. res = Some r \<longrightarrow> m_bStatus (urbs s 0) \<and> m_nResultLen (urbs s 0) = r) \<and>
     irqs s = ints \<and> mmio_in s = as \<and> mem s = m \<and> sleeps s = sl"

definition stage_size :: "u32 \<Rightarrow> u32 \<Rightarrow> TUSBPID \<Rightarrow> bool \<Rightarrow> u32" where
  "stage_size maxp n pid bSt = (if bSt then 0 else if pid = USBPIDSetup then 8 else n)"

definition stage_packets :: "u32 \<Rightarrow> u32 \<Rightarrow> TUSBPID \<Rightarrow> bool \<Rightarrow> u32" where
  "stage_packets maxp n pid bSt = (if bSt then 1 else packets_of maxp (if pid = USBPIDSetup then 8 else n))"

lemma wp_control_stage:
  assumes "control_state e ps p n maxp pid res (IRQ_USB # ints) (as @ rest) m sl s"
    and "stage_answer (stage_size maxp n pid bSt) (stage_packets maxp n pid bSt) siz as"
    and "bSt \<or> (if pid = USBPIDSetup then ps \<noteq> 0 \<and> ps AND 3 = 0 else p \<noteq> 0 \<and> p AND 3 = 0)" and "bSt \<Longrightarrow> res \<noteq> None"
    and Q: "\<And>t. control_state e ps p n maxp
        (next_pid (stage_packets maxp n pid bSt - DWHCI_HOST_CHAN_XFER_SIZ_PACKETS siz) bSt pid)
        (if bSt then res else Some (stage_size maxp n pid bSt - (siz AND 0x7FFFF))) ints rest (dma_all as m) sl t \<Longrightarrow> Q True t"
  shows "wp (DWHCIDeviceTransferStage 0 bIn bSt) Q E s"
proof -
  note s = assms(1) [unfolded control_state_def]
  have ep: "plain_endpoint s e bSt" using s by (cases bSt) (auto simp: plain_endpoint_def)
  show ?thesis
    apply (rule wp_plain_stage [where e = e and siz = siz and ints = ints and rest = rest and as = as
        and n = "stage_size maxp n pid bSt" and packets = "stage_packets maxp n pid bSt"
        and p = "if bSt then temp_addr s 0 else if pid = USBPIDSetup then ps else p"])
              prefer 11
    subgoal for t
      apply (rule Q)
      apply (use s assms(4) in \<open>cases bSt; auto simp: after_stage_def control_state_def calm1_def same_host_def
        plain_endpoint_def stage_packets_def stage_size_def\<close>)
      done
             apply (use s ep assms(2,3) in \<open>simp_all add: stage_plan_def stage_size_def stage_packets_def packets_of_def
      Let_def split: if_splits\<close>)
    done
qed

text \<open>The state in which a control request is made.\<close>

definition control_ready :: "'b usb_scheme \<Rightarrow> nat \<Rightarrow> bool" where
  "control_ready s e \<longleftrightarrow> ready s \<and> m_nChannels s \<noteq> 0 \<and> plain_endpoint s e True \<and>
     m_NextPID (endpoints s e) = USBPIDSetup \<and> setup_addr s \<noteq> 0 \<and> setup_addr s AND 3 = 0 \<and>
     temp_addr s 0 \<noteq> 0 \<and> temp_addr s 0 AND 3 = 0"

lemma wp_control_start:
  assumes "control_ready s e" and "irqs s = ints" and "mmio_in s = as" and "p \<noteq> 0 \<or> n = 0"
    and "\<And>t. control_state e (setup_addr s) p (ucast n) (m_nMaxPacketSize (endpoints s e)) USBPIDSetup None ints as
         (store_bytes (setup_addr s) (setup_packet ty rq v i n) (mem s)) (sleeps s) t \<Longrightarrow>
       wp (control_stages 0) (\<lambda>ok u. ok \<and> (\<exists>ps pp k maxp pid r ints as m. R r pid ints as m \<and>
          control_state e ps pp k maxp pid (Some r) ints as m (sleeps s) u)) E t"
  shows "wp (DWHCIDeviceControlMessage (Some e) ty rq v i p n)
     (\<lambda>r t. ready t \<and> R r (m_NextPID (endpoints t e)) (irqs t) (mmio_in t) (mem t) \<and> sleeps t = sleeps s) E s"
proof -
  have c: "m_Type (endpoints s e) = EndpointTypeControl"
    using assms(1) by (auto simp: control_ready_def plain_endpoint_def)
  show ?thesis
    unfolding DWHCIDeviceControlMessage_def local_request_def wp_bind [of "gets _"] wp_bind [of "store _ _"] 
      wp_bind [of "on_urb _ _"] wp_gets wp_store
    apply (rule wp_request_object)
    using assms(4) apply simp
    apply (simp add: DWHCIDeviceSubmitBlockingRequest_def URB_Type_def wp_simps c)
    apply (rule wp_mono [OF assms(5)])
    apply (use assms(1-3) in \<open>auto simp: control_ready_def control_state_def wp_simps\<close>)
    done
qed

lemma setup_first_byte [simp]:
  "hd (load_bytes a (Suc 0) (store_bytes a (setup_packet ty rq v i n) m)) = ty"
  by (simp add: load_bytes_def store_bytes_def setup_packet_def)

lemma next_pid_control:
  "next_pid k False USBPIDSetup = USBPIDData1" "next_pid k True pid = USBPIDSetup"
  "next_pid k False USBPIDData1 \<noteq> USBPIDSetup"
  by (simp_all add: next_pid_def)

lemmas stage_values = stage_size_def stage_packets_def next_pid_control

lemma wp_control_in:
  assumes "control_ready s e" and "maxp = m_nMaxPacketSize (endpoints s e)"
    and "ty AND 0x80 \<noteq> 0" and "n \<noteq> 0" and "p \<noteq> 0" and "p AND 3 = 0"
    and "irqs s = [IRQ_USB, IRQ_USB, IRQ_USB] @ ints" and "mmio_in s = as1 @ as2 @ as3 @ rest"
    and "stage_answer 8 (packets_of maxp 8) siz1 as1"
    and "stage_answer (ucast n) (packets_of maxp (ucast n)) siz2 as2" and "stage_answer 0 1 siz3 as3"
  shows "wp (DWHCIDeviceControlMessage (Some e) ty rq v i p n) (\<lambda>r t. r = ucast n - (siz2 AND 0x7FFFF) \<and>
      ready t \<and> calm1 s t \<and> m_NextPID (endpoints t e) = USBPIDSetup \<and> irqs t = ints \<and> mmio_in t = rest \<and> sleeps t = sleeps s \<and>
      mem t = dma_all as3 (dma_all as2 (dma_all as1 (store_bytes (setup_addr s) (setup_packet ty rq v i n) (mem s)))))
    (\<lambda>_ _. False) s"
proof -
  let ?R = "\<lambda>r pid is as m. r = ucast n - (siz2 AND 0x7FFFF) \<and> pid = USBPIDSetup \<and> is = ints \<and> as = rest \<and>
      m = dma_all as3 (dma_all as2 (dma_all as1 (store_bytes (setup_addr s) (setup_packet ty rq v i n) (mem s))))"
  have ps: "setup_addr s \<noteq> 0" "setup_addr s AND 3 = 0" using assms(1) by (simp_all add: control_ready_def)
  have n: "(ucast n :: u32) > 0"
  proof -
    have "unat (ucast n :: u32) = unat n"
      using unsigned_less [of n, where 'a = nat] by (simp add: unsigned_ucast_eq take_bit_nat_eq_self)
    then show ?thesis using assms(4) by (simp add: word_less_nat_alt unat_gt_0)
  qed
  have run: "wp (DWHCIDeviceControlMessage (Some e) ty rq v i p n)
     (\<lambda>r t. ready t \<and> ?R r (m_NextPID (endpoints t e)) (irqs t) (mmio_in t) (mem t) \<and> sleeps t = sleeps s) (\<lambda>_ _. False) s"
    apply (rule wp_control_start [OF assms(1,7,8)])
    using assms(5) apply simp
    apply (simp only: control_stages_def all_ok.simps)
    apply (frule control_state_def [THEN iffD1])
    apply (simp add: URB_SetupData_def wp_simps assms(3) n plain_endpoint_def ps)
    apply (erule wp_control_stage [where bSt = False])
       apply (use assms(9) ps in \<open>simp_all add: stage_values assms(2) wp_bind wp_if wp_return\<close>)
    apply (erule wp_control_stage [where bSt = False])
       apply (use assms(5,6,10) in \<open>simp_all add: stage_values assms(2) wp_bind wp_if wp_return\<close>)
    apply (erule wp_control_stage [where bSt = True])
       apply (use assms(11) in \<open>simp_all add: stage_values assms(2) wp_simps\<close>)
    apply blast
    done
  show ?thesis
    by (rule wp_mono [OF wp_conj [OF run presD [OF calm1_requests(1) calm_refl(2)]]]) auto
qed

text \<open>
  C2. A control transfer.  On a ready controller, with the setup packet and the buffers aligned and
  non-null, a request that reads \<open>n > 0\<close> bytes from a high-speed device runs its three stages: when
  the controller answers the setup, the data and the status stage, it returns the bytes the data stage
  transferred, the setup packet has been laid out in memory before any DMA of the three stages,
  the three interrupts are used, the endpoint is back at SETUP and the controller is ready again.
\<close>

theorem control_transfer_result:
  assumes "control_ready s e" and "maxp = m_nMaxPacketSize (endpoints s e)"
    and "ty AND 0x80 \<noteq> 0" and "n \<noteq> 0" and "p \<noteq> 0" and "p AND 3 = 0"
    and "irqs s = [IRQ_USB, IRQ_USB, IRQ_USB] @ ints" and "mmio_in s = as1 @ as2 @ as3 @ rest"
    and "stage_answer 8 (packets_of maxp 8) siz1 as1"
    and "stage_answer (ucast n) (packets_of maxp (ucast n)) siz2 as2" and "stage_answer 0 1 siz3 as3"
  shows "\<exists>t. DWHCIDeviceControlMessage (Some e) ty rq v i p n s = Done (ucast n - (siz2 AND 0x7FFFF)) t \<and>
      ready t \<and> m_NextPID (endpoints t e) = USBPIDSetup \<and> irqs t = ints \<and> mmio_in t = rest \<and>
      mem t = dma_all as3 (dma_all as2 (dma_all as1 (store_bytes (setup_addr s) (setup_packet ty rq v i n) (mem s))))"
  using wp_total [OF wp_control_in [OF assms, where rq = rq and v = v and i = i]] by auto

text \<open>The device descriptor of 18 bytes is read from endpoint 0, and the device sends 8 bytes of it.\<close>

definition dma_answer :: "u32 \<Rightarrow> (u64 \<times> u8 list) list \<Rightarrow> answer list" where
  "dma_answer siz ws = [(0, []), (0, []), (0, []), (0x2000000, ws), (1, []), (siz, []), (0x23, []), (0x23, []), (1, [])]"

definition control0 :: usb where
  "control0 = usb0\<lparr>irqs := [IRQ_USB, IRQ_USB, IRQ_USB],
     endpoints := \<lambda>_. endpoint1\<lparr>m_Type := EndpointTypeControl, m_NextPID := USBPIDSetup\<rparr>,
     mmio_in := dma_answer 0 [] @ dma_answer 10 [(0x1000, [18, 1, 0, 2, 0, 0, 0, 8])] @ dma_answer 0 []\<rparr>"

lemma dma_answer_stage:
  assumes "siz AND 0x7FFFF \<le> n" and "DWHCI_HOST_CHAN_XFER_SIZ_PACKETS siz \<le> packets"
  shows "stage_answer n packets siz (dma_answer siz ws)"
  using assms by (simp add: stage_answer_def dma_answer_def status_bad_def chan_int_defs register_simps)

lemma dma_all_answer: "dma_all (dma_answer siz []) m = m" "dma_all (dma_answer siz [(a, bs)]) m = store_bytes a bs m"
  by (simp_all add: dma_all_def dma_answer_def dma_writes_def)

lemma control0_facts:
  "control_ready control0 0" "m_nMaxPacketSize (endpoints control0 0) = 8"
  "irqs control0 = [IRQ_USB, IRQ_USB, IRQ_USB] @ []"
  "mmio_in control0 = dma_answer 0 [] @ dma_answer 10 [(0x1000, [18, 1, 0, 2, 0, 0, 0, 8])] @ dma_answer 0 [] @ []"
  by (simp_all add: control_ready_def control0_def run_values)

theorem control_transfer_result_witness:
  "\<exists>t. DWHCIDeviceControlMessage (Some 0) 0x80 6 0x100 0 0x1000 18 control0 = Done 8 t \<and>
     load_bytes 0x1000 8 (mem t) = [18, 1, 0, 2, 0, 0, 0, 8]"
proof -
  have a: "stage_answer 8 (packets_of 8 8) 0 (dma_answer 0 [])" "stage_answer 0 1 0 (dma_answer 0 [])"
    "stage_answer (ucast (18 :: u16)) (packets_of 8 (ucast (18 :: u16))) 10 (dma_answer 10 ws)" for ws
    by (simp_all add: dma_answer_stage DWHCI_HOST_CHAN_XFER_SIZ_PACKETS_def packets_of_def)
  have "load_bytes 0x1000 8 (store_bytes 0x1000 [18, 1, 0, 2, 0, 0, 0, 8] m) = [18, 1, 0, 2, 0, 0, 0, 8 :: u8]" for m
    by (simp add: load_bytes_def store_bytes_def upt_conv_Cons)
  then show ?thesis
    using control_transfer_result [OF control0_facts(1) control0_facts(2) [symmetric] _ _ _ _ control0_facts(3,4) a(1,3,2),
      where ty = "0x80" and rq = 6 and v = "0x100" and i = 0 and p = "0x1000"]
    by (auto simp: dma_all_answer)
qed

lemma wp_control_no_data:
  assumes "control_ready s e" and "maxp = m_nMaxPacketSize (endpoints s e)" and "ty AND 0x80 = 0"
    and "irqs s = [IRQ_USB, IRQ_USB] @ ints" and "mmio_in s = as1 @ as2 @ rest"
    and "stage_answer 8 (packets_of maxp 8) siz1 as1" and "stage_answer 0 1 siz2 as2"
  shows "wp (DWHCIDeviceControlMessage (Some e) ty rq v i 0 0) (\<lambda>r t. r = 8 - (siz1 AND 0x7FFFF) \<and>
      ready t \<and> calm1 s t \<and> m_NextPID (endpoints t e) = USBPIDSetup \<and> irqs t = ints \<and> mmio_in t = rest \<and> sleeps t = sleeps s \<and>
      mem t = dma_all as2 (dma_all as1 (store_bytes (setup_addr s) (setup_packet ty rq v i 0) (mem s)))) (\<lambda>_ _. False) s"
proof -
  let ?R = "\<lambda>r pid is as m. r = 8 - (siz1 AND 0x7FFFF) \<and> pid = USBPIDSetup \<and> is = ints \<and> as = rest \<and>
      m = dma_all as2 (dma_all as1 (store_bytes (setup_addr s) (setup_packet ty rq v i 0) (mem s)))"
  have ps: "setup_addr s \<noteq> 0" "setup_addr s AND 3 = 0" using assms(1) by (simp_all add: control_ready_def)
  have run: "wp (DWHCIDeviceControlMessage (Some e) ty rq v i 0 0)
     (\<lambda>r t. ready t \<and> ?R r (m_NextPID (endpoints t e)) (irqs t) (mmio_in t) (mem t) \<and> sleeps t = sleeps s) (\<lambda>_ _. False) s"
    apply (rule wp_control_start [OF assms(1,4,5)])
     apply simp
    apply (simp only: control_stages_def all_ok.simps)
    apply (frule control_state_def [THEN iffD1])
    apply (simp add: URB_SetupData_def wp_simps assms(3) plain_endpoint_def ps)
    apply (erule wp_control_stage [where bSt = False])
       apply (use assms(6) ps in \<open>simp_all add: stage_values assms(2) wp_bind wp_if wp_return\<close>)
    apply (erule wp_control_stage [where bSt = True])
       apply (use assms(7) in \<open>simp_all add: stage_values assms(2) wp_simps\<close>)
    apply blast
    done
  show ?thesis
    by (rule wp_mono [OF wp_conj [OF run presD [OF calm1_requests(1) calm_refl(2)]]]) auto
qed

text \<open>
  A control transfer without a data stage runs its setup and its status stage, and returns the
  number of bytes the setup stage sent (8 when all of them were), not the number of data bytes.
\<close>

theorem control_no_data_result:
  assumes "control_ready s e" and "maxp = m_nMaxPacketSize (endpoints s e)" and "ty AND 0x80 = 0"
    and "irqs s = [IRQ_USB, IRQ_USB] @ ints" and "mmio_in s = as1 @ as2 @ rest"
    and "stage_answer 8 (packets_of maxp 8) siz1 as1" and "stage_answer 0 1 siz2 as2"
  shows "\<exists>t. DWHCIDeviceControlMessage (Some e) ty rq v i 0 0 s = Done (8 - (siz1 AND 0x7FFFF)) t \<and>
      ready t \<and> m_NextPID (endpoints t e) = USBPIDSetup \<and> irqs t = ints \<and> mmio_in t = rest"
  using wp_total [OF wp_control_no_data [OF assms, where rq = rq and v = v and i = i]] by auto

definition control1 :: usb where
  "control1 = control0\<lparr>irqs := [IRQ_USB, IRQ_USB], mmio_in := dma_answer 0 [] @ dma_answer 0 []\<rparr>"

theorem control_no_data_result_witness:
  "\<exists>t. DWHCIDeviceControlMessage (Some 0) 0 5 1 0 0 0 control1 = Done 8 t \<and> ready t"
proof -
  have c: "control_ready control1 0" "8 = m_nMaxPacketSize (endpoints control1 0)"
    "irqs control1 = [IRQ_USB, IRQ_USB] @ []" "mmio_in control1 = dma_answer 0 [] @ dma_answer 0 [] @ []"
    by (simp_all add: control1_def control_ready_def control0_def run_values)
  have a: "stage_answer 8 (packets_of 8 8) 0 (dma_answer 0 [])" "stage_answer 0 1 0 (dma_answer 0 [])"
    by (simp_all add: dma_answer_stage DWHCI_HOST_CHAN_XFER_SIZ_PACKETS_def packets_of_def)
  show ?thesis
    using control_no_data_result [OF c(1,2) _ c(3,4) a, where ty = 0 and rq = 5 and v = 1 and i = 0] by auto
qed

end
