(* ===== verification/UsbTree.thy ===== *)
theory UsbTree
  imports DwhciRequest NameService MacAddress "HOL-Library.Multiset"
begin

text \<open>
  The objects above the host controller and their stores: string objects, parsers, functions
  (\<^verbatim>\<open>include/uspi/usbfunction.h\<close>), hubs (\<^verbatim>\<open>usbstandardhub.h\<close>), the two
  network chips (\<^verbatim>\<open>smsc951x.h\<close>, \<^verbatim>\<open>lan7800.h\<close>) and the device name service.
  An object on the heap is stored under its address; a hub and a network chip begin with their
  function, so they share its address.  \<open>freed\<close> lists the blocks given back to the allocator, the
  latest first, so that leaks can be counted.  \<open>array_overrun\<close> records that the code has used an index outside
  one of the arrays that are members of the objects, where the model stops.  The static counters of the two network drivers and the
  addresses of the local variables that are handed to the hardware are fields too.  A parser holds the address of its buffer, whose
  bytes are those of the memory at the time of each access.
\<close>

section \<open>Objects\<close>

datatype configure =
  Configure_null | Configure_hub | Configure_smsc951x | Configure_lan7800

record TUSBFunction =
  Configure :: configure
  fn_pDevice :: "nat option"
  fn_pConfigParser :: u64
  m_pInterfaceDesc :: u64

record TUSBStandardHub =
  m_pHubDesc :: u64
  m_nPorts :: nat
  hub_pDevice :: "u64 list"
  m_pStatus :: "u64 list"

record TEthDevice =
  m_pEndpointBulkIn :: u64
  m_pEndpointBulkOut :: u64
  m_MACAddress :: TMACAddress
  m_pTxBuffer :: u64

record usb_tree = usb +
  strings :: "u64 \<Rightarrow> TString"
  parsers :: "u64 \<Rightarrow> TUSBConfigurationParser"
  parser_buffer :: "u64 \<Rightarrow> u64"
  funcs :: "u64 \<Rightarrow> TUSBFunction"
  hubs :: "u64 \<Rightarrow> TUSBStandardHub"
  eths :: "u64 \<Rightarrow> TEthDevice"
  rootport_host :: bool
  names :: TDeviceNameService
  s_nLAN7800Number :: u32
  s_nSMSC951xNumber :: u32
  nValue_addr :: u64
  nData_addr :: u64
  tag_addr :: u64
  tag_junk :: "u8 list"
  freed :: "u64 list"
  array_overrun :: bool

section \<open>Access\<close>

definition free :: "u64 \<Rightarrow> ('b usb_tree_scheme, unit) prog" where
  "free p = modify (\<lambda>s. s\<lparr>freed := p # freed s\<rparr>)"

text \<open>\<open>malloc\<close> followed by the assertion that there was memory.\<close>

definition new_object :: "('b usb_scheme, u64) prog" where
  "new_object = bind malloc (\<lambda>p. bind (UK_ASSERT (p \<noteq> 0)) (\<lambda>_. return p))"

text \<open>
  The arrays in the objects.  In C an index outside an array reads or writes what lies beside it; the
  model notes that in the state and stops.
\<close>

definition beyond_array :: "('b usb_tree_scheme, 'a) prog" where
  "beyond_array = (\<lambda>s. Halt Out_of_bounds (s\<lparr>array_overrun := True\<rparr>))"

definition array_index :: "'x list \<Rightarrow> nat \<Rightarrow> ('b usb_tree_scheme, unit) prog" where
  "array_index xs n = (if n < length xs then return () else beyond_array)"

definition array_get :: "'x list \<Rightarrow> nat \<Rightarrow> ('b usb_tree_scheme, 'x) prog" where
  "array_get xs n = bind (array_index xs n) (\<lambda>_. return (xs ! n))"

definition on_string :: "u64 \<Rightarrow> (TString, 'a) prog \<Rightarrow> ('b usb_tree_scheme, 'a) prog" where
  "on_string p = zoom (\<lambda>s. strings s p) (\<lambda>x s. s\<lparr>strings := (strings s)(p := x)\<rparr>)"

definition on_func :: "u64 \<Rightarrow> (TUSBFunction, 'a) prog \<Rightarrow> ('b usb_tree_scheme, 'a) prog" where
  "on_func p = zoom (\<lambda>s. funcs s p) (\<lambda>x s. s\<lparr>funcs := (funcs s)(p := x)\<rparr>)"

definition upd_func :: "u64 \<Rightarrow> (TUSBFunction \<Rightarrow> TUSBFunction) \<Rightarrow> ('b usb_tree_scheme, unit) prog" where
  "upd_func p f = modify (\<lambda>s. s\<lparr>funcs := (funcs s)(p := f (funcs s p))\<rparr>)"

definition get_func :: "u64 \<Rightarrow> (TUSBFunction \<Rightarrow> 'a) \<Rightarrow> ('b usb_tree_scheme, 'a) prog" where
  "get_func p f = gets (\<lambda>s. f (funcs s p))"

definition upd_dev :: "nat \<Rightarrow> (TUSBDevice \<Rightarrow> TUSBDevice) \<Rightarrow> ('b usb_scheme, unit) prog" where
  "upd_dev d f = modify (\<lambda>s. s\<lparr>devs := (devs s)(d := f (devs s d))\<rparr>)"

definition get_dev :: "nat \<Rightarrow> (TUSBDevice \<Rightarrow> 'a) \<Rightarrow> ('b usb_scheme, 'a) prog" where
  "get_dev d f = gets (\<lambda>s. f (devs s d))"

definition parser_view :: "'b usb_tree_scheme \<Rightarrow> u64 \<Rightarrow> TUSBConfigurationParser" where
  "parser_view s p = (let P = parsers s p in
     P\<lparr>TUSBConfigurationParser.m_pBuffer :=
       map_option (\<lambda>_. load_bytes (parser_buffer s p) (TUSBConfigurationParser.m_nBufLen P) (mem s)) (TUSBConfigurationParser.m_pBuffer P)\<rparr>)"

definition on_parser :: "u64 \<Rightarrow> (TUSBConfigurationParser, 'a) prog \<Rightarrow> ('b usb_tree_scheme, 'a) prog" where
  "on_parser p = zoom (\<lambda>s. parser_view s p) (\<lambda>x s. s\<lparr>parsers := (parsers s)(p := x)\<rparr>)"

definition load8 :: "u64 \<Rightarrow> ('b hw_scheme, u8) prog" where
  "load8 p = gets (\<lambda>s. mem s p)"

definition load16 :: "u64 \<Rightarrow> ('b hw_scheme, u16) prog" where
  "load16 p = gets (\<lambda>s. le16 (mem s p) (mem s (p + 1)))"

lemma wp_free [wp_simps]: "wp (free p) Q E s = Q () (s\<lparr>freed := p # freed s\<rparr>)"
  by (simp add: free_def wp_simps)

lemma wp_array [wp_simps]:
  "wp (array_index xs n) Q1 E s = (if n < length xs then Q1 () s else E Out_of_bounds (s\<lparr>array_overrun := True\<rparr>))"
  "wp (array_get xs n) Q2 E s = (if n < length xs then Q2 (xs ! n) s else E Out_of_bounds (s\<lparr>array_overrun := True\<rparr>))"
  by (simp_all add: array_get_def array_index_def beyond_array_def wp_def bind_run)

lemma wp_new_object [wp_simps]:
  "wp new_object Q E s = (case mallocs s of [] \<Rightarrow> E Assert_failed s
     | p # ps \<Rightarrow> if p = 0 then E Assert_failed (s\<lparr>mallocs := ps\<rparr>) else Q p (s\<lparr>mallocs := ps\<rparr>))"
  by (simp add: new_object_def wp_simps split: list.split)

lemma wp_on_string [wp_simps]:
  "wp (on_string p m) Q E s = wp m (\<lambda>x t. Q x (s\<lparr>strings := (strings s)(p := t)\<rparr>))
     (\<lambda>h t. E h (s\<lparr>strings := (strings s)(p := t)\<rparr>)) (strings s p)"
  by (simp add: on_string_def wp_zoom)

lemma wp_on_parser [wp_simps]:
  "wp (on_parser p m) Q E s = wp m (\<lambda>x t. Q x (s\<lparr>parsers := (parsers s)(p := t)\<rparr>))
     (\<lambda>h t. E h (s\<lparr>parsers := (parsers s)(p := t)\<rparr>)) (parser_view s p)"
  by (simp add: on_parser_def wp_zoom)

lemma wp_func [wp_simps]:
  "wp (upd_func p f) Q1 E s = Q1 () (s\<lparr>funcs := (funcs s)(p := f (funcs s p))\<rparr>)"
  "wp (get_func p g) Q2 E s = Q2 (g (funcs s p)) s"
  by (simp_all add: upd_func_def get_func_def wp_simps)

lemma wp_dev [wp_simps]:
  "wp (upd_dev d f) Q1 E1 s1 = Q1 () (s1\<lparr>devs := (devs s1)(d := f (devs s1 d))\<rparr>)"
  "wp (get_dev d g) Q2 E2 s2 = Q2 (g (devs s2 d)) s2"
  by (simp_all add: upd_dev_def get_dev_def wp_simps)

lemma wp_load8 [wp_simps]:
  "wp (load8 p) Q1 E1 s1 = Q1 (mem s1 p) s1"
  "wp (load16 p) Q2 E2 s2 = Q2 (le16 (mem s2 p) (mem s2 (p + 1))) s2"
  by (simp_all add: load8_def load16_def wp_simps)

section \<open>The accessors of a device that its strings and functions use\<close>

definition USBDeviceGetHost :: "nat \<Rightarrow> ('b usb_scheme, unit) prog" where
  "USBDeviceGetHost d = bind (get_dev d m_pHost) UK_ASSERT"

definition USBDeviceGetEndpoint0 :: "nat \<Rightarrow> ('b usb_scheme, nat) prog" where
  "USBDeviceGetEndpoint0 d = bind (get_dev d m_pEndpoint0) (the_or Assert_failed)"

text \<open>A search of a parser gives the address of the descriptor it has found, or 0.\<close>

definition parser_descriptor :: "u64 \<Rightarrow> u8 \<Rightarrow> ('b usb_tree_scheme, u64) prog" where
  "parser_descriptor p ucType =
     bind (on_parser p (USBConfigurationParserGetDescriptor ucType)) (\<lambda>r. case r of
         None \<Rightarrow> return 0
       | Some off \<Rightarrow> gets (\<lambda>s. parser_buffer s p + of_nat off))"

definition USBDeviceGetDescriptor :: "nat \<Rightarrow> u8 \<Rightarrow> ('b usb_tree_scheme, u64) prog" where
  "USBDeviceGetDescriptor d ucType =
     bind (get_dev d m_pConfigParser) (\<lambda>p.
     bind (UK_ASSERT (p \<noteq> 0)) (\<lambda>_. parser_descriptor p ucType))"

definition USBDeviceConfigurationError :: "nat \<Rightarrow> ('b usb_tree_scheme, unit) prog" where
  "USBDeviceConfigurationError d =
     bind (get_dev d m_pConfigParser) (\<lambda>p.
     bind (UK_ASSERT (p \<noteq> 0)) (\<lambda>_.
     bind (gets (\<lambda>s. parsers s p)) USBConfigurationParserError))"

text \<open>A control message over endpoint 0 of a device.\<close>

definition device_control ::
  "nat \<Rightarrow> u8 \<Rightarrow> u8 \<Rightarrow> u16 \<Rightarrow> u16 \<Rightarrow> u64 \<Rightarrow> u16 \<Rightarrow> ('b usb_scheme, u32) prog" where
  "device_control d ucRequestType ucRequest usValue usIndex pData usDataSize =
     bind (USBDeviceGetHost d) (\<lambda>_.
     bind (USBDeviceGetEndpoint0 d) (\<lambda>ep.
     DWHCIDeviceControlMessage (Some ep) ucRequestType ucRequest usValue usIndex pData usDataSize))"

definition device_descriptor :: "nat \<Rightarrow> u8 \<Rightarrow> u8 \<Rightarrow> u64 \<Rightarrow> u32 \<Rightarrow> u8 \<Rightarrow> ('b usb_scheme, u32) prog" where
  "device_descriptor d ucType ucIndex pBuffer nBufSize ucRequestType =
     bind (USBDeviceGetHost d) (\<lambda>_.
     bind (USBDeviceGetEndpoint0 d) (\<lambda>ep.
     DWHCIDeviceGetDescriptor (Some ep) ucType ucIndex pBuffer nBufSize ucRequestType))"

lemma eats_device_control:
  "eats (\<lambda>r. \<not> r <s 0) (device_control d ty rq v i p n)"
  "eats (\<lambda>r. \<not> r <s 0) (device_descriptor d dty ix p k ty)"
  unfolding device_control_def device_descriptor_def USBDeviceGetHost_def USBDeviceGetEndpoint0_def get_dev_def
  by (intro eats_then eats_control pres_intros)+

lemmas calm1_device_control = eats_device_control [THEN eats_calm1]

text \<open>What a request of the host controller leaves alone, object by object.\<close>

lemma calm1_tree:
  fixes s t :: "'b usb_tree_scheme"
  assumes "calm1 s t"
  shows "strings t = strings s" "parsers t = parsers s" "parser_buffer t = parser_buffer s" "funcs t = funcs s"
    "hubs t = hubs s" "eths t = eths s" "names t = names s" "freed t = freed s" "mallocs t = mallocs s"
    "devs t = devs s" "usb_tree.more t = usb_tree.more s" "nValue_addr t = nValue_addr s"
    "s_nLAN7800Number t = s_nLAN7800Number s" "s_nSMSC951xNumber t = s_nSMSC951xNumber s" "s_ucNextAddress t = s_ucNextAddress s"
    "rootport_device t = rootport_device s" "array_overrun t = array_overrun s"
  using assms by (cases s rule: usb_tree.cases_scheme; cases t rule: usb_tree.cases_scheme;
      simp add: calm1_def same_host_def)+

lemma wp_calm1: "(\<And>s0. pres (calm1 s0) m) \<Longrightarrow> (\<And>x t. calm1 s t \<Longrightarrow> Q x t) \<Longrightarrow>
    (\<And>h t. calm1 s t \<Longrightarrow> E h t) \<Longrightarrow> wp m Q E s"
  by (rule wp_mono [where Q = "\<lambda>_. calm1 s" and E = "\<lambda>_. calm1 s", OF presD]) auto

lemma calm1_treeD:
  fixes s t :: "'b usb_tree_scheme"
  assumes "calm1 s t"
  shows "strings t = strings s \<and> parsers t = parsers s \<and> parser_buffer t = parser_buffer s \<and> funcs t = funcs s \<and>
    hubs t = hubs s \<and> eths t = eths s \<and> names t = names s \<and> freed t = freed s \<and> mallocs t = mallocs s \<and>
    devs t = devs s \<and> usb_tree.more t = usb_tree.more s \<and> s_ucNextAddress t = s_ucNextAddress s \<and>
    rootport_device t = rootport_device s"
  by (simp add: calm1_tree [OF assms])

section \<open>The balance of the heap\<close>

text \<open>
  \<open>heap_total s bs\<close> counts the blocks the allocator can still give, the blocks given back, and the
  blocks \<open>bs\<close> that are in use.  Code that neither leaks a block nor frees one twice keeps it, when
  \<open>bs\<close> is replaced by what it has in use afterwards.
\<close>

definition heap_total :: "'b usb_tree_scheme \<Rightarrow> u64 list \<Rightarrow> u64 multiset" where
  "heap_total s bs = mset (mallocs s) + mset (freed s) + mset bs"

lemma heap_total_calm1: "calm1 s t \<Longrightarrow> heap_total t bs = heap_total s bs"
  by (simp add: heap_total_def calm1_tree)

section \<open>A state for closed examples\<close>

definition tree_of :: "usb \<Rightarrow> u64 list \<Rightarrow> usb_tree" where
  "tree_of s ms = usb.extend (s\<lparr>mallocs := ms\<rparr>) (usb_tree.fields
     (\<lambda>_. \<lparr>TString.m_pBuffer = None, m_nSize = 0, m_pInPtr = 0, live = 0\<rparr>)
     (\<lambda>_. \<lparr>TUSBConfigurationParser.m_pBuffer = None, m_nBufLen = 0, m_bValid = False, m_pEndPosition = 0, m_pNextPosition = 0,
       m_pCurrentDescriptor = None, m_pErrorPosition = 0\<rparr>)
     (\<lambda>_. 0) (\<lambda>_. \<lparr>Configure = Configure_null, fn_pDevice = None, fn_pConfigParser = 0, m_pInterfaceDesc = 0\<rparr>)
     (\<lambda>_. \<lparr>m_pHubDesc = 0, m_nPorts = 0, hub_pDevice = [], m_pStatus = []\<rparr>)
     (\<lambda>_. \<lparr>m_pEndpointBulkIn = 0, m_pEndpointBulkOut = 0,
       m_MACAddress = \<lparr>m_bValid = False, m_Address = []\<rparr>, m_pTxBuffer = 0\<rparr>)
     True \<lparr>s_pThis = True, m_pList = []\<rparr> 10 0 0x9010 0x9020 0xA000 (replicate 20 0) [] False)"

lemma tree_of_simps [simp]:
  "control_ready (tree_of s ms) e = control_ready s e" "irqs (tree_of s ms) = irqs s" "mmio_in (tree_of s ms) = mmio_in s"
  "mallocs (tree_of s ms) = ms" "devs (tree_of s ms) = devs s" "endpoints (tree_of s ms) = endpoints s"
  "mem (tree_of s ms) = mem s" "freed (tree_of s ms) = []" "setup_addr (tree_of s ms) = setup_addr s"
  by (simp_all add: tree_of_def usb.defs usb_tree.defs control_ready_def ready_def idle_def plain_endpoint_def)

end
