(* ===== verification/UsbString.thy ===== *)
theory UsbString
  imports UsbTree
begin

text \<open>
  String descriptors: \<^verbatim>\<open>eth/lib/usbstring.c\<close>.  The string object is part of its device
  and is passed by value; the descriptor it points to is in memory.
\<close>

section \<open>Construction\<close>

definition REQUEST_IN :: u8 where "REQUEST_IN = 0x80"
definition GET_DESCRIPTOR :: u8 where "GET_DESCRIPTOR = 6"
definition USBSTR_MIN_LENGTH :: u8 where "USBSTR_MIN_LENGTH = 4"
definition USBSTR_DEFAULT_LANGID :: u16 where "USBSTR_DEFAULT_LANGID = 0x409"

definition USBString :: "nat option \<Rightarrow> ('b usb_tree_scheme, TUSBString) prog" where
  "USBString device =
     bind (UK_ASSERT (device \<noteq> None)) (\<lambda>_.
     bind new_object (\<lambda>p.
     bind (on_string p (modify String0)) (\<lambda>_.
     return \<lparr>us_pDevice = device, m_pUSBString = 0, m_pString = p\<rparr>)))"

definition USBStringCopy :: "TUSBString \<Rightarrow> ('b usb_tree_scheme, TUSBString) prog" where
  "USBStringCopy pParent =
     bind (if m_pUSBString pParent = 0 then return 0
           else bind new_object (\<lambda>p.
                bind (load8 (m_pUSBString pParent)) (\<lambda>len.
                bind (load (m_pUSBString pParent) (unat len)) (\<lambda>bs.
                bind (store p bs) (\<lambda>_. return p))))) (\<lambda>desc.
     bind (UK_ASSERT (m_pString pParent \<noteq> 0)) (\<lambda>_.
     bind new_object (\<lambda>p.
     bind (on_string (m_pString pParent) StringGet) (\<lambda>str.
     bind (on_string p (String2 str)) (\<lambda>_.
     return \<lparr>us_pDevice = us_pDevice pParent, m_pUSBString = desc, m_pString = p\<rparr>)))))"

definition USBString_destroy :: "TUSBString \<Rightarrow> ('b usb_tree_scheme, TUSBString) prog" where
  "USBString_destroy pThis =
     bind (UK_ASSERT (m_pString pThis \<noteq> 0)) (\<lambda>_.
     bind (on_string (m_pString pThis) String_destroy) (\<lambda>_.
     bind (free (m_pString pThis)) (\<lambda>_.
     bind (cond (m_pUSBString pThis \<noteq> 0) (free (m_pUSBString pThis))) (\<lambda>_.
     return \<lparr>us_pDevice = None, m_pUSBString = 0, m_pString = 0\<rparr>))))"

section \<open>Reading a string from the device\<close>

text \<open>A UTF-16 unit as a character: what is not printable ASCII becomes an underscore.\<close>

definition ascii_char :: "u16 \<Rightarrow> char" where
  "ascii_char usChar = (if usChar < 0x20 \<or> usChar > 0x7E then CHR ''_'' else char_of (unat usChar))"

definition load16s :: "u64 \<Rightarrow> nat \<Rightarrow> ('b hw_scheme, u16 list) prog" where
  "load16s p n = gets (\<lambda>s. map (\<lambda>i. le16 (mem s (p + of_nat (2 * i))) (mem s (p + of_nat (2 * i) + 1))) [0..<n])"

definition convert_string :: "TUSBString \<Rightarrow> ('b usb_tree_scheme, bool \<times> TUSBString) prog" where
  "convert_string pThis =
     bind (load8 (m_pUSBString pThis)) (\<lambda>len.
     bind (UK_ASSERT (len \<ge> 2)) (\<lambda>_.
     bind (UK_ASSERT (len AND 1 = 0)) (\<lambda>_.
     let nLength = (unat len - 2) div 2 in
     bind (UK_ASSERT (nLength \<le> 126)) (\<lambda>_.
     bind (load16s (m_pUSBString pThis + 2) nLength) (\<lambda>cs.
     bind (UK_ASSERT (m_pString pThis \<noteq> 0)) (\<lambda>_.
     bind (on_string (m_pString pThis) String_destroy) (\<lambda>_.
     bind (free (m_pString pThis)) (\<lambda>_.
     bind new_object (\<lambda>p.
     bind (on_string p (String2 (map ascii_char cs))) (\<lambda>_.
     return (True, pThis\<lparr>m_pString := p\<rparr>)))))))))))"

text \<open>The header of a string descriptor, as it is checked after each request.\<close>

definition bad_header :: "u8 \<Rightarrow> u8 \<Rightarrow> u8 \<Rightarrow> bool" where
  "bad_header min_len len ty \<longleftrightarrow> len < min_len \<or> len AND 1 \<noteq> 0 \<or> ty \<noteq> DESCRIPTOR_STRING"

definition USBStringGetFromDescriptor ::
  "TUSBString \<Rightarrow> u8 \<Rightarrow> u16 \<Rightarrow> ('b usb_tree_scheme, bool \<times> TUSBString) prog" where
  "USBStringGetFromDescriptor pThis ucID usLanguageID =
     bind (UK_ASSERT (ucID > 0)) (\<lambda>_.
     bind (cond (m_pUSBString pThis \<noteq> 0) (free (m_pUSBString pThis))) (\<lambda>_.
     bind new_object (\<lambda>p.
     bind (the_or Assert_failed (us_pDevice pThis)) (\<lambda>d.
     bind (device_control d REQUEST_IN GET_DESCRIPTOR (push_bit 8 (ucast DESCRIPTOR_STRING) OR ucast ucID)
             usLanguageID p (ucast USBSTR_MIN_LENGTH)) (\<lambda>r.
     if r <s 0 then return (False, pThis\<lparr>m_pUSBString := p\<rparr>) else
     bind (load8 p) (\<lambda>ucLength.
     bind (load8 (p + 1)) (\<lambda>ty.
     if bad_header 2 ucLength ty then return (False, pThis\<lparr>m_pUSBString := p\<rparr>)
     else if ucLength > USBSTR_MIN_LENGTH then
       bind (free p) (\<lambda>_.
       bind new_object (\<lambda>q.
       bind (device_control d REQUEST_IN GET_DESCRIPTOR (push_bit 8 (ucast DESCRIPTOR_STRING) OR ucast ucID)
               usLanguageID q (ucast ucLength)) (\<lambda>r.
       if r \<noteq> ucast ucLength then return (False, pThis\<lparr>m_pUSBString := q\<rparr>) else
       bind (load8 q) (\<lambda>len.
       bind (load8 (q + 1)) (\<lambda>ty.
       if len \<noteq> ucLength \<or> bad_header 0 len ty then return (False, pThis\<lparr>m_pUSBString := q\<rparr>)
       else convert_string (pThis\<lparr>m_pUSBString := q\<rparr>))))))
     else convert_string (pThis\<lparr>m_pUSBString := p\<rparr>))))))))"

definition USBStringGet :: "TUSBString \<Rightarrow> ('b usb_tree_scheme, string) prog" where
  "USBStringGet pThis = on_string (m_pString pThis) StringGet"

text \<open>The language: the default one when the device lists it, otherwise the first of its list.\<close>

definition choose_language :: "u64 \<Rightarrow> ('b usb_tree_scheme, u16) prog" where
  "choose_language p =
     bind (load8 p) (\<lambda>len.
     bind (UK_ASSERT (len \<ge> 4)) (\<lambda>_.
     bind (UK_ASSERT (len AND 1 = 0)) (\<lambda>_.
     bind (load16s (p + 2) ((unat len - 2) div 2)) (\<lambda>langs.
     bind (free p) (\<lambda>_.
     return (if USBSTR_DEFAULT_LANGID \<in> set langs then USBSTR_DEFAULT_LANGID else hd langs))))))"

definition USBStringGetLanguageID :: "TUSBString \<Rightarrow> ('b usb_tree_scheme, u16) prog" where
  "USBStringGetLanguageID pThis =
     bind new_object (\<lambda>p.
     bind (the_or Assert_failed (us_pDevice pThis)) (\<lambda>d.
     bind (device_descriptor d DESCRIPTOR_STRING 0 p (ucast USBSTR_MIN_LENGTH) REQUEST_IN) (\<lambda>r.
     if r <s 0 then bind (free p) (\<lambda>_. return USBSTR_DEFAULT_LANGID) else
     bind (load8 p) (\<lambda>ucLength.
     bind (load8 (p + 1)) (\<lambda>ty.
     if bad_header 4 ucLength ty then bind (free p) (\<lambda>_. return USBSTR_DEFAULT_LANGID)
     else if ucLength > USBSTR_MIN_LENGTH then
       bind (free p) (\<lambda>_.
       bind new_object (\<lambda>q.
       bind (device_descriptor d DESCRIPTOR_STRING 0 q (ucast ucLength) REQUEST_IN) (\<lambda>r.
       if r \<noteq> ucast ucLength then bind (free q) (\<lambda>_. return USBSTR_DEFAULT_LANGID) else
       bind (load8 q) (\<lambda>len.
       bind (load8 (q + 1)) (\<lambda>ty.
       if len \<noteq> ucLength \<or> bad_header 0 len ty then bind (free q) (\<lambda>_. return USBSTR_DEFAULT_LANGID)
       else choose_language q)))))
     else choose_language p)))))"

section \<open>No string operation leaks memory\<close>

definition string_blocks :: "TUSBString \<Rightarrow> u64 list" where
  "string_blocks str = (if m_pString str = 0 then [] else [m_pString str]) @
     (if m_pUSBString str = 0 then [] else [m_pUSBString str])"

text \<open>
  The text buffers of the string objects, which \<open>CString\<close> counts for each object: those that operations on the object at
  \<open>p\<close> have taken and not given back, without the one that the string object of \<open>str\<close> still points to.
\<close>

definition loose_texts :: "'b usb_tree_scheme \<Rightarrow> TUSBString \<Rightarrow> u64 \<Rightarrow> int" where
  "loose_texts s str p =
     live (strings s p) - (if p = m_pString str \<and> TString.m_pBuffer (strings s p) \<noteq> None then 1 else 0)"

lemma wp_convert_string:
  assumes "m_pUSBString str \<noteq> 0"
  shows "wp (convert_string str) (\<lambda>(ok, str') t. heap_total t (string_blocks str') = heap_total s (string_blocks str) \<and>
       loose_texts t str' = loose_texts s str) (\<lambda>_ _. True) s"
  using assms
  by (auto simp: convert_string_def load16s_def wp_simps heap_total_def string_blocks_def String_destroy_def
      String2_def strcpy_def Let_def loose_texts_def fun_eq_iff split: list.split)

text \<open>
  C26. Reading a string descriptor neither leaks a block of memory nor frees one twice: whatever the
  device answers, when the function returns, whether the read succeeded or not, the blocks that can still be allocated, the
  freed ones and those of the string (its descriptor and its string object) are the same as before.  Nor
  does it leak or free twice a buffer that a string object has for its text: at every address, the
  buffers taken, less those freed, less the one that the string still has, are as many as before.
\<close>

theorem string_read_balanced:
  assumes "USBStringGetFromDescriptor str ucID lang s = Done (ok, str') t"
  shows "heap_total t (string_blocks str') = heap_total s (string_blocks str) \<and>
    (\<forall>p. loose_texts t str' p = loose_texts s str p)"
proof -
  let ?B = "\<lambda>bs u. heap_total u bs = heap_total s (string_blocks str)"
  let ?Q = "\<lambda>(ok, str') t. heap_total t (string_blocks str') = heap_total s (string_blocks str) \<and>
      loose_texts t str' = loose_texts s str"
  have conv: "wp (convert_string (str\<lparr>m_pUSBString := p\<rparr>)) ?Q (\<lambda>_ _. True) u"
    if "?B (string_blocks (str\<lparr>m_pUSBString := p\<rparr>)) u" "strings u = strings s" "p \<noteq> 0" for p u
  proof -
    have "loose_texts u (str\<lparr>m_pUSBString := p\<rparr>) = loose_texts s str"
      using that(2) by (simp add: loose_texts_def fun_eq_iff)
    then show ?thesis by (intro wp_mono [OF wp_convert_string]) (use that in auto)
  qed
  have "wp (USBStringGetFromDescriptor str ucID lang) ?Q (\<lambda>_ _. True) s"
    unfolding USBStringGetFromDescriptor_def
    apply (auto simp: wp_simps split: list.split option.split intro!: wp_calm1 [OF calm1_device_control(1)] conv
      dest!: calm1_treeD)
    apply (auto simp: heap_total_def string_blocks_def loose_texts_def)
    done
  then show ?thesis using assms by (auto dest: wp_DoneD)
qed

section \<open>The text of a string\<close>

definition printable :: "char \<Rightarrow> bool" where
  "printable c \<longleftrightarrow> 0x20 \<le> (of_char c :: nat) \<and> (of_char c :: nat) \<le> 0x7E"

definition string_text :: "'b usb_tree_scheme \<Rightarrow> TUSBString \<Rightarrow> string \<Rightarrow> bool" where
  "string_text s str txt \<longleftrightarrow> StringGet (strings s (m_pString str)) = Done txt (strings s (m_pString str))"

lemma printable_ascii_char: "printable (ascii_char c)"
proof (cases "c < 0x20 \<or> c > 0x7E")
  case False
  then have "0x20 \<le> unat c" "unat c \<le> 0x7E" by (simp_all add: word_le_nat_alt not_less)
  with False show ?thesis by (simp add: printable_def ascii_char_def)
qed (simp add: printable_def ascii_char_def)

lemma printable_not_NUL: "printable c \<Longrightarrow> c \<noteq> NUL"
  by (auto simp: printable_def NUL_def)

lemma wp_String2:
  assumes "NUL \<notin> set txt" and "length txt < 1000"
    and "\<And>t. StringGet t = Done txt t \<Longrightarrow> Q () t"
  shows "wp (String2 txt) Q E t0"
proof -
  have n: "unat (ucast (ucast (strlen txt + 1) :: u32) :: u64) = length txt + 1"
    using assms(2) by (simp add: strlen_def unsigned_ucast_eq take_bit_eq_mod unat_of_nat unat_word_ariths)
  have "cstr (splice 0 (map Some txt @ [Some NUL]) (CString.malloc (ucast (ucast (strlen txt + 1) :: u32)))) = Some txt"
    using assms(1) by (simp add: splice_def cstr_map)
  then show ?thesis
    using n by (simp add: String2_def wp_simps strcpy_def CString.malloc_def assms(3) StringGet_def bind_run)
qed

lemma wp_on_String2:
  assumes "list_all printable txt" and "length txt < 1000"
    and "\<And>t. StringGet t = Done txt t \<Longrightarrow> Q () (s\<lparr>strings := (strings s)(p := t)\<rparr>)"
  shows "wp (on_string p (String2 txt)) Q E s"
proof -
  have "NUL \<notin> set txt" using assms(1) by (auto simp: list_all_iff dest: printable_not_NUL)
  then show ?thesis unfolding wp_on_string by (rule wp_String2) (use assms in auto)
qed

lemma wp_on_destroy:
  "(\<And>t. Q () (s\<lparr>strings := (strings s)(p := t)\<rparr>)) \<Longrightarrow> wp (on_string p String_destroy) Q E s"
  by (simp add: wp_simps String_destroy_def)

lemma wp_load16s: "(\<And>cs. length cs = n \<Longrightarrow> Q cs s) \<Longrightarrow> wp (load16s p n) Q E s"
  by (simp add: load16s_def wp_simps)

text \<open>
  C40. A string that has been read is printable: whatever the device sends, after a successful read
  the string object holds a text of at most 126 characters, all of them printable ASCII.
\<close>

theorem string_read_printable:
  assumes "USBStringGetFromDescriptor str ucID lang s = Done (True, str') t"
  shows "\<exists>txt. string_text t str' txt \<and> length txt \<le> 126 \<and> list_all printable txt"
proof -
  let ?Q = "\<lambda>(ok, str') t. ok \<longrightarrow> (\<exists>txt. string_text t str' txt \<and> length txt \<le> 126 \<and> list_all printable txt)"
  have conv: "wp (convert_string str) ?Q (\<lambda>_ _. True) u" for str u
    unfolding convert_string_def Let_def
    by (auto simp: wp_bind wp_load8 wp_UK_ASSERT wp_free wp_new_object wp_return printable_ascii_char list_all_iff
        split: list.split intro!: wp_load16s wp_on_String2 wp_on_destroy)
      (auto simp: string_text_def printable_ascii_char)
  have "wp (USBStringGetFromDescriptor str ucID lang) ?Q (\<lambda>_ _. True) s"
    unfolding USBStringGetFromDescriptor_def
    by (auto simp: wp_simps split: list.split option.split intro!: wp_calm1 [OF calm1_device_control(1)] conv)
  then show ?thesis using assms by (auto dest: wp_DoneD)
qed

section \<open>A string that is read\<close>

text \<open>
  A device that answers the request for string 1 with a descriptor of the letter A: the first block
  of memory takes the descriptor, the second one the string object.
\<close>

definition letter_answer :: "answer list" where
  "letter_answer = dma_answer 0 [] @ dma_answer 0 [(0x1000, [4, 3, 0x41, 0])] @ dma_answer 0 []"

lemma control_ready_frame:
  "control_ready (s\<lparr>mallocs := ms\<rparr>) e = control_ready s e" "control_ready (s\<lparr>mmio_in := as\<rparr>) e = control_ready s e"
  by (simp_all add: control_ready_def ready_def idle_def plain_endpoint_def)

definition string_state :: usb_tree where
  "string_state = tree_of (control0\<lparr>mmio_in := letter_answer\<rparr>) [0x1000, 0x2000]"

definition string1 :: TUSBString where
  "string1 = \<lparr>us_pDevice = Some 1, m_pUSBString = 0, m_pString = 0x3000\<rparr>"

lemma string_state_facts:
  "control_ready string_state 2" "8 = m_nMaxPacketSize (endpoints string_state 2)"
  "irqs string_state = [IRQ_USB, IRQ_USB, IRQ_USB] @ []" "mallocs string_state = [0x1000, 0x2000]"
  "mmio_in string_state = dma_answer 0 [] @ dma_answer 0 [(0x1000, [4, 3, 0x41, 0])] @ dma_answer 0 [] @ []"
  "m_pEndpoint0 (devs string_state 1) = Some 2" "m_pHost (devs string_state 1)"
  using control0_facts(1) by (simp_all add: string_state_def letter_answer_def control_ready_frame)
    (simp_all add: control0_def run_values control_ready_def)

lemma string_state_texts: "strings string_state p = \<lparr>TString.m_pBuffer = None, m_nSize = 0, m_pInPtr = 0, live = 0\<rparr>"
  by (simp add: string_state_def tree_of_def usb.defs usb_tree.defs)

lemma string_run:
  "wp (USBStringGetFromDescriptor string1 1 0x409) (\<lambda>r t. fst r) (\<lambda>_ _. False) string_state"
proof -
  have a: "stage_answer 8 (packets_of 8 8) 0 (dma_answer 0 [])" "stage_answer 0 1 0 (dma_answer 0 [])"
    "stage_answer (ucast (4 :: u16)) (packets_of 8 (ucast (4 :: u16))) 0 (dma_answer 0 ws)" for ws
    by (simp_all add: dma_answer_stage DWHCI_HOST_CHAN_XFER_SIZ_PACKETS_def packets_of_def)
  have bs: "store_bytes 0x1000 [4, 3, 0x41, 0] m 0x1000 = 4" "store_bytes 0x1000 [4, 3, 0x41, 0] m 0x1001 = 3" for m
    by (simp_all add: store_bytes_def)
  show ?thesis
    using string_state_facts a
    apply (simp add: USBStringGetFromDescriptor_def device_control_def USBDeviceGetHost_def USBDeviceGetEndpoint0_def
        string1_def wp_simps)
    apply (rule wp_mono [OF wp_control_in [where e = 2 and ints = "[]" and rest = "[]" and maxp = 8
       and ?as1.0 = "dma_answer 0 []" and ?as2.0 = "dma_answer 0 [(0x1000, [4, 3, 0x41, 0])]"
       and ?as3.0 = "dma_answer 0 []" and ?siz1.0 = 0 and ?siz2.0 = 0 and ?siz3.0 = 0]])
                apply (simp_all add: REQUEST_IN_def USBSTR_MIN_LENGTH_def control_ready_frame)
    apply (clarsimp dest!: calm1_treeD simp: dma_all_answer bs bad_header_def DESCRIPTOR_STRING_def convert_string_def USBSTR_MIN_LENGTH_def word_sless_alt
        load16s_def wp_bind wp_load8 wp_if wp_UK_ASSERT wp_gets wp_free wp_new_object wp_cond wp_return wp_Let)
    apply (rule wp_on_destroy, simp add: wp_bind wp_free wp_new_object wp_return)
    apply (rule wp_on_String2, simp_all add: list_all_iff printable_ascii_char wp_return)
    done
qed

theorem string_read_balanced_witness:
  "\<exists>str' t. USBStringGetFromDescriptor string1 1 0x409 string_state = Done (True, str') t \<and>
     heap_total t (string_blocks str') = heap_total string_state [0x3000] \<and> loose_texts t str' 0x3000 = 0"
  using wp_total [OF string_run] string_read_balanced [where str = string1 and ucID = 1 and lang = "0x409"]
  by (force simp: string_blocks_def string1_def loose_texts_def string_state_texts)

theorem string_read_printable_witness:
  "\<exists>str' t txt. USBStringGetFromDescriptor string1 1 0x409 string_state = Done (True, str') t \<and>
     string_text t str' txt \<and> list_all printable txt"
  using wp_total [OF string_run] string_read_printable [where str = string1 and ucID = 1 and lang = "0x409"]
  by force

end
