(* ===== verification/UsbFunction.thy ===== *)
theory UsbFunction
  imports UsbString
begin

text \<open>
  The functions of a device: \<^verbatim>\<open>eth/lib/usbfunction.c\<close>.  A function owns a copy of the
  parser of its device; the interface descriptor it stands for is an address inside of the
  configuration descriptor of the device.
\<close>

section \<open>Construction\<close>

definition REQUEST_TO_INTERFACE :: u8 where "REQUEST_TO_INTERFACE = 1"
definition SET_INTERFACE :: u8 where "SET_INTERFACE = 11"

text \<open>A new parser object that is the copy of another one.\<close>

definition copy_parser :: "u64 \<Rightarrow> ('b usb_tree_scheme, u64) prog" where
  "copy_parser pParser =
     bind new_object (\<lambda>p.
     bind (UK_ASSERT (pParser \<noteq> 0)) (\<lambda>_.
     bind (gets (\<lambda>s. parser_view s pParser)) (\<lambda>P.
     bind (on_parser p (USBConfigurationParserCopy P)) (\<lambda>_.
     bind (modify (\<lambda>s. s\<lparr>parser_buffer := (parser_buffer s)(p := parser_buffer s pParser)\<rparr>)) (\<lambda>_.
     return p)))))"

definition set_interface_desc :: "u64 \<Rightarrow> u64 \<Rightarrow> ('b usb_tree_scheme, unit) prog" where
  "set_interface_desc this p =
     bind (on_parser p USBConfigurationParserGetCurrentDescriptor) (\<lambda>off.
     bind (gets (\<lambda>s. parser_buffer s p + of_nat off)) (\<lambda>a.
     bind (upd_func this (\<lambda>f. f\<lparr>m_pInterfaceDesc := a\<rparr>)) (\<lambda>_. UK_ASSERT (a \<noteq> 0))))"

definition USBFunction :: "u64 \<Rightarrow> nat option \<Rightarrow> u64 \<Rightarrow> ('b usb_tree_scheme, unit) prog" where
  "USBFunction this dev pConfigParser =
     bind (upd_func this (\<lambda>f. f\<lparr>Configure := Configure_null\<rparr>)) (\<lambda>_.
     bind (upd_func this (\<lambda>f. f\<lparr>fn_pDevice := dev\<rparr>)) (\<lambda>_.
     bind (UK_ASSERT (dev \<noteq> None)) (\<lambda>_.
     bind (copy_parser pConfigParser) (\<lambda>p.
     bind (upd_func this (\<lambda>f. f\<lparr>fn_pConfigParser := p\<rparr>)) (\<lambda>_.
     set_interface_desc this p)))))"

definition USBFunctionCopy :: "u64 \<Rightarrow> u64 \<Rightarrow> ('b usb_tree_scheme, unit) prog" where
  "USBFunctionCopy this pFunction =
     bind (UK_ASSERT (pFunction \<noteq> 0)) (\<lambda>_.
     bind (get_func pFunction Configure) (\<lambda>c.
     bind (upd_func this (\<lambda>f. f\<lparr>Configure := c\<rparr>)) (\<lambda>_.
     bind (get_func pFunction fn_pDevice) (\<lambda>dev.
     bind (upd_func this (\<lambda>f. f\<lparr>fn_pDevice := dev\<rparr>)) (\<lambda>_.
     bind (UK_ASSERT (dev \<noteq> None)) (\<lambda>_.
     bind (get_func pFunction fn_pConfigParser) (\<lambda>q.
     bind (copy_parser q) (\<lambda>p.
     bind (upd_func this (\<lambda>f. f\<lparr>fn_pConfigParser := p\<rparr>)) (\<lambda>_.
     set_interface_desc this p)))))))))"

definition USBFunction_destroy :: "u64 \<Rightarrow> ('b usb_tree_scheme, unit) prog" where
  "USBFunction_destroy this =
     bind (upd_func this (\<lambda>f. f\<lparr>m_pInterfaceDesc := 0\<rparr>)) (\<lambda>_.
     bind (get_func this fn_pConfigParser) (\<lambda>p.
     bind (UK_ASSERT (p \<noteq> 0)) (\<lambda>_.
     bind (on_parser p USBConfigurationParser_destroy) (\<lambda>_.
     bind (free p) (\<lambda>_.
     upd_func this (\<lambda>f. f\<lparr>fn_pConfigParser := 0, fn_pDevice := None, Configure := Configure_null\<rparr>))))))"

section \<open>Access\<close>

text \<open>The byte at an offset of the interface descriptor; using a null descriptor fails the assertion.\<close>

definition interface_byte :: "u64 \<Rightarrow> u64 \<Rightarrow> ('b usb_tree_scheme, u8) prog" where
  "interface_byte this off =
     bind (get_func this m_pInterfaceDesc) (\<lambda>a.
     bind (UK_ASSERT (a \<noteq> 0)) (\<lambda>_. load8 (a + off)))"

definition USBFunctionGetInterfaceNumber :: "u64 \<Rightarrow> ('b usb_tree_scheme, u8) prog" where
  "USBFunctionGetInterfaceNumber this = interface_byte this 2"

definition USBFunctionGetNumEndpoints :: "u64 \<Rightarrow> ('b usb_tree_scheme, u8) prog" where
  "USBFunctionGetNumEndpoints this = interface_byte this 4"

definition USBFunctionGetInterfaceClass :: "u64 \<Rightarrow> ('b usb_tree_scheme, u8) prog" where
  "USBFunctionGetInterfaceClass this = interface_byte this 5"

definition USBFunctionGetInterfaceSubClass :: "u64 \<Rightarrow> ('b usb_tree_scheme, u8) prog" where
  "USBFunctionGetInterfaceSubClass this = interface_byte this 6"

definition USBFunctionGetInterfaceProtocol :: "u64 \<Rightarrow> ('b usb_tree_scheme, u8) prog" where
  "USBFunctionGetInterfaceProtocol this = interface_byte this 7"

definition USBFunctionGetDevice :: "u64 \<Rightarrow> ('b usb_tree_scheme, nat) prog" where
  "USBFunctionGetDevice this = bind (get_func this fn_pDevice) (the_or Assert_failed)"

definition USBFunctionGetEndpoint0 :: "u64 \<Rightarrow> ('b usb_tree_scheme, nat) prog" where
  "USBFunctionGetEndpoint0 this = bind (USBFunctionGetDevice this) USBDeviceGetEndpoint0"

definition USBFunctionGetHost :: "u64 \<Rightarrow> ('b usb_tree_scheme, unit) prog" where
  "USBFunctionGetHost this = bind (USBFunctionGetDevice this) USBDeviceGetHost"

definition USBFunctionGetDescriptor :: "u64 \<Rightarrow> u8 \<Rightarrow> ('b usb_tree_scheme, u64) prog" where
  "USBFunctionGetDescriptor this ucType =
     bind (get_func this fn_pConfigParser) (\<lambda>p.
     bind (UK_ASSERT (p \<noteq> 0)) (\<lambda>_. parser_descriptor p ucType))"

definition USBFunctionConfigurationError :: "u64 \<Rightarrow> ('b usb_tree_scheme, unit) prog" where
  "USBFunctionConfigurationError this =
     bind (get_func this fn_pConfigParser) (\<lambda>p.
     bind (UK_ASSERT (p \<noteq> 0)) (\<lambda>_.
     bind (gets (\<lambda>s. parsers s p)) USBConfigurationParserError))"

text \<open>A control message over endpoint 0 of the function's device.\<close>

definition function_control ::
  "u64 \<Rightarrow> u8 \<Rightarrow> u8 \<Rightarrow> u16 \<Rightarrow> u16 \<Rightarrow> u64 \<Rightarrow> u16 \<Rightarrow> ('b usb_tree_scheme, u32) prog" where
  "function_control this ucRequestType ucRequest usValue usIndex pData usDataSize =
     bind (USBFunctionGetHost this) (\<lambda>_.
     bind (USBFunctionGetEndpoint0 this) (\<lambda>ep.
     DWHCIDeviceControlMessage (Some ep) ucRequestType ucRequest usValue usIndex pData usDataSize))"

section \<open>Operations\<close>

definition USBFunctionConfigure :: "u64 \<Rightarrow> ('b usb_tree_scheme, bool) prog" where
  "USBFunctionConfigure this =
     bind (interface_byte this 3) (\<lambda>bAlternateSetting.
     if bAlternateSetting \<noteq> 0 then
       bind (interface_byte this 2) (\<lambda>bInterfaceNumber.
       bind (function_control this REQUEST_TO_INTERFACE SET_INTERFACE (ucast bAlternateSetting)
               (ucast bInterfaceNumber) 0 0) (\<lambda>r.
       if r <s 0 then bind (LogWrite LOG_ERROR ''Cannot set interface'') (\<lambda>_. return False)
       else return True))
     else return True)"

definition USBFunctionGetInterfaceName :: "u64 \<Rightarrow> ('b usb_tree_scheme, u64) prog" where
  "USBFunctionGetInterfaceName this =
     bind new_object (\<lambda>pString.
     bind (on_string pString (String2 ''unknown'')) (\<lambda>_.
     bind (get_func this m_pInterfaceDesc) (\<lambda>a.
     bind (if a = 0 then return () else
           bind (load8 (a + 5)) (\<lambda>cls.
           bind (load8 (a + 6)) (\<lambda>sub.
           bind (load8 (a + 7)) (\<lambda>prt.
           cond (cls \<noteq> 0 \<and> cls \<noteq> 0xFF)
             (on_string pString (StringFormat ''int%x-%x-%x''
               [VInt (ucast cls), VInt (ucast sub), VInt (ucast prt)])))))) (\<lambda>_.
     return pString))))"

text \<open>
  The \<open>do \<dots> while\<close> loop over the interfaces.  Every turn that goes on has advanced the parser of the
  function by a descriptor, so that one turn per byte of its buffer and one more are enough, unless
  the parser stands still, and then the loop never ends.
\<close>

fun select_loop :: "nat \<Rightarrow> u64 \<Rightarrow> nat \<Rightarrow> u8 \<Rightarrow> u8 \<Rightarrow> u8 \<Rightarrow> ('b usb_tree_scheme, bool) prog" where
  "select_loop 0 this dev uchClass uchSubClass uchProtocol = halt Endless_loop"
| "select_loop (Suc n) this dev uchClass uchSubClass uchProtocol =
     bind (interface_byte this 5) (\<lambda>cls.
     bind (interface_byte this 6) (\<lambda>sub.
     bind (interface_byte this 7) (\<lambda>prt.
     if cls = uchClass \<and> sub = uchSubClass \<and> prt = uchProtocol then return True else
     bind (USBDeviceGetDescriptor dev DESCRIPTOR_INTERFACE) (\<lambda>_.
     bind (USBFunctionGetDescriptor this DESCRIPTOR_INTERFACE) (\<lambda>a.
     bind (upd_func this (\<lambda>f. f\<lparr>m_pInterfaceDesc := a\<rparr>)) (\<lambda>_.
     if a \<noteq> 0 then select_loop n this dev uchClass uchSubClass uchProtocol else return False))))))"

definition USBFunctionSelectInterfaceByClass :: "u64 \<Rightarrow> u8 \<Rightarrow> u8 \<Rightarrow> u8 \<Rightarrow> ('b usb_tree_scheme, bool) prog" where
  "USBFunctionSelectInterfaceByClass this uchClass uchSubClass uchProtocol =
     bind (get_func this m_pInterfaceDesc) (\<lambda>a.
     bind (UK_ASSERT (a \<noteq> 0)) (\<lambda>_.
     bind (get_func this fn_pConfigParser) (\<lambda>p.
     bind (UK_ASSERT (p \<noteq> 0)) (\<lambda>_.
     bind (USBFunctionGetDevice this) (\<lambda>dev.
     bind (gets (\<lambda>s. TUSBConfigurationParser.m_nBufLen (parsers s p))) (\<lambda>n.
     select_loop (n + 2) this dev uchClass uchSubClass uchProtocol))))))"

end
