(* ===== verification/UsbClasses.thy ===== *)
theory UsbClasses
  imports UsbFunction
begin

text \<open>
  The classes of functions and the factory that makes them by name:
  \<^verbatim>\<open>eth/lib/usbdevicefactory.c\<close> with the constructors of the hub
  (\<^verbatim>\<open>usbstandardhub.c\<close>) and of the two network chips (\<^verbatim>\<open>smsc951x.c\<close>,
  \<^verbatim>\<open>lan7800.c\<close>).
\<close>

section \<open>Constructors\<close>

definition USB_HUB_MAX_PORTS :: nat where "USB_HUB_MAX_PORTS = 8"
definition FRAME_BUFFER_SIZE :: u32 where "FRAME_BUFFER_SIZE = 1600"

definition upd_hub :: "u64 \<Rightarrow> (TUSBStandardHub \<Rightarrow> TUSBStandardHub) \<Rightarrow> ('b usb_tree_scheme, unit) prog" where
  "upd_hub p f = modify (\<lambda>s. s\<lparr>hubs := (hubs s)(p := f (hubs s p))\<rparr>)"

definition get_hub :: "u64 \<Rightarrow> (TUSBStandardHub \<Rightarrow> 'a) \<Rightarrow> ('b usb_tree_scheme, 'a) prog" where
  "get_hub p f = gets (\<lambda>s. f (hubs s p))"

definition upd_eth :: "u64 \<Rightarrow> (TEthDevice \<Rightarrow> TEthDevice) \<Rightarrow> ('b usb_tree_scheme, unit) prog" where
  "upd_eth p f = modify (\<lambda>s. s\<lparr>eths := (eths s)(p := f (eths s p))\<rparr>)"

definition get_eth :: "u64 \<Rightarrow> (TEthDevice \<Rightarrow> 'a) \<Rightarrow> ('b usb_tree_scheme, 'a) prog" where
  "get_eth p f = gets (\<lambda>s. f (eths s p))"

definition USBStandardHub :: "u64 \<Rightarrow> u64 \<Rightarrow> ('b usb_tree_scheme, unit) prog" where
  "USBStandardHub this pFunction =
     bind (USBFunctionCopy this pFunction) (\<lambda>_.
     bind (upd_func this (\<lambda>f. f\<lparr>Configure := Configure_hub\<rparr>)) (\<lambda>_.
     upd_hub this (\<lambda>h. h\<lparr>m_pHubDesc := 0, m_nPorts := 0, hub_pDevice := replicate USB_HUB_MAX_PORTS 0,
       m_pStatus := replicate USB_HUB_MAX_PORTS 0\<rparr>)))"

text \<open>The constructors of the two network chips differ in the operation they install only.\<close>

definition eth_device :: "configure \<Rightarrow> u64 \<Rightarrow> u64 \<Rightarrow> ('b usb_tree_scheme, unit) prog" where
  "eth_device op this pFunction =
     bind (USBFunctionCopy this pFunction) (\<lambda>_.
     bind (upd_func this (\<lambda>f. f\<lparr>Configure := op\<rparr>)) (\<lambda>_.
     bind (upd_eth this (\<lambda>d. d\<lparr>m_pEndpointBulkIn := 0, m_pEndpointBulkOut := 0, m_pTxBuffer := 0\<rparr>)) (\<lambda>_.
     bind malloc (\<lambda>p.
     bind (upd_eth this (\<lambda>d. d\<lparr>m_pTxBuffer := p\<rparr>)) (\<lambda>_. UK_ASSERT (p \<noteq> 0))))))"

definition SMSC951xDevice :: "u64 \<Rightarrow> u64 \<Rightarrow> ('b usb_tree_scheme, unit) prog" where
  "SMSC951xDevice = eth_device Configure_smsc951x"

definition LAN7800Device :: "u64 \<Rightarrow> u64 \<Rightarrow> ('b usb_tree_scheme, unit) prog" where
  "LAN7800Device = eth_device Configure_lan7800"

section \<open>The factory\<close>

definition name_is :: "u64 \<Rightarrow> string \<Rightarrow> ('b usb_tree_scheme, bool) prog" where
  "name_is name txt = bind (on_string name (StringCompare txt)) (\<lambda>c. return (c = 0))"

text \<open>The first entry of a chain of \<open>else if\<close> whose name matches.\<close>

fun first_match :: "u64 \<Rightarrow> (string \<times> ('b usb_tree_scheme, u64) prog) list \<Rightarrow> ('b usb_tree_scheme, u64) prog" where
  "first_match name [] = return 0"
| "first_match name ((txt, m) # rest) =
     bind (name_is name txt) (\<lambda>ok. if ok then m else first_match name rest)"

definition make_device :: "(u64 \<Rightarrow> ('b usb_tree_scheme, unit) prog) \<Rightarrow> ('b usb_tree_scheme, u64) prog" where
  "make_device construct = bind new_object (\<lambda>p. bind (construct p) (\<lambda>_. return p))"

text \<open>The classes that are commented out in the source stop the system.\<close>

definition not_implemented :: "('b usb_tree_scheme, u64) prog" where
  "not_implemented = halt Assert_failed"

definition factory_table :: "u64 \<Rightarrow> (string \<times> ('b usb_tree_scheme, u64) prog) list" where
  "factory_table pParent =
     [(''int9-0-2'', make_device (\<lambda>p. USBStandardHub p pParent)),
      (''int9-0-0'', make_device (\<lambda>p. USBStandardHub p pParent)),
      (''int8-6-50'', not_implemented),
      (''int3-1-1'', not_implemented),
      (''int3-1-2'', not_implemented),
      (''ven424-ec00'', make_device (\<lambda>p. SMSC951xDevice p pParent)),
      (''ven424-7800'', make_device (\<lambda>p. LAN7800Device p pParent)),
      (''int3-0-0'', not_implemented),
      (''int1-3-0'', not_implemented)]"

definition USBDeviceFactoryGetDevice :: "u64 \<Rightarrow> u64 \<Rightarrow> ('b usb_tree_scheme, u64) prog" where
  "USBDeviceFactoryGetDevice pParent name =
     bind (UK_ASSERT (pParent \<noteq> 0)) (\<lambda>_.
     bind (UK_ASSERT (name \<noteq> 0)) (\<lambda>_.
     bind (first_match name (factory_table pParent)) (\<lambda>pResult.
     bind (cond (pResult \<noteq> 0) (LogWrite LOG_NOTICE ''Using device/interface %s'')) (\<lambda>_.
     bind (on_string name String_destroy) (\<lambda>_.
     bind (free name) (\<lambda>_. return pResult))))))"

end
