(* ===== verification/UsbDevice.thy ===== *)
theory UsbDevice
  imports UsbClasses
begin

text \<open>
  The devices on the bus: \<^verbatim>\<open>eth/lib/usbdevice.c\<close>.  The call through the function pointer
  \<open>Configure\<close> is an argument of \<open>USBDeviceConfigure\<close>, since a hub configures the devices behind it
  by the same operation; the recursion is tied where the hub is defined.
\<close>

section \<open>Messages and names\<close>

definition MAX_CONFIG_DESC_SIZE :: u16 where "MAX_CONFIG_DESC_SIZE = 512"
definition USB_DEFAULT_ADDRESS :: u8 where "USB_DEFAULT_ADDRESS = 0"
definition USB_FIRST_DEDICATED_ADDRESS :: u8 where "USB_FIRST_DEDICATED_ADDRESS = 1"
definition USB_MAX_ADDRESS :: u8 where "USB_MAX_ADDRESS = 127"
definition USBDEV_MAX_FUNCTIONS :: nat where "USBDEV_MAX_FUNCTIONS = 10"
definition DESCRIPTOR_DEVICE :: u8 where "DESCRIPTOR_DEVICE = 1"
definition DESCRIPTOR_INDEX_DEFAULT :: u8 where "DESCRIPTOR_INDEX_DEFAULT = 0"
definition sizeof_TUSBDeviceDescriptor :: u8 where "sizeof_TUSBDeviceDescriptor = 18"

datatype TDeviceNameSelector = DeviceNameVendor | DeviceNameDevice | DeviceNameUnknown

text \<open>A string object that is a local variable.\<close>

definition local_string :: "(TString, 'a) prog \<Rightarrow> ('s, 'a) prog" where
  "local_string m = zoom (\<lambda>_. String0 \<lparr>m_pBuffer = None, m_nSize = 0, m_pInPtr = 0, live = 0\<rparr>) (\<lambda>_ s. s) m"

definition USBDeviceLogWrite :: "nat \<Rightarrow> u32 \<Rightarrow> string \<Rightarrow> va list \<Rightarrow> ('b usb_scheme, unit) prog" where
  "USBDeviceLogWrite d Severity pMessage Args =
     bind (get_dev d m_ucHubAddress) (\<lambda>hub.
     bind (get_dev d m_ucHubPortNumber) (\<lambda>port.
     bind (local_string (StringFormat ''%s%u-%u'' [VStr ''usbdev'', VInt (ucast hub), VInt (ucast port)])) (\<lambda>_.
     bind (local_string (bind (StringFormatV pMessage Args) (\<lambda>_. StringGet))) (\<lambda>txt.
     LogWrite Severity txt))))"

definition USBDeviceGetName :: "nat \<Rightarrow> TDeviceNameSelector \<Rightarrow> ('b usb_tree_scheme, u64) prog" where
  "USBDeviceGetName d Selector =
     bind new_object (\<lambda>p.
     bind (on_string p (modify String0)) (\<lambda>_.
     bind (get_dev d m_pDeviceDesc) (\<lambda>a.
     bind (case Selector of
         DeviceNameVendor \<Rightarrow>
           bind (UK_ASSERT (a \<noteq> 0)) (\<lambda>_.
           bind (load16 (a + 8)) (\<lambda>idVendor.
           bind (load16 (a + 10)) (\<lambda>idProduct.
           on_string p (StringFormat ''ven%x-%x'' [VInt (ucast idVendor), VInt (ucast idProduct)]))))
       | DeviceNameDevice \<Rightarrow>
           bind (UK_ASSERT (a \<noteq> 0)) (\<lambda>_.
           bind (load8 (a + 4)) (\<lambda>cls.
           if cls = 0 \<or> cls = 0xFF then bind (on_string p (StringSet ''unknown'')) (\<lambda>_. return ())
           else
             bind (load8 (a + 5)) (\<lambda>sub.
             bind (load8 (a + 6)) (\<lambda>prt.
             on_string p (StringFormat ''dev%x-%x-%x'' [VInt (ucast cls), VInt (ucast sub), VInt (ucast prt)])))))
       | DeviceNameUnknown \<Rightarrow> halt Assert_failed) (\<lambda>_.
     return p))))"

definition append_name :: "nat \<Rightarrow> u64 \<Rightarrow> TDeviceNameSelector \<Rightarrow> ('b usb_tree_scheme, unit) prog" where
  "append_name d pResult nSelector =
     bind (USBDeviceGetName d nSelector) (\<lambda>p.
     bind (UK_ASSERT (p \<noteq> 0)) (\<lambda>_.
     bind (name_is p ''unknown'') (\<lambda>unknown.
     bind (if unknown then return () else
           bind (on_string pResult StringGetLength) (\<lambda>n.
           bind (cond (n > 0) (on_string pResult (StringAppend '', ''))) (\<lambda>_.
           bind (on_string p StringGet) (\<lambda>txt.
           on_string pResult (StringAppend txt))))) (\<lambda>_.
     bind (on_string p String_destroy) (\<lambda>_. free p)))))"

definition USBDeviceGetNames :: "nat \<Rightarrow> ('b usb_tree_scheme, u64) prog" where
  "USBDeviceGetNames d =
     bind new_object (\<lambda>pResult.
     bind (on_string pResult (modify String0)) (\<lambda>_.
     bind (append_name d pResult DeviceNameVendor) (\<lambda>_.
     bind (append_name d pResult DeviceNameDevice) (\<lambda>_.
     bind (on_string pResult StringGetLength) (\<lambda>n.
     bind (if n = 0 then bind (on_string pResult (StringSet ''unknown'')) (\<lambda>_. return ()) else return ()) (\<lambda>_.
     return pResult))))))"

section \<open>Construction\<close>

definition USBDevice :: "nat \<Rightarrow> bool \<Rightarrow> TUSBSpeed \<Rightarrow> bool \<Rightarrow> u8 \<Rightarrow> u8 \<Rightarrow> ('b usb_tree_scheme, unit) prog" where
  "USBDevice d pHost Speed bSplitTransfer ucHubAddress ucHubPortNumber =
     bind (upd_dev d (\<lambda>v. v\<lparr>m_pHost := pHost, m_ucAddress := USB_DEFAULT_ADDRESS, TUSBDevice.m_Speed := Speed,
       m_pEndpoint0 := None, m_bSplitTransfer := bSplitTransfer, m_ucHubAddress := ucHubAddress,
       m_ucHubPortNumber := ucHubPortNumber, m_pDeviceDesc := 0, m_pConfigDesc := 0, m_pConfigParser := 0\<rparr>)) (\<lambda>_.
     bind (UK_ASSERT pHost) (\<lambda>_.
     bind new_object (\<lambda>ep.
     bind (upd_dev d (\<lambda>v. v\<lparr>m_pEndpoint0 := Some (unat ep)\<rparr>)) (\<lambda>_.
     bind (on_endpoint (unat ep) (USBEndpoint (Some d))) (\<lambda>_.
     bind (UK_ASSERT (ucHubPortNumber \<ge> 1)) (\<lambda>_.
     bind (USBString (Some d)) (\<lambda>str.
     bind (upd_dev d (\<lambda>v. v\<lparr>m_ManufacturerString := str\<rparr>)) (\<lambda>_.
     bind (USBString (Some d)) (\<lambda>str.
     bind (upd_dev d (\<lambda>v. v\<lparr>m_ProductString := str\<rparr>)) (\<lambda>_.
     upd_dev d (\<lambda>v. v\<lparr>m_pFunction := replicate USBDEV_MAX_FUNCTIONS 0\<rparr>)))))))))))"

definition get_function :: "nat \<Rightarrow> nat \<Rightarrow> ('b usb_tree_scheme, u64) prog" where
  "get_function d n = bind (get_dev d m_pFunction) (\<lambda>fs. array_get fs n)"

definition set_function :: "nat \<Rightarrow> nat \<Rightarrow> u64 \<Rightarrow> ('b usb_tree_scheme, unit) prog" where
  "set_function d n p =
     bind (get_dev d m_pFunction) (\<lambda>fs.
     bind (array_index fs n) (\<lambda>_. upd_dev d (\<lambda>v. v\<lparr>m_pFunction := (m_pFunction v)[n := p]\<rparr>)))"

text \<open>The base class destructor is called for every function, whatever its class is.\<close>

definition drop_function :: "nat \<Rightarrow> nat \<Rightarrow> ('b usb_tree_scheme, unit) prog" where
  "drop_function d n =
     bind (get_function d n) (\<lambda>p.
     bind (USBFunction_destroy p) (\<lambda>_.
     bind (free p) (\<lambda>_. set_function d n 0)))"

definition destroy_function :: "nat \<Rightarrow> nat \<Rightarrow> ('b usb_tree_scheme, unit) prog" where
  "destroy_function d n = bind (get_function d n) (\<lambda>p. cond (p \<noteq> 0) (drop_function d n))"

definition drop_config_desc :: "nat \<Rightarrow> ('b usb_tree_scheme, unit) prog" where
  "drop_config_desc d =
     bind (get_dev d m_pConfigDesc) (\<lambda>p. bind (free p) (\<lambda>_. upd_dev d (\<lambda>v. v\<lparr>m_pConfigDesc := 0\<rparr>)))"

definition drop_device_desc :: "nat \<Rightarrow> ('b usb_tree_scheme, unit) prog" where
  "drop_device_desc d =
     bind (get_dev d m_pDeviceDesc) (\<lambda>p. bind (free p) (\<lambda>_. upd_dev d (\<lambda>v. v\<lparr>m_pDeviceDesc := 0\<rparr>)))"

definition drop_parser :: "nat \<Rightarrow> ('b usb_tree_scheme, unit) prog" where
  "drop_parser d =
     bind (get_dev d m_pConfigParser) (\<lambda>p.
     bind (on_parser p USBConfigurationParser_destroy) (\<lambda>_.
     bind (free p) (\<lambda>_. upd_dev d (\<lambda>v. v\<lparr>m_pConfigParser := 0\<rparr>))))"

definition drop_endpoint0 :: "nat \<Rightarrow> ('b usb_tree_scheme, unit) prog" where
  "drop_endpoint0 d =
     bind (get_dev d m_pEndpoint0) (\<lambda>e. case e of
         None \<Rightarrow> return ()
       | Some ep \<Rightarrow>
           bind (on_endpoint ep USBEndpoint_destroy) (\<lambda>_.
           bind (free (of_nat ep)) (\<lambda>_. upd_dev d (\<lambda>v. v\<lparr>m_pEndpoint0 := None\<rparr>))))"

definition destroy_string ::
  "nat \<Rightarrow> (TUSBDevice \<Rightarrow> TUSBString) \<Rightarrow> (TUSBString \<Rightarrow> TUSBDevice \<Rightarrow> TUSBDevice) \<Rightarrow> ('b usb_tree_scheme, unit) prog" where
  "destroy_string d get_str set_str =
     bind (get_dev d get_str) (\<lambda>str. bind (USBString_destroy str) (\<lambda>str'. upd_dev d (set_str str')))"

definition USBDevice_destroy :: "nat \<Rightarrow> ('b usb_tree_scheme, unit) prog" where
  "USBDevice_destroy d =
     bind (for_each [0..<USBDEV_MAX_FUNCTIONS] (destroy_function d)) (\<lambda>_.
     bind (get_dev d m_pConfigParser) (\<lambda>p.
     bind (cond (p \<noteq> 0) (drop_parser d)) (\<lambda>_.
     bind (get_dev d m_pConfigDesc) (\<lambda>p.
     bind (cond (p \<noteq> 0) (drop_config_desc d)) (\<lambda>_.
     bind (get_dev d m_pDeviceDesc) (\<lambda>p.
     bind (cond (p \<noteq> 0) (drop_device_desc d)) (\<lambda>_.
     bind (drop_endpoint0 d) (\<lambda>_.
     bind (upd_dev d (\<lambda>v. v\<lparr>m_pHost := False\<rparr>)) (\<lambda>_.
     bind (destroy_string d m_ProductString (\<lambda>x v. v\<lparr>m_ProductString := x\<rparr>)) (\<lambda>_.
     destroy_string d m_ManufacturerString (\<lambda>x v. v\<lparr>m_ManufacturerString := x\<rparr>)))))))))))"

section \<open>Initialisation\<close>

text \<open>A failure: the message is logged and the given descriptor is dropped.\<close>

definition give_up :: "nat \<Rightarrow> string \<Rightarrow> ('b usb_tree_scheme, unit) prog \<Rightarrow> ('b usb_tree_scheme, bool) prog" where
  "give_up d msg cleanup = bind (USBDeviceLogWrite d LOG_ERROR msg []) (\<lambda>_. bind cleanup (\<lambda>_. return False))"

definition endpoint0_descriptor :: "nat \<Rightarrow> u8 \<Rightarrow> u64 \<Rightarrow> u32 \<Rightarrow> ('b usb_scheme, u32) prog" where
  "endpoint0_descriptor d ucType pBuffer n =
     bind (get_dev d m_pEndpoint0) (\<lambda>ep.
     DWHCIDeviceGetDescriptor ep ucType DESCRIPTOR_INDEX_DEFAULT pBuffer n REQUEST_IN)"

definition read_device_descriptor :: "nat \<Rightarrow> ('b usb_tree_scheme, bool) prog" where
  "read_device_descriptor d =
     bind (get_dev d m_pDeviceDesc) (\<lambda>p0.
     bind (UK_ASSERT (p0 = 0)) (\<lambda>_.
     bind malloc (\<lambda>p.
     bind (upd_dev d (\<lambda>v. v\<lparr>m_pDeviceDesc := p\<rparr>)) (\<lambda>_.
     bind (UK_ASSERT (p \<noteq> 0)) (\<lambda>_.
     bind (get_dev d m_pHost) (\<lambda>h.
     bind (UK_ASSERT h) (\<lambda>_.
     bind (get_dev d m_pEndpoint0) (\<lambda>e.
     bind (UK_ASSERT (e \<noteq> None)) (\<lambda>_.
     bind (endpoint0_descriptor d DESCRIPTOR_DEVICE p USB_DEFAULT_MAX_PACKET_SIZE) (\<lambda>r.
     if r \<noteq> USB_DEFAULT_MAX_PACKET_SIZE
     then give_up d ''Cannot get device descriptor (short)'' (drop_device_desc d) else
     bind (load8 p) (\<lambda>len.
     bind (load8 (p + 1)) (\<lambda>ty.
     if len \<noteq> sizeof_TUSBDeviceDescriptor \<or> ty \<noteq> DESCRIPTOR_DEVICE
     then give_up d ''Invalid device descriptor'' (drop_device_desc d) else
     bind (load8 (p + 7)) (\<lambda>bMaxPacketSize0.
     bind (the_or Assert_failed e) (\<lambda>ep.
     bind (on_endpoint ep (USBEndpointSetMaxPacketSize (ucast bMaxPacketSize0))) (\<lambda>_.
     bind (endpoint0_descriptor d DESCRIPTOR_DEVICE p (ucast sizeof_TUSBDeviceDescriptor)) (\<lambda>r.
     if r \<noteq> ucast sizeof_TUSBDeviceDescriptor
     then give_up d ''Cannot get device descriptor'' (drop_device_desc d) else return True))))))))))))))))"

definition USBDeviceSetAddress :: "nat \<Rightarrow> u8 \<Rightarrow> ('b usb_scheme, unit) prog" where
  "USBDeviceSetAddress d ucAddress =
     bind (UK_ASSERT (ucAddress \<le> USB_MAX_ADDRESS)) (\<lambda>_. upd_dev d (\<lambda>v. v\<lparr>m_ucAddress := ucAddress\<rparr>))"

definition assign_address :: "nat \<Rightarrow> ('b usb_tree_scheme, bool) prog" where
  "assign_address d =
     bind (gets s_ucNextAddress) (\<lambda>ucAddress.
     bind (modify (\<lambda>s. s\<lparr>s_ucNextAddress := ucAddress + 1\<rparr>)) (\<lambda>_.
     if ucAddress > USB_MAX_ADDRESS then give_up d ''Too many devices'' (return ()) else
     bind (get_dev d m_pEndpoint0) (\<lambda>ep.
     bind (DWHCIDeviceSetAddress ep ucAddress) (\<lambda>ok.
     if \<not> ok then
       bind (USBDeviceLogWrite d LOG_ERROR ''Cannot set address %u'' [VInt (ucast ucAddress)]) (\<lambda>_. return False)
     else bind (USBDeviceSetAddress d ucAddress) (\<lambda>_. return True)))))"

definition read_string ::
  "nat \<Rightarrow> (TUSBDevice \<Rightarrow> TUSBString) \<Rightarrow> (TUSBString \<Rightarrow> TUSBDevice \<Rightarrow> TUSBDevice) \<Rightarrow> u8 \<Rightarrow> u16 \<Rightarrow>
     ('b usb_tree_scheme, unit) prog" where
  "read_string d get_str set_str ucID usLanguageID =
     bind (get_dev d get_str) (\<lambda>str.
     bind (USBStringGetFromDescriptor str ucID usLanguageID) (\<lambda>(_, str'). upd_dev d (set_str str')))"

definition read_strings :: "nat \<Rightarrow> ('b usb_tree_scheme, unit) prog" where
  "read_strings d =
     bind (get_dev d m_pDeviceDesc) (\<lambda>a.
     bind (load8 (a + 14)) (\<lambda>iManufacturer.
     bind (load8 (a + 15)) (\<lambda>iProduct.
     cond (iManufacturer \<noteq> 0 \<or> iProduct \<noteq> 0)
       (bind (get_dev d m_ManufacturerString) (\<lambda>str.
        bind (USBStringGetLanguageID str) (\<lambda>usLanguageID.
        bind (load8 (a + 14)) (\<lambda>iManufacturer.
        bind (cond (iManufacturer \<noteq> 0)
          (read_string d m_ManufacturerString (\<lambda>x v. v\<lparr>m_ManufacturerString := x\<rparr>) iManufacturer usLanguageID)) (\<lambda>_.
        bind (load8 (a + 15)) (\<lambda>iProduct.
        cond (iProduct \<noteq> 0)
          (read_string d m_ProductString (\<lambda>x v. v\<lparr>m_ProductString := x\<rparr>) iProduct usLanguageID))))))))))"

text \<open>The configuration descriptor is read twice, for its total length and then as a whole.\<close>

definition read_config_header :: "nat \<Rightarrow> ('b usb_tree_scheme, bool) prog" where
  "read_config_header d =
     bind (get_dev d m_pConfigDesc) (\<lambda>p0.
     bind (UK_ASSERT (p0 = 0)) (\<lambda>_.
     bind malloc (\<lambda>p.
     bind (upd_dev d (\<lambda>v. v\<lparr>m_pConfigDesc := p\<rparr>)) (\<lambda>_.
     bind (UK_ASSERT (p \<noteq> 0)) (\<lambda>_.
     bind (endpoint0_descriptor d DESCRIPTOR_CONFIGURATION p (of_nat sizeof_TUSBConfigurationDescriptor)) (\<lambda>r.
     if r \<noteq> of_nat sizeof_TUSBConfigurationDescriptor
     then give_up d ''Cannot get configuration descriptor (short)'' (drop_config_desc d) else
     bind (load8 p) (\<lambda>len.
     bind (load8 (p + 1)) (\<lambda>ty.
     bind (load16 (p + 2)) (\<lambda>wTotalLength.
     if unat len \<noteq> sizeof_TUSBConfigurationDescriptor \<or> ty \<noteq> DESCRIPTOR_CONFIGURATION \<or>
        wTotalLength > MAX_CONFIG_DESC_SIZE
     then give_up d ''Invalid configuration descriptor'' (drop_config_desc d) else return True)))))))))"

definition read_config_descriptor :: "nat \<Rightarrow> ('b usb_tree_scheme, bool) prog" where
  "read_config_descriptor d =
     bind (read_config_header d) (\<lambda>ok.
     if \<not> ok then return False else
     bind (get_dev d m_pConfigDesc) (\<lambda>p.
     bind (load16 (p + 2)) (\<lambda>nTotalLength.
     bind (free p) (\<lambda>_.
     bind malloc (\<lambda>p.
     bind (upd_dev d (\<lambda>v. v\<lparr>m_pConfigDesc := p\<rparr>)) (\<lambda>_.
     bind (UK_ASSERT (p \<noteq> 0)) (\<lambda>_.
     bind (endpoint0_descriptor d DESCRIPTOR_CONFIGURATION p (ucast nTotalLength)) (\<lambda>r.
     if r \<noteq> ucast nTotalLength
     then give_up d ''Cannot get configuration descriptor'' (drop_config_desc d) else
     bind (get_dev d m_pConfigParser) (\<lambda>q0.
     bind (UK_ASSERT (q0 = 0)) (\<lambda>_.
     bind malloc (\<lambda>q.
     bind (upd_dev d (\<lambda>v. v\<lparr>m_pConfigParser := q\<rparr>)) (\<lambda>_.
     bind (UK_ASSERT (q \<noteq> 0)) (\<lambda>_.
     bind (modify (\<lambda>s. s\<lparr>parser_buffer := (parser_buffer s)(q := p)\<rparr>)) (\<lambda>_.
     bind (gets (\<lambda>s. load_bytes p (unat nTotalLength) (mem s))) (\<lambda>bs.
     bind (on_parser q (USBConfigurationParser (Some bs) (unat nTotalLength))) (\<lambda>_.
     bind (on_parser q USBConfigurationParserIsValid) (\<lambda>valid.
     if \<not> valid then bind (USBDeviceConfigurationError d) (\<lambda>_. return False) else return True)))))))))))))))))"

definition log_found :: "nat \<Rightarrow> ('b usb_tree_scheme, unit) prog" where
  "log_found d =
     bind (USBDeviceGetNames d) (\<lambda>pNames.
     bind (UK_ASSERT (pNames \<noteq> 0)) (\<lambda>_.
     bind (on_string pNames StringGet) (\<lambda>txt.
     bind (USBDeviceLogWrite d LOG_NOTICE ''Device %s found'' [VStr txt]) (\<lambda>_.
     bind (on_string pNames String_destroy) (\<lambda>_. free pNames)))))"

section \<open>Functions\<close>

definition vendor_child :: "nat \<Rightarrow> u64 \<Rightarrow> ('b usb_tree_scheme, u64) prog" where
  "vendor_child d f =
     bind (USBDeviceGetName d DeviceNameVendor) (\<lambda>name.
     bind (USBDeviceFactoryGetDevice f name) (\<lambda>pChild.
     if pChild \<noteq> 0 then return pChild
     else bind (USBDeviceGetName d DeviceNameDevice) (USBDeviceFactoryGetDevice f)))"

definition interface_child :: "nat \<Rightarrow> u64 \<Rightarrow> ('b usb_tree_scheme, u64) prog" where
  "interface_child d f =
     bind (USBFunctionGetInterfaceName f) (\<lambda>name.
     bind (UK_ASSERT (name \<noteq> 0)) (\<lambda>_.
     bind (name_is name ''unknown'') (\<lambda>unknown.
     if \<not> unknown then
       bind (on_string name StringGet) (\<lambda>txt.
       bind (USBDeviceLogWrite d LOG_NOTICE ''Interface %s found'' [VStr txt]) (\<lambda>_.
       USBDeviceFactoryGetDevice f name))
     else bind (on_string name String_destroy) (\<lambda>_. bind (free name) (\<lambda>_. return 0)))))"

text \<open>One interface: the object of its class, or 0.\<close>

definition make_child :: "nat \<Rightarrow> nat \<Rightarrow> ('b usb_tree_scheme, u64) prog" where
  "make_child d nFunction =
     bind (get_dev d m_pConfigParser) (\<lambda>q.
     bind (UK_ASSERT (q \<noteq> 0)) (\<lambda>_.
     bind (get_function d nFunction) (\<lambda>f0.
     bind (UK_ASSERT (f0 = 0)) (\<lambda>_.
     bind malloc (\<lambda>f.
     bind (set_function d nFunction f) (\<lambda>_.
     bind (UK_ASSERT (f \<noteq> 0)) (\<lambda>_.
     bind (USBFunction f (Some d) q) (\<lambda>_.
     bind (if nFunction = 0 then vendor_child d f else return 0) (\<lambda>pChild.
     bind (if pChild = 0 then interface_child d f else return pChild) (\<lambda>pChild.
     bind (drop_function d nFunction) (\<lambda>_. return pChild)))))))))))"

text \<open>
  The loop over the interfaces, with the number of functions so far and the number of the interface
  that is expected; as for \<open>select_loop\<close>, every turn advances the parser unless it stands still.
\<close>

fun function_loop :: "nat \<Rightarrow> nat \<Rightarrow> nat \<Rightarrow> u8 \<Rightarrow> ('b usb_tree_scheme, nat) prog" where
  "function_loop 0 d nFunction ucInterfaceNumber = halt Endless_loop"
| "function_loop (Suc n) d nFunction ucInterfaceNumber =
     bind (USBDeviceGetDescriptor d DESCRIPTOR_INTERFACE) (\<lambda>a.
     if a = 0 then return nFunction else
     bind (load8 (a + 2)) (\<lambda>bInterfaceNumber.
     bind (return (if bInterfaceNumber > ucInterfaceNumber then bInterfaceNumber else ucInterfaceNumber)) (\<lambda>ucInterfaceNumber.
     if bInterfaceNumber \<noteq> ucInterfaceNumber then
       bind (load8 (a + 3)) (\<lambda>bAlternateSetting.
       bind (USBDeviceLogWrite d LOG_DEBUG ''Alternate setting %u ignored'' [VInt (ucast bAlternateSetting)]) (\<lambda>_.
       function_loop n d nFunction ucInterfaceNumber))
     else
       bind (make_child d nFunction) (\<lambda>pChild.
       if pChild = 0 then
         bind (USBDeviceLogWrite d LOG_WARNING ''Function is not supported'' []) (\<lambda>_.
         function_loop n d nFunction ucInterfaceNumber)
       else
         bind (set_function d nFunction pChild) (\<lambda>_.
         if Suc nFunction = USBDEV_MAX_FUNCTIONS then
           bind (USBDeviceLogWrite d LOG_WARNING ''Too many functions per device'' []) (\<lambda>_. return (Suc nFunction))
         else function_loop n d (Suc nFunction) (ucInterfaceNumber + 1))))))"

definition find_functions :: "nat \<Rightarrow> ('b usb_tree_scheme, bool) prog" where
  "find_functions d =
     bind (get_dev d m_pConfigParser) (\<lambda>q.
     bind (gets (\<lambda>s. TUSBConfigurationParser.m_nBufLen (parsers s q))) (\<lambda>n.
     bind (function_loop (n + 2) d 0 0) (\<lambda>nFunction.
     if nFunction = 0 then
       bind (USBDeviceLogWrite d LOG_WARNING ''Device has no supported function'' []) (\<lambda>_. return False)
     else return True)))"

definition USBDeviceInitialize :: "nat \<Rightarrow> ('b usb_tree_scheme, bool) prog" where
  "USBDeviceInitialize d =
     all_ok
       [read_device_descriptor d,
        assign_address d,
        bind (read_strings d) (\<lambda>_. read_config_descriptor d),
        bind (log_found d) (\<lambda>_. find_functions d)]"

section \<open>Configuration\<close>

fun configure_functions ::
  "(u64 \<Rightarrow> ('b usb_tree_scheme, bool) prog) \<Rightarrow> nat \<Rightarrow> nat list \<Rightarrow> bool \<Rightarrow> ('b usb_tree_scheme, bool) prog" where
  "configure_functions call d [] bResult = return bResult"
| "configure_functions call d (nFunction # ns) bResult =
     bind (get_function d nFunction) (\<lambda>p.
     if p \<noteq> 0 then
       bind (call p) (\<lambda>ok.
       if \<not> ok then bind (drop_function d nFunction) (\<lambda>_. configure_functions call d ns bResult)
       else configure_functions call d ns True)
     else configure_functions call d ns bResult)"

definition USBDeviceConfigure ::
  "(u64 \<Rightarrow> ('b usb_tree_scheme, bool) prog) \<Rightarrow> nat \<Rightarrow> ('b usb_tree_scheme, bool) prog" where
  "USBDeviceConfigure call d =
     bind (get_dev d m_pHost) (\<lambda>h.
     bind (UK_ASSERT h) (\<lambda>_.
     bind (get_dev d m_pEndpoint0) (\<lambda>ep.
     bind (UK_ASSERT (ep \<noteq> None)) (\<lambda>_.
     bind (get_dev d m_pConfigDesc) (\<lambda>p.
     if p = 0 then return False else
     bind (load8 (p + 5)) (\<lambda>bConfigurationValue.
     bind (DWHCIDeviceSetConfiguration ep bConfigurationValue) (\<lambda>ok.
     if \<not> ok then
       bind (USBDeviceLogWrite d LOG_ERROR ''Cannot set configuration (%u)'' [VInt (ucast bConfigurationValue)])
         (\<lambda>_. return False)
     else configure_functions call d [0..<USBDEV_MAX_FUNCTIONS] False)))))))"

section \<open>Accessors\<close>

definition USBDeviceGetAddress :: "nat \<Rightarrow> ('b usb_scheme, u8) prog" where
  "USBDeviceGetAddress d = get_dev d m_ucAddress"

definition USBDeviceGetSpeed :: "nat \<Rightarrow> ('b usb_scheme, TUSBSpeed) prog" where
  "USBDeviceGetSpeed d = get_dev d TUSBDevice.m_Speed"

definition USBDeviceIsSplit :: "nat \<Rightarrow> ('b usb_scheme, bool) prog" where
  "USBDeviceIsSplit d = get_dev d m_bSplitTransfer"

definition USBDeviceGetHubAddress :: "nat \<Rightarrow> ('b usb_scheme, u8) prog" where
  "USBDeviceGetHubAddress d = get_dev d m_ucHubAddress"

definition USBDeviceGetHubPortNumber :: "nat \<Rightarrow> ('b usb_scheme, u8) prog" where
  "USBDeviceGetHubPortNumber d = get_dev d m_ucHubPortNumber"

definition USBDeviceGetDeviceDescriptor :: "nat \<Rightarrow> ('b usb_scheme, u64) prog" where
  "USBDeviceGetDeviceDescriptor d =
     bind (get_dev d m_pDeviceDesc) (\<lambda>p. bind (UK_ASSERT (p \<noteq> 0)) (\<lambda>_. return p))"

definition USBDeviceGetConfigurationDescriptor :: "nat \<Rightarrow> ('b usb_scheme, u64) prog" where
  "USBDeviceGetConfigurationDescriptor d =
     bind (get_dev d m_pConfigDesc) (\<lambda>p. bind (UK_ASSERT (p \<noteq> 0)) (\<lambda>_. return p))"

end
