(* ===== verification/LanChips.thy ===== *)
theory LanChips
  imports UsbDevice Mailbox
begin

text \<open>
  The drivers of the two network chips: \<^verbatim>\<open>eth/lib/lan7800.c\<close> and
  \<^verbatim>\<open>eth/lib/smsc951x.c\<close>.  A chip is reached by vendor requests over endpoint 0, which read
  and write its registers, and by the two bulk endpoints for frames.
\<close>

section \<open>Shared parts\<close>

definition WRITE_REGISTER :: u8 where "WRITE_REGISTER = 0xA0"
definition READ_REGISTER :: u8 where "READ_REGISTER = 0xA1"
definition REQUEST_VENDOR :: u8 where "REQUEST_VENDOR = 0x40"

definition on_mac :: "u64 \<Rightarrow> (TMACAddress, 'a) prog \<Rightarrow> ('b usb_tree_scheme, 'a) prog" where
  "on_mac this = zoom (\<lambda>s. m_MACAddress (eths s this))
     (\<lambda>m s. s\<lparr>eths := (eths s)(this := (eths s this)\<lparr>m_MACAddress := m\<rparr>)\<rparr>)"

definition on_names :: "(TDeviceNameService, 'a) prog \<Rightarrow> ('b usb_tree_scheme, 'a) prog" where
  "on_names = zoom names (\<lambda>n s. s\<lparr>names := n\<rparr>)"

definition the_mac_address :: "('b usb_tree_scheme, u8 list option) prog" where
  "the_mac_address =
     bind (gets nData_addr) (\<lambda>a. bind (gets tag_addr) (\<lambda>b. bind (gets tag_junk) (\<lambda>j. GetMACAddress a b j)))"

text \<open>The value to write is a local variable, whose address is handed to the controller.\<close>

definition write_register :: "u64 \<Rightarrow> u32 \<Rightarrow> u32 \<Rightarrow> ('b usb_tree_scheme, u32) prog" where
  "write_register this nIndex nValue =
     bind (gets nValue_addr) (\<lambda>a.
     bind (store32 a nValue) (\<lambda>_.
     function_control this REQUEST_VENDOR WRITE_REGISTER 0 (ucast nIndex) a 4))"

definition read_register :: "u64 \<Rightarrow> u32 \<Rightarrow> ('b usb_tree_scheme, u32 option) prog" where
  "read_register this nIndex =
     bind (gets nValue_addr) (\<lambda>a.
     bind (function_control this (REQUEST_IN OR REQUEST_VENDOR) READ_REGISTER 0 (ucast nIndex) a 4) (\<lambda>r.
     if r \<noteq> 4 then return None else bind (load32 a) (\<lambda>v. return (Some v))))"

text \<open>A new bulk endpoint from its descriptor.\<close>

definition new_endpoint :: "u64 \<Rightarrow> u64 \<Rightarrow> ('b usb_tree_scheme, u64) prog" where
  "new_endpoint this pEndpointDesc =
     bind new_object (\<lambda>p.
     bind (USBFunctionGetDevice this) (\<lambda>d.
     bind (get_dev d TUSBDevice.m_Speed) (\<lambda>speed.
     bind (load pEndpointDesc 7) (\<lambda>bs.
     bind (on_endpoint (unat p) (USBEndpoint2 (Some d) speed bs)) (\<lambda>_. return p)))))"

text \<open>The loop over the endpoint descriptors, which stops at a second endpoint of a direction.\<close>

fun endpoint_loop :: "nat \<Rightarrow> u64 \<Rightarrow> ('b usb_tree_scheme, bool) prog" where
  "endpoint_loop 0 this = halt Endless_loop"
| "endpoint_loop (Suc n) this =
     bind (USBFunctionGetDescriptor this DESCRIPTOR_ENDPOINT) (\<lambda>a.
     if a = 0 then return True else
     bind (load8 (a + 3)) (\<lambda>bmAttributes.
     if bmAttributes AND 0x3F \<noteq> 2 then endpoint_loop n this else
     bind (load8 (a + 2)) (\<lambda>bEndpointAddress.
     if bEndpointAddress AND 0x80 = 0x80 then
       bind (get_eth this m_pEndpointBulkIn) (\<lambda>p0.
       if p0 \<noteq> 0 then return False else
       bind (new_endpoint this a) (\<lambda>p.
       bind (upd_eth this (\<lambda>d. d\<lparr>m_pEndpointBulkIn := p\<rparr>)) (\<lambda>_. endpoint_loop n this)))
     else
       bind (get_eth this m_pEndpointBulkOut) (\<lambda>p0.
       if p0 \<noteq> 0 then return False else
       bind (new_endpoint this a) (\<lambda>p.
       bind (upd_eth this (\<lambda>d. d\<lparr>m_pEndpointBulkOut := p\<rparr>)) (\<lambda>_. endpoint_loop n this))))))"

definition find_endpoints :: "u64 \<Rightarrow> ('b usb_tree_scheme, bool) prog" where
  "find_endpoints this =
     bind (get_func this fn_pConfigParser) (\<lambda>q.
     bind (gets (\<lambda>s. TUSBConfigurationParser.m_nBufLen (parsers s q))) (\<lambda>n.
     bind (endpoint_loop (n + 2) this) (\<lambda>ok.
     bind (get_eth this m_pEndpointBulkIn) (\<lambda>pIn.
     bind (get_eth this m_pEndpointBulkOut) (\<lambda>pOut.
     if \<not> ok \<or> pIn = 0 \<or> pOut = 0 then bind (USBFunctionConfigurationError this) (\<lambda>_. return False)
     else return True)))))"

definition three_endpoints :: "u64 \<Rightarrow> ('b usb_tree_scheme, bool) prog" where
  "three_endpoints this =
     bind (USBFunctionGetNumEndpoints this) (\<lambda>n.
     if n \<noteq> 3 then bind (USBFunctionConfigurationError this) (\<lambda>_. return False) else return True)"

definition set_interface :: "u64 \<Rightarrow> ('b usb_tree_scheme, bool) prog" where
  "set_interface this =
     bind (USBFunctionConfigure this) (\<lambda>ok.
     if \<not> ok then bind (LogWrite LOG_ERROR ''Cannot set interface'') (\<lambda>_. return False) else return True)"

definition add_eth :: "u64 \<Rightarrow> u32 \<Rightarrow> ('b usb_tree_scheme, bool) prog" where
  "add_eth this n =
     bind (local_string (bind (StringFormat ''eth%u'' [VInt n]) (\<lambda>_. StringGet))) (\<lambda>name.
     bind (on_names DeviceNameServiceGet) (\<lambda>_.
     bind (on_names (DeviceNameServiceAddDevice name this False)) (\<lambda>_. return True)))"

definition log_error :: "string \<Rightarrow> ('b hw_scheme, bool) prog \<Rightarrow> ('b hw_scheme, bool) prog" where
  "log_error msg m = bind m (\<lambda>ok. if \<not> ok then bind (LogWrite LOG_ERROR msg) (\<lambda>_. return False) else return True)"

definition eth_endpoint_destroy ::
  "u64 \<Rightarrow> (TEthDevice \<Rightarrow> u64) \<Rightarrow> (TEthDevice \<Rightarrow> TEthDevice) \<Rightarrow> ('b usb_tree_scheme, unit) prog" where
  "eth_endpoint_destroy this get_ep clear =
     bind (get_eth this get_ep) (\<lambda>p.
     cond (p \<noteq> 0)
       (bind (on_endpoint (unat p) USBEndpoint_destroy) (\<lambda>_. bind (free p) (\<lambda>_. upd_eth this clear))))"

definition eth_destroy :: "u64 \<Rightarrow> ('b usb_tree_scheme, unit) prog" where
  "eth_destroy this =
     bind (get_eth this m_pTxBuffer) (\<lambda>p.
     bind (cond (p \<noteq> 0) (bind (free p) (\<lambda>_. upd_eth this (\<lambda>d. d\<lparr>m_pTxBuffer := 0\<rparr>)))) (\<lambda>_.
     bind (eth_endpoint_destroy this m_pEndpointBulkOut (\<lambda>d. d\<lparr>m_pEndpointBulkOut := 0\<rparr>)) (\<lambda>_.
     bind (eth_endpoint_destroy this m_pEndpointBulkIn (\<lambda>d. d\<lparr>m_pEndpointBulkIn := 0\<rparr>)) (\<lambda>_.
     USBFunction_destroy this))))"

text \<open>
  A received frame: the request for the bulk-in endpoint, the checks of the length and of the status
  word in front of the frame, and the copy of the frame to the start of the buffer.  The copy is
  between overlapping parts of one buffer; it is taken to work as \<open>memmove\<close> does.
\<close>

definition receive_request :: "u64 \<Rightarrow> u64 \<Rightarrow> ('b usb_tree_scheme, u32 option) prog" where
  "receive_request this pBuffer =
     bind (get_eth this m_pEndpointBulkIn) (\<lambda>ep.
     bind (UK_ASSERT (ep \<noteq> 0)) (\<lambda>_.
     bind (UK_ASSERT (pBuffer \<noteq> 0)) (\<lambda>_.
     bind (on_urb 0 (USBRequest (Some (unat ep)) pBuffer FRAME_BUFFER_SIZE 0)) (\<lambda>_.
     bind (USBFunctionGetHost this) (\<lambda>_.
     bind (DWHCIDeviceSubmitBlockingRequest 0) (\<lambda>ok.
     if \<not> ok then return None else bind (on_urb 0 USBRequestGetResultLength) (\<lambda>n. return (Some n))))))))"

definition receive_frame ::
  "u64 \<Rightarrow> u64 \<Rightarrow> u32 \<Rightarrow> (u32 \<Rightarrow> bool) \<Rightarrow> (u32 \<Rightarrow> u32) \<Rightarrow> ('b usb_tree_scheme, u32 option) prog" where
  "receive_frame this pBuffer header rx_error frame_length =
     bind (receive_request this pBuffer) (\<lambda>res.
     bind (case res of None \<Rightarrow> return None | Some nResultLength \<Rightarrow>
       if nResultLength < header then return None else
       bind (load32 pBuffer) (\<lambda>nRxStatus.
       if rx_error nRxStatus then
         bind (LogWrite LOG_WARNING ''RX error (status 0x%X)'') (\<lambda>_. return None)
       else
         bind (return (frame_length nRxStatus)) (\<lambda>nFrameLength.
         bind (UK_ASSERT (nFrameLength = nResultLength - header)) (\<lambda>_.
         bind (UK_ASSERT (nFrameLength > 4)) (\<lambda>_.
         bind (load (pBuffer + ucast header) (unat (nFrameLength - 4))) (\<lambda>bs.
         bind (store pBuffer bs) (\<lambda>_. return (Some (nFrameLength - 4)))))))))  (\<lambda>r.
     bind (on_urb 0 USBRequest_destroy) (\<lambda>_. return r)))"

definition send_frame :: "u64 \<Rightarrow> u64 \<Rightarrow> u32 \<Rightarrow> u32 \<Rightarrow> u32 \<Rightarrow> ('b usb_tree_scheme, bool) prog" where
  "send_frame this pBuffer nLength cmd_a cmd_b =
     bind (get_eth this m_pTxBuffer) (\<lambda>tx.
     bind (UK_ASSERT (tx \<noteq> 0)) (\<lambda>_.
     bind (UK_ASSERT (pBuffer \<noteq> 0)) (\<lambda>_.
     bind (load pBuffer (unat nLength)) (\<lambda>bs.
     bind (store (tx + 8) bs) (\<lambda>_.
     bind (store32 tx cmd_a) (\<lambda>_.
     bind (store32 (tx + 4) cmd_b) (\<lambda>_.
     bind (get_eth this m_pEndpointBulkOut) (\<lambda>ep.
     bind (UK_ASSERT (ep \<noteq> 0)) (\<lambda>_.
     bind (USBFunctionGetHost this) (\<lambda>_.
     bind (DWHCIDeviceTransfer (Some (unat ep)) tx (nLength + 8)) (\<lambda>r. return (\<not> r <s 0))))))))))))"

end
