(* ===== verification/Lan7800.thy ===== *)
theory Lan7800
  imports LanChips
begin

text \<open>The driver of the LAN7800: \<^verbatim>\<open>eth/lib/lan7800.c\<close>.\<close>

section \<open>Registers\<close>

definition ID_REV :: u32 where "ID_REV = 0"
definition ID_REV_CHIP_ID_MASK :: u32 where "ID_REV_CHIP_ID_MASK = 0xffff0000"
definition ID_REV_CHIP_ID_7800 :: u32 where "ID_REV_CHIP_ID_7800 = 0x7800"
definition INT_STS :: u32 where "INT_STS = 0xc"
definition INT_STS_CLEAR_ALL :: u32 where "INT_STS_CLEAR_ALL = 0xffffffff"
definition HW_CFG :: u32 where "HW_CFG = 0x10"
definition HW_CFG_LED1_EN :: u32 where "HW_CFG_LED1_EN = 0x200000"
definition HW_CFG_LED0_EN :: u32 where "HW_CFG_LED0_EN = 0x100000"
definition HW_CFG_MEF :: u32 where "HW_CFG_MEF = 0x10"
definition HW_CFG_LRST :: u32 where "HW_CFG_LRST = 2"
definition PMT_CTL :: u32 where "PMT_CTL = 0x14"
definition PMT_CTL_READY :: u32 where "PMT_CTL_READY = 0x80"
definition PMT_CTL_PHY_RST :: u32 where "PMT_CTL_PHY_RST = 0x10"
definition USB_CFG0 :: u32 where "USB_CFG0 = 0x80"
definition USB_CFG_BIR :: u32 where "USB_CFG_BIR = 0x40"
definition USB_CFG_BCE :: u32 where "USB_CFG_BCE = 0x20"
definition BURST_CAP :: u32 where "BURST_CAP = 0x90"
definition BULK_IN_DLY :: u32 where "BULK_IN_DLY = 0x94"
definition INT_EP_CTL :: u32 where "INT_EP_CTL = 0x98"
definition RFE_CTL :: u32 where "RFE_CTL = 0xb0"
definition RFE_CTL_BCAST_EN :: u32 where "RFE_CTL_BCAST_EN = 0x400"
definition RFE_CTL_DA_PERFECT :: u32 where "RFE_CTL_DA_PERFECT = 2"
definition FCT_RX_CTL :: u32 where "FCT_RX_CTL = 0xc0"
definition FCT_RX_CTL_EN :: u32 where "FCT_RX_CTL_EN = 0x80000000"
definition FCT_TX_CTL :: u32 where "FCT_TX_CTL = 0xc4"
definition FCT_TX_CTL_EN :: u32 where "FCT_TX_CTL_EN = 0x80000000"
definition FCT_RX_FIFO_END :: u32 where "FCT_RX_FIFO_END = 0xc8"
definition FCT_TX_FIFO_END :: u32 where "FCT_TX_FIFO_END = 0xcc"
definition FCT_FLOW :: u32 where "FCT_FLOW = 0xd0"
definition MAC_CR :: u32 where "MAC_CR = 0x100"
definition MAC_CR_AUTO_DUPLEX :: u32 where "MAC_CR_AUTO_DUPLEX = 0x1000"
definition MAC_CR_AUTO_SPEED :: u32 where "MAC_CR_AUTO_SPEED = 0x800"
definition MAC_RX :: u32 where "MAC_RX = 0x104"
definition MAC_RX_MAX_SIZE_MASK :: u32 where "MAC_RX_MAX_SIZE_MASK = 0x3fff0000"
definition MAC_RX_VLAN_FSE :: u32 where "MAC_RX_VLAN_FSE = 4"
definition MAC_RX_RXEN :: u32 where "MAC_RX_RXEN = 1"
definition MAC_TX :: u32 where "MAC_TX = 0x108"
definition MAC_TX_TXEN :: u32 where "MAC_TX_TXEN = 1"
definition FLOW :: u32 where "FLOW = 0x10c"
definition RX_ADDRH :: u32 where "RX_ADDRH = 0x118"
definition RX_ADDRL :: u32 where "RX_ADDRL = 0x11c"
definition MII_ACC :: u32 where "MII_ACC = 0x120"
definition MII_ACC_PHY_ADDR_MASK :: u32 where "MII_ACC_PHY_ADDR_MASK = 0xf800"
definition MII_ACC_MIIRINDA_MASK :: u32 where "MII_ACC_MIIRINDA_MASK = 0x7c0"
definition MII_ACC_MII_READ :: u32 where "MII_ACC_MII_READ = 0"
definition MII_ACC_MII_WRITE :: u32 where "MII_ACC_MII_WRITE = 2"
definition MII_ACC_MII_BUSY :: u32 where "MII_ACC_MII_BUSY = 1"
definition MII_DATA :: u32 where "MII_DATA = 0x124"
definition MII_DATA_MASK :: u32 where "MII_DATA_MASK = 0xffff"
definition MAF_HI_VALID :: u32 where "MAF_HI_VALID = 0x80000000"
definition TX_CMD_A_FCS :: u32 where "TX_CMD_A_FCS = 0x400000"
definition TX_CMD_A_LEN_MASK :: u32 where "TX_CMD_A_LEN_MASK = 0xfffff"
definition RX_CMD_A_RED :: u32 where "RX_CMD_A_RED = 0x400000"
definition RX_CMD_A_LEN_MASK :: u32 where "RX_CMD_A_LEN_MASK = 0x3fff"
definition MAX_RX_FIFO_SIZE :: u32 where "MAX_RX_FIFO_SIZE = 12 * 1024"
definition MAX_TX_FIFO_SIZE :: u32 where "MAX_TX_FIFO_SIZE = 12 * 1024"
definition HS_USB_PKT_SIZE :: u32 where "HS_USB_PKT_SIZE = 512"
definition DEFAULT_BURST_CAP_SIZE :: u32 where "DEFAULT_BURST_CAP_SIZE = MAX_TX_FIFO_SIZE"
definition DEFAULT_BULK_IN_DELAY :: u32 where "DEFAULT_BULK_IN_DELAY = 0x800"
definition RX_HEADER_SIZE :: u32 where "RX_HEADER_SIZE = 4 + 4 + 2"
definition TX_HEADER_SIZE :: u32 where "TX_HEADER_SIZE = 4 + 4"
definition MAX_RX_FRAME_SIZE :: u32 where "MAX_RX_FRAME_SIZE = 2 * 6 + 2 + 1500 + 4"
definition MAF_HI :: "u32 \<Rightarrow> u32" where "MAF_HI index = 0x400 + 8 * index"
definition MAF_LO :: "u32 \<Rightarrow> u32" where "MAF_LO index = 0x400 + 8 * index + 4"

section \<open>Access to the registers\<close>

definition LAN7800DeviceReadReg :: "u64 \<Rightarrow> u32 \<Rightarrow> ('b usb_tree_scheme, u32 option) prog" where
  "LAN7800DeviceReadReg this nIndex =
     bind (read_register this nIndex) (\<lambda>r. case r of
         None \<Rightarrow> bind (LogWrite LOG_WARNING ''Cannot read register 0x%X'') (\<lambda>_. return None)
       | Some v \<Rightarrow> return (Some v))"

definition LAN7800DeviceWriteReg :: "u64 \<Rightarrow> u32 \<Rightarrow> u32 \<Rightarrow> ('b usb_tree_scheme, bool) prog" where
  "LAN7800DeviceWriteReg this nIndex nValue =
     bind (write_register this nIndex nValue) (\<lambda>r.
     if r <s 0 then bind (LogWrite LOG_WARNING ''Cannot write register 0x%X'') (\<lambda>_. return False)
     else return True)"

definition LAN7800DeviceReadWriteReg :: "u64 \<Rightarrow> u32 \<Rightarrow> u32 \<Rightarrow> u32 \<Rightarrow> ('b usb_tree_scheme, bool) prog" where
  "LAN7800DeviceReadWriteReg this nIndex nOrMask nAndMask =
     bind (LAN7800DeviceReadReg this nIndex) (\<lambda>r. case r of
         None \<Rightarrow> return False
       | Some nValue \<Rightarrow> LAN7800DeviceWriteReg this nIndex (nValue AND nAndMask OR nOrMask))"

text \<open>The loop of \<open>WaitReg\<close> with the tries that are left after the one that is begun.\<close>

primrec wait_reg :: "nat \<Rightarrow> u64 \<Rightarrow> u32 \<Rightarrow> u32 \<Rightarrow> u32 \<Rightarrow> ('b usb_tree_scheme, bool) prog" where
  "wait_reg 0 this nIndex nMask nCompare = bind (MsDelay 1) (\<lambda>_. return False)"
| "wait_reg (Suc nTries) this nIndex nMask nCompare =
     bind (MsDelay 1) (\<lambda>_.
     bind (LAN7800DeviceReadReg this nIndex) (\<lambda>r. case r of
         None \<Rightarrow> return False
       | Some nValue \<Rightarrow>
           if nValue AND nMask \<noteq> nCompare then wait_reg nTries this nIndex nMask nCompare else return True))"

definition LAN7800DeviceWaitReg :: "u64 \<Rightarrow> u32 \<Rightarrow> u32 \<Rightarrow> u32 \<Rightarrow> ('b usb_tree_scheme, bool) prog" where
  "LAN7800DeviceWaitReg this nIndex nMask nCompare = wait_reg 999 this nIndex nMask nCompare"

text \<open>The command word of an access to the PHY, which has address 1.\<close>

definition mii_access :: "u8 \<Rightarrow> u32 \<Rightarrow> u32" where
  "mii_access uchIndex direction =
     (push_bit 11 1 AND MII_ACC_PHY_ADDR_MASK) OR
     (push_bit 6 (ucast uchIndex) AND MII_ACC_MIIRINDA_MASK) OR direction OR MII_ACC_MII_BUSY"

definition LAN7800DevicePHYWrite :: "u64 \<Rightarrow> u8 \<Rightarrow> u16 \<Rightarrow> ('b usb_tree_scheme, bool) prog" where
  "LAN7800DevicePHYWrite this uchIndex usValue =
     bind (UK_ASSERT (uchIndex \<le> 30)) (\<lambda>_.
     all_ok
       [LAN7800DeviceWaitReg this MII_ACC MII_ACC_MII_BUSY 0,
        LAN7800DeviceWriteReg this MII_DATA (ucast usValue),
        LAN7800DeviceWriteReg this MII_ACC (mii_access uchIndex MII_ACC_MII_WRITE),
        LAN7800DeviceWaitReg this MII_ACC MII_ACC_MII_BUSY 0])"

definition LAN7800DevicePHYRead :: "u64 \<Rightarrow> u8 \<Rightarrow> ('b usb_tree_scheme, u16 option) prog" where
  "LAN7800DevicePHYRead this uchIndex =
     bind (UK_ASSERT (uchIndex \<le> 30)) (\<lambda>_.
     bind (all_ok
       [LAN7800DeviceWaitReg this MII_ACC MII_ACC_MII_BUSY 0,
        LAN7800DeviceWriteReg this MII_ACC (mii_access uchIndex MII_ACC_MII_READ),
        LAN7800DeviceWaitReg this MII_ACC MII_ACC_MII_BUSY 0]) (\<lambda>ok.
     if \<not> ok then return None else
     bind (LAN7800DeviceReadReg this MII_DATA) (\<lambda>r. return (map_option (\<lambda>v. ucast (v AND MII_DATA_MASK)) r))))"

definition LAN7800DeviceIsLinkUp :: "u64 \<Rightarrow> ('b usb_tree_scheme, bool) prog" where
  "LAN7800DeviceIsLinkUp this =
     bind (LAN7800DevicePHYRead this 1) (\<lambda>r. case r of
         None \<Rightarrow> return False
       | Some usPHYModeStatus \<Rightarrow> return (usPHYModeStatus AND push_bit 2 1 \<noteq> 0))"

section \<open>Construction and configuration\<close>

definition LAN7800Device_destroy :: "u64 \<Rightarrow> ('b usb_tree_scheme, unit) prog" where
  "LAN7800Device_destroy = eth_destroy"

definition mac_low :: "u8 list \<Rightarrow> u32" where
  "mac_low a = ucast (a ! 0) OR push_bit 8 (ucast (a ! 1)) OR push_bit 16 (ucast (a ! 2)) OR push_bit 24 (ucast (a ! 3))"

definition mac_high :: "u8 list \<Rightarrow> u32" where
  "mac_high a = ucast (a ! 4) OR push_bit 8 (ucast (a ! 5))"

definition LAN7800DeviceInitMACAddress :: "u64 \<Rightarrow> ('b usb_tree_scheme, bool) prog" where
  "LAN7800DeviceInitMACAddress this =
     bind the_mac_address (\<lambda>m. case m of
         None \<Rightarrow> return False
       | Some addr \<Rightarrow>
           bind (on_mac this (MACAddressSet addr)) (\<lambda>_.
           bind (all_ok
             [LAN7800DeviceWriteReg this RX_ADDRL (mac_low addr),
              LAN7800DeviceWriteReg this RX_ADDRH (mac_high addr),
              LAN7800DeviceWriteReg this (MAF_LO 0) (mac_low addr),
              LAN7800DeviceWriteReg this (MAF_HI 0) (mac_high addr OR MAF_HI_VALID)]) (\<lambda>ok.
           if \<not> ok then return False else
           bind (get_eth this m_MACAddress) (\<lambda>mac.
           bind (local_string (MACAddressFormat mac)) (\<lambda>_.
           bind (LogWrite LOG_DEBUG ''MAC address is %s'') (\<lambda>_. return True))))))"

definition LAN7800DeviceInitPHY :: "u64 \<Rightarrow> ('b usb_tree_scheme, bool) prog" where
  "LAN7800DeviceInitPHY this =
     bind (LAN7800DevicePHYRead this 0x1D) (\<lambda>r. case r of
         None \<Rightarrow> return False
       | Some usLEDModeSel \<Rightarrow>
           LAN7800DevicePHYWrite this 0x1D (usLEDModeSel AND NOT 0xFF OR push_bit 0 1 OR push_bit 4 6))"

definition check_chip_id :: "u64 \<Rightarrow> ('b usb_tree_scheme, bool) prog" where
  "check_chip_id this =
     bind (LAN7800DeviceReadReg this ID_REV) (\<lambda>r.
     return (case r of None \<Rightarrow> False | Some nValue \<Rightarrow> drop_bit 16 (nValue AND ID_REV_CHIP_ID_MASK) = ID_REV_CHIP_ID_7800))"

text \<open>The start of the hardware, in the order of the source; the first step that fails ends it.\<close>

definition start_hardware :: "u64 \<Rightarrow> ('b usb_tree_scheme, bool) prog" where
  "start_hardware this = all_ok
     [log_error ''Invalid chip ID (0x%X)'' (check_chip_id this),
      log_error ''HW reset failed'' (all_ok
        [LAN7800DeviceReadWriteReg this HW_CFG HW_CFG_LRST (NOT 0),
         LAN7800DeviceWaitReg this HW_CFG HW_CFG_LRST 0]),
      log_error ''Cannot init MAC address'' (LAN7800DeviceInitMACAddress this),
      LAN7800DeviceWriteReg this BURST_CAP (DEFAULT_BURST_CAP_SIZE div HS_USB_PKT_SIZE),
      LAN7800DeviceWriteReg this BULK_IN_DLY DEFAULT_BULK_IN_DELAY,
      LAN7800DeviceReadWriteReg this HW_CFG (HW_CFG_LED0_EN OR HW_CFG_LED1_EN) (NOT HW_CFG_MEF),
      LAN7800DeviceReadWriteReg this USB_CFG0 USB_CFG_BCE (NOT USB_CFG_BIR),
      LAN7800DeviceWriteReg this FCT_RX_FIFO_END ((MAX_RX_FIFO_SIZE - 512) div 512),
      LAN7800DeviceWriteReg this FCT_TX_FIFO_END ((MAX_TX_FIFO_SIZE - 512) div 512),
      LAN7800DeviceWriteReg this INT_EP_CTL 0,
      LAN7800DeviceWriteReg this INT_STS INT_STS_CLEAR_ALL,
      LAN7800DeviceWriteReg this FLOW 0,
      LAN7800DeviceWriteReg this FCT_FLOW 0,
      LAN7800DeviceReadWriteReg this RFE_CTL (RFE_CTL_BCAST_EN OR RFE_CTL_DA_PERFECT) (NOT 0),
      log_error ''PHY reset failed'' (all_ok
        [LAN7800DeviceReadWriteReg this PMT_CTL PMT_CTL_PHY_RST (NOT 0),
         LAN7800DeviceWaitReg this PMT_CTL (PMT_CTL_PHY_RST OR PMT_CTL_READY) PMT_CTL_READY]),
      LAN7800DeviceReadWriteReg this MAC_CR (MAC_CR_AUTO_DUPLEX OR MAC_CR_AUTO_SPEED) (NOT 0),
      LAN7800DeviceReadWriteReg this MAC_TX MAC_TX_TXEN (NOT 0),
      LAN7800DeviceReadWriteReg this FCT_TX_CTL FCT_TX_CTL_EN (NOT 0),
      LAN7800DeviceReadWriteReg this MAC_RX
        (push_bit 16 MAX_RX_FRAME_SIZE OR MAC_RX_RXEN OR MAC_RX_VLAN_FSE) (NOT MAC_RX_MAX_SIZE_MASK),
      LAN7800DeviceReadWriteReg this FCT_RX_CTL FCT_RX_CTL_EN (NOT 0),
      log_error ''Cannot init PHY'' (LAN7800DeviceInitPHY this)]"

definition LAN7800DeviceConfigure :: "u64 \<Rightarrow> ('b usb_tree_scheme, bool) prog" where
  "LAN7800DeviceConfigure this = all_ok
     [three_endpoints this,
      find_endpoints this,
      set_interface this,
      start_hardware this,
      bind (gets s_nLAN7800Number) (\<lambda>n.
      bind (modify (\<lambda>s. s\<lparr>s_nLAN7800Number := n + 1\<rparr>)) (\<lambda>_. add_eth this n))]"

section \<open>Frames\<close>

definition LAN7800DeviceGetMACAddress :: "u64 \<Rightarrow> ('b usb_tree_scheme, TMACAddress) prog" where
  "LAN7800DeviceGetMACAddress this = get_eth this m_MACAddress"

definition LAN7800DeviceSendFrame :: "u64 \<Rightarrow> u64 \<Rightarrow> u32 \<Rightarrow> ('b usb_tree_scheme, bool) prog" where
  "LAN7800DeviceSendFrame this pBuffer nLength =
     (if nLength > FRAME_BUFFER_SIZE - TX_HEADER_SIZE then return False
      else send_frame this pBuffer nLength (nLength AND TX_CMD_A_LEN_MASK OR TX_CMD_A_FCS) 0)"

definition LAN7800DeviceReceiveFrame :: "u64 \<Rightarrow> u64 \<Rightarrow> ('b usb_tree_scheme, u32 option) prog" where
  "LAN7800DeviceReceiveFrame this pBuffer =
     receive_frame this pBuffer RX_HEADER_SIZE (\<lambda>st. st AND RX_CMD_A_RED \<noteq> 0) (\<lambda>st. st AND RX_CMD_A_LEN_MASK)"

end
