(* ===== verification/Smsc951x.thy ===== *)
theory Smsc951x
  imports LanChips
begin

text \<open>The driver of the SMSC951x: \<^verbatim>\<open>eth/lib/smsc951x.c\<close>.\<close>

section \<open>Registers\<close>

definition LED_GPIO_CFG :: u32 where "LED_GPIO_CFG = 0x24"
definition LED_GPIO_CFG_SPD_LED :: u32 where "LED_GPIO_CFG_SPD_LED = 0x1000000"
definition LED_GPIO_CFG_LNK_LED :: u32 where "LED_GPIO_CFG_LNK_LED = 0x100000"
definition LED_GPIO_CFG_FDX_LED :: u32 where "LED_GPIO_CFG_FDX_LED = 0x10000"
definition TX_CFG :: u32 where "TX_CFG = 0x10"
definition TX_CFG_ON :: u32 where "TX_CFG_ON = 4"
definition SMSC_MAC_CR :: u32 where "SMSC_MAC_CR = 0x100"
definition MAC_CR_RCVOWN :: u32 where "MAC_CR_RCVOWN = 0x800000"
definition MAC_CR_TXEN :: u32 where "MAC_CR_TXEN = 8"
definition MAC_CR_RXEN :: u32 where "MAC_CR_RXEN = 4"
definition ADDRH :: u32 where "ADDRH = 0x104"
definition ADDRL :: u32 where "ADDRL = 0x108"
definition MII_ADDR :: u32 where "MII_ADDR = 0x114"
definition MII_BUSY :: u32 where "MII_BUSY = 1"
definition MII_WRITE :: u32 where "MII_WRITE = 2"
definition PHY_ID_INTERNAL :: u32 where "PHY_ID_INTERNAL = 1"
definition SMSC_MII_DATA :: u32 where "SMSC_MII_DATA = 0x118"
definition TX_CMD_A_FIRST_SEG :: u32 where "TX_CMD_A_FIRST_SEG = 0x2000"
definition TX_CMD_A_LAST_SEG :: u32 where "TX_CMD_A_LAST_SEG = 0x1000"
definition RX_STS_FL :: u32 where "RX_STS_FL = 0x3FFF0000"
definition RX_STS_FRAMELEN :: "u32 \<Rightarrow> u32" where "RX_STS_FRAMELEN reg = drop_bit 16 (reg AND RX_STS_FL)"
definition RX_STS_ERROR :: u32 where
  "RX_STS_ERROR = 0x40000000 OR 0x8000 OR 0x1000 OR 0x80 OR 0x40 OR 0x10 OR 8 OR 4 OR 2"

section \<open>Access to the registers\<close>

definition SMSC951xDeviceWriteReg :: "u64 \<Rightarrow> u32 \<Rightarrow> u32 \<Rightarrow> ('b usb_tree_scheme, bool) prog" where
  "SMSC951xDeviceWriteReg this nIndex nValue = bind (write_register this nIndex nValue) (\<lambda>r. return (\<not> r <s 0))"

definition SMSC951xDeviceReadReg :: "u64 \<Rightarrow> u32 \<Rightarrow> ('b usb_tree_scheme, u32 option) prog" where
  "SMSC951xDeviceReadReg this nIndex = read_register this nIndex"

primrec wait_not_busy :: "nat \<Rightarrow> u64 \<Rightarrow> ('b usb_tree_scheme, bool) prog" where
  "wait_not_busy 0 this = bind (MsDelay 1) (\<lambda>_. return False)"
| "wait_not_busy (Suc nTries) this =
     bind (MsDelay 1) (\<lambda>_.
     bind (SMSC951xDeviceReadReg this MII_ADDR) (\<lambda>r. case r of
         None \<Rightarrow> return False
       | Some nValue \<Rightarrow> if nValue AND MII_BUSY \<noteq> 0 then wait_not_busy nTries this else return True))"

definition SMSC951xDevicePHYWaitNotBusy :: "u64 \<Rightarrow> ('b usb_tree_scheme, bool) prog" where
  "SMSC951xDevicePHYWaitNotBusy this = wait_not_busy 999 this"

definition mii_address :: "u8 \<Rightarrow> u32" where
  "mii_address uchIndex = push_bit 11 PHY_ID_INTERNAL OR push_bit 6 (ucast uchIndex)"

definition SMSC951xDevicePHYWrite :: "u64 \<Rightarrow> u8 \<Rightarrow> u16 \<Rightarrow> ('b usb_tree_scheme, bool) prog" where
  "SMSC951xDevicePHYWrite this uchIndex usValue =
     bind (UK_ASSERT (uchIndex \<le> 31)) (\<lambda>_.
     all_ok
       [SMSC951xDevicePHYWaitNotBusy this,
        SMSC951xDeviceWriteReg this SMSC_MII_DATA (ucast usValue),
        SMSC951xDeviceWriteReg this MII_ADDR (mii_address uchIndex OR MII_WRITE OR MII_BUSY),
        SMSC951xDevicePHYWaitNotBusy this])"

definition SMSC951xDevicePHYRead :: "u64 \<Rightarrow> u8 \<Rightarrow> ('b usb_tree_scheme, u16 option) prog" where
  "SMSC951xDevicePHYRead this uchIndex =
     bind (UK_ASSERT (uchIndex \<le> 31)) (\<lambda>_.
     bind (all_ok
       [SMSC951xDevicePHYWaitNotBusy this,
        SMSC951xDeviceWriteReg this MII_ADDR (mii_address uchIndex OR MII_BUSY),
        SMSC951xDevicePHYWaitNotBusy this]) (\<lambda>ok.
     if \<not> ok then return None else
     bind (SMSC951xDeviceReadReg this SMSC_MII_DATA) (\<lambda>r. return (map_option (\<lambda>v. ucast (v AND 0xFFFF)) r))))"

definition SMSC951xDeviceIsLinkUp :: "u64 \<Rightarrow> ('b usb_tree_scheme, bool) prog" where
  "SMSC951xDeviceIsLinkUp this =
     bind (SMSC951xDevicePHYRead this 1) (\<lambda>r. case r of
         None \<Rightarrow> return False
       | Some usPHYModeStatus \<Rightarrow> return (usPHYModeStatus AND push_bit 2 1 \<noteq> 0))"

definition SMSC951xDeviceDumpReg :: "u64 \<Rightarrow> string \<Rightarrow> u32 \<Rightarrow> ('b usb_tree_scheme, unit) prog" where
  "SMSC951xDeviceDumpReg this name nIndex =
     bind (SMSC951xDeviceReadReg this nIndex) (\<lambda>r. case r of
         None \<Rightarrow> LogWrite LOG_ERROR ''Cannot read register 0x%X''
       | Some nValue \<Rightarrow> LogWrite LOG_DEBUG ''%08X %s'')"

definition SMSC951xDeviceDumpRegs :: "u64 \<Rightarrow> ('b usb_tree_scheme, unit) prog" where
  "SMSC951xDeviceDumpRegs this = for_each
     [(''ID_REV'', 0), (''INT_STS'', 8), (''RX_CFG'', 0x0C), (''TX_CFG'', TX_CFG), (''HW_CFG'', 0x14),
      (''RX_FIFO_INF'', 0x18), (''PM_CTRL'', 0x20), (''LED_GPIO_CFG'', LED_GPIO_CFG), (''GPIO_CFG'', 0x28),
      (''AFC_CFG'', 0x2C), (''BURST_CAP'', 0x38), (''INT_EP_CTL'', 0x68), (''BULK_IN_DLY'', 0x6C),
      (''MAC_CR'', SMSC_MAC_CR), (''ADDRH'', ADDRH), (''ADDRL'', ADDRL), (''HASHH'', 0x10C), (''HASHL'', 0x110),
      (''FLOW'', 0x11C), (''WUCSR'', 0x12C)]
     (\<lambda>(name, nIndex). SMSC951xDeviceDumpReg this name nIndex)"

section \<open>Construction and configuration\<close>

definition SMSC951xDevice_destroy :: "u64 \<Rightarrow> ('b usb_tree_scheme, unit) prog" where
  "SMSC951xDevice_destroy = eth_destroy"

definition set_mac_address :: "u64 \<Rightarrow> ('b usb_tree_scheme, bool) prog" where
  "set_mac_address this =
     bind the_mac_address (\<lambda>m. case m of
         None \<Rightarrow> bind (LogWrite LOG_ERROR ''Cannot get MAC address'') (\<lambda>_. return False)
       | Some addr \<Rightarrow>
           bind (on_mac this (MACAddressSet addr)) (\<lambda>_.
           bind (get_eth this m_MACAddress) (\<lambda>mac.
           bind (local_string (MACAddressFormat mac)) (\<lambda>_. return True))))"

definition program_mac_address :: "u64 \<Rightarrow> ('b usb_tree_scheme, bool) prog" where
  "program_mac_address this =
     bind (on_mac this MACAddressCopyTo) (\<lambda>a.
     let usMACAddressHigh = ucast (a ! 4) OR push_bit 8 (ucast (a ! 5)) :: u16;
         nMACAddressLow = ucast (a ! 0) OR push_bit 8 (ucast (a ! 1)) OR push_bit 16 (ucast (a ! 2)) OR
           push_bit 24 (ucast (a ! 3)) :: u32
     in log_error ''Cannot set MAC address'' (all_ok
          [SMSC951xDeviceWriteReg this ADDRH (ucast usMACAddressHigh),
           SMSC951xDeviceWriteReg this ADDRL nMACAddressLow]))"

definition SMSC951xDeviceConfigure :: "u64 \<Rightarrow> ('b usb_tree_scheme, bool) prog" where
  "SMSC951xDeviceConfigure this = all_ok
     [set_mac_address this,
      three_endpoints this,
      find_endpoints this,
      set_interface this,
      program_mac_address this,
      log_error ''Cannot start device'' (all_ok
        [SMSC951xDeviceWriteReg this LED_GPIO_CFG (LED_GPIO_CFG_SPD_LED OR LED_GPIO_CFG_LNK_LED OR LED_GPIO_CFG_FDX_LED),
         SMSC951xDeviceWriteReg this SMSC_MAC_CR (MAC_CR_RCVOWN OR MAC_CR_TXEN OR MAC_CR_RXEN),
         SMSC951xDeviceWriteReg this TX_CFG TX_CFG_ON]),
      bind (gets s_nSMSC951xNumber) (\<lambda>n.
      bind (modify (\<lambda>s. s\<lparr>s_nSMSC951xNumber := n + 1\<rparr>)) (\<lambda>_. add_eth this n))]"

section \<open>Frames\<close>

definition SMSC951xDeviceGetMACAddress :: "u64 \<Rightarrow> ('b usb_tree_scheme, TMACAddress) prog" where
  "SMSC951xDeviceGetMACAddress this = get_eth this m_MACAddress"

definition SMSC951xDeviceSendFrame :: "u64 \<Rightarrow> u64 \<Rightarrow> u32 \<Rightarrow> ('b usb_tree_scheme, bool) prog" where
  "SMSC951xDeviceSendFrame this pBuffer nLength =
     (if nLength \<ge> FRAME_BUFFER_SIZE - 8 then return False
      else send_frame this pBuffer nLength (TX_CMD_A_FIRST_SEG OR TX_CMD_A_LAST_SEG OR nLength) nLength)"

definition SMSC951xDeviceReceiveFrame :: "u64 \<Rightarrow> u64 \<Rightarrow> ('b usb_tree_scheme, u32 option) prog" where
  "SMSC951xDeviceReceiveFrame this pBuffer =
     receive_frame this pBuffer 4 (\<lambda>st. st AND RX_STS_ERROR \<noteq> 0) RX_STS_FRAMELEN"

end
