(* ===== verification/Irq.thy ===== *)
theory Irq
  imports Services
begin

text \<open>
  The interrupt controller of the platform: \<^verbatim>\<open>irq.c\<close> with
  \<^verbatim>\<open>include/raspi/irq.h\<close> and the side timer of \<^verbatim>\<open>include/raspi/time.h\<close>.
  Unikraft's interrupt library, which is not part of the platform, is a parameter: its registration as
  a function that gives the result of a call, and its dispatcher as the list of the lines it was called
  for.  The control register of the generic timer is a field of the state.
\<close>

section \<open>State and constants\<close>

record platform = hw +
  cntv_ctl :: u64
  cntfrq :: u64
  mpidr :: u64
  timer_irq_delay :: u32
  handled :: "u32 list"

definition IRQ_ID_ARM_GENERIC_TIMER :: u64 where "IRQ_ID_ARM_GENERIC_TIMER = 0"
definition IRQ_ID_RASPI_ARM_SIDE_TIMER :: u64 where "IRQ_ID_RASPI_ARM_SIDE_TIMER = 1"
definition IRQ_ID_RASPI_USB :: u64 where "IRQ_ID_RASPI_USB = 2"
definition IRQ_ID_RASPI_ARM_SYSTEM_TIMER_IRQ_3 :: u64 where "IRQ_ID_RASPI_ARM_SYSTEM_TIMER_IRQ_3 = 3"
definition RPI_HWIRQ_MB_RUN :: u32 where "RPI_HWIRQ_MB_RUN = 4"
definition RPI_HWIRQ_MB_WAKE :: u32 where "RPI_HWIRQ_MB_WAKE = 5"
definition IRQS_MAX :: nat where "IRQS_MAX = 64"
definition RPI_HWIRQ_ARM_GENERIC_TIMER :: u32 where "RPI_HWIRQ_ARM_GENERIC_TIMER = 63"
definition RPI_HWIRQ_ARM_SIDE_TIMER :: u32 where "RPI_HWIRQ_ARM_SIDE_TIMER = 64"
definition RPI_HWIRQ_RASPI_USB :: u32 where "RPI_HWIRQ_RASPI_USB = 9"
definition RPI_HWIRQ_ARM_SYSTEM_TIMER_IRQ_3 :: u32 where "RPI_HWIRQ_ARM_SYSTEM_TIMER_IRQ_3 = 3"
definition MMIO_BASE :: u64 where "MMIO_BASE = 0x3F000000"
definition IRQ_SRC_BASE :: u64 where "IRQ_SRC_BASE = 0x40000060"
definition MBOX0_RDCLR_BASE :: u64 where "MBOX0_RDCLR_BASE = 0x400000C0"
definition INT_SRC_MBOX0 :: u32 where "INT_SRC_MBOX0 = push_bit 4 1"
definition IRQ_BASIC_PENDING :: u64 where "IRQ_BASIC_PENDING = MMIO_BASE + 0xB200"
definition IRQ_PENDING_1 :: u64 where "IRQ_PENDING_1 = MMIO_BASE + 0xB204"
definition IRQ_PENDING_2 :: u64 where "IRQ_PENDING_2 = MMIO_BASE + 0xB208"
definition ENABLE_IRQS_1 :: u64 where "ENABLE_IRQS_1 = MMIO_BASE + 0xB210"
definition ENABLE_IRQS_2 :: u64 where "ENABLE_IRQS_2 = MMIO_BASE + 0xB214"
definition ENABLE_BASIC_IRQS :: u64 where "ENABLE_BASIC_IRQS = MMIO_BASE + 0xB218"
definition DISABLE_IRQS_1 :: u64 where "DISABLE_IRQS_1 = MMIO_BASE + 0xB21C"
definition DISABLE_IRQS_2 :: u64 where "DISABLE_IRQS_2 = MMIO_BASE + 0xB220"
definition DISABLE_BASIC_IRQS :: u64 where "DISABLE_BASIC_IRQS = MMIO_BASE + 0xB224"
definition IRQS_BASIC_ARM_TIMER_IRQ :: u32 where "IRQS_BASIC_ARM_TIMER_IRQ = push_bit 0 1"
definition IRQS_1_SYSTEM_TIMER_IRQ_3 :: u32 where "IRQS_1_SYSTEM_TIMER_IRQ_3 = push_bit 3 1"
definition IRQS_1_USB_IRQ :: u32 where "IRQS_1_USB_IRQ = push_bit 9 1"

text \<open>The bits of the generic timer's control register, from the architecture headers of Unikraft.\<close>

definition GT_TIMER_ENABLE :: u64 where "GT_TIMER_ENABLE = 1"
definition GT_TIMER_MASK_IRQ :: u64 where "GT_TIMER_MASK_IRQ = 2"
definition GT_TIMER_IRQ_STATUS :: u64 where "GT_TIMER_IRQ_STATUS = 4"

definition RASPI_ARM_SIDE_TIMER_BASE :: u64 where "RASPI_ARM_SIDE_TIMER_BASE = MMIO_BASE + 0xB000"
definition RASPI_ARM_SIDE_TIMER_LOAD :: u64 where "RASPI_ARM_SIDE_TIMER_LOAD = RASPI_ARM_SIDE_TIMER_BASE + 0x400"
definition RASPI_ARM_SIDE_TIMER_VALUE :: u64 where "RASPI_ARM_SIDE_TIMER_VALUE = RASPI_ARM_SIDE_TIMER_BASE + 0x404"
definition RASPI_ARM_SIDE_TIMER_CTL :: u64 where "RASPI_ARM_SIDE_TIMER_CTL = RASPI_ARM_SIDE_TIMER_BASE + 0x408"
definition RASPI_ARM_SIDE_TIMER_IRQ_CLEAR :: u64 where "RASPI_ARM_SIDE_TIMER_IRQ_CLEAR = RASPI_ARM_SIDE_TIMER_BASE + 0x40C"
definition RASPI_ARM_SIDE_TIMER_CTL_IRQ_BIT :: u32 where "RASPI_ARM_SIDE_TIMER_CTL_IRQ_BIT = push_bit 5 1"

definition raspi_arm_side_timer_irq_enable :: "('b hw_scheme, unit) prog" where
  "raspi_arm_side_timer_irq_enable =
     bind (vread RASPI_ARM_SIDE_TIMER_CTL) (\<lambda>v.
     vwrite RASPI_ARM_SIDE_TIMER_CTL (v OR RASPI_ARM_SIDE_TIMER_CTL_IRQ_BIT))"

definition raspi_arm_side_timer_irq_disable :: "('b hw_scheme, unit) prog" where
  "raspi_arm_side_timer_irq_disable =
     bind (vread RASPI_ARM_SIDE_TIMER_CTL) (\<lambda>v.
     vwrite RASPI_ARM_SIDE_TIMER_CTL (v AND NOT RASPI_ARM_SIDE_TIMER_CTL_IRQ_BIT))"

definition raspi_arm_side_timer_irq_clear :: "('b hw_scheme, unit) prog" where
  "raspi_arm_side_timer_irq_clear = vwrite RASPI_ARM_SIDE_TIMER_IRQ_CLEAR 1"

section \<open>Lines\<close>

definition rpi_mask_irq :: "u32 \<Rightarrow> ('b platform_scheme, unit) prog" where
  "rpi_mask_irq hwirq =
     (if hwirq = RPI_HWIRQ_ARM_SYSTEM_TIMER_IRQ_3 then vwrite DISABLE_IRQS_1 IRQS_1_SYSTEM_TIMER_IRQ_3
      else if hwirq = RPI_HWIRQ_RASPI_USB then vwrite DISABLE_IRQS_1 IRQS_1_USB_IRQ
      else if hwirq = RPI_HWIRQ_ARM_SIDE_TIMER then vwrite DISABLE_BASIC_IRQS IRQS_BASIC_ARM_TIMER_IRQ
      else if hwirq = RPI_HWIRQ_ARM_GENERIC_TIMER then modify (\<lambda>s. s\<lparr>cntv_ctl := cntv_ctl s AND NOT GT_TIMER_ENABLE\<rparr>)
      else return ())"

definition rpi_unmask_irq :: "u32 \<Rightarrow> ('b platform_scheme, unit) prog" where
  "rpi_unmask_irq hwirq =
     (if hwirq = RPI_HWIRQ_ARM_SYSTEM_TIMER_IRQ_3 then vwrite ENABLE_IRQS_1 IRQS_1_SYSTEM_TIMER_IRQ_3
      else if hwirq = RPI_HWIRQ_RASPI_USB then vwrite ENABLE_IRQS_1 IRQS_1_USB_IRQ
      else if hwirq = RPI_HWIRQ_ARM_SIDE_TIMER then block
        [vwrite ENABLE_BASIC_IRQS IRQS_BASIC_ARM_TIMER_IRQ, raspi_arm_side_timer_irq_clear,
         raspi_arm_side_timer_irq_enable]
      else if hwirq = RPI_HWIRQ_ARM_GENERIC_TIMER then modify (\<lambda>s. s\<lparr>cntv_ctl := cntv_ctl s OR GT_TIMER_ENABLE\<rparr>)
      else return ())"

text \<open>The line of a platform interrupt; an unknown one is refused.\<close>

definition hwirq_of :: "u64 \<Rightarrow> u32 option" where
  "hwirq_of irq =
     (if irq = IRQ_ID_ARM_GENERIC_TIMER then Some RPI_HWIRQ_ARM_GENERIC_TIMER
      else if irq = IRQ_ID_RASPI_ARM_SIDE_TIMER then Some RPI_HWIRQ_ARM_SIDE_TIMER
      else if irq = IRQ_ID_RASPI_USB then Some RPI_HWIRQ_RASPI_USB
      else if irq = IRQ_ID_RASPI_ARM_SYSTEM_TIMER_IRQ_3 then Some RPI_HWIRQ_ARM_SYSTEM_TIMER_IRQ_3
      else None)"

definition ukplat_irq_register :: "(u32 \<Rightarrow> int) \<Rightarrow> u64 \<Rightarrow> bool \<Rightarrow> int" where
  "ukplat_irq_register uk_intctlr_irq_register irq func =
     (if \<not> func then - 1
      else case hwirq_of irq of None \<Rightarrow> - 1 | Some hwirq \<Rightarrow> uk_intctlr_irq_register hwirq)"

definition ukplat_irq_init :: "('b platform_scheme, int) prog" where
  "ukplat_irq_init =
     bind (block
       [DataSyncBarrier, DataSyncBarrier, DataMemBarrier,
        vwrite DISABLE_BASIC_IRQS 0xFFFFFFFF, vwrite DISABLE_IRQS_1 0xFFFFFFFF, vwrite DISABLE_IRQS_2 0xFFFFFFFF,
        modify (\<lambda>s. s\<lparr>irq_on := True\<rparr>)]) (\<lambda>_. return 0)"

section \<open>The dispatcher\<close>

definition lcpu_arch_idx :: "('b platform_scheme, u64) prog" where
  "lcpu_arch_idx = gets (\<lambda>s. mpidr s AND 3)"

definition uk_intctlr_irq_handle :: "u32 \<Rightarrow> ('b platform_scheme, unit) prog" where
  "uk_intctlr_irq_handle hwirq = modify (\<lambda>s. s\<lparr>handled := hwirq # handled s\<rparr>)"

text \<open>The loop over the lines of the two pending registers; the register is read anew for every line.\<close>

definition line_pending :: "nat \<Rightarrow> u32 \<Rightarrow> bool" where
  "line_pending nIRQ v \<longleftrightarrow> v AND push_bit (unat (of_nat nIRQ AND (31 :: u32))) 1 \<noteq> 0"

fun scan_lines :: "nat list \<Rightarrow> ('b platform_scheme, bool) prog" where
  "scan_lines [] = return False"
| "scan_lines (nIRQ # ns) =
     bind (vread (if nIRQ < 32 then IRQ_PENDING_1 else IRQ_PENDING_2)) (\<lambda>v.
     if line_pending nIRQ v then bind (uk_intctlr_irq_handle (of_nat nIRQ)) (\<lambda>_. return True)
     else scan_lines ns)"

definition timer_lines :: "('b platform_scheme, unit) prog" where
  "timer_lines =
     bind (vread IRQ_BASIC_PENDING) (\<lambda>p.
     bind (vread ENABLE_BASIC_IRQS) (\<lambda>e.
     if (p AND e) AND IRQS_BASIC_ARM_TIMER_IRQ \<noteq> 0 then uk_intctlr_irq_handle RPI_HWIRQ_ARM_SIDE_TIMER
     else
       bind (gets cntv_ctl) (\<lambda>ctl.
       if ctl AND GT_TIMER_IRQ_STATUS \<noteq> 0 then uk_intctlr_irq_handle RPI_HWIRQ_ARM_GENERIC_TIMER
       else halt Endless_loop)))"

definition ukplat_irq_handle :: "('b platform_scheme, unit) prog" where
  "ukplat_irq_handle =
     bind lcpu_arch_idx (\<lambda>core.
     bind (vread (IRQ_SRC_BASE + core * 4)) (\<lambda>src.
     if src AND INT_SRC_MBOX0 \<noteq> 0 then
       bind (vwrite (MBOX0_RDCLR_BASE + core * 0x10) 1) (\<lambda>_. uk_intctlr_irq_handle RPI_HWIRQ_MB_RUN)
     else bind (scan_lines [0..<IRQS_MAX]) (\<lambda>found. if found then return () else timer_lines)))"

section \<open>The line that is dispatched\<close>

text \<open>
  The specification: the interrupt of the mailbox first, then the first line whose bit is set in the value
  read for it, then the side timer if it is pending and enabled, then the generic timer.
\<close>

definition pending_line :: "u64 \<Rightarrow> u32 \<Rightarrow> u32 list \<Rightarrow> u32 \<Rightarrow> u32 \<Rightarrow> u32 option" where
  "pending_line ctl src vs p e =
     (if src AND INT_SRC_MBOX0 \<noteq> 0 then Some RPI_HWIRQ_MB_RUN
      else case find (\<lambda>n. bit (vs ! n) (n mod 32)) [0..<IRQS_MAX] of
          Some n \<Rightarrow> Some (of_nat n)
        | None \<Rightarrow>
            if bit p 0 \<and> bit e 0 then Some RPI_HWIRQ_ARM_SIDE_TIMER
            else if bit ctl 2 then Some RPI_HWIRQ_ARM_GENERIC_TIMER else None)"

lemma and_push_bit: "(x :: 'a::len word) AND push_bit n 1 \<noteq> 0 \<longleftrightarrow> n < LENGTH('a) \<and> bit x n"
proof
  assume n: "n < LENGTH('a) \<and> bit x n"
  then have "bit (x AND push_bit n 1) n" by (simp add: bit_simps)
  then show "x AND push_bit n 1 \<noteq> 0" by auto
next
  assume "x AND push_bit n 1 \<noteq> 0"
  then obtain k where "bit (x AND push_bit n 1) k" using bit_eq_iff [of "x AND push_bit n 1" 0] by auto
  then show "n < LENGTH('a) \<and> bit x n" by (auto simp: bit_simps)
qed

lemma line_pending_bit: "line_pending n v \<longleftrightarrow> bit v (n mod 32)"
proof -
  have m: "(31 :: u32) = mask 5" by (simp add: mask_eq_exp_minus_1)
  have "unat (of_nat n AND (31 :: u32)) = n mod 32"
    unfolding m take_bit_eq_mask [symmetric] unsigned_take_bit_eq unsigned_of_nat
    by (simp add: take_bit_eq_mod mod_mod_cancel)
  then show ?thesis by (simp add: line_pending_def and_push_bit del: push_bit_of_1)
qed

lemma wp_vread_ans: "mmio_in s = ans v # as \<Longrightarrow>
    wp (vread a) Q E s = Q v (s\<lparr>mmio_in := as, rev_trace := EvRead a v # rev_trace s\<rparr>)"
  by (simp add: wp_vread ans_def)

lemma wp_scan_lines:
  assumes "mmio_in s = map ans vs @ rest" and "length vs = length ns"
    and "\<And>t n. find (\<lambda>(n, v). bit v (n mod 32)) (zip ns vs) = Some n \<Longrightarrow> handled t = of_nat (fst n) # handled s \<Longrightarrow> Q True t"
    and "\<And>t. find (\<lambda>(n, v). bit v (n mod 32)) (zip ns vs) = None \<Longrightarrow> handled t = handled s \<Longrightarrow>
        cntv_ctl t = cntv_ctl s \<Longrightarrow> mmio_in t = rest \<Longrightarrow> Q False t"
  shows "wp (scan_lines ns) Q E s"
  using assms
proof (induction ns arbitrary: vs s)
  case Nil
  then show ?case by (simp add: wp_simps)
next
  case (Cons n ns)
  then obtain v vs' where vs: "vs = v # vs'" by (cases vs) auto
  let ?s = "s\<lparr>mmio_in := map ans vs' @ rest, rev_trace := EvRead (if n < 32 then IRQ_PENDING_1 else IRQ_PENDING_2) v # rev_trace s\<rparr>"
  have "wp (scan_lines ns) Q E ?s" if "\<not> bit v (n mod 32)"
    by (rule Cons.IH [of _ vs']) (use Cons.prems vs that in auto)
  then show ?case
    using Cons.prems vs
    by (auto simp: wp_bind wp_return wp_modify wp_vread_ans line_pending_bit uk_intctlr_irq_handle_def)
qed

lemma find_zip: "length vs = n \<Longrightarrow>
    map_option fst (find (\<lambda>(i, v). P i v) (zip [0..<n] vs)) = find (\<lambda>i. P i (vs ! i)) [0..<n]"
proof -
  assume n: "length vs = n"
  have "map_option fst (find (\<lambda>(i, v). P i v) (map (\<lambda>i. (i, vs ! i)) is)) = find (\<lambda>i. P i (vs ! i)) is" for "is"
    by (induction "is") auto
  moreover have "zip [0..<n] vs = map (\<lambda>i. (i, vs ! i)) [0..<n]"
    using n by (intro nth_equalityI) simp_all
  ultimately show ?thesis by simp
qed

text \<open>
  C11. The dispatcher hands exactly one interrupt to the library, the one of the specification: whatever the
  hardware answers to the reads of the pending registers, which may change between the reads.  Without
  any pending interrupt it stops the processor for ever.
\<close>

theorem irq_dispatch:
  assumes "mmio_in s = ans src # map ans vs @ [ans p, ans e] @ rest" and "length vs = IRQS_MAX"
  shows "case pending_line (cntv_ctl s) src vs p e of
      Some l \<Rightarrow> \<exists>t. ukplat_irq_handle s = Done () t \<and> handled t = l # handled s
    | None \<Rightarrow> \<exists>t. ukplat_irq_handle s = Halt Endless_loop t"
proof -
  let ?l = "pending_line (cntv_ctl s) src vs p e"
  let ?Q = "\<lambda>_ t. \<exists>l. ?l = Some l \<and> handled t = l # handled s"
  let ?E = "\<lambda>h _. ?l = None \<and> h = Endless_loop"
  let ?f = "find (\<lambda>(n, v). bit v (n mod 32)) (zip [0..<IRQS_MAX] vs)"
  have f: "find (\<lambda>n. bit (vs ! n) (n mod 32)) [0..<IRQS_MAX] = map_option fst ?f"
    using find_zip [OF assms(2), where P = "\<lambda>n v. bit v (n mod 32)"] by simp
  have one: "IRQS_BASIC_ARM_TIMER_IRQ = push_bit 0 1" "GT_TIMER_IRQ_STATUS = push_bit 2 1"
    by (simp_all add: IRQS_BASIC_ARM_TIMER_IRQ_def GT_TIMER_IRQ_STATUS_def push_bit_eq_mult)
  have timer: "wp timer_lines ?Q ?E t"
    if "?f = None" "src AND INT_SRC_MBOX0 = 0" "handled t = handled s" "cntv_ctl t = cntv_ctl s" "mmio_in t = [ans p, ans e] @ rest" for t
    using that by (auto simp: timer_lines_def wp_bind wp_vread_ans wp_if wp_gets wp_modify wp_halt one and_push_bit bit_simps pending_line_def f uk_intctlr_irq_handle_def
        simp del: push_bit_of_1 push_bit_0_id)
  have "wp ukplat_irq_handle ?Q ?E s"
    unfolding ukplat_irq_handle_def lcpu_arch_idx_def wp_bind wp_gets wp_vread_ans [OF assms(1)]
  proof (cases "src AND INT_SRC_MBOX0 = 0")
    case True
    have "wp (scan_lines [0..<IRQS_MAX]) (\<lambda>found. wp (if found then return () else timer_lines) ?Q ?E) ?E
        (s\<lparr>mmio_in := map ans vs @ [ans p, ans e] @ rest, rev_trace := r\<rparr>)" for r
      by (rule wp_scan_lines [where vs = vs and rest = "[ans p, ans e] @ rest"])
        (use timer True in \<open>simp_all add: assms(2) wp_return\<close>, auto simp: pending_line_def f True)
    with True show "wp (if src AND INT_SRC_MBOX0 \<noteq> 0
        then bind (vwrite (MBOX0_RDCLR_BASE + (mpidr s AND 3) * 0x10) 1) (\<lambda>_. uk_intctlr_irq_handle RPI_HWIRQ_MB_RUN)
        else bind (scan_lines [0..<IRQS_MAX]) (\<lambda>found. if found then return () else timer_lines)) ?Q ?E
        (s\<lparr>mmio_in := map ans vs @ [ans p, ans e] @ rest,
          rev_trace := EvRead (IRQ_SRC_BASE + (mpidr s AND 3) * 4) src # rev_trace s\<rparr>)"
      by (simp add: wp_bind)
  qed (simp add: wp_bind wp_vwrite pending_line_def uk_intctlr_irq_handle_def wp_modify)
  then show ?thesis by (auto simp: wp_def split: outcome.splits option.splits)
qed

definition platform0 :: "answer list \<Rightarrow> platform" where
  "platform0 as = \<lparr>mmio_in = as, sleeps = [], rev_trace = [], mem = \<lambda>_. 0, irq_on = True,
     s_nCriticalLevel = 0, s_bWereEnabled = False, log_level = None, cntv_ctl = 0, cntfrq = 0, mpidr = 0,
     timer_irq_delay = 0, handled = []\<rparr>"

text \<open>Line 9 is pending, the one of the USB controller.\<close>

definition usb_pending :: "u32 list" where
  "usb_pending = replicate 9 0 @ [0x200] @ replicate 54 0"

theorem irq_dispatch_witness:
  "\<exists>t. ukplat_irq_handle (platform0 (ans 0 # map ans usb_pending @ [ans 0, ans 0])) = Done () t \<and>
     handled t = [RPI_HWIRQ_RASPI_USB]"
proof -
  have up: "[0..<64] = [0..<9] @ 9 # [10..<64]"
    by (simp add: upt_add_eq_append [of 0 9 55, simplified] upt_conv_Cons)
  have none: "find (\<lambda>n. bit (usb_pending ! n) (n mod 32)) [0..<9] = None"
    by (auto simp: find_None_iff usb_pending_def nth_append)
  have "find P (xs @ y # ys) = Some y" if "find P xs = None" "P y" for P :: "nat \<Rightarrow> bool" and xs y ys
    using that by (induction xs) (auto split: if_splits)
  then have "find (\<lambda>n. bit (usb_pending ! n) (n mod 32)) [0..<64] = Some 9"
    unfolding up using none by (auto simp: usb_pending_def nth_append)
  then have "pending_line 0 0 usb_pending 0 0 = Some 9"
    by (simp add: pending_line_def IRQS_MAX_def)
  then show ?thesis
    using irq_dispatch [of "platform0 (ans 0 # map ans usb_pending @ [ans 0, ans 0])" 0 usb_pending 0 0 "[]"]
    by (simp add: platform0_def usb_pending_def IRQS_MAX_def RPI_HWIRQ_RASPI_USB_def)
qed

end
