(* ===== verification/UsbHub.thy ===== *)
theory UsbHub
  imports Lan7800 Smsc951x Irq
begin

text \<open>
  Hubs and the root port: \<^verbatim>\<open>eth/lib/usbstandardhub.c\<close>,
  \<^verbatim>\<open>dwhcirootport.c\<close> and the object \<open>TDWHCIDevice\<close> of \<^verbatim>\<open>dwhcidevice.c\<close>.
  A hub initialises and configures the devices behind its ports, among them further hubs.  The
  operations of a hub take the configuration of a device as an argument; \<open>configure\<close> ties the knot with
  a bound on the depth.
\<close>

section \<open>Hubs\<close>

definition REQUEST_CLASS :: u8 where "REQUEST_CLASS = 0x20"
definition REQUEST_TO_OTHER :: u8 where "REQUEST_TO_OTHER = 3"
definition GET_STATUS :: u8 where "GET_STATUS = 0"
definition CLEAR_FEATURE :: u8 where "CLEAR_FEATURE = 1"
definition SET_FEATURE :: u8 where "SET_FEATURE = 3"
definition DESCRIPTOR_HUB :: u8 where "DESCRIPTOR_HUB = 0x29"
definition PORT_RESET :: u16 where "PORT_RESET = 4"
definition PORT_POWER :: u16 where "PORT_POWER = 8"
definition sizeof_TUSBHubDescriptor :: u32 where "sizeof_TUSBHubDescriptor = 9"
definition HUB_OVER_CURRENT__MASK :: u16 where "HUB_OVER_CURRENT__MASK = push_bit 1 1"
definition PORT_CONNECTION__MASK :: u16 where "PORT_CONNECTION__MASK = push_bit 0 1"
definition PORT_ENABLE__MASK :: u16 where "PORT_ENABLE__MASK = push_bit 1 1"
definition PORT_OVER_CURRENT__MASK :: u16 where "PORT_OVER_CURRENT__MASK = push_bit 3 1"
definition PORT_POWER__MASK :: u16 where "PORT_POWER__MASK = push_bit 8 1"
definition PORT_LOW_SPEED__MASK :: u16 where "PORT_LOW_SPEED__MASK = push_bit 9 1"
definition PORT_HIGH_SPEED__MASK :: u16 where "PORT_HIGH_SPEED__MASK = push_bit 10 1"

definition hub_child :: "u64 \<Rightarrow> nat \<Rightarrow> ('b usb_tree_scheme, u64) prog" where
  "hub_child this nPort = bind (get_hub this hub_pDevice) (\<lambda>ps. array_get ps nPort)"

definition set_child :: "u64 \<Rightarrow> nat \<Rightarrow> u64 \<Rightarrow> ('b usb_tree_scheme, unit) prog" where
  "set_child this nPort p =
     bind (get_hub this hub_pDevice) (\<lambda>ps.
     bind (array_index ps nPort) (\<lambda>_. upd_hub this (\<lambda>h. h\<lparr>hub_pDevice := (hub_pDevice h)[nPort := p]\<rparr>)))"

definition port_status :: "u64 \<Rightarrow> nat \<Rightarrow> ('b usb_tree_scheme, u64) prog" where
  "port_status this nPort = bind (get_hub this m_pStatus) (\<lambda>ps. array_get ps nPort)"

definition set_status :: "u64 \<Rightarrow> nat \<Rightarrow> u64 \<Rightarrow> ('b usb_tree_scheme, unit) prog" where
  "set_status this nPort p =
     bind (get_hub this m_pStatus) (\<lambda>ps.
     bind (array_index ps nPort) (\<lambda>_. upd_hub this (\<lambda>h. h\<lparr>m_pStatus := (m_pStatus h)[nPort := p]\<rparr>)))"

definition drop_child :: "u64 \<Rightarrow> nat \<Rightarrow> ('b usb_tree_scheme, unit) prog" where
  "drop_child this nPort =
     bind (hub_child this nPort) (\<lambda>p.
     bind (USBDevice_destroy (unat p)) (\<lambda>_.
     bind (free p) (\<lambda>_. set_child this nPort 0)))"

definition destroy_port :: "u64 \<Rightarrow> nat \<Rightarrow> ('b usb_tree_scheme, unit) prog" where
  "destroy_port this nPort =
     bind (port_status this nPort) (\<lambda>st.
     bind (cond (st \<noteq> 0) (bind (free st) (\<lambda>_. set_status this nPort 0))) (\<lambda>_.
     bind (hub_child this nPort) (\<lambda>p.
     cond (p \<noteq> 0) (drop_child this nPort))))"

definition drop_hub_desc :: "u64 \<Rightarrow> ('b usb_tree_scheme, unit) prog" where
  "drop_hub_desc this =
     bind (get_hub this m_pHubDesc) (\<lambda>p. bind (free p) (\<lambda>_. upd_hub this (\<lambda>h. h\<lparr>m_pHubDesc := 0\<rparr>)))"

definition USBStandardHub_destroy :: "u64 \<Rightarrow> ('b usb_tree_scheme, unit) prog" where
  "USBStandardHub_destroy this =
     bind (get_hub this m_nPorts) (\<lambda>n.
     bind (for_each [0..<n] (destroy_port this)) (\<lambda>_.
     bind (upd_hub this (\<lambda>h. h\<lparr>m_nPorts := 0\<rparr>)) (\<lambda>_.
     bind (get_hub this m_pHubDesc) (\<lambda>p.
     bind (cond (p \<noteq> 0) (drop_hub_desc this)) (\<lambda>_.
     USBFunction_destroy this)))))"

section \<open>The ports of a hub\<close>

definition set_feature :: "nat \<Rightarrow> u16 \<Rightarrow> nat \<Rightarrow> ('b usb_scheme, u32) prog" where
  "set_feature ep feature nPort = DWHCIDeviceControlMessage (Some ep)
     (REQUEST_CLASS OR REQUEST_TO_OTHER) SET_FEATURE feature (of_nat (nPort + 1)) 0 0"

definition power_off :: "nat \<Rightarrow> nat \<Rightarrow> ('b usb_scheme, u32) prog" where
  "power_off ep nPort = DWHCIDeviceControlMessage (Some ep)
     (REQUEST_CLASS OR REQUEST_TO_OTHER) CLEAR_FEATURE PORT_POWER (of_nat (nPort + 1)) 0 0"

definition get_port_status :: "nat \<Rightarrow> u64 \<Rightarrow> nat \<Rightarrow> ('b usb_scheme, bool) prog" where
  "get_port_status ep p nPort =
     bind (DWHCIDeviceControlMessage (Some ep) (REQUEST_IN OR REQUEST_CLASS OR REQUEST_TO_OTHER) GET_STATUS 0
       (of_nat (nPort + 1)) p 4) (\<lambda>r. return (r = 4))"

fun power_ports :: "nat \<Rightarrow> nat list \<Rightarrow> ('b usb_tree_scheme, bool) prog" where
  "power_ports ep [] = return True"
| "power_ports ep (nPort # ns) =
     bind (set_feature ep PORT_POWER nPort) (\<lambda>r.
     if r <s 0 then bind (LogWrite LOG_ERROR ''Cannot power port %u'') (\<lambda>_. return False)
     else power_ports ep ns)"

definition port_speed :: "u16 \<Rightarrow> TUSBSpeed" where
  "port_speed wPortStatus =
     (if wPortStatus AND PORT_LOW_SPEED__MASK \<noteq> 0 then USBSpeedLow
      else if wPortStatus AND PORT_HIGH_SPEED__MASK \<noteq> 0 then USBSpeedHigh
      else USBSpeedFull)"

text \<open>
  The translator of a device behind a port: the first high-speed hub with a slower device behind it in
  the chain, which the hub hands down unchanged when there is one already.
\<close>

definition split_of :: "TUSBDevice \<Rightarrow> TUSBSpeed \<Rightarrow> nat \<Rightarrow> bool \<times> u8 \<times> u8" where
  "split_of hub Speed nPort =
     (if \<not> m_bSplitTransfer hub \<and> TUSBDevice.m_Speed hub = USBSpeedHigh \<and> Speed \<in> {USBSpeedLow, USBSpeedFull}
      then (True, m_ucAddress hub, of_nat (nPort + 1))
      else (m_bSplitTransfer hub, m_ucHubAddress hub, m_ucHubPortNumber hub))"

definition attach_device :: "u64 \<Rightarrow> nat \<Rightarrow> u16 \<Rightarrow> ('b usb_tree_scheme, unit) prog" where
  "attach_device this nPort wPortStatus =
     bind (USBFunctionGetDevice this) (\<lambda>pHubDevice.
     bind (get_dev pHubDevice (\<lambda>v. split_of v (port_speed wPortStatus) nPort)) (\<lambda>(bSplit, ucHubAddress, ucHubPortNumber).
     bind (hub_child this nPort) (\<lambda>p0.
     bind (UK_ASSERT (p0 = 0)) (\<lambda>_.
     bind malloc (\<lambda>p.
     bind (set_child this nPort p) (\<lambda>_.
     bind (UK_ASSERT (p \<noteq> 0)) (\<lambda>_.
     bind (USBDevice (unat p) True (port_speed wPortStatus) bSplit ucHubAddress ucHubPortNumber) (\<lambda>_.
     bind (USBDeviceInitialize (unat p)) (\<lambda>ok.
     cond (\<not> ok) (drop_child this nPort))))))))))"

text \<open>One port: \<open>False\<close> where the enumeration of all ports ends.\<close>

definition detect_port :: "nat \<Rightarrow> u64 \<Rightarrow> nat \<Rightarrow> ('b usb_tree_scheme, bool) prog" where
  "detect_port ep this nPort =
     bind (port_status this nPort) (\<lambda>st0.
     bind (UK_ASSERT (st0 = 0)) (\<lambda>_.
     bind malloc (\<lambda>st.
     bind (set_status this nPort st) (\<lambda>_.
     bind (UK_ASSERT (st \<noteq> 0)) (\<lambda>_.
     bind (get_port_status ep st nPort) (\<lambda>ok.
     if \<not> ok then bind (LogWrite LOG_ERROR ''Cannot get status of port %u'') (\<lambda>_. return True) else
     bind (load16 st) (\<lambda>v.
     bind (UK_ASSERT (v AND PORT_POWER__MASK \<noteq> 0)) (\<lambda>_.
     if v AND PORT_CONNECTION__MASK = 0 then return True else
     bind (set_feature ep PORT_RESET nPort) (\<lambda>r.
     if r <s 0 then bind (LogWrite LOG_ERROR ''Cannot reset port %u'') (\<lambda>_. return True) else
     bind (MsDelay 100) (\<lambda>_.
     bind (get_port_status ep st nPort) (\<lambda>ok.
     if \<not> ok then return False else
     bind (load16 st) (\<lambda>v.
     if v AND PORT_ENABLE__MASK = 0 then bind (LogWrite LOG_ERROR ''Port %u is not enabled'') (\<lambda>_. return True)
     else if v AND PORT_OVER_CURRENT__MASK \<noteq> 0 then
       bind (power_off ep nPort) (\<lambda>_.
       bind (LogWrite LOG_ERROR ''Over-current condition on port %u'') (\<lambda>_. return False))
     else bind (attach_device this nPort v) (\<lambda>_. return True)))))))))))))"

fun detect_ports :: "nat \<Rightarrow> u64 \<Rightarrow> nat list \<Rightarrow> ('b usb_tree_scheme, bool) prog" where
  "detect_ports ep this [] = return True"
| "detect_ports ep this (nPort # ns) =
     bind (detect_port ep this nPort) (\<lambda>ok. if \<not> ok then return False else detect_ports ep this ns)"

definition configure_port ::
  "(nat \<Rightarrow> ('b usb_tree_scheme, bool) prog) \<Rightarrow> u64 \<Rightarrow> nat \<Rightarrow> ('b usb_tree_scheme, unit) prog" where
  "configure_port device_configure this nPort =
     bind (hub_child this nPort) (\<lambda>p.
     if p = 0 then return () else
     bind (device_configure (unat p)) (\<lambda>ok.
     if \<not> ok then
       bind (LogWrite LOG_ERROR ''Port %u: Cannot configure device'') (\<lambda>_. drop_child this nPort)
     else LogWrite LOG_DEBUG ''Port %u: Device configured''))"

definition power_off_all :: "nat \<Rightarrow> nat list \<Rightarrow> ('b usb_tree_scheme, unit) prog" where
  "power_off_all ep ns = for_each ns (\<lambda>nPort. bind (power_off ep nPort) (\<lambda>_. return ()))"

definition check_hub_status :: "nat \<Rightarrow> u64 \<Rightarrow> ('b usb_tree_scheme, bool) prog" where
  "check_hub_status ep this =
     bind new_object (\<lambda>p.
     bind (DWHCIDeviceControlMessage (Some ep) (REQUEST_IN OR REQUEST_CLASS) GET_STATUS 0 0 p 4) (\<lambda>r.
     if r \<noteq> 4 then bind (LogWrite LOG_ERROR ''Cannot get hub status'') (\<lambda>_. bind (free p) (\<lambda>_. return False)) else
     bind (load16 p) (\<lambda>wHubStatus.
     if wHubStatus AND HUB_OVER_CURRENT__MASK \<noteq> 0 then
       bind (get_hub this m_nPorts) (\<lambda>n.
       bind (power_off_all ep [0..<n]) (\<lambda>_.
       bind (LogWrite LOG_ERROR ''Hub over-current condition'') (\<lambda>_. bind (free p) (\<lambda>_. return False))))
     else bind (free p) (\<lambda>_. return True))))"

fun check_port_status :: "nat \<Rightarrow> u64 \<Rightarrow> nat list \<Rightarrow> bool \<Rightarrow> ('b usb_tree_scheme, bool) prog" where
  "check_port_status ep this [] bResult = return bResult"
| "check_port_status ep this (nPort # ns) bResult =
     bind (port_status this nPort) (\<lambda>st.
     bind (get_port_status ep st nPort) (\<lambda>ok.
     if \<not> ok then check_port_status ep this ns bResult else
     bind (load16 st) (\<lambda>v.
     if v AND PORT_OVER_CURRENT__MASK \<noteq> 0 then
       bind (power_off ep nPort) (\<lambda>_.
       bind (LogWrite LOG_ERROR ''Over-current condition on port %u'') (\<lambda>_.
       check_port_status ep this ns False))
     else check_port_status ep this ns bResult)))"

text \<open>The number of ports, which nothing in the enumeration changes, is read once.\<close>

definition enumerate_ports ::
  "(nat \<Rightarrow> ('b usb_tree_scheme, bool) prog) \<Rightarrow> u64 \<Rightarrow> nat \<Rightarrow> nat \<Rightarrow> ('b usb_tree_scheme, bool) prog" where
  "enumerate_ports device_configure this ep n =
     bind (UK_ASSERT (n > 0)) (\<lambda>_.
     bind (power_ports ep [0..<n]) (\<lambda>ok.
     if \<not> ok then return False else
     bind (MsDelay 510) (\<lambda>_.
     bind (detect_ports ep this [0..<n]) (\<lambda>ok.
     if \<not> ok then return False else
     bind (for_each [0..<n] (configure_port device_configure this)) (\<lambda>_.
     bind (check_hub_status ep this) (\<lambda>ok.
     if \<not> ok then return False else check_port_status ep this [0..<n] True))))))"

definition USBStandardHubEnumeratePorts ::
  "(nat \<Rightarrow> ('b usb_tree_scheme, bool) prog) \<Rightarrow> u64 \<Rightarrow> ('b usb_tree_scheme, bool) prog" where
  "USBStandardHubEnumeratePorts device_configure this =
     bind (USBFunctionGetHost this) (\<lambda>_.
     bind (USBFunctionGetEndpoint0 this) (\<lambda>ep.
     bind (get_hub this m_nPorts) (\<lambda>n. enumerate_ports device_configure this ep n)))"

definition USBStandardHubConfigure ::
  "(nat \<Rightarrow> ('b usb_tree_scheme, bool) prog) \<Rightarrow> u64 \<Rightarrow> ('b usb_tree_scheme, bool) prog" where
  "USBStandardHubConfigure device_configure this =
     bind (USBFunctionGetNumEndpoints this) (\<lambda>n.
     if n \<noteq> 1 then bind (USBFunctionConfigurationError this) (\<lambda>_. return False) else
     bind (USBFunctionGetDescriptor this DESCRIPTOR_ENDPOINT) (\<lambda>a.
     bind (if a = 0 then return (0, 0) else bind (load8 (a + 2)) (\<lambda>x. bind (load8 (a + 3)) (\<lambda>y. return (x, y)))) (\<lambda>(addr, attr).
     if a = 0 \<or> addr AND 0x80 \<noteq> 0x80 \<or> attr AND 0x3F \<noteq> 3
     then bind (USBFunctionConfigurationError this) (\<lambda>_. return False) else
     bind (set_interface this) (\<lambda>ok.
     if \<not> ok then return False else
     bind (USBFunctionGetHost this) (\<lambda>_.
     bind (get_hub this m_pHubDesc) (\<lambda>p0.
     bind (UK_ASSERT (p0 = 0)) (\<lambda>_.
     bind malloc (\<lambda>p.
     bind (upd_hub this (\<lambda>h. h\<lparr>m_pHubDesc := p\<rparr>)) (\<lambda>_.
     bind (UK_ASSERT (p \<noteq> 0)) (\<lambda>_.
     bind (USBFunctionGetEndpoint0 this) (\<lambda>ep.
     bind (DWHCIDeviceGetDescriptor (Some ep) DESCRIPTOR_HUB DESCRIPTOR_INDEX_DEFAULT p sizeof_TUSBHubDescriptor
             (REQUEST_IN OR REQUEST_CLASS)) (\<lambda>r.
     if r \<noteq> sizeof_TUSBHubDescriptor then
       bind (LogWrite LOG_ERROR ''Cannot get hub descriptor'') (\<lambda>_.
       bind (drop_hub_desc this) (\<lambda>_. return False))
     else
     bind (load8 (p + 2)) (\<lambda>bNbrPorts.
     bind (upd_hub this (\<lambda>h. h\<lparr>m_nPorts := unat bNbrPorts\<rparr>)) (\<lambda>_.
     if unat bNbrPorts > USB_HUB_MAX_PORTS then
       bind (LogWrite LOG_ERROR ''Too many ports (%u)'') (\<lambda>_.
       bind (drop_hub_desc this) (\<lambda>_. return False))
     else
     bind (USBStandardHubEnumeratePorts device_configure this) (\<lambda>ok.
     if \<not> ok then bind (LogWrite LOG_ERROR ''Port enumeration failed'') (\<lambda>_. return False)
     else return True)))))))))))))))"

section \<open>The function pointer and the recursion through hubs\<close>

definition call_configure ::
  "(nat \<Rightarrow> ('b usb_tree_scheme, bool) prog) \<Rightarrow> u64 \<Rightarrow> ('b usb_tree_scheme, bool) prog" where
  "call_configure device_configure p =
     bind (get_func p Configure) (\<lambda>f. case f of
         Configure_null \<Rightarrow> halt Null_deref
       | Configure_hub \<Rightarrow> USBStandardHubConfigure device_configure p
       | Configure_smsc951x \<Rightarrow> SMSC951xDeviceConfigure p
       | Configure_lan7800 \<Rightarrow> LAN7800DeviceConfigure p)"

text \<open>
  Every level of the recursion has used at least one interrupt of the controller before it goes down,
  so as many levels as there are interrupts to come, and one more, are enough.
\<close>

fun configure_depth :: "nat \<Rightarrow> nat \<Rightarrow> ('b usb_tree_scheme, bool) prog" where
  "configure_depth 0 d = halt Endless_loop"
| "configure_depth (Suc n) d = USBDeviceConfigure (call_configure (configure_depth n)) d"

definition device_configure :: "nat \<Rightarrow> ('b usb_tree_scheme, bool) prog" where
  "device_configure d = bind (gets irqs) (\<lambda>is. configure_depth (Suc (length is)) d)"

section \<open>The root port\<close>

definition DWHCIRootPort :: "bool \<Rightarrow> ('b usb_tree_scheme, unit) prog" where
  "DWHCIRootPort pHost =
     bind (modify (\<lambda>s. s\<lparr>rootport_host := pHost\<rparr>)) (\<lambda>_.
     bind (modify (\<lambda>s. s\<lparr>rootport_device := None\<rparr>)) (\<lambda>_. UK_ASSERT pHost))"

definition drop_root_device :: "nat \<Rightarrow> ('b usb_tree_scheme, unit) prog" where
  "drop_root_device d =
     bind (USBDevice_destroy d) (\<lambda>_.
     bind (free (of_nat d)) (\<lambda>_. modify (\<lambda>s. s\<lparr>rootport_device := None\<rparr>)))"

definition DWHCIRootPort_destroy :: "('b usb_tree_scheme, unit) prog" where
  "DWHCIRootPort_destroy =
     bind (gets rootport_device) (\<lambda>d.
     bind (case d of None \<Rightarrow> return () | Some d \<Rightarrow> drop_root_device d) (\<lambda>_.
     modify (\<lambda>s. s\<lparr>rootport_host := False\<rparr>)))"

definition DWHCIRootPortInitialize :: "('b usb_tree_scheme, bool) prog" where
  "DWHCIRootPortInitialize =
     bind (gets rootport_host) (\<lambda>h.
     bind (UK_ASSERT h) (\<lambda>_.
     bind DWHCIDeviceGetPortSpeed (\<lambda>Speed.
     if Speed = USBSpeedUnknown then bind (LogWrite LOG_ERROR ''Cannot detect port speed'') (\<lambda>_. return False) else
     bind (gets rootport_device) (\<lambda>d0.
     bind (UK_ASSERT (d0 = None)) (\<lambda>_.
     bind new_object (\<lambda>p.
     let d = unat p in
     bind (modify (\<lambda>s. s\<lparr>rootport_device := Some d\<rparr>)) (\<lambda>_.
     bind (USBDevice d h Speed False 0 1) (\<lambda>_.
     bind (USBDeviceInitialize d) (\<lambda>ok.
     if \<not> ok then bind (drop_root_device d) (\<lambda>_. return False) else
     bind (device_configure d) (\<lambda>ok.
     if \<not> ok then
       bind (LogWrite LOG_ERROR ''Cannot configure device'') (\<lambda>_.
       bind (drop_root_device d) (\<lambda>_. return False))
     else
     bind (LogWrite LOG_DEBUG ''Device configured'') (\<lambda>_.
     bind DWHCIDeviceOvercurrentDetected (\<lambda>over.
     if over then
       bind (LogWrite LOG_ERROR ''Over-current condition'') (\<lambda>_.
       bind DWHCIDeviceDisableRootPort (\<lambda>_.
       bind (drop_root_device d) (\<lambda>_. return False)))
     else return True))))))))))))"

section \<open>The host controller object\<close>

definition DEVICE_ID_USB_HCD :: u32 where "DEVICE_ID_USB_HCD = 3"

definition DWHCIDevice :: "('b usb_tree_scheme, unit) prog" where
  "DWHCIDevice =
     bind (modify (\<lambda>s. s\<lparr>m_nChannels := 0, m_nChannelAllocated := 0, m_bWaiting := False\<rparr>)) (\<lambda>_.
     DWHCIRootPort True)"

definition DWHCIDevice_destroy :: "('b usb_tree_scheme, unit) prog" where
  "DWHCIDevice_destroy = DWHCIRootPort_destroy"

definition power_on_usb :: "('b usb_tree_scheme, bool) prog" where
  "power_on_usb =
     bind (gets nData_addr) (\<lambda>a. bind (gets tag_addr) (\<lambda>b. bind (gets (take 12 \<circ> tag_junk)) (\<lambda>j.
     bind (SetPowerStateOn a b j DEVICE_ID_USB_HCD) (\<lambda>r. return (r \<noteq> 0)))))"

definition DWHCIDeviceInitialize :: "(u32 \<Rightarrow> int) \<Rightarrow> ('b usb_tree_scheme, bool) prog" where
  "DWHCIDeviceInitialize uk_intctlr_irq_register =
     bind DataMemBarrier (\<lambda>_.
     bind (DWHCIRegisterRead (DWHCIRegister DWHCI_CORE_VENDOR_ID)) (\<lambda>VendorId.
     if m_nBuffer VendorId \<noteq> 0x4F54280A then bind (LogWrite LOG_ERROR ''Unknown vendor 0x%0X'') (\<lambda>_. return False) else
     bind power_on_usb (\<lambda>ok.
     if \<not> ok then bind (LogWrite LOG_ERROR ''Cannot power on'') (\<lambda>_. return False) else
     bind (chain (DWHCIRegister DWHCI_CORE_AHB_CFG)
       [DWHCIRegisterRead, DWHCIRegisterAnd (NOT DWHCI_CORE_AHB_CFG_GLOBALINT_MASK), DWHCIRegisterWrite]) (\<lambda>_.
     if ukplat_irq_register uk_intctlr_irq_register IRQ_ID_RASPI_USB True < 0 then halt Crashed else
     bind (InterruptSystemEnableIRQ 9) (\<lambda>_.
     bind DWHCIDeviceInitCore (\<lambda>ok.
     if \<not> ok then bind (LogWrite LOG_ERROR ''Cannot initialize core'') (\<lambda>_. return False) else
     bind DWHCIDeviceEnableGlobalInterrupts (\<lambda>_.
     bind DWHCIDeviceInitHost (\<lambda>ok.
     if \<not> ok then bind (LogWrite LOG_ERROR ''Cannot initialize host'') (\<lambda>_. return False) else
     bind DWHCIDeviceEnableRootPort (\<lambda>ok.
     if \<not> ok then bind (LogWrite LOG_WARNING ''No device connected to root port'') (\<lambda>_. return True) else
     bind DWHCIRootPortInitialize (\<lambda>ok.
     if \<not> ok then bind (LogWrite LOG_WARNING ''Cannot initialize root port'') (\<lambda>_. return True)
     else bind DataMemBarrier (\<lambda>_. return True)))))))))))"

end
