(* ===== verification/StackUse.thy ===== *)
theory StackUse
  imports Machine
begin

text \<open>
  The use of the stack: \<^verbatim>\<open>raspi_info.c\<close>.  Where the stack has not been used, the
  start code has left a watermark in every double word; the search for the lowest used one is binary.
\<close>

definition MAX_ADDRESS :: u64 where "MAX_ADDRESS = 0x80000"
definition STACK_START :: u64 where "STACK_START = 0"
definition STACK_SIZE :: u64 where "STACK_SIZE = MAX_ADDRESS - STACK_START"

definition watermark :: "u64 \<Rightarrow> u64" where
  "watermark address = drop_bit 3 (MAX_ADDRESS - address)"

text \<open>\<open>word\<close> gives the double word at an address.\<close>

function search_stack :: "(u64 \<Rightarrow> u64) \<Rightarrow> u64 \<Rightarrow> u32 \<Rightarrow> u64" where
  "search_stack word address step =
     (if step \<ge> 8 then
        search_stack word (if watermark address = word address then address + ucast step else address - ucast step)
          (drop_bit 1 step)
      else address)"
  by auto

termination
proof (relation "measure (\<lambda>(word, address, step). unat step)")
  fix word :: "u64 \<Rightarrow> u64" and address :: u64 and step :: u32
  assume "8 \<le> step"
  then have "unat (drop_bit 1 step) < unat step"
    by (simp add: drop_bit_eq_div unat_div word_le_nat_alt)
  then show "((word, if watermark address = word address then address + ucast step else address - ucast step,
      drop_bit 1 step), (word, address, step)) \<in> measure (\<lambda>(word, address, step). unat step)"
    by simp
qed simp

declare search_stack.simps [simp del]

definition computeUsedStack :: "bool \<Rightarrow> (u64 \<Rightarrow> u64) \<Rightarrow> u64" where
  "computeUsedStack CONFIG_WATERMARK_STACK word =
     (if CONFIG_WATERMARK_STACK
      then MAX_ADDRESS - search_stack word (STACK_SIZE div 2 + STACK_START) (ucast (STACK_SIZE div 4))
      else 0)"

section \<open>The result of the search\<close>

definition dword :: "nat \<Rightarrow> u64" where "dword k = of_nat (8 * k)"
definition width :: "nat \<Rightarrow> u32" where "width j = of_nat (8 * 2 ^ j)"

lemma unat_dword: "k \<le> 0x10000 \<Longrightarrow> unat (dword k) = 8 * k"
  by (simp add: dword_def unat_of_nat del: of_nat_mult)

lemma dword_add: "dword p + dword q = dword (p + q)"
  by (simp add: dword_def algebra_simps)

lemma dword_diff: "q \<le> p \<Longrightarrow> dword p - dword q = dword (p - q)"
  by (simp add: dword_def algebra_simps of_nat_diff)

lemma unat_width: "j < 16 \<Longrightarrow> unat (width j) = 8 * 2 ^ j"
  using power_strict_increasing [of j 16 "2 :: nat"] by (simp add: width_def unat_of_nat del: of_nat_mult)

lemma width_Suc: "Suc j < 16 \<Longrightarrow> drop_bit 1 (width (Suc j)) = width j"
  by (rule word_unat_eq_iff [THEN iffD2]) (simp add: unat_width drop_bit_eq_div unat_div)

lemma ucast_width: "j < 16 \<Longrightarrow> ucast (width j) = dword (2 ^ j)"
  using unat_width [of j] by (metis dword_def of_nat_unat)

text \<open>
  \<open>marked word b\<close>: the double words below \<open>8 * b\<close> still hold their watermark, and no other one
  holds the value of its own.
\<close>

definition marked :: "(u64 \<Rightarrow> u64) \<Rightarrow> nat \<Rightarrow> bool" where
  "marked word b \<longleftrightarrow> (\<forall>k < 0x10000. (watermark (dword k) = word (dword k)) = (k < b))"

lemma search_stack_step:
  assumes "marked word b" and "p < 0x10000" and "2 ^ j \<le> p" and "j < 16"
  shows "search_stack word (dword p) (width j) =
     search_stack word (dword (if p < b then p + 2 ^ j else p - 2 ^ j)) (drop_bit 1 (width j))"
proof -
  have "8 \<le> width j" using assms(4) by (simp add: word_le_nat_alt unat_width)
  moreover have "(watermark (dword p) = word (dword p)) = (p < b)" using assms(1,2) by (simp add: marked_def)
  ultimately show ?thesis
    using assms(3,4) by (subst search_stack.simps) (simp add: ucast_width dword_add dword_diff)
qed

lemma search_stack_finds:
  assumes "marked word b" and "2 ^ Suc j \<le> p" and "p + 2 ^ Suc j \<le> 0x10000"
    and "p < b + 2 ^ Suc j" and "b \<le> p + 2 ^ Suc j" and "j < 16"
  shows "\<exists>q. search_stack word (dword p) (width j) = dword q \<and> (q = b \<or> Suc q = b)"
  using assms
proof (induction j arbitrary: p)
  case 0
  have "drop_bit 1 (width 0) = 4" by (simp add: width_def drop_bit_eq_div)
  with 0 search_stack_step [OF 0(1), of p 0] show ?case
    by (auto simp: search_stack.simps [of _ _ 4])
next
  case (Suc j)
  let ?q = "if p < b then p + 2 ^ Suc j else p - 2 ^ Suc j"
  have "search_stack word (dword p) (width (Suc j)) = search_stack word (dword ?q) (width j)"
    using search_stack_step [OF Suc.prems(1), of p "Suc j"] width_Suc [of j] Suc.prems by simp
  moreover have "2 ^ Suc j \<le> ?q" "?q + 2 ^ Suc j \<le> 0x10000" "?q < b + 2 ^ Suc j" "b \<le> ?q + 2 ^ Suc j"
    using Suc.prems by auto
  ultimately show ?case using Suc.IH [of ?q] Suc.prems by simp
qed

text \<open>
  C25. The measured use of the stack is right up to one double word: when the watermarks below
  \<open>8 * b\<close> are intact and none above is, and at least one double word is unused, the
  result is the number of bytes above that boundary, or 8 more.
\<close>

theorem used_stack_bounds:
  assumes "marked word b" and "0 < b" and "b \<le> 0x10000"
  shows "unat (computeUsedStack True word) \<in> {0x80000 - 8 * b, 0x80000 - 8 * b + 8}"
proof -
  have "\<exists>q. search_stack word (dword 0x8000) (width 14) = dword q \<and> (q = b \<or> Suc q = b)"
    by (rule search_stack_finds [OF assms(1)]) (use assms(2,3) in simp_all)
  then obtain q where q: "search_stack word (dword 0x8000) (width 14) = dword q" "q = b \<or> Suc q = b"
    by auto
  have le: "q \<le> 0x10000" using q(2) assms(3) by auto
  have "computeUsedStack True word = dword 0x10000 - dword q"
    using q(1) by (simp add: computeUsedStack_def STACK_SIZE_def STACK_START_def MAX_ADDRESS_def dword_def width_def)
  then have "unat (computeUsedStack True word) = 0x80000 - 8 * q"
    using le by (simp add: dword_diff unat_dword diff_mult_distrib2)
  then show ?thesis using q(2) assms by auto
qed

text \<open>A stack of which the upper half has been used.\<close>

definition half_used :: "u64 \<Rightarrow> u64" where
  "half_used a = (if a < 0x40000 then watermark a else 0)"

lemma half_used_marked: "marked half_used 0x8000"
proof -
  have "(watermark (dword k) = half_used (dword k)) = (k < 0x8000)" if k: "k < 0x10000" for k
  proof -
    have "MAX_ADDRESS - dword k = dword (0x10000 - k)"
      using k dword_diff [of k "0x10000"] by (simp add: MAX_ADDRESS_def dword_def)
    then have "unat (watermark (dword k)) = 0x10000 - k"
      using k by (simp add: watermark_def drop_bit_eq_div unat_div unat_dword)
    then have "watermark (dword k) \<noteq> 0" using k by auto
    moreover have "(dword k < 0x40000) = (k < 0x8000)" using k by (simp add: word_less_nat_alt unat_dword)
    ultimately show ?thesis by (simp add: half_used_def)
  qed
  then show ?thesis by (simp add: marked_def)
qed

theorem used_stack_bounds_witness: "unat (computeUsedStack True half_used) \<in> {0x40000, 0x40008}"
  using used_stack_bounds [OF half_used_marked] by simp

end
