(* ===== verification/Console.thy ===== *)
theory Console
  imports Irq Mailbox
begin

text \<open>
  The serial console: \<^verbatim>\<open>serial_console.c\<close> and \<^verbatim>\<open>console.c\<close>.
  A transmitter that stays full keeps the code waiting; the model is \<open>Starved\<close> when the hardware gives no
  more answers.  The main fact is what reaches the wire: the text with a carriage return in front of
  every line feed that has none.
\<close>

section \<open>The serial port\<close>

record console = platform +
  prev_sent_char :: u8
  mbox_addr :: u64

definition UART0_DR :: u64 where "UART0_DR = MMIO_BASE + 0x00201000"
definition UART0_FR :: u64 where "UART0_FR = MMIO_BASE + 0x00201018"
definition UART0_IBRD :: u64 where "UART0_IBRD = MMIO_BASE + 0x00201024"
definition UART0_FBRD :: u64 where "UART0_FBRD = MMIO_BASE + 0x00201028"
definition UART0_LCRH :: u64 where "UART0_LCRH = MMIO_BASE + 0x0020102C"
definition UART0_CR :: u64 where "UART0_CR = MMIO_BASE + 0x00201030"
definition UART0_ICR :: u64 where "UART0_ICR = MMIO_BASE + 0x00201044"
definition GPFSEL1 :: u64 where "GPFSEL1 = MMIO_BASE + 0x00200004"
definition GPPUD :: u64 where "GPPUD = MMIO_BASE + 0x00200094"
definition GPPUDCLK0 :: u64 where "GPPUDCLK0 = MMIO_BASE + 0x00200098"
definition MBOX_REQUEST :: u32 where "MBOX_REQUEST = 0"
definition MBOX_TAG_SETCLKRATE :: u32 where "MBOX_TAG_SETCLKRATE = 0x38002"
definition MBOX_TAG_LAST :: u32 where "MBOX_TAG_LAST = 0"
definition MBOX_CH_PROP :: u8 where "MBOX_CH_PROP = 8"

primrec wait_cycles :: "nat \<Rightarrow> ('b hw_scheme, unit) prog" where
  "wait_cycles 0 = return ()"
| "wait_cycles (Suc n) = wait_cycles n"

definition serial_tx_buffer_full :: "('b hw_scheme, u32) prog" where
  "serial_tx_buffer_full = bind (vread UART0_FR) (\<lambda>v. return (v AND 0x20))"

definition serial_rx_buffer_empty :: "('b hw_scheme, u32) prog" where
  "serial_rx_buffer_empty = bind (vread UART0_FR) (\<lambda>v. return (v AND 0x10))"

definition store_words :: "u64 \<Rightarrow> u32 list \<Rightarrow> ('b hw_scheme, unit) prog" where
  "store_words a ws = for_each (enumerate 0 ws) (\<lambda>(i, w). store32 (a + 4 * of_nat i) w)"

definition libraspiplat_init_serial_console :: "('b console_scheme, unit) prog" where
  "libraspiplat_init_serial_console =
     bind (vwrite UART0_CR 0) (\<lambda>_.
     bind (gets mbox_addr) (\<lambda>mbox.
     bind (store_words mbox [9 * 4, MBOX_REQUEST, MBOX_TAG_SETCLKRATE, 12, 8, 2, 4000000, 0, MBOX_TAG_LAST]) (\<lambda>_.
     bind (mbox_call mbox MBOX_CH_PROP) (\<lambda>_.
     bind (vread GPFSEL1) (\<lambda>r.
     block
       [vwrite GPFSEL1 ((r AND NOT (push_bit 12 7 OR push_bit 15 7)) OR (push_bit 12 4 OR push_bit 15 4)),
        vwrite GPPUD 0,
        wait_cycles 150,
        vwrite GPPUDCLK0 (push_bit 14 1 OR push_bit 15 1),
        wait_cycles 150,
        vwrite GPPUDCLK0 0,
        vwrite UART0_ICR 0x7FF,
        vwrite UART0_IBRD 2,
        vwrite UART0_FBRD 0xB,
        vwrite UART0_LCRH (push_bit 5 3),
        vwrite UART0_CR 0x301])))))"

text \<open>A character is a byte; \<open>char\<close> has no sign on this architecture.\<close>

definition CR :: u8 where "CR = 13"
definition LF :: u8 where "LF = 10"

definition wait_transmitter :: "('b hw_scheme, unit) prog" where
  "wait_transmitter = hw_until (bind serial_tx_buffer_full (\<lambda>f. return (if f \<noteq> 0 then None else Some ())))"

definition send_char :: "u8 \<Rightarrow> ('b console_scheme, unit) prog" where
  "send_char c =
     bind wait_transmitter (\<lambda>_.
     bind (vwrite UART0_DR (ucast c)) (\<lambda>_.
     modify (\<lambda>s. s\<lparr>prev_sent_char := c\<rparr>)))"

function libraspiplat_serial_putc :: "u8 \<Rightarrow> ('b console_scheme, unit) prog" where
  "libraspiplat_serial_putc c =
     bind (gets prev_sent_char) (\<lambda>p.
     bind (if c = LF \<and> p \<noteq> CR then libraspiplat_serial_putc CR else return ()) (\<lambda>_.
     send_char c))"
  by auto

termination
  by (relation "measure (\<lambda>c. if c = LF then 1 else 0)") (simp_all add: LF_def CR_def)

declare libraspiplat_serial_putc.simps [simp del]

definition libraspiplat_serial_getc :: "('b hw_scheme, int) prog" where
  "libraspiplat_serial_getc =
     bind serial_rx_buffer_empty (\<lambda>e.
     if e \<noteq> 0 then return (- 1)
     else bind (vread UART0_DR) (\<lambda>v. return (uint (ucast v :: u8))))"

section \<open>The console of the platform\<close>

text \<open>The configuration selects the serial port for the three users of the console.\<close>

record console_config =
  CONFIG_PRINTF :: bool
  CONFIG_DEBUG :: bool
  CONFIG_KERNEL :: bool

definition libraspiplat_init_console :: "console_config \<Rightarrow> ('b console_scheme, unit) prog" where
  "libraspiplat_init_console C =
     cond (CONFIG_PRINTF C \<or> CONFIG_DEBUG C \<or> CONFIG_KERNEL C) libraspiplat_init_serial_console"

definition ukplat_coutd :: "console_config \<Rightarrow> u8 list \<Rightarrow> u32 \<Rightarrow> ('b console_scheme, u32) prog" where
  "ukplat_coutd C buf len =
     bind (for_each [0..<unat len] (\<lambda>i.
       cond (CONFIG_PRINTF C \<or> CONFIG_DEBUG C) (libraspiplat_serial_putc (buf ! i)))) (\<lambda>_. return len)"

definition ukplat_coutk :: "console_config \<Rightarrow> u8 list \<Rightarrow> u32 \<Rightarrow> ('b console_scheme, u32) prog" where
  "ukplat_coutk C buf len =
     bind (for_each [0..<unat len] (\<lambda>i.
       cond (CONFIG_PRINTF C \<or> CONFIG_KERNEL C) (libraspiplat_serial_putc (buf ! i)))) (\<lambda>_. return len)"

fun receive_loop :: "nat \<Rightarrow> ('b hw_scheme, u8 list) prog" where
  "receive_loop 0 = return []"
| "receive_loop (Suc n) =
     bind libraspiplat_serial_getc (\<lambda>ret.
     if ret \<ge> 0 then bind (receive_loop n) (\<lambda>buf. return (of_int ret # buf)) else return [])"

text \<open>The result is what has been stored at \<open>buf\<close>; the number of its bytes is the result of the call.\<close>

definition ukplat_cink :: "console_config \<Rightarrow> u32 \<Rightarrow> ('b hw_scheme, u8 list) prog" where
  "ukplat_cink C maxlen =
     (if CONFIG_PRINTF C \<or> CONFIG_KERNEL C then receive_loop (unat maxlen) else return [])"

section \<open>What is sent\<close>

text \<open>The bytes on the wire for a text, after the byte \<open>p\<close>.\<close>

fun crlf :: "u8 \<Rightarrow> u8 list \<Rightarrow> u8 list" where
  "crlf p [] = []"
| "crlf p (c # cs) = (if c = LF \<and> p \<noteq> CR then [CR, LF] else [c]) @ crlf c cs"

definition sent :: "u8 list \<Rightarrow> 'b console_scheme \<Rightarrow> 'b console_scheme \<Rightarrow> bool" where
  "sent bs s t \<longleftrightarrow> writes (trace t) = writes (trace s) @ map (\<lambda>b. (UART0_DR, ucast b)) bs"

lemma prev_more: "hw.more t = hw.more s \<Longrightarrow> prev_sent_char t = prev_sent_char (s :: 'b console_scheme)"
  by (cases s; cases t) simp

lemma wp_wait_transmitter:
  fixes s :: "'b console_scheme"
  assumes "\<And>t. sent [] s t \<Longrightarrow> prev_sent_char t = prev_sent_char s \<Longrightarrow> Q () t" and "\<And>t. E Starved t"
  shows "wp wait_transmitter Q E s"
proof -
  let ?I = "\<lambda>t. sent [] s t \<and> prev_sent_char t = prev_sent_char s"
  have "sent [] s (u\<lparr>mmio_in := as, mem := m, rev_trace := EvRead a v # rev_trace u\<rparr>) = sent [] s u" for as m a v u
    by (simp add: sent_def trace_def)
  then show ?thesis
    unfolding wait_transmitter_def serial_tx_buffer_full_def
    by (intro wp_hw_until [where I = ?I]) (use assms in \<open>auto simp: wp_simps sent_def split: list.split\<close>)
qed

lemma wp_send:
  assumes "\<And>t. sent [c] s t \<Longrightarrow> prev_sent_char t = c \<Longrightarrow> Q () t" and "\<And>t. E Starved t"
  shows "wp (send_char c) Q E s"
  unfolding send_char_def wp_bind by (rule wp_wait_transmitter) (use assms in \<open>auto simp: wp_simps sent_def trace_def\<close>)

lemma sent_append: "sent as s t \<Longrightarrow> sent bs t u \<Longrightarrow> sent (as @ bs) s u"
  by (simp add: sent_def)

lemma wp_putc:
  assumes "\<And>t. sent (crlf (prev_sent_char s) [c]) s t \<Longrightarrow> prev_sent_char t = c \<Longrightarrow> Q () t" and "\<And>t. E Starved t"
  shows "wp (libraspiplat_serial_putc c) Q E s"
proof -
  have cr: "wp (libraspiplat_serial_putc CR) R E s" if "\<And>t. sent [CR] s t \<Longrightarrow> R () t" for R
    using that assms(2) by (subst libraspiplat_serial_putc.simps) (simp add: wp_bind wp_gets wp_return LF_def CR_def wp_send)
  show ?thesis
  proof (cases "c = LF \<and> prev_sent_char s \<noteq> CR")
    case True
    show ?thesis
      by (subst libraspiplat_serial_putc.simps)
        (use True assms in \<open>auto simp: wp_bind wp_gets intro!: cr wp_send dest: sent_append\<close>)
  next
    case False
    show ?thesis
      by (subst libraspiplat_serial_putc.simps)
        (use False assms in \<open>auto simp: wp_bind wp_gets wp_return intro!: wp_send\<close>)
  qed
qed

lemma wp_puts:
  assumes "\<And>t. sent (crlf (prev_sent_char s) cs) s t \<Longrightarrow> Q () t" and "\<And>t. E Starved t"
  shows "wp (for_each cs libraspiplat_serial_putc) Q E s"
  using assms(1)
proof (induction cs arbitrary: s)
  case Nil
  then show ?case by (simp add: wp_simps sent_def)
next
  case (Cons c cs)
  show ?case
    unfolding for_each.simps wp_bind
    by (rule wp_putc) (use Cons.prems assms(2) in \<open>auto intro!: Cons.IH dest: sent_append\<close>)
qed

lemma for_each_index:
  "n \<le> length xs \<Longrightarrow> for_each [0..<n] (\<lambda>i. f (xs ! i)) = for_each (take n xs) f"
proof -
  assume n: "n \<le> length xs"
  have "for_each is (\<lambda>i. f (xs ! i)) = for_each (map ((!) xs) is) f" for "is"
    by (induction "is") simp_all
  moreover have "map ((!) xs) [0..<n] = take n xs" using n by (intro nth_equalityI) simp_all
  ultimately show ?thesis by simp
qed

text \<open>
  C22. The kernel console translates line ends: a call with a text of \<open>len\<close> characters either still waits for
  the serial port, or returns \<open>len\<close> after it has sent exactly the text with a carriage return put
  in front of every line feed that does not follow one, the last character of an earlier call included.
\<close>

theorem coutk_text:
  assumes "unat len \<le> length buf" and "CONFIG_PRINTF C \<or> CONFIG_KERNEL C"
  shows "case ukplat_coutk C buf len s of
      Done r t \<Rightarrow> r = len \<and> sent (crlf (prev_sent_char s) (take (unat len) buf)) s t
    | Halt h t \<Rightarrow> h = Starved"
proof -
  have "wp (ukplat_coutk C buf len) (\<lambda>r t. r = len \<and> sent (crlf (prev_sent_char s) (take (unat len) buf)) s t)
      (\<lambda>h _. h = Starved) s"
    unfolding ukplat_coutk_def wp_bind using assms by (simp add: for_each_index wp_puts wp_return)
  then show ?thesis by (simp add: wp_def)
qed

definition console0 :: console where
  "console0 = \<lparr>mmio_in = [ans 0, ans 0, ans 0, ans 0, ans 0], sleeps = [], rev_trace = [], mem = \<lambda>_. 0, irq_on = True,
     s_nCriticalLevel = 0, s_bWereEnabled = False, log_level = None, cntv_ctl = 0, cntfrq = 0, mpidr = 0,
     timer_irq_delay = 0, handled = [], prev_sent_char = 0, mbox_addr = 0x1000\<rparr>"

definition kernel_config :: console_config where
  "kernel_config = \<lparr>CONFIG_PRINTF = False, CONFIG_DEBUG = False, CONFIG_KERNEL = True\<rparr>"

theorem coutk_text_witness:
  "\<exists>t. ukplat_coutk kernel_config [97, LF, CR, LF] 4 console0 = Done 4 t \<and>
     sent [97, CR, LF, CR, LF] console0 t"
proof -
  have "\<exists>t. ukplat_coutk kernel_config [97, LF, CR, LF] 4 console0 = Done 4 t"
    by (simp add: ukplat_coutk_def kernel_config_def console0_def ans_def bind_run upt_rec send_char_def libraspiplat_serial_putc.simps LF_def CR_def
        wait_transmitter_def serial_tx_buffer_full_def hw_until_def vread_def)
  then show ?thesis
    using coutk_text [of 4 "[97, LF, CR, LF]" kernel_config console0]
    by (auto simp: kernel_config_def LF_def CR_def console0_def)
qed

end
