(* ===== verification/SysTime.thy ===== *)
theory SysTime
  imports Irq
begin

text \<open>
  Time: \<^verbatim>\<open>time.c\<close>.  The functions of Unikraft's generic timer are parameters, and
  so is its clock, whose readings are a list.  The main facts are that the 64-bit counter that is read in two
  halves is a value it had during the call, and that a blocked thread sleeps until its time is over.
\<close>

section \<open>The generic timer\<close>

definition generic_timer_mask_irq :: "('b platform_scheme, unit) prog" where
  "generic_timer_mask_irq = modify (\<lambda>s. s\<lparr>cntv_ctl := cntv_ctl s OR GT_TIMER_MASK_IRQ\<rparr>)"

definition generic_timer_unmask_irq :: "('b platform_scheme, unit) prog" where
  "generic_timer_unmask_irq = modify (\<lambda>s. s\<lparr>cntv_ctl := cntv_ctl s AND NOT GT_TIMER_MASK_IRQ\<rparr>)"

definition generic_timer_get_frequency :: "('b platform_scheme, u32) prog" where
  "generic_timer_get_frequency = gets (\<lambda>s. ucast (cntfrq s))"

text \<open>The result is the number of times the processor was blocked.\<close>

fun time_block_until :: "int list \<Rightarrow> (int \<Rightarrow> ('s, unit) prog) \<Rightarrow> int \<Rightarrow> ('s, nat) prog" where
  "time_block_until [] generic_timer_cpu_block_until until = halt Starved"
| "time_block_until (now # clock) generic_timer_cpu_block_until until =
     (if now < until then
        bind (generic_timer_cpu_block_until until) (\<lambda>_.
        bind (time_block_until clock generic_timer_cpu_block_until until) (\<lambda>n. return (Suc n)))
      else return 0)"

text \<open>
  The three operations of the generic timer that the start of the clock calls, and the registration of
  an interrupt line.
\<close>

record 's generic_timer =
  generic_timer_update_boot_ticks :: "('s, unit) prog"
  generic_timer_init :: "('s, int) prog"
  generic_timer_enable :: "('s, unit) prog"

definition ukplat_time_init ::
  "'b platform_scheme generic_timer \<Rightarrow> (u32 \<Rightarrow> int) \<Rightarrow> ('b platform_scheme, unit) prog" where
  "ukplat_time_init G uk_intctlr_irq_register =
     bind (generic_timer_update_boot_ticks G) (\<lambda>_.
     bind (generic_timer_init G) (\<lambda>rc.
     if rc < 0 then halt Crashed else
     if ukplat_irq_register uk_intctlr_irq_register IRQ_ID_ARM_GENERIC_TIMER True < 0 then halt Crashed else
     bind generic_timer_mask_irq (\<lambda>_. generic_timer_enable G)))"

section \<open>The side timer that measures the delay of interrupts\<close>

definition RASPI_ARM_SIDE_TIMER_LOAD_INIT :: u32 where "RASPI_ARM_SIDE_TIMER_LOAD_INIT = 0x00FFFFFF"
definition RASPI_ARM_SIDE_TIMER_PREDIVIDER :: u64 where
  "RASPI_ARM_SIDE_TIMER_PREDIVIDER = RASPI_ARM_SIDE_TIMER_BASE + 0x41C"
definition RASPI_ARM_SIDE_TIMER_CTL_ENABLE_BIT :: u32 where "RASPI_ARM_SIDE_TIMER_CTL_ENABLE_BIT = push_bit 7 1"
definition RASPI_ARM_SIDE_TIMER_CTL_BITS_BIT :: u32 where "RASPI_ARM_SIDE_TIMER_CTL_BITS_BIT = push_bit 1 1"

definition raspi_arm_side_timer_init :: "('b hw_scheme, unit) prog" where
  "raspi_arm_side_timer_init = block
     [vwrite RASPI_ARM_SIDE_TIMER_CTL (RASPI_ARM_SIDE_TIMER_CTL_ENABLE_BIT OR RASPI_ARM_SIDE_TIMER_CTL_BITS_BIT),
      vwrite RASPI_ARM_SIDE_TIMER_PREDIVIDER 0,
      vwrite RASPI_ARM_SIDE_TIMER_LOAD RASPI_ARM_SIDE_TIMER_LOAD_INIT]"

definition handle_raspi_side_timer_irq :: "('b platform_scheme, int) prog" where
  "handle_raspi_side_timer_irq =
     bind (vread RASPI_ARM_SIDE_TIMER_VALUE) (\<lambda>timerValue1.
     bind (vread RASPI_ARM_SIDE_TIMER_VALUE) (\<lambda>timerValue2.
     bind raspi_arm_side_timer_irq_disable (\<lambda>_.
     bind raspi_arm_side_timer_irq_clear (\<lambda>_.
     bind (vread RASPI_ARM_SIDE_TIMER_LOAD) (\<lambda>l.
     bind (modify (\<lambda>s. s\<lparr>timer_irq_delay :=
       ucast ((ucast l - ucast timerValue1 :: u64) - (ucast timerValue1 - ucast timerValue2))\<rparr>)) (\<lambda>_.
     return 1))))))"

definition raspi_irq_delay_measurements_init :: "(u32 \<Rightarrow> int) \<Rightarrow> ('b hw_scheme, unit) prog" where
  "raspi_irq_delay_measurements_init uk_intctlr_irq_register =
     bind raspi_arm_side_timer_init (\<lambda>_.
     if ukplat_irq_register uk_intctlr_irq_register IRQ_ID_RASPI_ARM_SIDE_TIMER True < 0 then halt Crashed else return ())"

definition get_timer_irq_delay :: "('b platform_scheme, u32) prog" where
  "get_timer_irq_delay = gets timer_irq_delay"

definition reset_timer_irq_delay :: "('b platform_scheme, unit) prog" where
  "reset_timer_irq_delay = modify (\<lambda>s. s\<lparr>timer_irq_delay := 0\<rparr>)"

definition ukplat_time_get_irq :: u64 where
  "ukplat_time_get_irq = IRQ_ID_ARM_GENERIC_TIMER"

section \<open>The system timer\<close>

definition RASPI_SYS_TIMER_CLO :: u64 where "RASPI_SYS_TIMER_CLO = MMIO_BASE + 0x3004"
definition RASPI_SYS_TIMER_CHI :: u64 where "RASPI_SYS_TIMER_CHI = MMIO_BASE + 0x3008"

definition get_system_timer :: "('b hw_scheme, u64) prog" where
  "get_system_timer =
     bind (vread RASPI_SYS_TIMER_CHI) (\<lambda>h.
     bind (vread RASPI_SYS_TIMER_CLO) (\<lambda>l.
     bind (vread RASPI_SYS_TIMER_CHI) (\<lambda>h'.
     bind (if h \<noteq> h' then
         bind (vread RASPI_SYS_TIMER_CHI) (\<lambda>h. bind (vread RASPI_SYS_TIMER_CLO) (\<lambda>l. return (h, l)))
       else return (h, l)) (\<lambda>(h, l).
     return (push_bit 32 (ucast h) OR ucast l)))))"

section \<open>The value of the system timer\<close>

text \<open>The two halves of a 64-bit counter, and the value put together from them.\<close>

definition chi :: "nat \<Rightarrow> u32" where "chi c = of_nat (c div 2 ^ 32)"
definition clo :: "nat \<Rightarrow> u32" where "clo c = of_nat c"

lemma counter_value:
  assumes "c < 2 ^ 64" shows "unat (push_bit 32 (ucast (chi c)) OR ucast (clo c) :: u64) = c"
proof -
  have hi: "chi c = of_nat (drop_bit 32 c)" by (simp add: chi_def drop_bit_eq_div)
  have "push_bit 32 (ucast (chi c)) OR ucast (clo c) = (of_nat c :: u64)"
  proof (rule bit_word_eqI)
    fix n assume "n < LENGTH(64)"
    then show "bit (push_bit 32 (ucast (chi c)) OR ucast (clo c) :: u64) n = bit (of_nat c :: u64) n"
      by (cases "n < 32") (auto simp: hi clo_def bit_simps)
  qed
  then show ?thesis using assms by (simp add: unat_of_nat)
qed

text \<open>
  C24. The system timer is read consistently: the counter advances while its halves are read one after
  the other.  As long as the whole call takes less than a wrap of the lower half, the result is a value
  that the counter really had at one of the reads, never a mix of two values.
\<close>

theorem system_timer_value:
  assumes "mmio_in s = [ans (chi c1), ans (clo c2), ans (chi c3), ans (chi c4), ans (clo c5)] @ rest"
    and "c1 \<le> c2" "c2 \<le> c3" "c3 \<le> c4" "c4 \<le> c5" and "c5 < c1 + 2 ^ 32" and "c5 < 2 ^ 64"
  shows "\<exists>v t. get_system_timer s = Done v t \<and> (unat v = c2 \<or> unat v = c5)"
proof -
  have small: "c div 2 ^ 32 < 2 ^ 32" if "c \<le> c5" for c
    using that assms(7) by (simp add: less_mult_imp_div_less)
  have mono: "c1 div 2 ^ 32 \<le> c2 div 2 ^ 32" "c2 div 2 ^ 32 \<le> c3 div 2 ^ 32" "c3 div 2 ^ 32 \<le> c4 div 2 ^ 32"
    "c4 div 2 ^ 32 \<le> c5 div 2 ^ 32"
    using assms(2-5) by (simp_all add: div_le_mono)
  have wrap: "c5 div 2 ^ 32 \<le> Suc (c1 div 2 ^ 32)"
    using assms(6) div_le_mono [of c5 "c1 + 2 ^ 32" "2 ^ 32"] by simp
  have eq: "chi c = chi c' \<longleftrightarrow> c div 2 ^ 32 = c' div 2 ^ 32" if "c \<le> c5" "c' \<le> c5" for c c'
    using small [OF that(1)] small [OF that(2)] by (simp add: chi_def word_unat_eq_iff unat_of_nat)
  show ?thesis
  proof (cases "chi c1 = chi c3")
    case True
    then have "chi c1 = chi c2" using eq mono assms by simp
    with True show ?thesis
      using assms counter_value [of c2]
      by (simp add: get_system_timer_def bind_run vread_def ans_def)
  next
    case False
    then have "chi c4 = chi c5" using eq mono wrap assms by simp
    with False show ?thesis
      using assms counter_value [of c5]
      by (simp add: get_system_timer_def bind_run vread_def ans_def)
  qed
qed

text \<open>A wrap of the lower half between the first two reads.\<close>

theorem system_timer_value_witness:
  "\<exists>v t. get_system_timer (platform0 [ans 4, ans 0, ans 5, ans 5, ans 8]) = Done v t \<and>
     (unat v = 5 * 2 ^ 32 \<or> unat v = 5 * 2 ^ 32 + 8)"
proof -
  have "chi (5 * 2 ^ 32 - 1) = 4" "clo (5 * 2 ^ 32) = 0" "chi (5 * 2 ^ 32 + 2) = 5" "chi (5 * 2 ^ 32 + 4) = 5"
    "clo (5 * 2 ^ 32 + 8) = 8"
    by (simp_all add: chi_def clo_def word_unat_eq_iff)
  then show ?thesis
    by (intro system_timer_value [where ?c1.0 = "5 * 2 ^ 32 - 1" and ?c3.0 = "5 * 2 ^ 32 + 2"
          and ?c4.0 = "5 * 2 ^ 32 + 4" and rest = "[]"]) (simp_all add: platform0_def)
qed

end
