(* ===== verification/Lcpu.thy ===== *)
theory Lcpu
  imports Irq
begin

text \<open>
  The processors: \<^verbatim>\<open>lcpu_arch_rpi.c\<close>, \<^verbatim>\<open>lcpu.c\<close>,
  \<^verbatim>\<open>shutdown.c\<close> and the inter-processor interrupt of
  \<^verbatim>\<open>include/raspi/irq.h\<close>.  The allocation of a processor object and the queue
  of functions to run belong to Unikraft and are parameters.  The interrupt flag of the processor is the field
  \<open>irq_on\<close>; the macros of the architecture that save and restore it save its value.
\<close>

section \<open>Interrupts of the processor\<close>

definition ukplat_lcpu_enable_irq :: "('b hw_scheme, unit) prog" where
  "ukplat_lcpu_enable_irq = modify (\<lambda>s. s\<lparr>irq_on := True\<rparr>)"

definition ukplat_lcpu_disable_irq :: "('b hw_scheme, unit) prog" where
  "ukplat_lcpu_disable_irq = modify (\<lambda>s. s\<lparr>irq_on := False\<rparr>)"

definition ukplat_lcpu_save_irqf :: "('b hw_scheme, bool) prog" where
  "ukplat_lcpu_save_irqf = bind (gets irq_on) (\<lambda>flags. bind ukplat_lcpu_disable_irq (\<lambda>_. return flags))"

definition ukplat_lcpu_restore_irqf :: "bool \<Rightarrow> ('b hw_scheme, unit) prog" where
  "ukplat_lcpu_restore_irqf flags = modify (\<lambda>s. s\<lparr>irq_on := flags\<rparr>)"

definition ukplat_lcpu_irqs_disabled :: "('b hw_scheme, bool) prog" where
  "ukplat_lcpu_irqs_disabled = gets (\<lambda>s. \<not> irq_on s)"

definition ukplat_lcpu_irqs_handle_pending :: "('b hw_scheme, unit) prog" where
  "ukplat_lcpu_irqs_handle_pending = return ()"

text \<open>\<open>wfi\<close> stands for the wait of the processor, during which interrupts are handled.\<close>

definition ukplat_lcpu_halt_irq :: "('b hw_scheme, unit) prog \<Rightarrow> ('b hw_scheme, unit) prog" where
  "ukplat_lcpu_halt_irq wfi =
     bind ukplat_lcpu_irqs_disabled (\<lambda>off.
     bind (UK_ASSERT off) (\<lambda>_.
     block [ukplat_lcpu_enable_irq, wfi, ukplat_lcpu_disable_irq]))"

section \<open>Shutdown\<close>

definition cpu_halt :: "('s, unit) prog" where "cpu_halt = halt Endless_loop"

definition ukplat_terminate :: "('s, unit) prog" where "ukplat_terminate = cpu_halt"

definition ukplat_suspend :: int where "ukplat_suspend = - 16"

section \<open>Secondary cores\<close>

definition CACHE_LINE_SIZE :: u64 where "CACHE_LINE_SIZE = 64"
definition LOCAL_INTC_BASE :: u64 where "LOCAL_INTC_BASE = 0x40000000"
definition MAILBOX0_SET :: "u32 \<Rightarrow> u64" where "MAILBOX0_SET n = LOCAL_INTC_BASE + 0x80 + ucast (n * 0x10)"
definition QA7_MB0 :: "u32 \<Rightarrow> u64" where "QA7_MB0 c = ucast (0x40000080 + push_bit 4 c)"
definition QA7_MB1 :: "u32 \<Rightarrow> u64" where "QA7_MB1 c = ucast (0x40000084 + push_bit 4 c)"
definition QA7_MB2 :: "u32 \<Rightarrow> u64" where "QA7_MB2 c = ucast (0x40000088 + push_bit 4 c)"

definition lcpu_arch_id :: "('b platform_scheme, u64) prog" where
  "lcpu_arch_id = gets mpidr"

definition lcpu_arch_init :: int where "lcpu_arch_init = 0"

definition lcpu_arch_mp_init ::
  "nat \<Rightarrow> (nat \<Rightarrow> ('b hw_scheme, unit) prog) \<Rightarrow> ('b hw_scheme, int) prog" where
  "lcpu_arch_mp_init CONFIG_UKPLAT_LCPU_MAXCOUNT lcpu_alloc =
     bind (for_each [1..<CONFIG_UKPLAT_LCPU_MAXCOUNT] lcpu_alloc) (\<lambda>_.
     bind DataSyncBarrier (\<lambda>_. return 0))"

definition send_ipi :: "u32 \<Rightarrow> ('b hw_scheme, unit) prog" where
  "send_ipi n = block [DataSyncBarrier, vwrite (MAILBOX0_SET n) 1, DataSyncBarrier]"

definition start_on_core :: "u32 \<Rightarrow> u64 \<Rightarrow> u64 \<Rightarrow> ('b hw_scheme, unit) prog" where
  "start_on_core core fn arg = block
     [DataSyncBarrier,
      vwrite (QA7_MB1 core) (ucast (arg AND 0xFFFFFFFF)),
      vwrite (QA7_MB2 core) (ucast (drop_bit 32 arg)),
      vwrite (QA7_MB0 core) (ucast fn),
      DataSyncBarrier]"

text \<open>The lines that are flushed, one after the other; the loop ends since the addresses grow.\<close>

function flush_lines :: "u64 \<Rightarrow> u64 \<Rightarrow> ('b hw_scheme, unit) prog" where
  "flush_lines p end =
     (if p < end \<and> p \<le> - CACHE_LINE_SIZE - 1
      then bind (emit (EvCleanLine p)) (\<lambda>_. flush_lines (p + CACHE_LINE_SIZE) end)
      else if p < end then bind (emit (EvCleanLine p)) (\<lambda>_. halt Endless_loop)
      else return ())"
  by auto

termination
proof (relation "measure (\<lambda>(p, _). 2 ^ 64 - unat p)")
  fix p "end" :: u64
  assume "p < end \<and> p \<le> - CACHE_LINE_SIZE - 1"
  then have "unat p + 64 < 2 ^ 64" by (simp add: CACHE_LINE_SIZE_def word_le_nat_alt)
  then show "((p + CACHE_LINE_SIZE, end), (p, end)) \<in> measure (\<lambda>(p, _). 2 ^ 64 - unat p)"
    by (simp add: CACHE_LINE_SIZE_def unat_u64_add)
qed simp

declare flush_lines.simps [simp del]

definition flush_to_ram :: "u64 \<Rightarrow> u64 \<Rightarrow> ('b hw_scheme, unit) prog" where
  "flush_to_ram addr len =
     bind (flush_lines (addr AND NOT (CACHE_LINE_SIZE - 1)) (addr + len)) (\<lambda>_. DataSyncBarrier)"

text \<open>A processor object: its address, its size and the number of its core.\<close>

definition lcpu_arch_start :: "u64 \<Rightarrow> u64 \<Rightarrow> u32 \<Rightarrow> u64 \<Rightarrow> ('b hw_scheme, int) prog" where
  "lcpu_arch_start lcpu sizeof_lcpu lcpu_id lcpu_entry_default =
     bind (flush_to_ram lcpu sizeof_lcpu) (\<lambda>_.
     bind (start_on_core lcpu_id lcpu_entry_default lcpu) (\<lambda>_. return 0))"

definition lcpu_arch_run :: "('b hw_scheme, int) prog \<Rightarrow> u32 \<Rightarrow> ('b hw_scheme, int) prog" where
  "lcpu_arch_run lcpu_fn_enqueue lcpu_id =
     bind lcpu_fn_enqueue (\<lambda>rc.
     if rc \<noteq> 0 then return rc else
     bind DataSyncBarrier (\<lambda>_. bind (send_ipi lcpu_id) (\<lambda>_. return 0)))"

definition lcpu_arch_wakeup :: "u32 \<Rightarrow> ('b hw_scheme, int) prog" where
  "lcpu_arch_wakeup lcpu_id = bind (send_ipi lcpu_id) (\<lambda>_. return 0)"

section \<open>Facts\<close>

text \<open>The values written to the three mailboxes of a core, the latest first.\<close>

definition mailbox_value :: "u64 \<Rightarrow> (u64 \<times> u32) list \<Rightarrow> u32" where
  "mailbox_value a ws = the (map_of (rev ws) a)"

text \<open>What a waiting core makes of its mailboxes: the argument from two of them, the function from the third.\<close>

definition received_arg :: "u32 \<Rightarrow> (u64 \<times> u32) list \<Rightarrow> u64" where
  "received_arg core ws = push_bit 32 (ucast (mailbox_value (QA7_MB2 core) ws)) OR ucast (mailbox_value (QA7_MB1 core) ws)"

definition received_fn :: "u32 \<Rightarrow> (u64 \<times> u32) list \<Rightarrow> u64" where
  "received_fn core ws = ucast (mailbox_value (QA7_MB0 core) ws)"

lemma mailboxes_differ: "QA7_MB0 c \<noteq> QA7_MB1 c" "QA7_MB0 c \<noteq> QA7_MB2 c" "QA7_MB1 c \<noteq> QA7_MB2 c"
proof -
  have inj: "ucast (x :: u32) = (ucast y :: u64) \<longleftrightarrow> x = y" for x y by (metis unat_ucast_up(6) word_unat_eq_iff)
  show "QA7_MB0 c \<noteq> QA7_MB1 c" "QA7_MB0 c \<noteq> QA7_MB2 c" "QA7_MB1 c \<noteq> QA7_MB2 c"
    by (simp_all add: QA7_MB0_def QA7_MB1_def QA7_MB2_def inj)
qed

lemma split_join: "push_bit 32 (ucast (ucast (drop_bit 32 a) :: u32)) OR ucast (ucast (a AND 0xFFFFFFFF) :: u32) = (a :: u64)"
proof -
  have m: "(0xFFFFFFFF :: u64) = mask 32" by (simp add: mask_eq_exp_minus_1)
  have t: "a AND 0xFFFFFFFF = take_bit 32 a" unfolding m by (simp only: take_bit_eq_mask)
  show ?thesis
    unfolding t
  proof (rule bit_word_eqI)
    fix n assume "n < LENGTH(64)"
    then show "bit (push_bit 32 (ucast (ucast (drop_bit 32 a) :: u32)) OR ucast (ucast (take_bit 32 a) :: u32) :: u64) n = bit a n"
      by (cases "n < 32") (auto simp: bit_simps)
  qed
qed

lemma low_half: "ucast (ucast f :: u32) = f \<longleftrightarrow> f < (2 ^ 32 :: u64)"
proof -
  have "unat (ucast (ucast f :: u32) :: u64) = unat f mod 2 ^ 32"
    by (simp add: unsigned_ucast_eq take_bit_eq_mod unat_mod)
  then have "ucast (ucast f :: u32) = f \<longleftrightarrow> unat f mod 2 ^ 32 = unat f" by (simp add: word_unat_eq_iff)
  also have "\<dots> \<longleftrightarrow> unat f < 2 ^ 32" using mod_less_divisor [of "2 ^ 32" "unat f"] by auto
  finally show ?thesis by (simp add: word_less_nat_alt)
qed

text \<open>
  C21. A secondary core is started with the right argument: the two halves in its mailboxes are the whole
  64-bit address of its processor object, for every core and every address.  The function it is to run
  arrives exactly when its address fits in 32 bits, since only the lower half is sent.
\<close>

theorem core_handover:
  "\<exists>t ws. start_on_core core fn arg s = Done () t \<and> writes (trace t) = writes (trace s) @ ws \<and>
     received_arg core ws = arg \<and> (received_fn core ws = fn \<longleftrightarrow> fn < 2 ^ 32)"
proof -
  let ?ws = "[(QA7_MB1 core, ucast (arg AND 0xFFFFFFFF)), (QA7_MB2 core, ucast (drop_bit 32 arg)), (QA7_MB0 core, ucast fn)]"
  have "wp (start_on_core core fn arg) (\<lambda>_ t. writes (trace t) = writes (trace s) @ ?ws) (\<lambda>_ _. False) s"
    by (simp add: start_on_core_def wp_simps trace_def)
  moreover have "received_arg core ?ws = arg"
    using mailboxes_differ [of core] split_join [of arg] by (simp add: received_arg_def mailbox_value_def)
  moreover have "received_fn core ?ws = fn \<longleftrightarrow> fn < 2 ^ 32"
    using low_half [of fn] by (simp add: received_fn_def mailbox_value_def)
  ultimately show ?thesis
    by (auto simp: wp_def split: outcome.splits)
qed

end
