(* ===== verification/Setup.thy ===== *)
theory Setup
  imports Console SysTime Lcpu
begin

text \<open>
  The start of the platform: \<^verbatim>\<open>setup.c\<close>, \<^verbatim>\<open>io.c\<close> and
  \<^verbatim>\<open>memory.c\<close>.  The symbols of the linker are a record; the list of memory regions is
  kept by Unikraft, and its insertion is a parameter whose result the code only logs.
\<close>

section \<open>The memory regions\<close>

datatype memregion_type = UKPLAT_MEMRT_FREE | UKPLAT_MEMRT_RESERVED
datatype memregion_flag = UKPLAT_MEMRF_READ | UKPLAT_MEMRF_WRITE | UKPLAT_MEMRF_MAP

record memregion_desc =
  vbase :: u64
  pbase :: u64
  len :: u64
  region_type :: memregion_type
  flags :: "memregion_flag list"

record link_symbols =
  TEXT :: u64
  ETEXT :: u64
  RODATA :: u64
  ERODATA :: u64
  CTORS :: u64
  ECTORS :: u64
  DATA :: u64
  EDATA :: u64
  BSS_START :: u64
  LINK_END :: u64

definition PAGE_SIZE :: u64 where "PAGE_SIZE = 4096"

definition region :: "u64 \<Rightarrow> u64 \<Rightarrow> memregion_type \<Rightarrow> memregion_flag list \<Rightarrow> memregion_desc" where
  "region base n ty fl = \<lparr>vbase = base, pbase = base, len = n, region_type = ty, flags = fl\<rparr>"

definition heap_len :: "link_symbols \<Rightarrow> u64" where
  "heap_len L = ((MMIO_BASE div 2 - 1) - LINK_END L) div PAGE_SIZE * PAGE_SIZE"

definition memory_regions :: "link_symbols \<Rightarrow> memregion_desc list" where
  "memory_regions L =
     [region 0 (TEXT L) UKPLAT_MEMRT_RESERVED [UKPLAT_MEMRF_READ, UKPLAT_MEMRF_WRITE],
      region (TEXT L) (ETEXT L - TEXT L) UKPLAT_MEMRT_RESERVED [UKPLAT_MEMRF_READ],
      region (RODATA L) (ERODATA L - RODATA L) UKPLAT_MEMRT_RESERVED [UKPLAT_MEMRF_READ]] @
     (if ECTORS L - CTORS L \<noteq> 0
      then [region (CTORS L) (ECTORS L - CTORS L) UKPLAT_MEMRT_RESERVED [UKPLAT_MEMRF_READ]] else []) @
     [region (DATA L) (EDATA L - DATA L) UKPLAT_MEMRT_RESERVED [UKPLAT_MEMRF_READ, UKPLAT_MEMRF_WRITE],
      region (BSS_START L) (LINK_END L - BSS_START L) UKPLAT_MEMRT_RESERVED [UKPLAT_MEMRF_READ, UKPLAT_MEMRF_WRITE],
      region (LINK_END L) (heap_len L) UKPLAT_MEMRT_FREE [UKPLAT_MEMRF_READ, UKPLAT_MEMRF_WRITE, UKPLAT_MEMRF_MAP]]"

definition libraspiplat_mem_init ::
  "(memregion_desc \<Rightarrow> ('s, int) prog) \<Rightarrow> bool \<Rightarrow> link_symbols \<Rightarrow> ('s, unit) prog" where
  "libraspiplat_mem_init ukplat_memregion_list_insert bi L =
     (if \<not> bi then halt Crashed
      else for_each (memory_regions L) (\<lambda>r. bind (ukplat_memregion_list_insert r) (\<lambda>rc. return ())))"

definition ukplat_virt_to_phys :: "u64 \<Rightarrow> u64" where
  "ukplat_virt_to_phys address = address"

definition ukplat_mem_mappings_init :: int where
  "ukplat_mem_mappings_init = 0"

section \<open>The entry\<close>

definition SECONDARY_STACK_SIZE :: u64 where "SECONDARY_STACK_SIZE = 4096"

text \<open>
  What the entry calls of Unikraft, and the configuration.  \<open>ukplat_entry\<close> does not return; the
  entry gives \<open>True\<close> when it has reached that call.  \<open>secondary_stacks\<close> is the address of the
  stacks.
\<close>

record 's entry_env =
  conf :: console_config
  CONFIG_HAVE_SMP :: bool
  symbols :: link_symbols
  bootinfo :: bool
  memregion_list_insert :: "memregion_desc \<Rightarrow> ('s, int) prog"
  lcpu_mp_init :: "u32 \<Rightarrow> u32 \<Rightarrow> ('s, int) prog"
  ukplat_lcpu_count :: "('s, u32) prog"
  ukplat_lcpu_start :: "u32 list \<Rightarrow> u64 list \<Rightarrow> ('s, int) prog"
  secondary_stacks :: u64

record boot = console +
  assembly_entry :: u64
  hardware_init_done :: u64

definition libraspiplat_get_reset_time :: "('b boot_scheme, u64) prog" where
  "libraspiplat_get_reset_time = gets assembly_entry"

definition libraspiplat_get_hardware_init_time :: "('b boot_scheme, u64) prog" where
  "libraspiplat_get_hardware_init_time = gets hardware_init_done"

definition entry_time :: "u64 \<Rightarrow> u64 \<Rightarrow> u64 \<Rightarrow> u64 \<Rightarrow> u64" where
  "entry_time low0 hi0 low1 hi1 =
     (if hi0 = hi1 then (push_bit 32 hi0 AND 0xFFFFFFFF00000000) OR (low0 AND 0xFFFFFFFF)
      else (push_bit 32 hi1 AND 0xFFFFFFFF00000000) OR (low1 AND 0xFFFFFFFF))"

definition secondary_cores :: "u32 list" where "secondary_cores = [1, 2, 3]"

definition core_stacks :: "u64 \<Rightarrow> u64 list" where
  "core_stacks stacks = map (\<lambda>i. stacks + (of_nat i * SECONDARY_STACK_SIZE + SECONDARY_STACK_SIZE)) [0..<3]"

definition libraspiplat_entry ::
  "'b boot_scheme entry_env \<Rightarrow> u64 \<Rightarrow> u64 \<Rightarrow> u64 \<Rightarrow> u64 \<Rightarrow> ('b boot_scheme, bool) prog" where
  "libraspiplat_entry P low0 hi0 low1 hi1 =
     bind (libraspiplat_init_console (conf P)) (\<lambda>_.
     bind (libraspiplat_mem_init (memregion_list_insert P) (bootinfo P) (symbols P)) (\<lambda>_.
     bind ukplat_irq_init (\<lambda>_.
     bind (lcpu_mp_init P RPI_HWIRQ_MB_RUN RPI_HWIRQ_MB_WAKE) (\<lambda>rc.
     if rc \<noteq> 0 then return False else
     bind (modify (\<lambda>s. s\<lparr>assembly_entry := entry_time low0 hi0 low1 hi1\<rparr>)) (\<lambda>_.
     bind get_system_timer (\<lambda>now.
     bind (modify (\<lambda>s. s\<lparr>hardware_init_done := now\<rparr>)) (\<lambda>_.
     if \<not> CONFIG_HAVE_SMP P then return True else
     bind (ukplat_lcpu_count P) (\<lambda>total.
     if total < 2 then return False else
     bind (ukplat_lcpu_start P secondary_cores (core_stacks (secondary_stacks P))) (\<lambda>_.
     return True)))))))))"

section \<open>The layout of memory\<close>

text \<open>The sections of the image follow each other, and the image ends below the half of the peripheral base.\<close>

definition layout_ok :: "link_symbols \<Rightarrow> bool" where
  "layout_ok L \<longleftrightarrow> TEXT L \<le> ETEXT L \<and> ETEXT L \<le> RODATA L \<and> RODATA L \<le> ERODATA L \<and> ERODATA L \<le> CTORS L \<and>
     CTORS L \<le> ECTORS L \<and> ECTORS L \<le> DATA L \<and> DATA L \<le> EDATA L \<and> EDATA L \<le> BSS_START L \<and>
     BSS_START L \<le> LINK_END L \<and> LINK_END L \<le> MMIO_BASE div 2 - 1"

definition region_end :: "memregion_desc \<Rightarrow> nat" where
  "region_end r = unat (pbase r) + unat (len r)"

lemma unat_diff: "(a :: u64) \<le> b \<Longrightarrow> unat (b - a) = unat b - unat a"
  by (rule unat_sub)

lemma unat_heap_len:
  assumes "LINK_END L \<le> MMIO_BASE div 2 - 1"
  shows "unat (heap_len L) = (0x1F7FFFFF - unat (LINK_END L)) div 4096 * 4096"
proof -
  have m: "MMIO_BASE div 2 - 1 = (0x1F7FFFFF :: u64)"
    by (rule word_unat_eq_iff [THEN iffD2]) (simp add: MMIO_BASE_def unat_div)
  have d: "unat ((0x1F7FFFFF - LINK_END L) div PAGE_SIZE) = (0x1F7FFFFF - unat (LINK_END L)) div 4096"
    using assms m by (simp add: unat_div PAGE_SIZE_def unat_diff)
  have "(0x1F7FFFFF - unat (LINK_END L)) div 4096 * 4096 < 2 ^ 64"
    using div_times_less_eq_dividend [of "0x1F7FFFFF - unat (LINK_END L)" 4096] by simp
  then show ?thesis
    using d unat_u64_mult [of "(0x1F7FFFFF - LINK_END L) div PAGE_SIZE" PAGE_SIZE]
    by (simp add: heap_len_def m PAGE_SIZE_def)
qed

text \<open>
  C12. When the symbols of the linker script lie in the order of the script, below the half of the peripheral
  base, the memory regions that are handed to the kernel do not overlap: each one ends before the next one begins, and
  the last one, the heap, is a whole number of pages that ends below the half of the peripheral base, less
  than a page under it.
\<close>

theorem memory_regions_disjoint:
  assumes "layout_ok L"
  shows "sorted_wrt (\<lambda>r q. region_end r \<le> unat (pbase q)) (memory_regions L) \<and>
     (let h = last (memory_regions L) in
        region_type h = UKPLAT_MEMRT_FREE \<and> 4096 dvd unat (len h) \<and>
        region_end h \<le> 0x1F7FFFFF \<and> 0x1F7FFFFF < region_end h + 4096)"
proof -
  have le: "TEXT L \<le> ETEXT L" "ETEXT L \<le> RODATA L" "RODATA L \<le> ERODATA L" "ERODATA L \<le> CTORS L" "CTORS L \<le> ECTORS L"
    "ECTORS L \<le> DATA L" "DATA L \<le> EDATA L" "EDATA L \<le> BSS_START L" "BSS_START L \<le> LINK_END L"
    and top: "LINK_END L \<le> MMIO_BASE div 2 - 1"
    using assms by (simp_all add: layout_ok_def)
  have m: "MMIO_BASE div 2 - 1 = (0x1F7FFFFF :: u64)"
    by (rule word_unat_eq_iff [THEN iffD2]) (simp add: MMIO_BASE_def unat_div)
  have "unat (LINK_END L) \<le> 0x1F7FFFFF" using top m by (simp add: word_le_nat_alt)
  moreover from this have
    "unat (LINK_END L) + (0x1F7FFFFF - unat (LINK_END L)) div 4096 * 4096 \<le> 0x1F7FFFFF"
    "0x1F7FFFFF < unat (LINK_END L) + (0x1F7FFFFF - unat (LINK_END L)) div 4096 * 4096 + 4096"
    using div_mult_mod_eq [of "0x1F7FFFFF - unat (LINK_END L)" 4096]
      mod_less_divisor [of 4096 "0x1F7FFFFF - unat (LINK_END L)"] by linarith+
  ultimately show ?thesis
    using le [unfolded word_le_nat_alt]
    by (simp add: memory_regions_def region_def region_end_def Let_def unat_heap_len [OF top] unat_diff le)
qed

definition image0 :: link_symbols where
  "image0 = \<lparr>TEXT = 0x80000, ETEXT = 0x90000, RODATA = 0x90000, ERODATA = 0x98000, CTORS = 0x98000, ECTORS = 0x98000,
     DATA = 0x99000, EDATA = 0x9A000, BSS_START = 0x9A000, LINK_END = 0xB0000\<rparr>"

theorem memory_regions_disjoint_witness:
  "layout_ok image0 \<and> sorted_wrt (\<lambda>r q. region_end r \<le> unat (pbase q)) (memory_regions image0)"
proof -
  have "MMIO_BASE div 2 - 1 = (0x1F7FFFFF :: u64)"
    by (rule word_unat_eq_iff [THEN iffD2]) (simp add: MMIO_BASE_def unat_div)
  then have "layout_ok image0" by (simp add: layout_ok_def image0_def)
  then show ?thesis using memory_regions_disjoint [of image0] by simp
qed

end
