(* ===== verification/UsbFrame.thy ===== *)
theory UsbFrame
  imports UsbHub
begin

text \<open>
  What the whole USB tree keeps.  The locale \<open>object_types\<close> is the contract between the code and a
  typing of its objects: every update that the code makes of a device or of a hub keeps the
  type.  Inside of it, each operation up to the start of the host controller is shown to keep the
  types of all objects, to leave alone what lies above the tree, to gain no interrupts and, when the
  types say how long the arrays are, to use no index outside of them.
  The interpretations are the trivial typing, which gives the frame of any state, and the lengths of the
  arrays of the C types together with the bus addresses.
\<close>

section \<open>The contract\<close>

text \<open>A typing that knows the lengths of the arrays, and the indices that it allows.\<close>

definition arrays_typed :: "(TUSBDevice \<Rightarrow> bool) \<Rightarrow> (TUSBStandardHub \<Rightarrow> bool) \<Rightarrow> bool" where
  "arrays_typed dev_ok hub_ok \<longleftrightarrow> (\<forall>v. dev_ok v \<longrightarrow> length (m_pFunction v) = USBDEV_MAX_FUNCTIONS) \<and>
     (\<forall>h. hub_ok h \<longrightarrow> length (hub_pDevice h) = USB_HUB_MAX_PORTS \<and> length (m_pStatus h) = USB_HUB_MAX_PORTS)"

definition inside :: "(TUSBDevice \<Rightarrow> bool) \<Rightarrow> (TUSBStandardHub \<Rightarrow> bool) \<Rightarrow> nat \<Rightarrow> nat \<Rightarrow> bool" where
  "inside dev_ok hub_ok n k \<longleftrightarrow> arrays_typed dev_ok hub_ok \<longrightarrow> n < k"

lemma insideI: "n < k \<Longrightarrow> inside D H n k"
  by (simp add: inside_def)

lemma pres_for_each_in: "(\<And>i. i \<in> set is \<Longrightarrow> pres I (f i)) \<Longrightarrow> pres I (for_each is f)"
  by (induction "is") (simp_all add: pres_bind pres_return)

definition kept ::
  "(TUSBDevice \<Rightarrow> bool) \<Rightarrow> (TUSBStandardHub \<Rightarrow> bool) \<Rightarrow> 'b usb_tree_scheme \<Rightarrow> 'b usb_tree_scheme \<Rightarrow> bool" where
  "kept dev_ok hub_ok s t \<longleftrightarrow> usb_tree.more t = usb_tree.more s \<and> length (irqs t) \<le> length (irqs s) \<and>
     (\<forall>d. dev_ok (devs t d)) \<and> (\<forall>p. hub_ok (hubs t p)) \<and>
     (arrays_typed dev_ok hub_ok \<longrightarrow> array_overrun t = array_overrun s)"

lemma kept_upd [simp]:
  "kept D H s (t\<lparr>mallocs := a1\<rparr>) = kept D H s t" "kept D H s (t\<lparr>rootport_device := a2\<rparr>) = kept D H s t"
  "kept D H s (t\<lparr>s_ucNextAddress := a3\<rparr>) = kept D H s t" "kept D H s (t\<lparr>strings := b1\<rparr>) = kept D H s t"
  "kept D H s (t\<lparr>parsers := b2\<rparr>) = kept D H s t" "kept D H s (t\<lparr>parser_buffer := b3\<rparr>) = kept D H s t"
  "kept D H s (t\<lparr>funcs := b4\<rparr>) = kept D H s t" "kept D H s (t\<lparr>eths := b5\<rparr>) = kept D H s t"
  "kept D H s (t\<lparr>rootport_host := b6\<rparr>) = kept D H s t" "kept D H s (t\<lparr>names := b7\<rparr>) = kept D H s t"
  "kept D H s (t\<lparr>s_nLAN7800Number := b8\<rparr>) = kept D H s t" "kept D H s (t\<lparr>s_nSMSC951xNumber := b9\<rparr>) = kept D H s t"
  "kept D H s (t\<lparr>freed := c1\<rparr>) = kept D H s t" "kept D H s (t\<lparr>m_nChannels := c2\<rparr>) = kept D H s t"
  "kept D H s (t\<lparr>m_nChannelAllocated := c3\<rparr>) = kept D H s t" "kept D H s (t\<lparr>m_bWaiting := c4\<rparr>) = kept D H s t"
  by (simp_all add: kept_def)

lemma kept_calm1: "kept D H s0 s \<Longrightarrow> calm1 s t \<Longrightarrow> kept D H s0 t"
  using calm1_tree(5,10,11,17) [of s t] by (auto simp: kept_def calm1_def)

lemma kept_if_calm1:
  fixes m :: "('b usb_tree_scheme, 'a) prog"
  assumes "\<And>s0. pres (calm1 s0) m"
  shows "pres (kept D H s0) m"
  unfolding pres_def by (auto intro!: wp_calm1 [OF assms] intro: kept_calm1)

lemma kept_keeps:
  fixes m :: "('b usb_tree_scheme, 'a) prog"
  shows "keeps m \<Longrightarrow> pres (kept D H s0) m"
  by (rule kept_if_calm1, rule calm1_if_calm, rule calm_keeps)

text \<open>The exchanges with the firmware use the machine only.\<close>

lemma keeps_GetTag [keeps_intros]: "keeps (BcmPropertyTagsGetTag a b ty tag n)"
  unfolding BcmPropertyTagsGetTag_def build_request_def BcmMailBoxWriteRead_def BcmMailBoxFlush_def BcmMailBoxRead_def
    BcmMailBoxWrite_def store32_def load32_def
  by (intro keeps_intros)

lemma keeps_firmware [keeps_intros]: "keeps (GetMACAddress a b tag)" "keeps (SetPowerStateOn a b tag2 n)"
  unfolding GetMACAddress_def SetPowerStateOn_def by (intro keeps_intros)+

text \<open>So does the start of the controller.\<close>

lemma keeps_WaitForBit [keeps_intros]: "keeps (DWHCIDeviceWaitForBit r v b n)"
proof -
  have "keeps (wait_loop v b k r)" for k r
    by (induction k arbitrary: r) (simp_all only: wait_loop.simps, (intro keeps_intros | assumption)+)
  then show ?thesis unfolding DWHCIDeviceWaitForBit_def by (intro keeps_intros)
qed

lemma keeps_core [keeps_intros]:
  "keeps DWHCIDeviceReset" "keeps DWHCIDeviceEnableGlobalInterrupts" "keeps DWHCIDeviceEnableCommonInterrupts"
  "keeps DWHCIDeviceEnableHostInterrupts"
  unfolding DWHCIDeviceReset_def DWHCIDeviceEnableGlobalInterrupts_def DWHCIDeviceEnableHostInterrupts_def
    DWHCIDeviceEnableCommonInterrupts_def
  by (intro keeps_intros)+

lemma keeps_fifos [keeps_intros]: "keeps (DWHCIDeviceFlushTxFIFO n)" "keeps DWHCIDeviceFlushRxFIFO"
  unfolding DWHCIDeviceFlushTxFIFO_def DWHCIDeviceFlushRxFIFO_def by (intro keeps_intros)+

lemma keeps_ports [keeps_intros]:
  "keeps DWHCIDeviceInitHost" "keeps DWHCIDeviceEnableRootPort" "keeps DWHCIDeviceGetPortSpeed"
  "keeps DWHCIDeviceOvercurrentDetected" "keeps DWHCIDeviceDisableRootPort"
  unfolding DWHCIDeviceInitHost_def DWHCIDeviceEnableRootPort_def DWHCIDeviceGetPortSpeed_def
    DWHCIDeviceOvercurrentDetected_def DWHCIDeviceDisableRootPort_def fsls_48_mhz_def power_port_def
  by (intro keeps_intros)+

named_theorems kept_intros "operations that keep the types of the objects of the tree"

lemma kept_machine [kept_intros]:
  "pres (kept D H s0) (LogWrite sev msg)" "pres (kept D H s0) DataMemBarrier" "pres (kept D H s0) (MsDelay n)"
  "pres (kept D H s0) (usDelay n)" "pres (kept D H s0) (load p k)" "pres (kept D H s0) (store p bs)"
  "pres (kept D H s0) DWHCIDeviceGetPortSpeed" "pres (kept D H s0) DWHCIDeviceOvercurrentDetected"
  "pres (kept D H s0) DWHCIDeviceDisableRootPort"
  by (intro kept_keeps keeps_intros)+

lemma kept_controller [kept_intros]:
  "pres (kept D H s0) (DWHCIRegisterRead r)" "pres (kept D H s0) (DWHCIRegisterWrite r)" "pres (kept D H s0) (DWHCIRegisterGet r)"
  "pres (kept D H s0) (DWHCIRegisterAnd v r)" "pres (kept D H s0) (DWHCIRegisterOr v r)" "pres (kept D H s0) DWHCIDeviceReset"
  "pres (kept D H s0) DWHCIDeviceEnableCommonInterrupts" "pres (kept D H s0) DWHCIDeviceEnableGlobalInterrupts"
  "pres (kept D H s0) DWHCIDeviceInitHost" "pres (kept D H s0) DWHCIDeviceEnableRootPort"
  "pres (kept D H s0) (InterruptSystemEnableIRQ n)" "pres (kept D H s0) (SetPowerStateOn a b tag n2)"
  by (intro kept_keeps keeps_intros)+

lemma pres_chain_if: "pres I (chain x xs) \<Longrightarrow> pres I (chain x ys) \<Longrightarrow> pres I (chain x (if b then xs else ys))"
  by simp

lemma kept_memory [kept_intros]:
  "pres (kept D H s0) (load8 p)" "pres (kept D H s0) (load16 p)" "pres (kept D H s0) (load32 p)"
  "pres (kept D H s0) (load16s p k)" "pres (kept D H s0) (store32 p v)"
  unfolding load8_def load16_def load32_def load16s_def store32_def by (intro pres_intros kept_intros)+

lemma kept_local [kept_intros]: "pres (kept D H s0) (local_string m)"
  unfolding local_string_def by (simp add: pres_def wp_simps) (simp add: wp_def split: outcome.split)

lemma kept_host [kept_intros]:
  "pres (kept D H s0) (on_endpoint e m1)" "pres (kept D H s0) (on_urb u m2)"
  "pres (kept D H s0) (device_control d ty rq v i p n)" "pres (kept D H s0) (device_descriptor d dty ix p k ty)"
  by (intro kept_if_calm1 calm1_intros calm1_device_control)+

lemma kept_requests [kept_intros]:
  "pres (kept D H s0) (DWHCIDeviceControlMessage ep ty rq v i p n)" "pres (kept D H s0) (DWHCIDeviceTransfer ep p k)"
  "pres (kept D H s0) (DWHCIDeviceGetDescriptor ep dty ix p k ty)" "pres (kept D H s0) (DWHCIDeviceSetAddress ep a)"
  "pres (kept D H s0) (DWHCIDeviceSetConfiguration ep a)" "pres (kept D H s0) (DWHCIDeviceSubmitBlockingRequest u)"
  by (intro kept_if_calm1 calm1_requests eats_requests [THEN eats_calm1])+

lemma kept_heap [kept_intros]:
  "pres (kept D H s0) malloc" "pres (kept D H s0) new_object" "pres (kept D H s0) (free p)"
  by (auto simp: pres_def wp_simps split: list.split)

lemma kept_modify: "(\<And>s. kept D H s0 s \<Longrightarrow> kept D H s0 (f s)) \<Longrightarrow> pres (kept D H s0) (modify f)"
  by (rule pres_modify)

lemma kept_zoom [kept_intros]:
  "pres (kept D H s0) (on_string p m1)" "pres (kept D H s0) (on_parser p m2)" "pres (kept D H s0) (on_mac p m3)"
  "pres (kept D H s0) (on_names m4)"
  by (auto simp: pres_def wp_simps on_mac_def on_names_def) (auto simp: wp_def split: outcome.split)

lemma kept_access [kept_intros]:
  "pres (kept D H s0) (upd_func p f)" "pres (kept D H s0) (get_func p g)" "pres (kept D H s0) (get_dev d h)"
  "pres (kept D H s0) (upd_eth p f5)" "pres (kept D H s0) (get_eth p g6)" "pres (kept D H s0) (get_hub p g7)"
  by (auto simp: pres_def wp_simps upd_eth_def get_eth_def get_hub_def)

lemma kept_upd_dev: "(\<And>v. D v \<Longrightarrow> D (f v)) \<Longrightarrow> pres (kept D H s0) (upd_dev d f)"
  by (auto simp: pres_def wp_simps kept_def)

lemma kept_upd_hub: "(\<And>h. H h \<Longrightarrow> H (f h)) \<Longrightarrow> pres (kept D H s0) (upd_hub p f)"
  by (auto simp: pres_def wp_simps kept_def upd_hub_def)

lemma kept_function:
  assumes "inside D H n USBDEV_MAX_FUNCTIONS" and "\<And>v q. D v \<Longrightarrow> D (v\<lparr>m_pFunction := (m_pFunction v)[n := q]\<rparr>)"
  shows "pres (kept D H s0) (get_function d n)" "pres (kept D H s0) (set_function d n p)"
  using assms by (auto simp: pres_def wp_simps kept_def get_function_def set_function_def inside_def arrays_typed_def)

lemma kept_port:
  assumes "inside D H n USB_HUB_MAX_PORTS" and "\<And>h q. H h \<Longrightarrow> H (h\<lparr>hub_pDevice := (hub_pDevice h)[n := q]\<rparr>)"
    and "\<And>h q. H h \<Longrightarrow> H (h\<lparr>m_pStatus := (m_pStatus h)[n := q]\<rparr>)"
  shows "pres (kept D H s0) (hub_child f n)" "pres (kept D H s0) (set_child f n p)"
    "pres (kept D H s0) (port_status f n)" "pres (kept D H s0) (set_status f n p)"
  using assms by (auto simp: pres_def wp_simps kept_def hub_child_def set_child_def port_status_def set_status_def
      get_hub_def upd_hub_def inside_def arrays_typed_def)

locale object_types =
  fixes dev_ok :: "TUSBDevice \<Rightarrow> bool" and hub_ok :: "TUSBStandardHub \<Rightarrow> bool"
  assumes dev_new: "dev_ok v \<Longrightarrow> dev_ok (v\<lparr>m_pHost := b, m_ucAddress := USB_DEFAULT_ADDRESS, TUSBDevice.m_Speed := sp,
      m_pEndpoint0 := None, m_bSplitTransfer := bs, m_ucHubAddress := ha, m_ucHubPortNumber := hp,
      m_pDeviceDesc := 0, m_pConfigDesc := 0, m_pConfigParser := 0\<rparr>)"
    and dev_members: "dev_ok v \<Longrightarrow> dev_ok (v\<lparr>m_pEndpoint0 := ep\<rparr>)" "dev_ok v \<Longrightarrow> dev_ok (v\<lparr>m_ManufacturerString := st\<rparr>)"
      "dev_ok v \<Longrightarrow> dev_ok (v\<lparr>m_ProductString := st\<rparr>)" "dev_ok v \<Longrightarrow> dev_ok (v\<lparr>m_pConfigDesc := q\<rparr>)"
      "dev_ok v \<Longrightarrow> dev_ok (v\<lparr>m_pDeviceDesc := q\<rparr>)" "dev_ok v \<Longrightarrow> dev_ok (v\<lparr>m_pConfigParser := q\<rparr>)"
      "dev_ok v \<Longrightarrow> dev_ok (v\<lparr>m_pHost := b\<rparr>)"
    and dev_functions: "dev_ok v \<Longrightarrow> dev_ok (v\<lparr>m_pFunction := replicate USBDEV_MAX_FUNCTIONS 0\<rparr>)"
      "dev_ok v \<Longrightarrow> dev_ok (v\<lparr>m_pFunction := (m_pFunction v)[n := q]\<rparr>)"
    and dev_address: "dev_ok v \<Longrightarrow> a \<le> USB_MAX_ADDRESS \<Longrightarrow> dev_ok (v\<lparr>m_ucAddress := a\<rparr>)"
    and hub_new: "hub_ok h \<Longrightarrow> hub_ok (h\<lparr>m_pHubDesc := 0, m_nPorts := 0, hub_pDevice := replicate USB_HUB_MAX_PORTS 0,
      m_pStatus := replicate USB_HUB_MAX_PORTS 0\<rparr>)"
    and hub_arrays: "hub_ok h \<Longrightarrow> hub_ok (h\<lparr>hub_pDevice := (hub_pDevice h)[n := q]\<rparr>)"
      "hub_ok h \<Longrightarrow> hub_ok (h\<lparr>m_pStatus := (m_pStatus h)[n := q]\<rparr>)"
    and hub_members: "hub_ok h \<Longrightarrow> hub_ok (h\<lparr>m_pHubDesc := q\<rparr>)" "hub_ok h \<Longrightarrow> hub_ok (h\<lparr>m_nPorts := n\<rparr>)"

section \<open>Strings and functions\<close>

context object_types
begin

abbreviation types :: "'b usb_tree_scheme \<Rightarrow> 'b usb_tree_scheme \<Rightarrow> bool" where
  "types \<equiv> kept dev_ok hub_ok"

lemmas object_laws = dev_new dev_members dev_functions hub_new hub_arrays hub_members

lemma types_strings [kept_intros]:
  "pres (types s0) (USBString dev)" "pres (types s0) (USBStringCopy str)" "pres (types s0) (USBString_destroy str)"
  unfolding USBString_def USBStringCopy_def USBString_destroy_def by (intro pres_intros kept_intros)+

lemma types_string_read [kept_intros]: "pres (types s0) (USBStringGetFromDescriptor str i lang)"
  unfolding USBStringGetFromDescriptor_def convert_string_def by (intro pres_intros kept_intros)

lemma types_language [kept_intros]: "pres (types s0) (USBStringGetLanguageID str)"
  unfolding USBStringGetLanguageID_def choose_language_def by (intro pres_intros kept_intros)

lemma types_parsers [kept_intros]:
  "pres (types s0) (copy_parser q)" "pres (types s0) (set_interface_desc f q)" "pres (types s0) (parser_descriptor q ty)"
  unfolding copy_parser_def set_interface_desc_def parser_descriptor_def
  by (intro pres_intros kept_intros kept_modify; simp)+

lemma types_function [kept_intros]:
  "pres (types s0) (USBFunction f dev q)" "pres (types s0) (USBFunctionCopy f g)" "pres (types s0) (USBFunction_destroy f)"
  unfolding USBFunction_def USBFunctionCopy_def USBFunction_destroy_def by (intro pres_intros kept_intros)+

lemma types_function_access [kept_intros]:
  "pres (types s0) (interface_byte f off)" "pres (types s0) (USBFunctionGetDevice f)" "pres (types s0) (USBFunctionGetEndpoint0 f)"
  "pres (types s0) (USBFunctionGetHost f)" "pres (types s0) (USBFunctionGetDescriptor f ty)"
  "pres (types s0) (USBFunctionGetNumEndpoints f)"
  unfolding interface_byte_def USBFunctionGetDevice_def USBFunctionGetEndpoint0_def USBFunctionGetHost_def
    USBFunctionGetDescriptor_def USBFunctionGetNumEndpoints_def USBDeviceGetEndpoint0_def USBDeviceGetHost_def
  by (intro pres_intros kept_intros)+

lemma types_errors [kept_intros]:
  "pres (types s0) (USBConfigurationParserError P)" "pres (types s0) (USBFunctionConfigurationError f)"
  "pres (types s0) (USBDeviceConfigurationError d)"
  unfolding USBFunctionConfigurationError_def USBDeviceConfigurationError_def USBConfigurationParserError_def
  by (intro pres_intros kept_intros kept_keeps keeps_intros)+

lemma types_function_ops [kept_intros]:
  "pres (types s0) (function_control f ty rq v i p k)" "pres (types s0) (USBFunctionConfigure f)"
  "pres (types s0) (USBFunctionGetInterfaceName f)"
  unfolding function_control_def USBFunctionConfigure_def USBFunctionGetInterfaceName_def
  by (intro pres_intros kept_intros)+

section \<open>Devices\<close>

lemma types_names [kept_intros]: "pres (types s0) (name_is p txt)" "pres (types s0) (USBDeviceLogWrite d sev msg va)"
  unfolding name_is_def USBDeviceLogWrite_def by (intro pres_intros kept_intros)+

lemma types_GetName [kept_intros]: "pres (types s0) (USBDeviceGetName d sel)"
  unfolding USBDeviceGetName_def by (cases sel; simp; intro pres_intros kept_intros)

lemma types_GetNames [kept_intros]: "pres (types s0) (USBDeviceGetNames d)"
  unfolding USBDeviceGetNames_def append_name_def by (intro pres_intros kept_intros)

lemma types_USBDevice [kept_intros]: "pres (types s0) (USBDevice d h sp b ha hp)"
  unfolding USBDevice_def by (intro pres_intros kept_intros kept_upd_dev object_laws)

lemma types_device_parts [kept_intros]:
  "pres (types s0) (drop_config_desc d)"
  "pres (types s0) (drop_device_desc d)" "pres (types s0) (drop_parser d)" "pres (types s0) (drop_endpoint0 d)"
  unfolding drop_config_desc_def drop_device_desc_def drop_parser_def drop_endpoint0_def
  by (intro pres_intros kept_intros kept_upd_dev object_laws; assumption)+

abbreviation function_index :: "nat \<Rightarrow> bool" where
  "function_index n \<equiv> inside dev_ok hub_ok n USBDEV_MAX_FUNCTIONS"

lemma types_get_function [kept_intros]:
  "function_index n \<Longrightarrow> pres (types s0) (get_function d n)" "function_index n \<Longrightarrow> pres (types s0) (set_function d n p)"
  by (rule kept_function; simp add: dev_functions)+

lemma types_drop_function [kept_intros]:
  "function_index n \<Longrightarrow> pres (types s0) (drop_function d n)" "function_index n \<Longrightarrow> pres (types s0) (destroy_function d n)"
  unfolding destroy_function_def drop_function_def by (intro pres_intros kept_intros; assumption)+

lemma types_destroy_string:
  "(\<And>x v. dev_ok v \<Longrightarrow> dev_ok (set_str x v)) \<Longrightarrow> pres (types s0) (destroy_string d get_str set_str)"
  unfolding destroy_string_def by (intro pres_intros kept_intros kept_upd_dev)

lemma types_device_destroy [kept_intros]: "pres (types s0) (USBDevice_destroy d)"
  unfolding USBDevice_destroy_def
  by (intro pres_bind pres_for_each_in pres_intros kept_intros kept_upd_dev types_destroy_string object_laws)
    (auto intro: insideI)

lemma types_give_up [kept_intros]: "pres (types s0) m \<Longrightarrow> pres (types s0) (give_up d msg m)"
  unfolding give_up_def by (intro pres_intros kept_intros)

lemma types_endpoint0 [kept_intros]: "pres (types s0) (endpoint0_descriptor d ty p k)"
  unfolding endpoint0_descriptor_def by (intro pres_intros kept_intros)

lemma types_descriptors [kept_intros]: "pres (types s0) (read_device_descriptor d)" "pres (types s0) (read_config_descriptor d)"
  unfolding read_device_descriptor_def read_config_descriptor_def read_config_header_def
  by (intro pres_intros kept_intros kept_upd_dev object_laws kept_modify; (assumption | simp))+

lemma types_SetAddress [kept_intros]: "pres (types s0) (USBDeviceSetAddress d a)"
  by (auto simp: pres_def USBDeviceSetAddress_def wp_simps kept_def dev_address)

lemma types_assign [kept_intros]: "pres (types s0) (assign_address d)"
  unfolding assign_address_def by (intro pres_intros kept_intros kept_modify; simp)

lemma types_read_string:
  "(\<And>x v. dev_ok v \<Longrightarrow> dev_ok (set_str x v)) \<Longrightarrow> pres (types s0) (read_string d get_str set_str i lang)"
  unfolding read_string_def by (intro pres_intros kept_intros kept_upd_dev)

lemma types_read_strings [kept_intros]: "pres (types s0) (read_strings d)"
  unfolding read_strings_def by (intro pres_intros kept_intros types_read_string object_laws)

lemma types_log_found [kept_intros]: "pres (types s0) (log_found d)"
  unfolding log_found_def by (intro pres_intros kept_intros)

section \<open>Functions of a device\<close>

lemma types_class_new [kept_intros]:
  "pres (types s0) (USBStandardHub p f)" "pres (types s0) (SMSC951xDevice p f)" "pres (types s0) (LAN7800Device p f)"
  unfolding USBStandardHub_def SMSC951xDevice_def LAN7800Device_def eth_device_def
  by (intro pres_intros kept_intros kept_upd_hub object_laws; assumption)+

lemma types_factory [kept_intros]:
  fixes s0 :: "'b usb_tree_scheme"
  shows "pres (types s0) (USBDeviceFactoryGetDevice f name)"
proof -
  have m: "pres (types s0) (make_device c)" if "\<And>p. pres (types s0) (c p)" for c :: "u64 \<Rightarrow> ('b usb_tree_scheme, unit) prog"
    unfolding make_device_def by (intro pres_intros kept_intros that)
  have "pres (types s0) (first_match name tab)" if "\<forall>m \<in> snd ` set tab. pres (types s0) m"
    for tab :: "(string \<times> ('b usb_tree_scheme, u64) prog) list"
    using that by (induction name tab rule: first_match.induct) (auto intro!: pres_intros kept_intros)
  moreover have "\<forall>m \<in> snd ` set (factory_table f). pres (types s0) m"
    unfolding factory_table_def not_implemented_def by (auto intro!: m kept_intros pres_halt)
  ultimately show ?thesis
    unfolding USBDeviceFactoryGetDevice_def by (intro pres_intros kept_intros) auto
qed

lemma types_make_child [kept_intros]: "function_index n \<Longrightarrow> pres (types s0) (make_child d n)"
proof -
  assume n: "function_index n"
  have "pres (types s0) (vendor_child d f)" "pres (types s0) (interface_child d f)" for f
    unfolding vendor_child_def interface_child_def by (intro pres_intros kept_intros)+
  then show ?thesis unfolding make_child_def by (intro pres_intros kept_intros n)
qed

lemma types_DeviceGetDescriptor [kept_intros]: "pres (types s0) (USBDeviceGetDescriptor d ty)"
  unfolding USBDeviceGetDescriptor_def by (intro pres_intros kept_intros)

lemma types_function_loop: "k < USBDEV_MAX_FUNCTIONS \<Longrightarrow> pres (types s0) (function_loop n d k i)"
proof (induction n arbitrary: k i)
  case (Suc n)
  have last: "pres (types s0) (if Suc k = USBDEV_MAX_FUNCTIONS then m else function_loop n d (Suc k) j)"
    if "pres (types s0) m" for m j
    using Suc that by (cases "Suc k = USBDEV_MAX_FUNCTIONS") simp_all
  show ?case unfolding function_loop.simps
    by (intro pres_bind last pres_intros kept_intros Suc insideI)
qed (simp only: function_loop.simps pres_halt)

lemma types_DeviceInitialize [kept_intros]: "pres (types s0) (USBDeviceInitialize d)"
  unfolding USBDeviceInitialize_def find_functions_def 
  by (intro pres_intros kept_intros types_function_loop) (simp add: USBDEV_MAX_FUNCTIONS_def)

lemma types_configure_functions:
  "(\<And>p. pres (types s0) (call p)) \<Longrightarrow> (\<And>n. n \<in> set ns \<Longrightarrow> function_index n) \<Longrightarrow>
   pres (types s0) (configure_functions call d ns b)"
proof (induction ns arbitrary: b)
  case (Cons n ns)
  have "function_index n" "\<And>b. pres (types s0) (configure_functions call d ns b)" using Cons by simp_all
  then show ?case unfolding configure_functions.simps by (intro pres_intros kept_intros Cons(2))
qed (simp only: configure_functions.simps pres_return)

lemma types_DeviceConfigure: "(\<And>p. pres (types s0) (call p)) \<Longrightarrow> pres (types s0) (USBDeviceConfigure call d)"
  unfolding USBDeviceConfigure_def 
  by (intro pres_intros kept_intros types_configure_functions) (auto intro: insideI)

section \<open>The network chips\<close>

lemma types_mac_address [kept_intros]: "pres (types s0) the_mac_address"
  unfolding the_mac_address_def by (intro pres_intros kept_keeps keeps_intros)

lemma types_registers [kept_intros]: "pres (types s0) (write_register f i v)" "pres (types s0) (read_register f i)"
  unfolding write_register_def read_register_def by (intro pres_intros kept_intros)+

lemma types_new_endpoint [kept_intros]: "pres (types s0) (new_endpoint f a)"
  unfolding new_endpoint_def by (intro pres_intros kept_intros)

lemma types_endpoint_loop: "pres (types s0) (endpoint_loop n f)"
proof (induction n)
  case (Suc n)
  show ?case unfolding endpoint_loop.simps by (intro pres_intros kept_intros Suc)
qed (simp only: endpoint_loop.simps pres_halt)

lemma types_lan [kept_intros]:
  "pres (types s0) (find_endpoints f)" "pres (types s0) (three_endpoints f)" "pres (types s0) (set_interface f)"
  "pres (types s0) (add_eth f k)"
  unfolding find_endpoints_def three_endpoints_def set_interface_def add_eth_def
  by (intro pres_intros kept_intros types_endpoint_loop)+

lemma types_log_error [kept_intros]: "pres (types s0) m \<Longrightarrow> pres (types s0) (log_error msg m)"
  unfolding log_error_def by (intro pres_intros kept_intros)

lemma types_lan7800_regs [kept_intros]:
  "pres (types s0) (LAN7800DeviceReadReg f i)" "pres (types s0) (LAN7800DeviceWriteReg f i v)"
  "pres (types s0) (LAN7800DeviceReadWriteReg f i v w)"
  unfolding LAN7800DeviceReadWriteReg_def LAN7800DeviceReadReg_def LAN7800DeviceWriteReg_def
  by (intro pres_intros kept_intros)+

lemma types_wait_reg [kept_intros]: "pres (types s0) (LAN7800DeviceWaitReg f i m c)"
proof -
  have "pres (types s0) (wait_reg n f i m c)" for n
    by (induction n) (simp_all only: wait_reg.simps, (intro pres_intros kept_intros | assumption)+)
  then show ?thesis unfolding LAN7800DeviceWaitReg_def .
qed

lemma types_lan7800_phy [kept_intros]: "pres (types s0) (LAN7800DevicePHYWrite f i w)" "pres (types s0) (LAN7800DevicePHYRead f i)"
  unfolding LAN7800DevicePHYWrite_def LAN7800DevicePHYRead_def by (intro pres_intros kept_intros)+

lemma types_lan7800 [kept_intros]: "pres (types s0) (LAN7800DeviceConfigure f)"
  unfolding LAN7800DeviceConfigure_def start_hardware_def check_chip_id_def LAN7800DeviceInitMACAddress_def
    LAN7800DeviceInitPHY_def
  by (intro pres_intros kept_intros kept_modify; simp)

lemma types_smsc951x_regs [kept_intros]:
  "pres (types s0) (SMSC951xDeviceReadReg f i)" "pres (types s0) (SMSC951xDeviceWriteReg f i v)"
  unfolding SMSC951xDeviceReadReg_def SMSC951xDeviceWriteReg_def by (intro pres_intros kept_intros)+

lemma types_wait_not_busy [kept_intros]: "pres (types s0) (SMSC951xDevicePHYWaitNotBusy f)"
proof -
  have "pres (types s0) (wait_not_busy n f)" for n
    by (induction n) (simp_all only: wait_not_busy.simps, (intro pres_intros kept_intros | assumption)+)
  then show ?thesis unfolding SMSC951xDevicePHYWaitNotBusy_def .
qed

lemma types_smsc951x_phy [kept_intros]: "pres (types s0) (SMSC951xDevicePHYWrite f i w)" "pres (types s0) (SMSC951xDevicePHYRead f i)"
  unfolding SMSC951xDevicePHYWrite_def SMSC951xDevicePHYRead_def by (intro pres_intros kept_intros)+

lemma types_smsc951x [kept_intros]: "pres (types s0) (SMSC951xDeviceConfigure f)"
  unfolding SMSC951xDeviceConfigure_def set_mac_address_def program_mac_address_def
  by (intro pres_intros kept_intros kept_modify; simp)

section \<open>Hubs, the root port and the host controller\<close>

abbreviation port_index :: "nat \<Rightarrow> bool" where
  "port_index n \<equiv> inside dev_ok hub_ok n USB_HUB_MAX_PORTS"

lemma types_ports [kept_intros]:
  "port_index n \<Longrightarrow> pres (types s0) (hub_child f n)" "port_index n \<Longrightarrow> pres (types s0) (set_child f n p)"
  "port_index n \<Longrightarrow> pres (types s0) (port_status f n)" "port_index n \<Longrightarrow> pres (types s0) (set_status f n p)"
  by (rule kept_port; simp add: hub_arrays)+

lemma types_drop_hub_desc [kept_intros]: "pres (types s0) (drop_hub_desc f)"
  unfolding drop_hub_desc_def by (intro pres_intros kept_intros kept_upd_hub object_laws; assumption)

lemma types_drop_child [kept_intros]: "port_index n \<Longrightarrow> pres (types s0) (drop_child f n)"
  unfolding drop_child_def by (intro pres_intros kept_intros)

lemma types_feature [kept_intros]:
  "pres (types s0) (set_feature ep x n)" "pres (types s0) (power_off ep n)" "pres (types s0) (get_port_status ep p n)"
  unfolding set_feature_def power_off_def get_port_status_def by (intro pres_intros kept_intros)+

lemma types_power_ports [kept_intros]: "pres (types s0) (power_ports ep ns)"
proof (induction ns)
  case (Cons n ns)
  show ?case unfolding power_ports.simps by (intro pres_intros kept_intros Cons)
qed (simp only: power_ports.simps pres_return)

lemma types_attach [kept_intros]: "port_index n \<Longrightarrow> pres (types s0) (attach_device f n v)"
  unfolding attach_device_def by (intro pres_intros kept_intros)

lemma types_detect: "(\<And>n. n \<in> set ns \<Longrightarrow> port_index n) \<Longrightarrow> pres (types s0) (detect_ports ep f ns)"
proof (induction ns)
  case (Cons n ns)
  have "port_index n" "pres (types s0) (detect_ports ep f ns)" using Cons by simp_all
  then show ?case unfolding detect_ports.simps detect_port_def by (intro pres_intros kept_intros)
qed (simp only: detect_ports.simps pres_return)

lemma types_configure_port:
  "(\<And>d. pres (types s0) (conf d)) \<Longrightarrow> port_index n \<Longrightarrow> pres (types s0) (configure_port conf f n)"
  unfolding configure_port_def by (intro pres_intros kept_intros)

lemma types_hub_status [kept_intros]: "pres (types s0) (check_hub_status ep f)"
  unfolding check_hub_status_def power_off_all_def by (intro pres_intros kept_intros)

lemma types_port_status: "(\<And>n. n \<in> set ns \<Longrightarrow> port_index n) \<Longrightarrow> pres (types s0) (check_port_status ep f ns b)"
proof (induction ns arbitrary: b)
  case (Cons n ns)
  have "port_index n" "\<And>b. pres (types s0) (check_port_status ep f ns b)" using Cons by simp_all
  then show ?case unfolding check_port_status.simps by (intro pres_intros kept_intros)
qed (simp only: check_port_status.simps pres_return)

lemma types_enumerate:
  assumes "\<And>d. pres (types s0) (conf d)" and "\<And>i. i < n \<Longrightarrow> port_index i"
  shows "pres (types s0) (enumerate_ports conf f ep n)"
proof -
  have "port_index i" if "i \<in> set [0..<n]" for i using that assms(2) by simp
  then show ?thesis unfolding enumerate_ports_def
    by (intro pres_bind pres_for_each_in types_detect types_port_status types_configure_port assms(1)
        pres_intros kept_intros)
qed

text \<open>The number of ports is stored and compared with the length of the arrays before they are used.\<close>

lemma types_number_ports:
  assumes "\<And>d. pres (types s0) (conf d)" and "pres (types s0) m" and "\<And>ok. pres (types s0) (k ok)"
  shows "pres (types s0) (bind (upd_hub f (\<lambda>h. h\<lparr>m_nPorts := n\<rparr>)) (\<lambda>_.
    if n > USB_HUB_MAX_PORTS then m else bind (USBStandardHubEnumeratePorts conf f) k))"
proof (rule presI)
  fix s assume s: "types s0 s"
  let ?I = "\<lambda>t. types s0 t \<and> m_nPorts (hubs t f) = n"
  let ?t = "s\<lparr>hubs := (hubs s)(f := (hubs s f)\<lparr>m_nPorts := n\<rparr>)\<rparr>"
  have t: "?I ?t" using s hub_members(2) by (simp add: kept_def)
  have enum: "wp (USBStandardHubEnumeratePorts conf f) (\<lambda>_. types s0) (\<lambda>_. types s0) ?t" if n: "n \<le> USB_HUB_MAX_PORTS"
  proof -
    have reads: "pres ?I (USBFunctionGetHost f)" "pres ?I (USBFunctionGetEndpoint0 f)"
      unfolding USBFunctionGetHost_def USBFunctionGetEndpoint0_def USBDeviceGetHost_def USBDeviceGetEndpoint0_def
        USBFunctionGetDevice_def get_func_def get_dev_def
      by (intro pres_intros)+
    have body: "wp (enumerate_ports conf f ep n) (\<lambda>_. types s0) (\<lambda>_. types s0) u" if "types s0 u" for ep u
      by (rule presD [OF types_enumerate that]) (use n assms(1) in \<open>simp_all add: insideI\<close>)
    have ep: "wp (bind (USBFunctionGetEndpoint0 f) (\<lambda>ep. bind (get_hub f m_nPorts) (\<lambda>n. enumerate_ports conf f ep n)))
        (\<lambda>_. types s0) (\<lambda>_. types s0) u" if u: "?I u" for u
      unfolding wp_bind
      by (rule wp_mono [OF presD [OF reads(2) u]]) (auto simp: get_hub_def wp_simps body)
    show ?thesis unfolding USBStandardHubEnumeratePorts_def wp_bind [of "USBFunctionGetHost f"]
      by (rule wp_mono [OF presD [OF reads(1) t]]) (auto simp: ep)
  qed
  show "wp (bind (upd_hub f (\<lambda>h. h\<lparr>m_nPorts := n\<rparr>)) (\<lambda>_.
      if n > USB_HUB_MAX_PORTS then m else bind (USBStandardHubEnumeratePorts conf f) k)) (\<lambda>_. types s0) (\<lambda>_. types s0) s"
  proof (cases "n > USB_HUB_MAX_PORTS")
    case True
    then show ?thesis using presD [OF assms(2)] t by (simp add: upd_hub_def wp_simps)
  next
    case False
    then show ?thesis
      using enum presD [OF assms(3)] by (auto simp: upd_hub_def wp_simps intro: wp_mono)
  qed
qed

lemma types_hub:
  assumes "\<And>d. pres (types s0) (conf d)"
  shows "pres (types s0) (USBStandardHubConfigure conf f)"
  unfolding USBStandardHubConfigure_def
  by (intro types_number_ports assms pres_intros kept_intros kept_upd_hub object_laws; assumption)

lemma types_call_configure:
  assumes "\<And>d. pres (types s0) (conf d)"
  shows "pres (types s0) (call_configure conf p)"
proof -
  have "pres (types s0) (case c of Configure_null \<Rightarrow> halt Null_deref | Configure_hub \<Rightarrow> USBStandardHubConfigure conf p
      | Configure_smsc951x \<Rightarrow> SMSC951xDeviceConfigure p | Configure_lan7800 \<Rightarrow> LAN7800DeviceConfigure p)" for c
    by (cases c) (simp_all only: configure.case pres_halt types_smsc951x types_lan7800 types_hub [OF assms])
  then show ?thesis unfolding call_configure_def by (intro pres_intros kept_intros)
qed

lemma types_configure_depth: "pres (types s0) (configure_depth n d)"
proof (induction n arbitrary: d)
  case (Suc n)
  show ?case unfolding configure_depth.simps by (intro types_DeviceConfigure types_call_configure Suc)
qed (simp only: configure_depth.simps pres_halt)

lemma types_configure [kept_intros]: "pres (types s0) (device_configure d)"
  unfolding device_configure_def by (intro pres_intros types_configure_depth)

lemma types_drop_root [kept_intros]: "pres (types s0) (drop_root_device d)"
  unfolding drop_root_device_def by (intro pres_intros kept_intros kept_modify; simp)

lemma types_root_port [kept_intros]:
  "pres (types s0) (DWHCIRootPort b)" "pres (types s0) DWHCIRootPort_destroy" "pres (types s0) DWHCIDevice"
  "pres (types s0) DWHCIDevice_destroy"
  unfolding DWHCIDevice_def DWHCIDevice_destroy_def DWHCIRootPort_def DWHCIRootPort_destroy_def
  by (intro pres_intros kept_intros kept_modify; simp)+

lemma types_DWHCIDevice [kept_intros]:
  fixes s0 :: "'b usb_tree_scheme"
  shows "pres (types s0) DWHCIDeviceInitCore"
  unfolding DWHCIDeviceInitCore_def by (intro pres_intros kept_intros pres_chain_if kept_modify; simp)

lemma types_RootPortInitialize [kept_intros]: "pres (types s0) DWHCIRootPortInitialize"
  unfolding DWHCIRootPortInitialize_def by (intro pres_intros kept_intros kept_modify; simp)

lemma types_DWHCIDeviceInitialize [kept_intros]: "pres (types s0) (DWHCIDeviceInitialize reg)"
  unfolding DWHCIDeviceInitialize_def power_on_usb_def by (intro pres_intros kept_intros)

end

section \<open>The frame of the tree, and the recursion through hubs\<close>

interpretation frame: object_types "\<lambda>_. True" "\<lambda>_. True"
  by unfold_locales simp_all

text \<open>The trivial typing knows no lengths, and so it asks for no bounds.\<close>

lemma frame_inside [kept_intros]: "inside (\<lambda>_. True) (\<lambda>_. True) n k"
proof -
  have "\<not> arrays_typed (\<lambda>_. True) (\<lambda>_. True)"
    by (auto simp: arrays_typed_def USBDEV_MAX_FUNCTIONS_def intro!: exI [of _ "v\<lparr>m_pFunction := []\<rparr>" for v])
  then show ?thesis by (simp add: inside_def)
qed

lemmas frame_loops [kept_intros] = frame.types_detect frame.types_port_status

text \<open>\<open>agree k m m'\<close>: the two runs are the same where at most \<open>k\<close> interrupts are to come.\<close>

definition agree :: "nat \<Rightarrow> ('b usb_tree_scheme, 'a) prog \<Rightarrow> ('b usb_tree_scheme, 'a) prog \<Rightarrow> bool" where
  "agree k m m' \<longleftrightarrow> (\<forall>s. length (irqs s) \<le> k \<longrightarrow> m s = m' s)"

named_theorems agree_intros "congruence of the combinators for runs with a bounded number of interrupts"

lemma agree_refl [agree_intros]: "agree k m m"
  by (simp add: agree_def)

lemma agree_bind [agree_intros]:
  fixes m :: "('b usb_tree_scheme, 'a) prog"
  assumes "agree k m m'" and "\<And>s0. pres (frame.types s0) m" and "\<And>x. agree k (f x) (f' x)"
  shows "agree k (bind m f) (bind m' f')"
  unfolding agree_def
proof (intro allI impI)
  fix s :: "'b usb_tree_scheme"
  assume s: "length (irqs s) \<le> k"
  have "length (irqs t) \<le> k" if "m s = Done x t" for x t
    using pres_DoneD [OF assms(2) _ that, of s] s by (simp add: kept_def)
  then show "bind m f s = bind m' f' s"
    using assms(1,3) s by (auto simp: agree_def bind_run split: outcome.split)
qed

lemma agree_eats:
  fixes m :: "('b usb_tree_scheme, 'a) prog"
  assumes "eats P m" and "\<And>x k'. P x \<Longrightarrow> k' < k \<Longrightarrow> agree k' (f x) (f' x)" and "\<And>x. \<not> P x \<Longrightarrow> agree k (f x) (f' x)"
  shows "agree k (bind m f) (bind m f')"
  unfolding agree_def
proof (intro allI impI)
  fix s :: "'b usb_tree_scheme"
  assume s: "length (irqs s) \<le> k"
  have "f x t = f' x t" if "m s = Done x t" for x t
  proof -
    have t: "length (irqs t) \<le> length (irqs s)" "P x \<longrightarrow> length (irqs t) < length (irqs s)"
      using wp_DoneD [OF eats_wp [OF assms(1)] that] by (auto simp: calm1_def)
    show ?thesis
    proof (cases "P x")
      case True
      with t(2) s have "length (irqs t) < k" by simp
      from assms(2) [OF True this] show ?thesis by (simp add: agree_def)
    qed (use assms(3) s t(1) in \<open>simp add: agree_def\<close>)
  qed
  then show "bind m f s = bind m f' s" by (auto simp: bind_run split: outcome.split)
qed

lemma agree_if [agree_intros]: "agree k m m' \<Longrightarrow> agree k n n' \<Longrightarrow> agree k (if b then m else n) (if b then m' else n')"
  by simp

lemma agree_case_prod [agree_intros]:
  "(\<And>x y. agree k (f x y) (f' x y)) \<Longrightarrow> agree k (case z of (x, y) \<Rightarrow> f x y) (case z of (x, y) \<Rightarrow> f' x y)"
  by (cases z) simp

lemma agree_for_each [agree_intros]:
  "(\<And>i. agree k (f i) (f' i)) \<Longrightarrow> (\<And>i s0. pres (frame.types s0) (f i)) \<Longrightarrow> agree k (for_each is f) (for_each is f')"
  by (induction "is") (simp_all add: agree_refl agree_bind)

lemma frame_enum: "(\<And>d. pres (frame.types s0) (conf d)) \<Longrightarrow> pres (frame.types s0) (USBStandardHubEnumeratePorts conf f)"
  unfolding USBStandardHubEnumeratePorts_def
  by (intro frame.types_enumerate pres_intros kept_intros)

lemma agree_configure_functions:
  assumes "\<And>p. agree k (call p) (call' p)" and "\<And>p s0. pres (frame.types s0) (call p)"
  shows "agree k (configure_functions call d ns b) (configure_functions call' d ns b)"
proof (induction ns arbitrary: b)
  case (Cons n ns)
  show ?case unfolding configure_functions.simps
    by (intro agree_intros assms Cons kept_intros)
qed (simp only: configure_functions.simps agree_refl)

lemma agree_call_configure:
  assumes "\<And>d. agree k (conf d) (conf' d)" and "\<And>d s0. pres (frame.types s0) (conf d)"
  shows "agree k (call_configure conf p) (call_configure conf' p)"
proof -
  have port: "agree k (configure_port conf p n) (configure_port conf' p n)" for n
    unfolding configure_port_def by (intro agree_intros assms kept_intros)
  have enum: "agree k (USBStandardHubEnumeratePorts conf p) (USBStandardHubEnumeratePorts conf' p)"
    unfolding USBStandardHubEnumeratePorts_def enumerate_ports_def
    by (rule port agree_refl frame.types_configure_port assms(2) pres_intros kept_intros agree_intros)+
  have upd: "pres (frame.types s0) (upd_hub p f)" for f and s0 :: "'a usb_tree_scheme"
    by (rule kept_upd_hub) simp
  have "agree k (USBStandardHubConfigure conf p) (USBStandardHubConfigure conf' p)"
    unfolding USBStandardHubConfigure_def
    by (rule enum upd agree_refl pres_intros kept_intros agree_intros | (rule frame_enum, rule assms(2)))+
  then have "agree k (case c of Configure_null \<Rightarrow> halt Null_deref | Configure_hub \<Rightarrow> USBStandardHubConfigure conf p
        | Configure_smsc951x \<Rightarrow> SMSC951xDeviceConfigure p | Configure_lan7800 \<Rightarrow> LAN7800DeviceConfigure p)
      (case c of Configure_null \<Rightarrow> halt Null_deref | Configure_hub \<Rightarrow> USBStandardHubConfigure conf' p
        | Configure_smsc951x \<Rightarrow> SMSC951xDeviceConfigure p | Configure_lan7800 \<Rightarrow> LAN7800DeviceConfigure p)" for c
    by (cases c) (simp_all add: agree_refl)
  then show ?thesis unfolding call_configure_def by (intro agree_intros kept_intros)
qed

lemma agree_DeviceConfigure:
  fixes conf conf' :: "nat \<Rightarrow> ('b usb_tree_scheme, bool) prog"
  assumes "\<And>k' d. k' < k \<Longrightarrow> agree k' (conf d) (conf' d)" and "\<And>d s0. pres (frame.types s0) (conf d)"
  shows "agree k (USBDeviceConfigure (call_configure conf) d) (USBDeviceConfigure (call_configure conf') d)"
proof -
  have below: "agree k' (configure_functions (call_configure conf) d ns b) (configure_functions (call_configure conf') d ns b)"
    if "k' < k" for k' ns b
    by (rule agree_configure_functions [OF agree_call_configure])
      (rule assms(1) [OF that] assms(2) frame.types_call_configure)+
  have conf: "agree k (bind (DWHCIDeviceSetConfiguration ep v) (\<lambda>ok. if \<not> ok then m else
        configure_functions (call_configure conf) d ns b))
      (bind (DWHCIDeviceSetConfiguration ep v) (\<lambda>ok. if \<not> ok then m else
        configure_functions (call_configure conf') d ns b))" for ep v m ns b
    by (rule agree_eats [OF eats_set(2)]) (simp_all add: agree_refl below)
  show ?thesis
    unfolding USBDeviceConfigure_def by (rule agree_refl conf pres_intros kept_intros agree_intros)+
qed

lemma configure_depth_enough: "k < n \<Longrightarrow> k < m \<Longrightarrow> agree k (configure_depth n d) (configure_depth m d)"
proof (induction k arbitrary: n m d rule: less_induct)
  case (less k)
  from less.prems obtain n' m' where nm: "n = Suc n'" "m = Suc m'" by (cases n; cases m) auto
  show ?case
    unfolding nm configure_depth.simps
    by (rule agree_DeviceConfigure) (use less nm in \<open>simp_all add: frame.types_configure_depth\<close>)
qed

text \<open>
  Configuring a device (\<open>USBDeviceConfigure\<close>), which for a hub goes down to the devices behind it.  The
  model of the recursion is cut off at a depth given by the interrupts that are to come.  The cut-off is not seen: the
  model satisfies the equation of the recursion of the code, since every level has used an interrupt
  before it goes down.
\<close>

theorem device_configure_recursion:
  "device_configure d = USBDeviceConfigure (call_configure device_configure) d"
proof
  fix s :: "'b usb_tree_scheme"
  let ?k = "length (irqs s)"
  have below: "agree k' (configure_depth ?k d' :: ('b usb_tree_scheme, bool) prog) (device_configure d')" if "k' < ?k" for k' d'
    unfolding agree_def
  proof (intro allI impI)
    fix t :: "'b usb_tree_scheme" assume "length (irqs t) \<le> k'"
    then have "agree (length (irqs t)) (configure_depth ?k d' :: ('b usb_tree_scheme, bool) prog)
        (configure_depth (Suc (length (irqs t))) d')"
      using that by (intro configure_depth_enough) simp_all
    then show "configure_depth ?k d' t = device_configure d' t"
      by (simp only: device_configure_def agree_def bind_run gets_run outcome.case)
  qed
  have "agree ?k (USBDeviceConfigure (call_configure (configure_depth ?k)) d :: ('b usb_tree_scheme, bool) prog)
      (USBDeviceConfigure (call_configure device_configure) d)"
    by (intro agree_DeviceConfigure below frame.types_configure_depth)
  then show "device_configure d s = USBDeviceConfigure (call_configure device_configure) d s"
    by (simp add: device_configure_def agree_def bind_run)
qed

section \<open>The typing of the objects\<close>

definition device_type :: "TUSBDevice \<Rightarrow> bool" where
  "device_type v \<longleftrightarrow> length (m_pFunction v) = USBDEV_MAX_FUNCTIONS \<and> m_ucAddress v \<le> USB_MAX_ADDRESS"

definition hub_type :: "TUSBStandardHub \<Rightarrow> bool" where
  "hub_type h \<longleftrightarrow> length (hub_pDevice h) = USB_HUB_MAX_PORTS \<and> length (m_pStatus h) = USB_HUB_MAX_PORTS"

interpretation typing: object_types device_type hub_type
  by unfold_locales (simp_all add: device_type_def hub_type_def USB_DEFAULT_ADDRESS_def USB_MAX_ADDRESS_def)

definition objects_typed :: "'b usb_tree_scheme \<Rightarrow> bool" where
  "objects_typed s \<longleftrightarrow> (\<forall>d. device_type (devs s d)) \<and> (\<forall>p. hub_type (hubs s p))"

text \<open>
  C8. The start of the host controller (\<open>DWHCIDeviceInitialize\<close>) finds, initialises and configures the whole tree
  of devices.  Whatever the hardware and the devices answer, and also where an assertion stops it,
  it uses no index outside the arrays in its objects: the ten functions of a device, and the eight devices and
  eight status blocks of the ports of a hub, however many interfaces a device or ports a hub
  says it has.  The arrays keep their lengths, and no device gets an address that the bus does not have
  (more than 127).
\<close>

theorem usb_objects_typed:
  fixes s :: "'b usb_tree_scheme"
  assumes "objects_typed s" and "\<not> array_overrun s"
  shows "wp (DWHCIDeviceInitialize reg) (\<lambda>_ t. objects_typed t \<and> \<not> array_overrun t)
    (\<lambda>_ t. objects_typed t \<and> \<not> array_overrun t) s"
proof -
  have a: "arrays_typed device_type hub_type" by (simp add: arrays_typed_def device_type_def hub_type_def)
  have "kept device_type hub_type s s" using assms(1) by (simp add: kept_def objects_typed_def)
  from presD [OF typing.types_DWHCIDeviceInitialize this] show ?thesis
    by (rule wp_mono) (use a assms(2) in \<open>simp_all add: kept_def objects_typed_def\<close>)
qed

definition typed_tree :: "usb \<Rightarrow> usb_tree" where
  "typed_tree s = (tree_of s [])
     \<lparr>devs := (\<lambda>d. (devs s d)\<lparr>m_pFunction := replicate USBDEV_MAX_FUNCTIONS 0, m_ucAddress := 0\<rparr>),
      hubs := (\<lambda>_. \<lparr>m_pHubDesc = 0, m_nPorts = 0, hub_pDevice = replicate USB_HUB_MAX_PORTS 0,
        m_pStatus = replicate USB_HUB_MAX_PORTS 0\<rparr>)\<rparr>"

theorem usb_objects_typed_witness:
  "wp (DWHCIDeviceInitialize (\<lambda>_. 0)) (\<lambda>_ t. objects_typed t \<and> \<not> array_overrun t)
    (\<lambda>_ t. objects_typed t \<and> \<not> array_overrun t) (typed_tree usb0)"
  using usb_objects_typed [of "typed_tree usb0" "\<lambda>_. 0"]
  by (simp add: typed_tree_def tree_of_def usb.defs usb_tree.defs objects_typed_def device_type_def hub_type_def
      USB_MAX_ADDRESS_def)

end
