(* ===== verification/UspiLibrary.thy ===== *)
theory UspiLibrary
  imports UsbFrame
begin

text \<open>
  The interface of the USB stack (\<^verbatim>\<open>eth/lib/uspilibrary.c\<close>) and its environment
  (\<^verbatim>\<open>eth/uspienv.c\<close>).  The members \<open>NameService\<close> and \<open>DWHCI\<close> of the library object
  are the parts \<open>names\<close> and \<open>usb\<close> of the state.  The classes of keyboards, mice, mass
  storage devices, game pads and MIDI devices have no source in the repository: their
  operations are an argument.
\<close>

section \<open>State\<close>

definition MAX_DEVICES :: nat where "MAX_DEVICES = 4"

record TUSPiLibrary =
  pUKBD1 :: u64
  pUMouse1 :: u64
  pUMSD :: "u64 list"
  pEth0 :: u64
  pEth10 :: u64
  pUPAD :: "u64 list"
  pMIDI1 :: u64

record uspi = usb_tree +
  s_pLibrary :: u64
  library :: TUSPiLibrary

text \<open>Handlers and objects are given by their addresses.\<close>

record 's device_classes =
  USBKeyboardDeviceRegisterKeyPressedHandler :: "u64 \<Rightarrow> u64 \<Rightarrow> ('s, unit) prog"
  USBKeyboardDeviceRegisterShutdownHandler :: "u64 \<Rightarrow> u64 \<Rightarrow> ('s, unit) prog"
  USBKeyboardDeviceUpdateLEDs :: "u64 \<Rightarrow> ('s, unit) prog"
  USBKeyboardDeviceRegisterKeyStatusHandlerRaw :: "u64 \<Rightarrow> u64 \<Rightarrow> ('s, unit) prog"
  USBKeyboardDeviceSetLEDs :: "u64 \<Rightarrow> u8 \<Rightarrow> ('s, unit) prog"
  USBMouseDeviceRegisterStatusHandler :: "u64 \<Rightarrow> u64 \<Rightarrow> ('s, unit) prog"
  USBBulkOnlyMassStorageDeviceSeek :: "u64 \<Rightarrow> u64 \<Rightarrow> ('s, u64) prog"
  USBBulkOnlyMassStorageDeviceRead :: "u64 \<Rightarrow> u64 \<Rightarrow> u32 \<Rightarrow> ('s, int) prog"
  USBBulkOnlyMassStorageDeviceWrite :: "u64 \<Rightarrow> u64 \<Rightarrow> u32 \<Rightarrow> ('s, int) prog"
  USBBulkOnlyMassStorageDeviceGetCapacity :: "u64 \<Rightarrow> ('s, u32) prog"
  USBGamePadDeviceRegisterStatusHandler :: "u64 \<Rightarrow> u64 \<Rightarrow> ('s, unit) prog"
  USBGamePadDeviceGetReport :: "u64 \<Rightarrow> ('s, unit) prog"
  USBMIDIDeviceRegisterPacketHandler :: "u64 \<Rightarrow> u64 \<Rightarrow> ('s, unit) prog"

section \<open>The environment\<close>

definition LogDebug :: u32 where "LogDebug = 4"

definition USPiEnvInitialize :: "(u32 \<Rightarrow> int) \<Rightarrow> u32 \<Rightarrow> (('h, 'b) timer_hw_scheme, int) prog" where
  "USPiEnvInitialize uk_intctlr_irq_register ticks =
     bind (Logger LogDebug) (\<lambda>_.
     bind (TimerInitialize
       (ukplat_irq_register uk_intctlr_irq_register IRQ_ID_RASPI_ARM_SYSTEM_TIMER_IRQ_3 True) ticks) (\<lambda>ok.
     if \<not> ok then bind Logger_destroy (\<lambda>_. bind Timer_destroy (\<lambda>_. return 0))
     else return 1))"

definition USPiEnvClose :: "('b hw_scheme, unit) prog" where
  "USPiEnvClose = Logger_destroy"

section \<open>Start of the library\<close>

definition upd_library :: "(TUSPiLibrary \<Rightarrow> TUSPiLibrary) \<Rightarrow> ('b uspi_scheme, unit) prog" where
  "upd_library f = modify (\<lambda>s. s\<lparr>library := f (library s)\<rparr>)"

definition find_name :: "string \<Rightarrow> bool \<Rightarrow> ('b usb_tree_scheme, u64) prog" where
  "find_name name bBlock =
     bind (on_names DeviceNameServiceGet) (\<lambda>_. on_names (DeviceNameServiceGetDevice name bBlock))"

text \<open>The loops over the numbered devices: the name is formatted, and looked up.\<close>

definition find_numbered :: "string \<Rightarrow> bool \<Rightarrow> nat \<Rightarrow> ('b usb_tree_scheme, u64) prog" where
  "find_numbered format bBlock i =
     bind (local_string (bind (StringFormat format [VInt (of_nat (i + 1))]) (\<lambda>_. StringGet))) (\<lambda>name.
     find_name name bBlock)"

definition USPiInitialize :: "(u32 \<Rightarrow> int) \<Rightarrow> ('b uspi_scheme, int) prog" where
  "USPiInitialize uk_intctlr_irq_register =
     bind (LogWrite LOG_DEBUG ''Initializing USPi library 2.00'') (\<lambda>_.
     bind (gets s_pLibrary) (\<lambda>p.
     bind (UK_ASSERT (p = 0)) (\<lambda>_.
     bind malloc (\<lambda>p.
     bind (modify (\<lambda>s. s\<lparr>s_pLibrary := p\<rparr>)) (\<lambda>_.
     bind (UK_ASSERT (p \<noteq> 0)) (\<lambda>_.
     bind (on_names DeviceNameService) (\<lambda>_.
     bind DWHCIDevice (\<lambda>_.
     bind (upd_library (\<lambda>l. l\<lparr>pEth0 := 0\<rparr>)) (\<lambda>_.
     bind (upd_library (\<lambda>l. l\<lparr>pEth10 := 0\<rparr>)) (\<lambda>_.
     bind (DWHCIDeviceInitialize uk_intctlr_irq_register) (\<lambda>ok.
     if \<not> ok then
       bind (LogWrite LOG_ERROR ''Cannot initialize USB host controller interface'') (\<lambda>_.
       bind DWHCIDevice_destroy (\<lambda>_.
       bind (on_names DeviceNameService_destroy) (\<lambda>_.
       bind (free p) (\<lambda>_.
       bind (modify (\<lambda>s. s\<lparr>s_pLibrary := 0\<rparr>)) (\<lambda>_. return 0)))))
     else
       bind (find_name ''ukbd1'' False) (\<lambda>d.
       bind (upd_library (\<lambda>l. l\<lparr>pUKBD1 := d\<rparr>)) (\<lambda>_.
       bind (find_name ''umouse1'' False) (\<lambda>d.
       bind (upd_library (\<lambda>l. l\<lparr>pUMouse1 := d\<rparr>)) (\<lambda>_.
       bind (find_name ''umidi1'' False) (\<lambda>d.
       bind (upd_library (\<lambda>l. l\<lparr>pMIDI1 := d\<rparr>)) (\<lambda>_.
       bind (for_each [0..<MAX_DEVICES] (\<lambda>i.
         bind (find_numbered ''umsd%u'' True i) (\<lambda>d. upd_library (\<lambda>l. l\<lparr>pUMSD := (pUMSD l)[i := d]\<rparr>)))) (\<lambda>_.
       bind (find_name ''eth0'' False) (\<lambda>d.
       bind (upd_library (\<lambda>l. l\<lparr>pEth0 := d\<rparr>)) (\<lambda>_.
       bind (find_name ''eth10'' False) (\<lambda>d.
       bind (upd_library (\<lambda>l. l\<lparr>pEth10 := d\<rparr>)) (\<lambda>_.
       bind (for_each [0..<MAX_DEVICES] (\<lambda>i.
         bind (find_numbered ''upad%u'' False i) (\<lambda>d. upd_library (\<lambda>l. l\<lparr>pUPAD := (pUPAD l)[i := d]\<rparr>)))) (\<lambda>_.
       bind (LogWrite LOG_DEBUG ''USPi library successfully initialized'') (\<lambda>_.
       return 1))))))))))))))))))))))))"

section \<open>The operations\<close>

text \<open>Every operation asserts that the library was started.\<close>

definition get_library :: "(TUSPiLibrary \<Rightarrow> 'a) \<Rightarrow> ('b uspi_scheme, 'a) prog" where
  "get_library f =
     bind (gets s_pLibrary) (\<lambda>p. bind (UK_ASSERT (p \<noteq> 0)) (\<lambda>_. gets (\<lambda>s. f (library s))))"

definition present :: "(TUSPiLibrary \<Rightarrow> u64) \<Rightarrow> ('b uspi_scheme, u64) prog" where
  "present f = bind (get_library f) (\<lambda>d. bind (UK_ASSERT (d \<noteq> 0)) (\<lambda>_. return d))"

text \<open>The loop that counts the devices before the first gap.\<close>

definition count_devices :: "u64 list \<Rightarrow> int" where
  "count_devices ds = int (length (takeWhile (\<lambda>d. d \<noteq> 0) (take MAX_DEVICES ds)))"

definition USPiKeyboardAvailable :: "('b uspi_scheme, bool) prog" where
  "USPiKeyboardAvailable = get_library (\<lambda>l. pUKBD1 l \<noteq> 0)"

definition USPiKeyboardRegisterKeyPressedHandler ::
  "'b uspi_scheme device_classes \<Rightarrow> u64 \<Rightarrow> ('b uspi_scheme, unit) prog" where
  "USPiKeyboardRegisterKeyPressedHandler C pKeyPressedHandler =
     bind (present pUKBD1) (\<lambda>d. USBKeyboardDeviceRegisterKeyPressedHandler C d pKeyPressedHandler)"

definition USPiKeyboardRegisterShutdownHandler ::
  "'b uspi_scheme device_classes \<Rightarrow> u64 \<Rightarrow> ('b uspi_scheme, unit) prog" where
  "USPiKeyboardRegisterShutdownHandler C pShutdownHandler =
     bind (present pUKBD1) (\<lambda>d. USBKeyboardDeviceRegisterShutdownHandler C d pShutdownHandler)"

definition USPiKeyboardUpdateLEDs :: "'b uspi_scheme device_classes \<Rightarrow> ('b uspi_scheme, unit) prog" where
  "USPiKeyboardUpdateLEDs C = bind (present pUKBD1) (\<lambda>d. USBKeyboardDeviceUpdateLEDs C d)"

definition USPiKeyboardRegisterKeyStatusHandlerRaw ::
  "'b uspi_scheme device_classes \<Rightarrow> u64 \<Rightarrow> ('b uspi_scheme, unit) prog" where
  "USPiKeyboardRegisterKeyStatusHandlerRaw C pKeyStatusHandlerRaw =
     bind (present pUKBD1) (\<lambda>d. USBKeyboardDeviceRegisterKeyStatusHandlerRaw C d pKeyStatusHandlerRaw)"

definition USPiKeyboardSetLEDs :: "'b uspi_scheme device_classes \<Rightarrow> u8 \<Rightarrow> ('b uspi_scheme, unit) prog" where
  "USPiKeyboardSetLEDs C ucLEDMask = bind (present pUKBD1) (\<lambda>d. USBKeyboardDeviceSetLEDs C d ucLEDMask)"

definition USPiMouseAvailable :: "('b uspi_scheme, bool) prog" where
  "USPiMouseAvailable = get_library (\<lambda>l. pUMouse1 l \<noteq> 0)"

definition USPiMouseRegisterStatusHandler ::
  "'b uspi_scheme device_classes \<Rightarrow> u64 \<Rightarrow> ('b uspi_scheme, unit) prog" where
  "USPiMouseRegisterStatusHandler C pStatusHandler =
     bind (present pUMouse1) (\<lambda>d. USBMouseDeviceRegisterStatusHandler C d pStatusHandler)"

definition USPiMassStorageDeviceAvailable :: "('b uspi_scheme, int) prog" where
  "USPiMassStorageDeviceAvailable = get_library (\<lambda>l. count_devices (pUMSD l))"

text \<open>Null for an index past the array: the two tests that every indexed operation starts with.\<close>

definition nth_device :: "(TUSPiLibrary \<Rightarrow> u64 list) \<Rightarrow> u32 \<Rightarrow> ('b uspi_scheme, u64) prog" where
  "nth_device ds nDeviceIndex =
     get_library (\<lambda>l. if unat nDeviceIndex \<ge> MAX_DEVICES then 0 else ds l ! unat nDeviceIndex)"

definition USPiMassStorageDeviceRead ::
  "'b uspi_scheme device_classes \<Rightarrow> u64 \<Rightarrow> u64 \<Rightarrow> u32 \<Rightarrow> u32 \<Rightarrow> ('b uspi_scheme, int) prog" where
  "USPiMassStorageDeviceRead C ullOffset pBuffer nCount nDeviceIndex =
     bind (nth_device pUMSD nDeviceIndex) (\<lambda>d.
     if d = 0 then return (- 1) else
     bind (USBBulkOnlyMassStorageDeviceSeek C d ullOffset) (\<lambda>r.
     if r \<noteq> ullOffset then return (- 1)
     else USBBulkOnlyMassStorageDeviceRead C d pBuffer nCount))"

definition USPiMassStorageDeviceWrite ::
  "'b uspi_scheme device_classes \<Rightarrow> u64 \<Rightarrow> u64 \<Rightarrow> u32 \<Rightarrow> u32 \<Rightarrow> ('b uspi_scheme, int) prog" where
  "USPiMassStorageDeviceWrite C ullOffset pBuffer nCount nDeviceIndex =
     bind (nth_device pUMSD nDeviceIndex) (\<lambda>d.
     if d = 0 then return (- 1) else
     bind (USBBulkOnlyMassStorageDeviceSeek C d ullOffset) (\<lambda>r.
     if r \<noteq> ullOffset then return (- 1)
     else USBBulkOnlyMassStorageDeviceWrite C d pBuffer nCount))"

definition USPiMassStorageDeviceGetCapacity ::
  "'b uspi_scheme device_classes \<Rightarrow> u32 \<Rightarrow> ('b uspi_scheme, u32) prog" where
  "USPiMassStorageDeviceGetCapacity C nDeviceIndex =
     bind (nth_device pUMSD nDeviceIndex) (\<lambda>d.
     if d = 0 then return 0 else USBBulkOnlyMassStorageDeviceGetCapacity C d)"

definition USPiEthernetAvailable :: "('b uspi_scheme, bool) prog" where
  "USPiEthernetAvailable = get_library (\<lambda>l. pEth0 l \<noteq> 0 \<or> pEth10 l \<noteq> 0)"

text \<open>The gigabit chip comes first; without it the other chip has to be there.\<close>

definition on_eth ::
  "(u64 \<Rightarrow> ('b uspi_scheme, 'a) prog) \<Rightarrow> (u64 \<Rightarrow> ('b uspi_scheme, 'a) prog) \<Rightarrow> ('b uspi_scheme, 'a) prog" where
  "on_eth lan7800 smsc951x =
     bind (get_library pEth10) (\<lambda>e10.
     if e10 \<noteq> 0 then lan7800 e10 else bind (present pEth0) smsc951x)"

definition USPiGetMACAddress :: "u64 \<Rightarrow> ('b uspi_scheme, unit) prog" where
  "USPiGetMACAddress Buffer =
     bind (on_eth LAN7800DeviceGetMACAddress SMSC951xDeviceGetMACAddress) (\<lambda>mac.
     bind (UK_ASSERT (Buffer \<noteq> 0)) (\<lambda>_.
     bind (zoom (\<lambda>_. mac) (\<lambda>_ s. s) MACAddressCopyTo) (store Buffer)))"

definition USPiEthernetIsLinkUp :: "('b uspi_scheme, bool) prog" where
  "USPiEthernetIsLinkUp = on_eth LAN7800DeviceIsLinkUp SMSC951xDeviceIsLinkUp"

definition USPiSendFrame :: "u64 \<Rightarrow> u32 \<Rightarrow> ('b uspi_scheme, bool) prog" where
  "USPiSendFrame pBuffer nLength =
     on_eth (\<lambda>e. LAN7800DeviceSendFrame e pBuffer nLength) (\<lambda>e. SMSC951xDeviceSendFrame e pBuffer nLength)"

definition USPiReceiveFrame :: "u64 \<Rightarrow> ('b uspi_scheme, u32 option) prog" where
  "USPiReceiveFrame pBuffer =
     on_eth (\<lambda>e. LAN7800DeviceReceiveFrame e pBuffer) (\<lambda>e. SMSC951xDeviceReceiveFrame e pBuffer)"

definition USPiGamePadAvailable :: "('b uspi_scheme, int) prog" where
  "USPiGamePadAvailable = get_library (\<lambda>l. count_devices (pUPAD l))"

definition USPiGamePadRegisterStatusHandler ::
  "'b uspi_scheme device_classes \<Rightarrow> u64 \<Rightarrow> ('b uspi_scheme, unit) prog" where
  "USPiGamePadRegisterStatusHandler C pStatusHandler =
     bind (get_library (\<lambda>_. ())) (\<lambda>_.
     for_each [0..<MAX_DEVICES] (\<lambda>i.
       bind (gets (\<lambda>s. pUPAD (library s) ! i)) (\<lambda>d.
       if d \<noteq> 0 then USBGamePadDeviceRegisterStatusHandler C d pStatusHandler else return ())))"

text \<open>The pad whose member \<open>m_State\<close> the caller gets, or null.\<close>

definition USPiGamePadGetStatus :: "'b uspi_scheme device_classes \<Rightarrow> u32 \<Rightarrow> ('b uspi_scheme, u64) prog" where
  "USPiGamePadGetStatus C nDeviceIndex =
     bind (nth_device pUPAD nDeviceIndex) (\<lambda>d.
     if d = 0 then return 0 else bind (USBGamePadDeviceGetReport C d) (\<lambda>_. return d))"

definition USPiMIDIAvailable :: "('b uspi_scheme, bool) prog" where
  "USPiMIDIAvailable = get_library (\<lambda>l. pMIDI1 l \<noteq> 0)"

definition USPiMIDIRegisterPacketHandler ::
  "'b uspi_scheme device_classes \<Rightarrow> u64 \<Rightarrow> ('b uspi_scheme, unit) prog" where
  "USPiMIDIRegisterPacketHandler C pPacketHandler =
     bind (present pMIDI1) (\<lambda>d. USBMIDIDeviceRegisterPacketHandler C d pPacketHandler)"

section \<open>Information on a device\<close>

definition KEYBOARD_CLASS :: u32 where "KEYBOARD_CLASS = 1"
definition MOUSE_CLASS :: u32 where "MOUSE_CLASS = 2"
definition STORAGE_CLASS :: u32 where "STORAGE_CLASS = 3"
definition ETHERNET_CLASS :: u32 where "ETHERNET_CLASS = 4"
definition GAMEPAD_CLASS :: u32 where "GAMEPAD_CLASS = 5"
definition MIDI_CLASS :: u32 where "MIDI_CLASS = 6"

record TUSPiDeviceInformation =
  idVendor :: u16
  idProduct :: u16
  bcdDevice :: u16
  pManufacturer :: string
  pProduct :: string

definition device_of_class :: "u32 \<Rightarrow> u32 \<Rightarrow> TUSPiLibrary \<Rightarrow> u64" where
  "device_of_class nClass nDeviceIndex l =
     (if nClass = KEYBOARD_CLASS then (if nDeviceIndex = 0 then pUKBD1 l else 0)
      else if nClass = MOUSE_CLASS then (if nDeviceIndex = 0 then pUMouse1 l else 0)
      else if nClass = STORAGE_CLASS then
        (if unat nDeviceIndex < MAX_DEVICES then pUMSD l ! unat nDeviceIndex else 0)
      else if nClass = ETHERNET_CLASS then
        (if nDeviceIndex = 0 then (if pEth10 l \<noteq> 0 then pEth10 l else pEth0 l) else 0)
      else if nClass = GAMEPAD_CLASS then
        (if unat nDeviceIndex < MAX_DEVICES then pUPAD l ! unat nDeviceIndex else 0)
      else if nClass = MIDI_CLASS then (if nDeviceIndex = 0 then pMIDI1 l else 0)
      else 0)"

text \<open>\<open>pInfo\<close> tells whether the caller gave room for the result.\<close>

definition USPiDeviceGetInformation ::
  "u32 \<Rightarrow> u32 \<Rightarrow> bool \<Rightarrow> ('b uspi_scheme, TUSPiDeviceInformation option) prog" where
  "USPiDeviceGetInformation nClass nDeviceIndex pInfo =
     bind (get_library (device_of_class nClass nDeviceIndex)) (\<lambda>pUSBFunction.
     if pUSBFunction = 0 then return None else
     bind (USBFunctionGetDevice pUSBFunction) (\<lambda>d.
     bind (USBDeviceGetDeviceDescriptor d) (\<lambda>pDesc.
     bind (UK_ASSERT (pDesc \<noteq> 0)) (\<lambda>_.
     bind (UK_ASSERT pInfo) (\<lambda>_.
     bind (load16 (pDesc + 8)) (\<lambda>vendor.
     bind (load16 (pDesc + 10)) (\<lambda>product.
     bind (load16 (pDesc + 12)) (\<lambda>bcd.
     bind (get_dev d m_ManufacturerString) (\<lambda>m.
     bind (USBStringGet m) (\<lambda>mtext.
     bind (get_dev d m_ProductString) (\<lambda>p.
     bind (USBStringGet p) (\<lambda>ptext.
     return (Some \<lparr>idVendor = vendor, idProduct = product, bcdDevice = bcd,
       pManufacturer = mtext, pProduct = ptext\<rparr>)))))))))))))"

section \<open>Whether the library is up\<close>

lemma uspi_above:
  fixes s t :: "'b uspi_scheme"
  shows "usb_tree.more t = usb_tree.more s \<Longrightarrow> s_pLibrary t = s_pLibrary s"
  by (cases s rule: uspi.cases_scheme; cases t rule: uspi.cases_scheme) simp

definition up :: "u64 \<Rightarrow> 'b uspi_scheme \<Rightarrow> bool" where
  "up p s \<longleftrightarrow> s_pLibrary s = p"

named_theorems up_intros "operations that leave the pointer of the library alone"

lemma up_frame:
  fixes m :: "('b uspi_scheme, 'a) prog"
  assumes "\<And>s0. pres (frame.types s0) m"
  shows "pres (up p) m"
proof (rule presI)
  fix s :: "'b uspi_scheme"
  assume "up p s"
  moreover have "frame.types s s" by (simp add: kept_def)
  ultimately show "wp m (\<lambda>_. up p) (\<lambda>_. up p) s"
    using presD [OF assms, of s s] by (auto simp: up_def kept_def elim!: wp_mono dest: uspi_above)
qed

lemma up_tree [up_intros]:
  "pres (up p) (LogWrite sev msg)" "pres (up p) (DWHCIDevice)" "pres (up p) (DWHCIDeviceInitialize reg)"
  "pres (up p) (DWHCIDevice_destroy)" "pres (up p) (on_names m)" "pres (up p) (free q)" "pres (up p) (local_string m2)"
  by (intro up_frame kept_intros)+

lemma up_library [up_intros]: "pres (up p) (upd_library f)" "pres (up p) (find_name nm b)" "pres (up p) (find_numbered fmt b i)"
  unfolding upd_library_def find_name_def find_numbered_def
  by (intro pres_intros up_intros pres_modify; simp add: up_def)+

lemma wp_up_bind:
  "pres (up p) m \<Longrightarrow> up p s \<Longrightarrow> (\<And>x t. up p t \<Longrightarrow> wp (f x) Q (\<lambda>_ _. True) t) \<Longrightarrow> wp (bind m f) Q (\<lambda>_ _. True) s"
  unfolding wp_bind by (erule (1) wp_mono [OF presD]) simp_all

lemma wp_any: "(\<And>x t. wp (f x) Q (\<lambda>_ _. True) t) \<Longrightarrow> wp (bind m f) Q (\<lambda>_ _. True) s"
  unfolding wp_bind by (simp add: wp_def [of m] split: outcome.split)

lemma wp_USPiInitialize:
  fixes s :: "'b uspi_scheme"
  shows "wp (USPiInitialize reg) (\<lambda>r t. r = 0 \<and> s_pLibrary t = 0 \<or> r = 1 \<and> s_pLibrary t \<noteq> 0) (\<lambda>_ _. True) s"
  (is "wp _ ?Q _ _")
proof -
  have up: "wp (bind (modify (\<lambda>s. s\<lparr>s_pLibrary := p\<rparr>)) (\<lambda>_. bind (UK_ASSERT (p \<noteq> 0)) f)) ?Q (\<lambda>_ _. True) t"
    if "\<And>u. p \<noteq> 0 \<Longrightarrow> up p u \<Longrightarrow> wp (f ()) ?Q (\<lambda>_ _. True) u" for p f and t :: "'b uspi_scheme"
    using that by (simp add: wp_simps up_def)
  have down: "wp (bind (modify (\<lambda>s. s\<lparr>s_pLibrary := 0\<rparr>)) (\<lambda>_. return 0)) ?Q (\<lambda>_ _. True) t" for t :: "'b uspi_scheme"
    by (simp add: wp_simps)
  have ret: "wp (return 1) ?Q (\<lambda>_ _. True) t" if "p \<noteq> 0" "up p t" for p and t :: "'b uspi_scheme"
    using that by (simp add: wp_simps up_def)
  show ?thesis
    unfolding USPiInitialize_def
    by (rule wp_any, rule wp_any, rule wp_any, rule wp_any, rule up)
      (rule wp_up_bind, (rule up_intros pres_for_each pres_bind)+, assumption |
       rule if_split [where P = "\<lambda>m. wp m _ _ _", THEN iffD2] conjI impI down | erule (1) ret)+
qed

text \<open>The operations that the network driver uses, and the environment.\<close>

lemma up_keeps [up_intros]:
  "pres (up p) (emit e)" "pres (up p) (store a bs)" "pres (up p) (MsDelay n)" "pres (up p) DataMemBarrier"
  "pres (up p) (read32 a32)" "pres (up p) (write32 a32 v)" "pres (up p) (InterruptSystemEnableIRQ n)"
  by (intro up_frame kept_keeps keeps_intros)+

lemma up_environment [up_intros]:
  "pres (up p) (Logger n)" "pres (up p) Logger_destroy" "pres (up p) Timer_destroy" "pres (up p) (upd_timer f)"
  "pres (up p) TimerGetTicks"
  unfolding Logger_def Logger_destroy_def Timer_destroy_def upd_timer_def TimerGetTicks_def
  by (intro pres_intros up_intros pres_modify; simp add: up_def)+

lemma up_EnvInitialize [up_intros]: "pres (up p) (USPiEnvInitialize reg ticks)" "pres (up p) USPiEnvClose"
  unfolding USPiEnvInitialize_def USPiEnvClose_def TimerInitialize_def TimerTuneMsDelay_def
  by (intro pres_intros up_intros)+

lemma wp_EnvInitialize:
  fixes s :: "'b uspi_scheme"
  shows "wp (USPiEnvInitialize reg ticks) (\<lambda>r _. r = 1) (\<lambda>_ _. True) s"
proof -
  have t: "wp (TimerInitialize rc ticks) (\<lambda>ok _. ok) (\<lambda>_ _. True) t" for rc and t :: "'b uspi_scheme"
    unfolding TimerInitialize_def by (intro wp_any) (simp add: wp_simps)
  show ?thesis
    unfolding USPiEnvInitialize_def by (rule wp_any, rule wp_seq [OF t]) (simp add: wp_return)
qed

lemma up_access [up_intros]: "pres (up p) (get_library f)" "pres (up p) (present f2)"
  unfolding get_library_def present_def by (intro pres_intros up_intros)+

lemma up_on_eth [up_intros]:
  "(\<And>e. pres (up p) (m e)) \<Longrightarrow> (\<And>e. pres (up p) (m' e)) \<Longrightarrow> pres (up p) (on_eth m m')"
  unfolding on_eth_def by (intro pres_intros up_intros) auto

lemma up_ethernet [up_intros]:
  "pres (up p) USPiEthernetAvailable" "pres (up p) (USPiGetMACAddress a)" "pres (up p) USPiEthernetIsLinkUp"
proof -
  have m: "pres (up p) (zoom (\<lambda>_. mac) (\<lambda>_ s. s) n)" for mac and n :: "(TMACAddress, 'x) prog"
    by (auto simp: pres_def wp_simps) (simp add: wp_def split: outcome.split)
  show "pres (up p) USPiEthernetAvailable" unfolding USPiEthernetAvailable_def by (intro up_intros)
  show "pres (up p) (USPiGetMACAddress a)"
    unfolding USPiGetMACAddress_def LAN7800DeviceGetMACAddress_def SMSC951xDeviceGetMACAddress_def
    by (intro pres_intros up_intros m up_frame kept_intros)
  show "pres (up p) USPiEthernetIsLinkUp"
    unfolding USPiEthernetIsLinkUp_def LAN7800DeviceIsLinkUp_def SMSC951xDeviceIsLinkUp_def
    by (intro pres_intros up_intros up_frame kept_intros)
qed

end
