(* ===== verification/RaspiNet.thy ===== *)
theory RaspiNet
  imports UspiLibrary
begin

text \<open>
  The network driver of the platform (\<^verbatim>\<open>drivers/raspi_net.c\<close>) over the interface of the
  USB stack.  The network device library, the rings and the allocator of Unikraft are an
  argument; the messages of \<open>uk_pr_err\<close> are events, those of \<open>uk_pr_debug\<close> are left out.
\<close>

section \<open>State\<close>

definition RASPI_NET_MAX_MTU :: u16 where "RASPI_NET_MAX_MTU = 1500"
definition RASPI_PKT_BUFFER_ALIGN :: u16 where "RASPI_PKT_BUFFER_ALIGN = 2048"
definition RASPI_MAX_QUEUE_PAIRS :: u16 where "RASPI_MAX_QUEUE_PAIRS = 1"
definition RASPI_MAX_N_DESCRIPTORS :: u16 where "RASPI_MAX_N_DESCRIPTORS = 2048"

definition EIO :: int where "EIO = 5"
definition ENXIO :: int where "ENXIO = 6"
definition ENOMEM :: int where "ENOMEM = 12"
definition EINVAL :: int where "EINVAL = 22"
definition ENOBUFS :: int where "ENOBUFS = 105"

definition UK_NETDEV_STATUS_SUCCESS :: int where "UK_NETDEV_STATUS_SUCCESS = 1"
definition UK_NETDEV_STATUS_MORE :: int where "UK_NETDEV_STATUS_MORE = 2"
definition UK_NETDEV_STATUS_UNDERRUN :: int where "UK_NETDEV_STATUS_UNDERRUN = 4"

datatype raspiq_type_t = RNET_RX | RNET_TX

record raspi_netdev_tx_queue =
  tx_nb_desc :: u16
  tx_rq :: u64
  tx_ndev :: u64

record raspi_netdev_rx_queue =
  alloc_rxpkts :: u64
  alloc_rxpkts_argp :: u64
  rx_nb_desc :: u16
  rx_rq :: u64
  rx_ndev :: u64

text \<open>Each array of queues has one element.  \<open>netdev\<close> and \<open>hw_addr\<close> are the addresses of these members.\<close>

record raspi_net_device =
  netdev :: u64
  rxqs :: raspi_netdev_rx_queue
  txqs :: raspi_netdev_tx_queue
  uid :: u16
  hw_addr :: u64

text \<open>\<open>drv_alloc\<close> is the allocator \<open>a\<close> of the driver, \<open>frame_addr\<close> the address of the local \<open>Buffer\<close>.\<close>

record raspi_net = uspi +
  rndev :: raspi_net_device
  drv_alloc :: u64
  frame_addr :: u64

record uk_netbuf =
  nb_buf :: u64
  nb_buflen :: u64
  nb_data :: u64
  nb_len :: u16

text \<open>
  What the driver calls: the function at an address that allocates a packet, the ring and
  object allocation (a negative number for an error pointer, null without memory), the
  registration of a device, and the interrupts of the platform.
\<close>

record 's net_env =
  call_alloc_rxpkts :: "u64 \<Rightarrow> u64 \<Rightarrow> ('s, int \<times> uk_netbuf) prog"
  uk_ring_alloc :: "u16 \<Rightarrow> u64 \<Rightarrow> ('s, int + u64) prog"
  uk_netbuf_free :: "uk_netbuf \<Rightarrow> ('s, unit) prog"
  uk_calloc :: "u64 \<Rightarrow> ('s, bool) prog"
  uk_free :: "u64 \<Rightarrow> ('s, unit) prog"
  uk_netdev_drv_register :: "u64 \<Rightarrow> ('s, int) prog"
  uk_alloc_get_default :: "('s, u64) prog"
  intctlr_irq_register :: "u32 \<Rightarrow> int"
  tuning_ticks :: u32
  void_result :: int

definition uk_pr_err :: "string \<Rightarrow> ('b hw_scheme, unit) prog" where
  "uk_pr_err msg = emit (EvPrint msg)"

definition upd_rndev :: "(raspi_net_device \<Rightarrow> raspi_net_device) \<Rightarrow> ('b raspi_net_scheme, unit) prog" where
  "upd_rndev f = modify (\<lambda>s. s\<lparr>rndev := f (rndev s)\<rparr>)"

section \<open>Frames\<close>

definition raspi_netdev_recv ::
  "'b raspi_net_scheme net_env \<Rightarrow> ('b raspi_net_scheme, int \<times> uk_netbuf option) prog" where
  "raspi_netdev_recv P =
     bind (gets frame_addr) (\<lambda>Buffer.
     bind (store Buffer (replicate 1600 0)) (\<lambda>_.
     bind (USPiReceiveFrame Buffer) (\<lambda>r. case r of
       None \<Rightarrow> return (0, None)
     | Some nFrameLength \<Rightarrow>
         bind (UK_ASSERT (nFrameLength \<le> 1600)) (\<lambda>_.
         bind (gets (\<lambda>s. alloc_rxpkts (rxqs (rndev s)))) (\<lambda>f.
         bind (gets (\<lambda>s. alloc_rxpkts_argp (rxqs (rndev s)))) (\<lambda>argp.
         bind (call_alloc_rxpkts P f argp) (\<lambda>(cnt, netbuf).
         if cnt \<noteq> 1 then
           bind (uk_pr_err ''Failed allocate memory for received ethernet frame'') (\<lambda>_.
           return (UK_NETDEV_STATUS_UNDERRUN, None))
         else
           bind (UK_ASSERT (nb_buflen netbuf \<ge> ucast nFrameLength)) (\<lambda>_.
           bind (load Buffer (unat nFrameLength)) (\<lambda>bs.
           bind (store (nb_buf netbuf) bs) (\<lambda>_.
           return (UK_NETDEV_STATUS_SUCCESS + UK_NETDEV_STATUS_MORE,
             Some (netbuf\<lparr>nb_data := nb_buf netbuf, nb_len := ucast nFrameLength\<rparr>))))))))))))"

definition raspi_netdev_xmit ::
  "'b raspi_net_scheme net_env \<Rightarrow> uk_netbuf \<Rightarrow> ('b raspi_net_scheme, int) prog" where
  "raspi_netdev_xmit P pkt =
     bind (USPiSendFrame (nb_data pkt) (ucast (nb_len pkt))) (\<lambda>ok.
     if \<not> ok then bind (uk_pr_err ''Failed to send frame'') (\<lambda>_. return (- 1))
     else bind (uk_netbuf_free P pkt) (\<lambda>_. return (UK_NETDEV_STATUS_SUCCESS + UK_NETDEV_STATUS_MORE)))"

section \<open>What the device tells about itself\<close>

definition raspi_net_mac_get :: "('b raspi_net_scheme, u64) prog" where
  "raspi_net_mac_get = gets (\<lambda>s. hw_addr (rndev s))"

definition raspi_net_promisc_get :: nat where "raspi_net_promisc_get = 0"

record uk_netdev_info =
  max_rx_queues :: u16
  max_tx_queues :: u16
  in_queue_pairs :: u16
  max_mtu :: u16
  nb_encap_tx :: u16
  nb_encap_rx :: u16
  ioalign :: u16
  features :: u32

definition raspi_net_info_get :: uk_netdev_info where
  "raspi_net_info_get =
     \<lparr>max_rx_queues = RASPI_MAX_QUEUE_PAIRS, max_tx_queues = RASPI_MAX_QUEUE_PAIRS,
      in_queue_pairs = RASPI_MAX_QUEUE_PAIRS, max_mtu = RASPI_NET_MAX_MTU,
      nb_encap_tx = 0, nb_encap_rx = 0, ioalign = RASPI_PKT_BUFFER_ALIGN, features = 0\<rparr>"

definition raspi_net_mtu_get :: u16 where "raspi_net_mtu_get = RASPI_NET_MAX_MTU"

record uk_netdev_queue_info =
  nb_max :: u16
  nb_min :: u16
  nb_is_power_of_two :: int

definition queue_info :: uk_netdev_queue_info where
  "queue_info = \<lparr>nb_max = RASPI_MAX_N_DESCRIPTORS, nb_min = 1, nb_is_power_of_two = 1\<rparr>"

definition raspi_netdev_txq_info_get :: "u16 \<Rightarrow> ('b hw_scheme, int + uk_netdev_queue_info) prog" where
  "raspi_netdev_txq_info_get queue_id =
     (if queue_id \<ge> RASPI_MAX_QUEUE_PAIRS
      then bind (uk_pr_err ''Invalid queue_id %u'') (\<lambda>_. return (Inl (- EINVAL)))
      else return (Inr queue_info))"

definition raspi_netdev_rxq_info_get :: "u16 \<Rightarrow> ('b hw_scheme, int + uk_netdev_queue_info) prog" where
  "raspi_netdev_rxq_info_get queue_id =
     (if queue_id \<ge> RASPI_MAX_QUEUE_PAIRS
      then bind (uk_pr_err ''Invalid queue id: %u'') (\<lambda>_. return (Inl (- EINVAL)))
      else return (Inr queue_info))"

section \<open>Queues\<close>

definition raspi_netdev_queue_setup ::
  "'b raspi_net_scheme net_env \<Rightarrow> u16 \<Rightarrow> u16 \<Rightarrow> raspiq_type_t \<Rightarrow> u64 \<Rightarrow> ('b raspi_net_scheme, int) prog" where
  "raspi_netdev_queue_setup P queue_id nr_desc queue_type alloc =
     (let max_desc = RASPI_MAX_N_DESCRIPTORS in
      if max_desc < nr_desc
      then bind (uk_pr_err ''Max allowed desc: %u Requested desc:%u'') (\<lambda>_. return (- ENOBUFS))
      else let nr_desc = (if nr_desc \<noteq> 0 then nr_desc else max_desc) in
      if nr_desc AND (nr_desc - 1) \<noteq> 0
      then bind (uk_pr_err ''Expect descriptor count as a power 2'') (\<lambda>_. return (- EINVAL))
      else bind (uk_ring_alloc P nr_desc alloc) (\<lambda>ring. case ring of
          Inl rc \<Rightarrow> bind (uk_pr_err ''Failed to set up queue %u'') (\<lambda>_. return rc)
        | Inr ring \<Rightarrow>
            bind (case queue_type of
              RNET_RX \<Rightarrow> upd_rndev (\<lambda>d. d\<lparr>rxqs := (rxqs d)\<lparr>rx_ndev := netdev d, rx_rq := ring, rx_nb_desc := nr_desc\<rparr>\<rparr>)
            | RNET_TX \<Rightarrow> upd_rndev (\<lambda>d. d\<lparr>txqs := (txqs d)\<lparr>tx_rq := ring, tx_ndev := netdev d, tx_nb_desc := nr_desc\<rparr>\<rparr>))
            (\<lambda>_. return 0)))"

text \<open>The two operations return the only queue of their kind, or an error pointer.\<close>

definition raspi_netdev_tx_queue_setup ::
  "'b raspi_net_scheme net_env \<Rightarrow> u16 \<Rightarrow> u16 \<Rightarrow> u64 \<Rightarrow> ('b raspi_net_scheme, int) prog" where
  "raspi_netdev_tx_queue_setup P queue_id nb_desc conf_a =
     (if queue_id \<ge> RASPI_MAX_QUEUE_PAIRS
      then bind (uk_pr_err ''Invalid queue identifier: %u'') (\<lambda>_. return (- EINVAL))
      else bind (raspi_netdev_queue_setup P queue_id nb_desc RNET_TX conf_a) (\<lambda>rc.
        if rc < 0 then bind (uk_pr_err ''Failed to set up queue %u: %d'') (\<lambda>_. return rc)
        else return 0))"

record uk_netdev_rxqueue_conf =
  conf_a :: u64
  conf_alloc_rxpkts :: u64
  conf_alloc_rxpkts_argp :: u64

definition raspi_netdev_rx_queue_setup ::
  "'b raspi_net_scheme net_env \<Rightarrow> u16 \<Rightarrow> u16 \<Rightarrow> uk_netdev_rxqueue_conf \<Rightarrow> ('b raspi_net_scheme, int) prog" where
  "raspi_netdev_rx_queue_setup P queue_id nb_desc conf =
     bind (UK_ASSERT (conf_alloc_rxpkts conf \<noteq> 0)) (\<lambda>_.
     if queue_id \<ge> RASPI_MAX_QUEUE_PAIRS
     then bind (uk_pr_err ''Invalid queue identifier: %u'') (\<lambda>_. return (- EINVAL))
     else bind (raspi_netdev_queue_setup P queue_id nb_desc RNET_RX (conf_a conf)) (\<lambda>rc.
       if rc < 0 then bind (uk_pr_err ''Failed to set up queue %u: %d'') (\<lambda>_. return rc)
       else bind (upd_rndev (\<lambda>d. d\<lparr>rxqs := (rxqs d)\<lparr>alloc_rxpkts := conf_alloc_rxpkts conf,
              alloc_rxpkts_argp := conf_alloc_rxpkts_argp conf\<rparr>\<rparr>)) (\<lambda>_. return 0)))"

definition raspi_netdev_configure :: int where "raspi_netdev_configure = 0"

section \<open>Start and registration\<close>

text \<open>
  The wait for the link: 40 tries with 100 ms between them.  \<open>USPiGetMACAddress\<close> returns
  nothing, although \<open>raspi_net_start\<close>, which does not see its declaration, tests a result;
  \<open>void_result\<close> is what the test finds.
\<close>

primrec wait_link :: "nat \<Rightarrow> ('b uspi_scheme, bool) prog" where
  "wait_link 0 = return False"
| "wait_link (Suc n) =
     bind USPiEthernetIsLinkUp (\<lambda>up.
     if up then return True else bind (MsDelay 100) (\<lambda>_. wait_link n))"

definition raspi_net_start :: "'b raspi_net_scheme net_env \<Rightarrow> ('b raspi_net_scheme, int) prog" where
  "raspi_net_start P =
     bind (USPiEnvInitialize (intctlr_irq_register P) (tuning_ticks P)) (\<lambda>ok.
     if ok = 0 then bind (uk_pr_err ''Failed to init USPiEnv.'') (\<lambda>_. return (- EIO)) else
     bind (USPiInitialize (intctlr_irq_register P)) (\<lambda>ok.
     if ok = 0 then
       bind (uk_pr_err ''Cannot initialize USPi'') (\<lambda>_. bind USPiEnvClose (\<lambda>_. return (- EIO))) else
     bind USPiEthernetAvailable (\<lambda>ok.
     if \<not> ok then
       bind (uk_pr_err ''Ethernet device not found'') (\<lambda>_. bind USPiEnvClose (\<lambda>_. return (- ENXIO))) else
     bind (gets (\<lambda>s. hw_addr (rndev s))) (\<lambda>addr.
     bind (USPiGetMACAddress addr) (\<lambda>_.
     if void_result P = 0 then
       bind (uk_pr_err ''Failed to get the device hardware address'') (\<lambda>_. return (- EIO)) else
     bind (wait_link 40) (\<lambda>up.
     if \<not> up then bind (uk_pr_err ''Link is down'') (\<lambda>_. return (- EIO))
     else return 0))))))"

definition rasp_net_drv_init :: "u64 \<Rightarrow> ('b raspi_net_scheme, int) prog" where
  "rasp_net_drv_init drv_allocator =
     (if drv_allocator = 0 then return (- EINVAL)
      else bind (modify (\<lambda>s. s\<lparr>drv_alloc := drv_allocator\<rparr>)) (\<lambda>_. return 0))"

text \<open>The device that \<open>uk_calloc\<close> clears; the addresses of its members stay.\<close>

definition cleared :: "raspi_net_device \<Rightarrow> raspi_net_device" where
  "cleared d = d\<lparr>rxqs := \<lparr>alloc_rxpkts = 0, alloc_rxpkts_argp = 0, rx_nb_desc = 0, rx_rq = 0, rx_ndev = 0\<rparr>,
                txqs := \<lparr>tx_nb_desc = 0, tx_rq = 0, tx_ndev = 0\<rparr>, uid := 0\<rparr>"

definition raspi_net_add_dev :: "'b raspi_net_scheme net_env \<Rightarrow> ('b raspi_net_scheme, int) prog" where
  "raspi_net_add_dev P =
     bind (gets drv_alloc) (\<lambda>alloc.
     bind (uk_calloc P alloc) (\<lambda>ok.
     if \<not> ok then return (- ENOMEM) else
     bind (upd_rndev cleared) (\<lambda>_.
     bind (gets (\<lambda>s. hw_addr (rndev s))) (\<lambda>addr.
     bind (store addr (replicate 6 0)) (\<lambda>_.
     bind (uk_netdev_drv_register P alloc) (\<lambda>rc.
     if rc < 0 then
       bind (uk_pr_err ''Failed to register raspi-net device with libuknet'') (\<lambda>_.
       bind (uk_free P alloc) (\<lambda>_. return rc))
     else bind (upd_rndev (\<lambda>d. d\<lparr>uid := of_int rc\<rparr>)) (\<lambda>_. return 0)))))))"

definition rasp_net_register :: "'b raspi_net_scheme net_env \<Rightarrow> ('b raspi_net_scheme, int) prog" where
  "rasp_net_register P =
     bind (uk_pr_err ''Registering raspi net dev.'') (\<lambda>_.
     bind (uk_alloc_get_default P) (\<lambda>alloc.
     bind (rasp_net_drv_init alloc) (\<lambda>rc.
     if rc < 0 then bind (uk_pr_err ''Failed to init raspi-net device'') (\<lambda>_. return rc) else
     bind (raspi_net_add_dev P) (\<lambda>rc.
     if rc < 0 then bind (uk_pr_err ''Failed to register raspi-net device with libuknet'') (\<lambda>_. return rc)
     else return rc))))"

section \<open>Queues\<close>

lemma power_of_two_nat:
  fixes m :: nat
  shows "0 < m \<Longrightarrow> m AND (m - 1) = 0 \<longleftrightarrow> (\<exists>k. m = 2 ^ k)"
proof (induction m rule: less_induct)
  case (less m)
  show ?case
  proof (cases "even m")
    case True
    then obtain j where j: "m = 2 * j" by blast
    with less.prems have j0: "0 < j" "j < m" by simp_all
    have "m - 1 = 2 * (j - 1) + 1" using j j0 by simp
    then have "m AND (m - 1) = 2 * (j AND (j - 1))" using j by (simp add: and_nat_rec [of "2 * j"])
    moreover have "(\<exists>k. m = 2 ^ k) \<longleftrightarrow> (\<exists>k. j = 2 ^ k)"
    proof
      assume "\<exists>k. m = 2 ^ k"
      then obtain k where k: "m = 2 ^ k" by blast
      with True obtain k' where "k = Suc k'" by (cases k) auto
      with k j show "\<exists>k. j = 2 ^ k" by auto
    next
      assume "\<exists>k. j = 2 ^ k"
      then obtain k where "j = 2 ^ k" by blast
      with j have "m = 2 ^ Suc k" by simp
      then show "\<exists>k. m = 2 ^ k" by blast
    qed
    ultimately show ?thesis using less.IH [OF j0(2,1)] by simp
  next
    case False
    then obtain j where j: "m = 2 * j + 1" by (blast elim: oddE)
    then have "m AND (m - 1) = 2 * j" using and_nat_rec [of "Suc (2 * j)" "2 * j"] by simp
    moreover have "(\<exists>k. m = 2 ^ k) \<longleftrightarrow> j = 0"
    proof
      assume "\<exists>k. m = 2 ^ k"
      then obtain k where "m = 2 ^ k" by blast
      with False have "k = 0" by (cases k) auto
      with \<open>m = 2 ^ k\<close> j show "j = 0" by simp
    qed (use j in \<open>auto intro: exI [of _ 0]\<close>)
    ultimately show ?thesis by simp
  qed
qed

lemma power_of_two:
  fixes n :: u16
  assumes "n \<noteq> 0"
  shows "n AND (n - 1) = 0 \<longleftrightarrow> (\<exists>k. unat n = 2 ^ k)"
proof -
  have "0 < unat n" using assms by (simp add: unat_gt_0)
  moreover have "unat (n - 1) = unat n - 1" using assms by (rule unat_minus_one)
  moreover have "n AND (n - 1) = 0 \<longleftrightarrow> unat n AND unat (n - 1) = 0"
    by (metis unsigned_0 unsigned_and_eq unsigned_word_eqI)
  ultimately show ?thesis using power_of_two_nat [of "unat n"] by simp
qed

text \<open>
  Setting up a queue of the network device (\<open>raspi_netdev_rx_queue_setup\<close> for queue 0): a request for more than 2048
  descriptors is answered with \<open>-ENOBUFS\<close>, one that is not a power of two with \<open>-EINVAL\<close>, an
  error of the ring allocation is handed on, and none of them changes the queue; otherwise the queue
  gets the ring, the number of descriptors (2048 when 0 were asked for) and the allocation function.
\<close>

theorem rx_queue_setup:
  assumes "uk_ring_alloc P = (\<lambda>n a. return (ring n a))" and "\<And>n a e. ring n a = Inl e \<Longrightarrow> e < 0"
    and "conf_alloc_rxpkts conf \<noteq> 0"
  shows "wp (raspi_netdev_rx_queue_setup P 0 n conf) (\<lambda>rc t.
      let m = (if n \<noteq> 0 then n else RASPI_MAX_N_DESCRIPTORS) in
      if n > RASPI_MAX_N_DESCRIPTORS then rc = - ENOBUFS \<and> rndev t = rndev s
      else if \<not> (\<exists>k. unat m = 2 ^ k) then rc = - EINVAL \<and> rndev t = rndev s
      else case ring m (conf_a conf) of
          Inl e \<Rightarrow> rc = e \<and> rndev t = rndev s
        | Inr r \<Rightarrow> rc = 0 \<and> rndev t = (rndev s)\<lparr>rxqs := \<lparr>alloc_rxpkts = conf_alloc_rxpkts conf,
            alloc_rxpkts_argp = conf_alloc_rxpkts_argp conf, rx_nb_desc = m, rx_rq = r, rx_ndev = netdev (rndev s)\<rparr>\<rparr>)
    (\<lambda>_ _. False) s"
proof -
  define m where "m = (if n \<noteq> 0 then n else RASPI_MAX_N_DESCRIPTORS)"
  have "(m AND (m - 1) \<noteq> 0) = (\<not> (\<exists>k. unat m = 2 ^ k))"
    by (subst power_of_two) (simp_all add: m_def RASPI_MAX_N_DESCRIPTORS_def)
  then show ?thesis
    unfolding raspi_netdev_rx_queue_setup_def raspi_netdev_queue_setup_def Let_def m_def [symmetric]
    using assms(2) [of m "conf_a conf"]
    by (auto simp add: RASPI_MAX_QUEUE_PAIRS_def assms(1,3) wp_simps uk_pr_err_def upd_rndev_def ENOBUFS_def EINVAL_def
        split: sum.split)
qed

definition ring_env :: "raspi_net net_env" where
  "ring_env = \<lparr>call_alloc_rxpkts = (\<lambda>_ _. return (0, \<lparr>nb_buf = 0, nb_buflen = 0, nb_data = 0, nb_len = 0\<rparr>)),
     uk_ring_alloc = (\<lambda>n a. return (if n > 1024 then Inl (- ENOMEM) else Inr 0x5000)),
     uk_netbuf_free = (\<lambda>_. return ()), uk_calloc = (\<lambda>_. return False), uk_free = (\<lambda>_. return ()),
     uk_netdev_drv_register = (\<lambda>_. return (- 1)), uk_alloc_get_default = return 0,
     intctlr_irq_register = (\<lambda>_. 0), tuning_ticks = 100, void_result = 1\<rparr>"

definition net0 :: raspi_net where
  "net0 = uspi.extend (usb_tree.extend ((tree_of (usb0\<lparr>m_nChannels := 0\<rparr>) [0x4000])
       \<lparr>names := \<lparr>s_pThis = False, m_pList = []\<rparr>\<rparr>)
     (uspi.fields 0 \<lparr>pUKBD1 = 0, pUMouse1 = 0, pUMSD = replicate MAX_DEVICES 0, pEth0 = 0, pEth10 = 0,
       pUPAD = replicate MAX_DEVICES 0, pMIDI1 = 0\<rparr>))
     (raspi_net.fields \<lparr>netdev = 0x6000, 
       rxqs = \<lparr>alloc_rxpkts = 0, alloc_rxpkts_argp = 0, rx_nb_desc = 0, rx_rq = 0, rx_ndev = 0\<rparr>,
       txqs = \<lparr>tx_nb_desc = 0, tx_rq = 0, tx_ndev = 0\<rparr>, uid = 0, hw_addr = 0x6100\<rparr> 0 0x7000)"

theorem rx_queue_setup_witness:
  "wp (raspi_netdev_rx_queue_setup ring_env 0 256 \<lparr>conf_a = 0, conf_alloc_rxpkts = 0x8000, conf_alloc_rxpkts_argp = 0\<rparr>)
    (\<lambda>rc t. rc = 0 \<and> rx_nb_desc (rxqs (rndev t)) = 256 \<and> rx_rq (rxqs (rndev t)) = 0x5000) (\<lambda>_ _. False) net0"
proof -
  have "\<exists>k. (256 :: nat) = 2 ^ k" by (rule exI [of _ 8]) simp
  then show ?thesis
    by (intro wp_mono [OF rx_queue_setup [where ring = "\<lambda>n a. if n > 1024 then Inl (- ENOMEM) else Inr 0x5000"
        and P = ring_env and n = 256 and conf = "\<lparr>conf_a = 0, conf_alloc_rxpkts = 0x8000, conf_alloc_rxpkts_argp = 0\<rparr>"]])
      (auto simp: ring_env_def ENOMEM_def RASPI_MAX_N_DESCRIPTORS_def split: if_splits)
qed

section \<open>A start is final\<close>

lemma up_wait_link [up_intros]: "pres (up p) (wait_link n)"
  by (induction n) (simp_all only: wait_link.simps, (intro pres_intros up_intros | assumption)+)

lemma wp_raspi_net_start:
  fixes s :: "'b raspi_net_scheme"
  shows "wp (raspi_net_start P) (\<lambda>r t. r \<noteq> - EIO \<longrightarrow> s_pLibrary t \<noteq> 0) (\<lambda>_ _. True) s"
proof -
  have fin: "wp (return r) (\<lambda>r t. r \<noteq> - EIO \<longrightarrow> s_pLibrary t \<noteq> 0) (\<lambda>_ _. True) t" if "p \<noteq> 0" "up p t"
    for r p and t :: "'b raspi_net_scheme"
    using that by (simp add: wp_simps up_def)
  have eio: "wp (return (- EIO)) (\<lambda>r t. r \<noteq> - EIO \<longrightarrow> s_pLibrary t \<noteq> 0) (\<lambda>_ _. True) t" for t :: "'b raspi_net_scheme"
    by (simp add: wp_simps)
  have tail: "wp (bind USPiEthernetAvailable (\<lambda>ok.
     if \<not> ok then
       bind (uk_pr_err ''Ethernet device not found'') (\<lambda>_. bind USPiEnvClose (\<lambda>_. return (- ENXIO))) else
     bind (gets (\<lambda>s. hw_addr (rndev s))) (\<lambda>addr.
     bind (USPiGetMACAddress addr) (\<lambda>_.
     if void_result P = 0 then
       bind (uk_pr_err ''Failed to get the device hardware address'') (\<lambda>_. return (- EIO)) else
     bind (wait_link 40) (\<lambda>up.
     if \<not> up then bind (uk_pr_err ''Link is down'') (\<lambda>_. return (- EIO))
     else return 0)))))
     (\<lambda>r t. r \<noteq> - EIO \<longrightarrow> s_pLibrary t \<noteq> 0) (\<lambda>_ _. True) t" if "s_pLibrary t \<noteq> 0" for t :: "'b raspi_net_scheme"
  proof -
    have t: "up (s_pLibrary t) t" by (simp add: up_def)
    show ?thesis
      unfolding uk_pr_err_def
      by (rule wp_up_bind, (rule up_intros pres_gets)+, fact t | rule wp_up_bind, (rule up_intros pres_gets)+, assumption |
        rule if_split [where P = "\<lambda>m. wp m _ _ _", THEN iffD2] conjI impI | (rule fin, rule that, assumption))+
  qed
  have init: "wp (USPiInitialize (intctlr_irq_register P)) (\<lambda>r t. r \<noteq> 0 \<longrightarrow> s_pLibrary t \<noteq> 0) (\<lambda>_ _. True) t"
    for t :: "'b raspi_net_scheme"
    by (rule wp_mono [OF wp_USPiInitialize]) blast+
  show ?thesis
    unfolding raspi_net_start_def
  proof (rule wp_any)
    fix ok and t :: "'b raspi_net_scheme"
    show "wp (if ok = 0 then bind (uk_pr_err ''Failed to init USPiEnv.'') (\<lambda>_. return (- EIO)) else
     bind (USPiInitialize (intctlr_irq_register P)) (\<lambda>ok.
     if ok = 0 then
       bind (uk_pr_err ''Cannot initialize USPi'') (\<lambda>_. bind USPiEnvClose (\<lambda>_. return (- EIO))) else
     bind USPiEthernetAvailable (\<lambda>ok.
     if \<not> ok then
       bind (uk_pr_err ''Ethernet device not found'') (\<lambda>_. bind USPiEnvClose (\<lambda>_. return (- ENXIO))) else
     bind (gets (\<lambda>s. hw_addr (rndev s))) (\<lambda>addr.
     bind (USPiGetMACAddress addr) (\<lambda>_.
     if void_result P = 0 then
       bind (uk_pr_err ''Failed to get the device hardware address'') (\<lambda>_. return (- EIO)) else
     bind (wait_link 40) (\<lambda>up.
     if \<not> up then bind (uk_pr_err ''Link is down'') (\<lambda>_. return (- EIO))
     else return 0)))))) (\<lambda>r t. r \<noteq> - EIO \<longrightarrow> s_pLibrary t \<noteq> 0) (\<lambda>_ _. True) t"
      by ((rule if_split [where P = "\<lambda>m. wp m _ _ _", THEN iffD2], rule conjI; rule impI),
          (rule wp_any, rule eio), rule wp_seq [OF init],
          (rule if_split [where P = "\<lambda>m. wp m _ _ _", THEN iffD2], rule conjI; rule impI),
          (rule wp_any, rule wp_any, rule eio), rule tail, blast)
  qed
qed

lemma wp_second_start:
  fixes s :: "'b raspi_net_scheme"
  assumes "s_pLibrary s \<noteq> 0"
  shows "wp (raspi_net_start P) (\<lambda>_ _. False) (\<lambda>_ _. True) s"
proof -
  let ?p = "s_pLibrary s"
  have lib: "wp (USPiInitialize reg) (\<lambda>_ _. False) (\<lambda>_ _. True) t" if "up ?p t" for reg and t :: "'b raspi_net_scheme"
  proof -
    have "wp (bind (gets s_pLibrary) (\<lambda>p. bind (UK_ASSERT (p = 0)) f)) (\<lambda>_ _. False) (\<lambda>_ _. True) u" if "up ?p u"
      for f :: "unit \<Rightarrow> ('b raspi_net_scheme, int) prog" and u
      using that assms by (simp add: wp_simps up_def)
    then show ?thesis
      unfolding USPiInitialize_def by (intro wp_up_bind [OF up_tree(1) that])
  qed
  have "up ?p s" by (simp add: up_def)
  then have env: "wp (USPiEnvInitialize reg ticks) (\<lambda>r t. r = 1 \<and> up ?p t) (\<lambda>_ _. True) s" for reg ticks
    by (intro wp_mono [OF wp_conj [OF wp_EnvInitialize presD [OF up_EnvInitialize(1)]]]) auto
  show ?thesis
    unfolding raspi_net_start_def
    by (rule wp_seq [OF env]) (auto simp: wp_bind intro: wp_mono [OF lib])
qed

text \<open>
  C19. The network driver can be started once.  After a start that has ended with success or because no
  network adapter was found (\<open>-ENXIO\<close>; every other failure is \<open>-EIO\<close>), the pointer to the library object is still
  set, so a later start never returns: at the latest the assertion in \<open>USPiInitialize\<close> stops the system.
\<close>

theorem raspi_net_start_once:
  fixes s :: "'b raspi_net_scheme"
  shows "wp (raspi_net_start P) (\<lambda>r t. r = - EIO \<or> (\<exists>h u. raspi_net_start P' t = Halt h u)) (\<lambda>_ _. True) s"
proof (rule wp_mono [OF wp_raspi_net_start])
  fix r and t :: "'b raspi_net_scheme"
  assume r: "r \<noteq> - EIO \<longrightarrow> s_pLibrary t \<noteq> 0"
  have "\<exists>h u. raspi_net_start P' t = Halt h u" if "s_pLibrary t \<noteq> 0"
    using wp_second_start [OF that, of P'] by (cases "raspi_net_start P' t") (simp_all add: wp_def)
  with r show "r = - EIO \<or> (\<exists>h u. raspi_net_start P' t = Halt h u)" by blast
qed simp

end
