(* ===== verification/LanFrames.thy ===== *)
theory LanFrames
  imports Lan7800 Smsc951x
begin

text \<open>
  Frames through the two network chips (\<^verbatim>\<open>LAN7800DeviceSendFrame\<close>,
  \<^verbatim>\<open>LAN7800DeviceReceiveFrame\<close> and the same of \<^verbatim>\<open>smsc951x.c\<close>), down to
  the controller: what memory holds when a frame is handed to the bulk-out endpoint, and what the
  driver makes of the bytes the bulk-in endpoint has delivered.
\<close>

section \<open>Memory\<close>

lemma store_bytes_append:
  assumes "length xs + length ys < 2 ^ 64"
  shows "store_bytes a (xs @ ys) m = store_bytes a xs (store_bytes (a + of_nat (length xs)) ys m)"
proof
  fix x
  have o: "unat (of_nat (length xs) :: u64) = length xs" using assms by (simp add: unat_of_nat)
  define d where "d = x - a"
  have e: "x - (a + of_nat (length xs)) = d - of_nat (length xs)" by (simp add: d_def)
  have "unat (d - of_nat (length xs)) = unat d - length xs" if "length xs \<le> unat d"
    using that o by (simp add: unat_sub word_le_nat_alt)
  then show "store_bytes a (xs @ ys) m x = store_bytes a xs (store_bytes (a + of_nat (length xs)) ys m) x"
    by (auto simp: store_bytes_def e d_def [symmetric] nth_append)
qed

text \<open>Stores to blocks that do not meet may change places.\<close>

lemma store_words:
  assumes "length bs < 2 ^ 32"
  shows "store_bytes (a + 4) (bytes32 y) (store_bytes a (bytes32 x) (store_bytes (a + 8) bs m)) =
    store_bytes a (bytes32 x @ bytes32 y @ bs) m"
proof -
  have w: "length (bytes32 v) = 4" for v by simp
  have "store_bytes a (bytes32 x) (store_bytes (a + 8) bs m) =
      store_bytes a (bytes32 x) (store_bytes (a + 4 + of_nat 4) bs m)" by (simp add: add.assoc)
  have swap: "store_bytes (a + 4) (bytes32 y) (store_bytes a (bytes32 x) m') =
      store_bytes a (bytes32 x) (store_bytes (a + 4) (bytes32 y) m')" for m'
  proof
    fix z
    define d where "d = z - a"
    have e: "z - (a + 4) = d - 4" by (simp add: d_def)
    have "\<not> unat (d - 4) < 4" if "unat d < 4"
    proof -
      have "d < 4" using that by (simp add: word_less_nat_alt)
      then have "unat (d - 4) = 2 ^ 64 + unat d - 4"
        using that by (simp add: unat_sub_if_size word_le_nat_alt size_word_def)
      then show ?thesis by simp
    qed
    then show "store_bytes (a + 4) (bytes32 y) (store_bytes a (bytes32 x) m') z =
        store_bytes a (bytes32 x) (store_bytes (a + 4) (bytes32 y) m') z"
      by (auto simp: store_bytes_def e d_def [symmetric] w)
  qed
  have "store_bytes a (bytes32 x @ bytes32 y @ bs) m =
      store_bytes a (bytes32 x) (store_bytes (a + 4) (bytes32 y) (store_bytes (a + 4 + 4) bs m))"
    using assms by (simp add: store_bytes_append w)
  then show ?thesis by (simp add: swap add.assoc)
qed

section \<open>Sending\<close>

text \<open>What a frame transfer over the bulk endpoint at \<open>ep\<close> needs of the function at \<open>this\<close>.\<close>

definition frames_ready :: "'b usb_tree_scheme \<Rightarrow> u64 \<Rightarrow> u64 \<Rightarrow> bool" where
  "frames_ready s this ep \<longleftrightarrow> ready s \<and> m_nChannels s \<noteq> 0 \<and> ep \<noteq> 0 \<and>
     m_Type (endpoints s (unat ep)) = EndpointTypeBulk \<and> plain_endpoint s (unat ep) False \<and>
     (\<exists>d. fn_pDevice (funcs s this) = Some d \<and> m_pHost (devs s d))"

lemma wp_GetHost:
  "frames_ready s this ep \<Longrightarrow> wp (USBFunctionGetHost this) Q E s = Q () s"
  by (auto simp: frames_ready_def USBFunctionGetHost_def USBFunctionGetDevice_def USBDeviceGetHost_def wp_simps)

lemma frames_ready_mem [simp]:
  "frames_ready (s\<lparr>mem := m\<rparr>) this ep = frames_ready s this ep"
  "frames_ready (s\<lparr>urbs := u\<rparr>) this ep = frames_ready s this ep"
  by (simp_all add: frames_ready_def)

text \<open>A frame is sent from memory \<open>m\<close>: the request has succeeded and the controller is ready again.\<close>

definition sent_from :: "(u64 \<Rightarrow> u8) \<Rightarrow> answer list \<Rightarrow> irq list \<Rightarrow> answer list \<Rightarrow>
    (bool, 'b usb_tree_scheme) outcome \<Rightarrow> bool" where
  "sent_from m as ints rest r \<longleftrightarrow> (\<exists>t. r = Done True t \<and> ready t \<and> irqs t = ints \<and> mmio_in t = rest \<and> mem t = dma_all as m)"

lemma wp_send_frame:
  fixes s :: "'b usb_tree_scheme"
  assumes "frames_ready s this (m_pEndpointBulkOut (eths s this))"
    and "tx = m_pTxBuffer (eths s this)" and "tx \<noteq> 0" and "tx AND 3 = 0" and "p \<noteq> 0" and "n \<le> 1592"
    and "irqs s = IRQ_USB # ints" and "mmio_in s = as @ rest"
    and "stage_answer (n + 8) (packets_of (m_nMaxPacketSize (endpoints s (unat (m_pEndpointBulkOut (eths s this))))) (n + 8)) siz as"
  shows "wp (send_frame this p n a b) (\<lambda>ok t. ok \<and> ready t \<and> irqs t = ints \<and> mmio_in t = rest \<and>
      mem t = dma_all as (store_bytes tx (bytes32 a @ bytes32 b @ load_bytes p (unat n) (mem s)) (mem s))) (\<lambda>_ _. False) s"
proof -
  let ?s = "s\<lparr>mem := store_bytes tx (bytes32 a @ bytes32 b @ load_bytes p (unat n) (mem s)) (mem s)\<rparr>"
  let ?e = "unat (m_pEndpointBulkOut (eths s this))"
  note r = assms(1) [unfolded frames_ready_def]
  have n: "unat n \<le> 1592" using assms(6) by (simp add: word_le_nat_alt)
  have n8: "unat (n + 8) = unat n + 8" using n by (subst unat_u32_add) simp_all
  then have "n + 8 \<noteq> 0" by (metis unat_0 add_is_0 zero_neq_numeral)
  then have run: "wp (DWHCIDeviceTransfer (Some ?e) tx (n + 8)) (\<lambda>r t. r = n + 8 - (siz AND 0x7FFFF) \<and> ready t \<and> calm1 ?s t \<and>
      mmio_in t = rest \<and> irqs t = ints \<and> sleeps t = sleeps ?s \<and> mem t = dma_all as (mem ?s)) (\<lambda>_ _. False) ?s"
    by (intro wp_bulk_transfer) (use assms r in simp_all)
  have pos: "\<not> (n + 8 - (siz AND 0x7FFFF)) <s 0"
  proof -
    have "siz AND 0x7FFFF \<le> n + 8" using assms(9) by (simp add: stage_answer_def)
    then have "n + 8 - (siz AND 0x7FFFF) \<le> n + 8" by (simp add: word_sub_le)
    then have "unat (n + 8 - (siz AND 0x7FFFF)) \<le> 1600" using n8 n by (simp add: word_le_nat_alt)
    then have "n + 8 - (siz AND 0x7FFFF) < 2 ^ 31" by (simp add: word_less_nat_alt)
    then show ?thesis by (simp add: word_sless_alt sint_small)
  qed
  show ?thesis
    unfolding send_frame_def
    using assms(3,5) r n
    apply (simp add: wp_simps get_eth_def assms(2) [symmetric] store_words wp_GetHost [where ep = "m_pEndpointBulkOut (eths s this)"] assms(1))
    apply (rule wp_mono [OF run])
    using pos by (auto simp: wp_simps)
qed

text \<open>
  C5. Sending a frame, on a ready controller with the chip at high speed, the chip's bulk-out endpoint
  configured, an aligned transmit buffer and a controller that answers the request.  A frame of at most 1592 bytes (less than 1592 for the SMSC951x) goes from the
  caller's buffer into the transmit buffer of the chip, behind the two command words of the chip:
  length and FCS flag for the LAN7800, segment flags with the length and the length for the
  SMSC951x.  This is what memory holds when the request for \<open>n + 8\<close> bytes is made of the bulk-out
  endpoint, and with the answer the frame counts as sent.  A longer frame is refused and
  nothing happens.
\<close>

theorem lan_send_frame:
  fixes s :: "'b usb_tree_scheme"
  assumes "frames_ready s this (m_pEndpointBulkOut (eths s this))"
    and "tx = m_pTxBuffer (eths s this)" and "tx \<noteq> 0" and "tx AND 3 = 0" and "p \<noteq> 0"
    and "irqs s = IRQ_USB # ints" and "mmio_in s = as @ rest"
    and "stage_answer (n + 8) (packets_of (m_nMaxPacketSize (endpoints s (unat (m_pEndpointBulkOut (eths s this))))) (n + 8)) siz as"
  shows "(if n \<le> 1592
      then sent_from (store_bytes tx (bytes32 (n OR 0x400000) @ bytes32 0 @ load_bytes p (unat n) (mem s)) (mem s))
        as ints rest (LAN7800DeviceSendFrame this p n s)
      else LAN7800DeviceSendFrame this p n s = Done False s) \<and>
    (if n < 1592
      then sent_from (store_bytes tx (bytes32 (0x3000 OR n) @ bytes32 n @ load_bytes p (unat n) (mem s)) (mem s))
        as ints rest (SMSC951xDeviceSendFrame this p n s)
      else SMSC951xDeviceSendFrame this p n s = Done False s)"
proof -
  have sent: "sent_from (store_bytes tx (bytes32 a @ bytes32 b @ load_bytes p (unat n) (mem s)) (mem s))
      as ints rest (send_frame this p n a b s)" if "n \<le> 1592" for a b
    using wp_total [OF wp_send_frame [OF assms(1-5) that assms(6-8), of a b]] by (auto simp: sent_from_def)
  have mask: "n AND 0xFFFFF = n" if "n \<le> 1592"
  proof -
    have "n AND mask 20 = n" using that by (simp add: less_mask_eq word_le_nat_alt word_less_nat_alt)
    then show ?thesis by (simp add: mask_eq_exp_minus_1)
  qed
  have words: "8192 OR 4096 OR n = 0x3000 OR n" by (simp flip: or.assoc)
  show ?thesis
    using sent mask by (auto simp: words LAN7800DeviceSendFrame_def SMSC951xDeviceSendFrame_def FRAME_BUFFER_SIZE_def TX_HEADER_SIZE_def
        TX_CMD_A_LEN_MASK_def TX_CMD_A_FCS_def TX_CMD_A_FIRST_SEG_def TX_CMD_A_LAST_SEG_def return_run not_less not_le)
qed

section \<open>Receiving\<close>

text \<open>The reading of the bytes of a transfer: no frame, a frame, or a length that does not fit.\<close>

datatype rx_frame = Rx_none | Rx_frame "u8 list" | Rx_broken

definition decode_frame :: "nat \<Rightarrow> (u32 \<Rightarrow> bool) \<Rightarrow> (u32 \<Rightarrow> u32) \<Rightarrow> u8 list \<Rightarrow> rx_frame" where
  "decode_frame header rx_error frame_length bs =
     (if length bs < header then Rx_none
      else if rx_error (read_le32 bs) then Rx_none
      else let n = unat (frame_length (read_le32 bs)) in
        if n \<noteq> length bs - header \<or> n \<le> 4 then Rx_broken
        else Rx_frame (take (n - 4) (drop header bs)))"

text \<open>What the driver answers to a reading: memory is \<open>m\<close> when the transfer is over.\<close>

definition received :: "u64 \<Rightarrow> (u64 \<Rightarrow> u8) \<Rightarrow> irq list \<Rightarrow> answer list \<Rightarrow> rx_frame \<Rightarrow>
    (u32 option, 'b usb_tree_scheme) outcome \<Rightarrow> bool" where
  "received p m ints rest f r = (case f of
       Rx_none \<Rightarrow> \<exists>t. r = Done None t \<and> ready t \<and> irqs t = ints \<and> mmio_in t = rest \<and> mem t = m
     | Rx_frame bs \<Rightarrow> \<exists>t. r = Done (Some (of_nat (length bs))) t \<and> ready t \<and> irqs t = ints \<and> mmio_in t = rest \<and>
         mem t = store_bytes p bs m \<and> load_bytes p (length bs) (mem t) = bs
     | Rx_broken \<Rightarrow> \<exists>t. r = Halt Assert_failed t)"

lemma wp_receive_request:
  fixes s :: "'b usb_tree_scheme"
  assumes "frames_ready s this (m_pEndpointBulkIn (eths s this))" and "p \<noteq> 0" and "p AND 3 = 0"
    and "irqs s = IRQ_USB # ints" and "mmio_in s = as @ rest"
    and "stage_answer 1600 (packets_of (m_nMaxPacketSize (endpoints s (unat (m_pEndpointBulkIn (eths s this))))) 1600) siz as"
  shows "wp (receive_request this p) (\<lambda>r t. r = Some (1600 - (siz AND 0x7FFFF)) \<and> ready t \<and> irqs t = ints \<and>
      mmio_in t = rest \<and> mem t = dma_all as (mem s) \<and> log_level t = log_level s) (\<lambda>_ _. False) s"
proof -
  let ?e = "unat (m_pEndpointBulkIn (eths s this))"
  note r = assms(1) [unfolded frames_ready_def]
  have pid: "m_NextPID (endpoints s ?e) \<noteq> USBPIDSetup"
    using r by (auto simp: plain_endpoint_def)
  show ?thesis
    unfolding receive_request_def
    using r assms(2)
    apply (simp add: wp_bind wp_UK_ASSERT get_eth_def wp_gets)
    apply (rule wp_request_object)
     apply simp
    apply (simp add: wp_GetHost [where ep = "m_pEndpointBulkIn (eths s this)"] assms(1) DWHCIDeviceSubmitBlockingRequest_def URB_Type_def bulk_stage_def
        wp_simps word_neq_0_conv [symmetric] FRAME_BUFFER_SIZE_def)
    apply (rule wp_plain_stage [where e = ?e and p = p and n = 1600 and siz = siz and ints = ints and rest = rest and as = as
      and packets = "packets_of (m_nMaxPacketSize (endpoints s ?e)) 1600"])
              apply (use assms pid in \<open>simp_all add: stage_plan_def packets_of_def Let_def\<close>)
    apply (simp add: wp_simps after_stage_def calm1_def same_host_def)
    done
qed

lemma load_bytes_part: "off + k \<le> n \<Longrightarrow> load_bytes (a + of_nat off) k m = take k (drop off (load_bytes a n m))"
  by (rule nth_equalityI) (simp_all add: load_bytes_def add.assoc)

lemma read_le32_take: "4 \<le> length xs \<Longrightarrow> read_le32 (take 4 xs) = read_le32 xs"
  by (cases xs rule: read_le32.cases) auto

lemma received_wp:
  "wp prog (\<lambda>r t. received p m ints rest f (Done r t)) (\<lambda>h t. received p m ints rest f (Halt h t)) s \<Longrightarrow>
    received p m ints rest f (prog s)"
  by (simp add: wp_def split: outcome.splits)

lemma receive_frame_decodes:
  fixes s :: "'b usb_tree_scheme"
  assumes "frames_ready s this (m_pEndpointBulkIn (eths s this))" and "p \<noteq> 0" and "p AND 3 = 0"
    and "irqs s = IRQ_USB # ints" and "mmio_in s = as @ rest"
    and "stage_answer 1600 (packets_of (m_nMaxPacketSize (endpoints s (unat (m_pEndpointBulkIn (eths s this))))) 1600) siz as"
    and "header \<in> {4, 10}" and "log_level s \<noteq> None"
  defines "m \<equiv> dma_all as (mem s)" and "n \<equiv> 1600 - (siz AND 0x7FFFF)"
  shows "received p m ints rest (decode_frame (unat header) err len (load_bytes p (unat n) m))
    (receive_frame this p header err len s)"
proof -
  obtain t where req: "receive_request this p s = Done (Some n) t"
    and t: "ready t" "irqs t = ints" "mmio_in t = rest" "mem t = m" "log_level t \<noteq> None"
    using assms(8) wp_total [OF wp_receive_request [OF assms(1-6)]] by (auto simp: n_def m_def)
  have "siz AND 0x7FFFF \<le> 1600" using assms(6) by (simp add: stage_answer_def)
  then have "n \<le> 1600" unfolding n_def by (simp add: word_sub_le)
  then have n: "unat n \<le> 1600" by (simp add: word_le_nat_alt)
  have word: "read_le32 (load_bytes p 4 m) = read_le32 (load_bytes p (unat n) m)" if "\<not> n < header"
  proof -
    have "4 \<le> unat n" using that assms(7) by (auto simp: not_less word_le_nat_alt)
    then show ?thesis using load_bytes_part [of 0 4 "unat n" p m] by (simp add: read_le32_take)
  qed
  have sub: "unat (n - header) = unat n - unat header" if "\<not> n < header"
    using that by (simp add: unat_sub not_less)
  have part: "load_bytes (p + ucast header) (unat (k - 4)) m = take (unat k - 4) (drop (unat header) (load_bytes p (unat n) m))"
    if "\<not> n < header" "k = n - header" "4 < k" for k
  proof -
    have k: "unat (k - 4) = unat k - 4" using that(3) by (simp add: unat_sub less_imp_le)
    have "ucast header = (of_nat (unat header) :: u64)" by simp
    moreover have "unat header + (unat k - 4) \<le> unat n" using that sub by (simp add: not_less word_le_nat_alt)
    ultimately show ?thesis by (simp only: k load_bytes_part)
  qed
  let ?bs = "load_bytes p (unat n) m"
  let ?f = "decode_frame (unat header) err len ?bs"
  let ?k = "len (read_le32 ?bs)"
  show ?thesis
    unfolding receive_frame_def bind_Done [of "receive_request this p" s, OF req]
  proof (rule received_wp)
    consider "n < header" | "\<not> n < header" "err (read_le32 ?bs)"
      | "\<not> n < header" "\<not> err (read_le32 ?bs)" "?k \<noteq> n - header \<or> \<not> 4 < ?k"
      | "\<not> n < header" "\<not> err (read_le32 ?bs)" "?k = n - header" "4 < ?k" by blast
    then show "wp (bind (case Some n of None \<Rightarrow> return None | Some nResultLength \<Rightarrow>
       if nResultLength < header then return None else
       bind (load32 p) (\<lambda>nRxStatus.
       if err nRxStatus then
         bind (LogWrite LOG_WARNING ''RX error (status 0x%X)'') (\<lambda>_. return None)
       else
         bind (return (len nRxStatus)) (\<lambda>nFrameLength.
         bind (UK_ASSERT (nFrameLength = nResultLength - header)) (\<lambda>_.
         bind (UK_ASSERT (nFrameLength > 4)) (\<lambda>_.
         bind (load (p + ucast header) (unat (nFrameLength - 4))) (\<lambda>bs.
         bind (store p bs) (\<lambda>_. return (Some (nFrameLength - 4)))))))))  (\<lambda>r.
     bind (on_urb 0 USBRequest_destroy) (\<lambda>_. return r)))
      (\<lambda>r t. received p m ints rest ?f (Done r t)) (\<lambda>h t. received p m ints rest ?f (Halt h t)) t"
    proof cases
      case 1
      then have "?f = Rx_none" by (simp add: decode_frame_def word_less_nat_alt)
      with 1 t show ?thesis by (simp add: wp_simps received_def)
    next
      case 2
      then have "?f = Rx_none" by (simp add: decode_frame_def)
      with 2 t word show ?thesis by (auto simp: wp_simps received_def LOG_WARNING_def LogPanic_def)
    next
      case 3
      then have "?f = Rx_broken"
        using sub by (auto simp: decode_frame_def word_less_nat_alt not_less word_unat_eq_iff)
      with 3 t word show ?thesis by (auto simp: wp_simps received_def)
    next
      case 4
      let ?d = "take (unat ?k - 4) (drop (unat header) ?bs)"
      have f: "?f = Rx_frame ?d"
        using 4 sub by (auto simp: decode_frame_def word_less_nat_alt Let_def)
      have len: "length ?d = unat (?k - 4)"
        using 4 sub by (simp add: unat_sub less_imp_le)
      have same: "load_bytes p (unat (?k - 4)) (store_bytes p ?d m) = ?d"
        using load_store_same [of ?d p m] n len by simp
      show ?thesis
        unfolding f using 4(1,2) 4(3) [symmetric] 4(4) t word part [OF 4(1,3,4)] len same
        by (simp add: wp_simps received_def)
    qed
  qed
qed

text \<open>
  C4. Receiving a frame, on a ready controller with the chip at high speed, the chip's bulk-in endpoint
  configured and an aligned buffer.  A request for 1600 bytes of the bulk-in endpoint is made for the caller's
  buffer.  When the controller has answered it, the driver reads the delivered bytes as the format of
  the chip says: too few bytes for the header or an error flag in the status word give no frame; a
  length in the status word that is not that of the delivered bytes, or no more than the frame check
  sequence, stops the system; otherwise the frame without header and frame check sequence is at the
  start of the buffer and its length is returned.
\<close>

theorem lan_receive_frame:
  fixes s :: "'b usb_tree_scheme"
  assumes "frames_ready s this (m_pEndpointBulkIn (eths s this))" and "p \<noteq> 0" and "p AND 3 = 0"
    and "irqs s = IRQ_USB # ints" and "mmio_in s = as @ rest"
    and "stage_answer 1600 (packets_of (m_nMaxPacketSize (endpoints s (unat (m_pEndpointBulkIn (eths s this))))) 1600) siz as"
    and "log_level s \<noteq> None"
    and "m = dma_all as (mem s)" and "bs = load_bytes p (unat (1600 - (siz AND 0x7FFFF))) m"
  shows "received p m ints rest (decode_frame 10 (\<lambda>st. st AND 0x400000 \<noteq> 0) (\<lambda>st. st AND 0x3FFF) bs)
      (LAN7800DeviceReceiveFrame this p s) \<and>
    received p m ints rest (decode_frame 4 (\<lambda>st. st AND 0x400090DE \<noteq> 0) (\<lambda>st. drop_bit 16 (st AND 0x3FFF0000)) bs)
      (SMSC951xDeviceReceiveFrame this p s)"
proof -
  have "RX_STS_FRAMELEN = (\<lambda>st. drop_bit 16 (st AND 0x3FFF0000))" "RX_STS_ERROR = 0x400090DE"
    by (simp_all add: fun_eq_iff RX_STS_FRAMELEN_def RX_STS_FL_def RX_STS_ERROR_def)
  then show ?thesis
    using receive_frame_decodes [OF assms(1-6), of 10 "\<lambda>st. st AND 0x400000 \<noteq> 0" "\<lambda>st. st AND 0x3FFF"]
      receive_frame_decodes [OF assms(1-6), of 4 "\<lambda>st. st AND RX_STS_ERROR \<noteq> 0" RX_STS_FRAMELEN] assms(7)
    by (simp only: LAN7800DeviceReceiveFrame_def SMSC951xDeviceReceiveFrame_def assms(8,9) RX_HEADER_SIZE_def
      RX_CMD_A_RED_def RX_CMD_A_LEN_MASK_def) simp
qed

section \<open>Examples\<close>

text \<open>A chip at 0x5000 with its transmit buffer at 0x6000; a buffer with a frame of two bytes at 0x1000.\<close>

definition lan_state :: "answer list \<Rightarrow> usb_tree" where
  "lan_state as = (tree_of (bulk0\<lparr>mmio_in := as, mem := store_bytes 0x1000 [0xAB, 0xCD] (\<lambda>_. 0)\<rparr>) [])\<lparr>
     funcs := \<lambda>_. \<lparr>Configure = Configure_lan7800, fn_pDevice = Some 1, fn_pConfigParser = 0, m_pInterfaceDesc = 0\<rparr>,
     eths := \<lambda>_. \<lparr>m_pEndpointBulkIn = 1, m_pEndpointBulkOut = 2, m_MACAddress = \<lparr>m_bValid = False, m_Address = []\<rparr>,
       m_pTxBuffer = 0x6000\<rparr>\<rparr>"

lemma lan_state_facts:
  "frames_ready (lan_state as) 0x5000 1" "frames_ready (lan_state as) 0x5000 2" "irqs (lan_state as) = IRQ_USB # []"
  "mmio_in (lan_state as) = as @ []" "m_nMaxPacketSize (endpoints (lan_state as) e) = 8" "log_level (lan_state as) \<noteq> None"
  "m_pTxBuffer (eths (lan_state as) a) = 0x6000" "m_pEndpointBulkOut (eths (lan_state as) a) = 2"
  "m_pEndpointBulkIn (eths (lan_state as) a) = 1" "mem (lan_state as) = store_bytes 0x1000 [0xAB, 0xCD] (\<lambda>_. 0)"
  by (simp_all add: lan_state_def tree_of_def usb.defs usb_tree.defs bulk0_def frames_ready_def run_values)

theorem lan_send_frame_witness:
  "\<exists>t. LAN7800DeviceSendFrame 0x5000 0x1000 2 (lan_state (dma_answer 0 [])) = Done True t \<and>
     load_bytes 0x6000 10 (mem t) = [2, 0, 0x40, 0, 0, 0, 0, 0, 0xAB, 0xCD]"
proof -
  have a: "stage_answer 10 (packets_of 8 10) 0 (dma_answer 0 [])"
    by (simp add: dma_answer_stage DWHCI_HOST_CHAN_XFER_SIZ_PACKETS_def packets_of_def)
  have bs: "load_bytes 0x1000 2 (store_bytes 0x1000 [0xAB, 0xCD] (\<lambda>_. 0)) = [0xAB, 0xCD]"
    by (simp add: load_bytes_def store_bytes_def upt_conv_Cons)
  have w: "bytes32 0x400002 @ bytes32 0 @ [0xAB, 0xCD] = [2, 0, 0x40, 0, 0, 0, 0, 0, 0xAB, 0xCD]"
    by (simp add: bytes32_def)
  have l: "load_bytes 0x6000 10 (store_bytes 0x6000 [2, 0, 0x40, 0, 0, 0, 0, 0, 0xAB, 0xCD] m) =
      [2, 0, 0x40, 0, 0, 0, 0, 0, 0xAB, 0xCD]" for m
    by (simp add: load_bytes_def store_bytes_def upt_conv_Cons)
  show ?thesis
    using lan_send_frame [where s = "lan_state (dma_answer 0 [])" and this = "0x5000" and tx = "0x6000" and p = "0x1000"
        and n = 2 and siz = 0 and as = "dma_answer 0 []" and ints = "[]" and rest = "[]"]
    by (auto simp: lan_state_facts a bs w sent_from_def dma_all_answer l)
qed

text \<open>The LAN7800 delivers a header of 10 bytes, a frame of two bytes and its check sequence.\<close>

definition rx_bytes :: "u8 list" where
  "rx_bytes = [6, 0, 0, 0, 0, 0, 0, 0, 0, 0, 0x12, 0x34, 9, 9, 9, 9]"

theorem lan_receive_frame_witness:
  "\<exists>t. LAN7800DeviceReceiveFrame 0x5000 0x1000 (lan_state (dma_answer 1584 [(0x1000, rx_bytes)])) = Done (Some 2) t \<and>
     load_bytes 0x1000 2 (mem t) = [0x12, 0x34]"
proof -
  let ?as = "dma_answer 1584 [(0x1000, rx_bytes)]"
  have a: "stage_answer 1600 (packets_of 8 1600) 1584 ?as"
    by (simp add: dma_answer_stage DWHCI_HOST_CHAN_XFER_SIZ_PACKETS_def packets_of_def)
  have bs: "load_bytes 0x1000 16 (store_bytes 0x1000 rx_bytes m) = rx_bytes" for m
    by (simp add: rx_bytes_def load_bytes_def store_bytes_def upt_conv_Cons)
  have two: "load_bytes 0x1000 2 (store_bytes 0x1000 [0x12, 0x34] m) = [0x12, 0x34]" for m
    by (simp add: load_bytes_def store_bytes_def upt_conv_Cons)
  have d: "decode_frame 10 (\<lambda>st. st AND 0x400000 \<noteq> 0) (\<lambda>st. st AND 0x3FFF) rx_bytes = Rx_frame [0x12, 0x34]"
    by (simp add: decode_frame_def rx_bytes_def le32_def)
  show ?thesis
    using lan_receive_frame [where s = "lan_state ?as" and this = "0x5000" and p = "0x1000" and siz = 1584 and as = ?as
        and ints = "[]" and rest = "[]" and m = "dma_all ?as (mem (lan_state ?as))" and bs = rx_bytes]
    by (auto simp: lan_state_facts a bs d two received_def dma_all_answer)
qed

end
