(* ===== verification/DeviceNames.thy ===== *)
theory DeviceNames
  imports UsbDevice
begin

text \<open>
  From the identifiers in a device descriptor to the class of a function: the name a device makes of
  its vendor and product number (\<^verbatim>\<open>USBDeviceGetName\<close>) and the object the factory makes for
  that name (\<^verbatim>\<open>USBDeviceFactoryGetDevice\<close>).
\<close>

section \<open>Names\<close>

definition hex :: "u16 \<Rightarrow> string" where
  "hex v = number_text (unat v) 16 False"

definition vendor_name :: "u16 \<Rightarrow> u16 \<Rightarrow> string" where
  "vendor_name V P = ''ven'' @ hex V @ ''-'' @ hex P"

lemma hex_char: "n < 16 \<Longrightarrow> digit_char (of_nat n) False \<in> set ''0123456789abcdef''"
proof -
  have "\<forall>k \<in> set [0..<16]. digit_char (of_nat k) False \<in> set ''0123456789abcdef''" by code_simp
  moreover assume "n < 16"
  ultimately show ?thesis by simp
qed

lemma set_number_text:
  assumes "2 \<le> b" and "b \<le> 16"
  shows "set (number_text m b False) \<subseteq> set ''0123456789abcdef''"
proof (induction m rule: less_induct)
  case (less m)
  show ?case
  proof (cases "m < b")
    case True
    with assms show ?thesis using hex_char [of m] by (simp add: number_text.simps [of m])
  next
    case False
    with assms have "m div b < m" "m mod b < 16" by (auto intro: less_le_trans [OF mod_less_divisor])
    with assms False show ?thesis
      using less.IH hex_char [of "m mod b"] by (simp add: number_text.simps [of m])
  qed
qed

lemma hex_facts: "CHR ''-'' \<notin> set (hex v)" "NUL \<notin> set (hex v)" "length (hex v) \<le> 4"
  using set_number_text [of 16 "unat v"] length_number_text_le [of 16 "unat v" 4] unsigned_less [of v, where 'a = nat]
  by (auto simp: hex_def NUL_def)

lemma hex_inj: "hex v = hex w \<longleftrightarrow> v = w"
proof
  assume "hex v = hex w"
  then have "text_value 16 (hex v) = text_value 16 (hex w)" by simp
  then show "v = w" by (simp add: hex_def text_value_number word_unat_eq_iff)
qed simp

lemma vendor_name_inj: "vendor_name V P = vendor_name V' P' \<longleftrightarrow> V = V' \<and> P = P'"
proof -
  have "hex V = hex V' \<and> hex P = hex P'" if "hex V @ CHR ''-'' # hex P = hex V' @ CHR ''-'' # hex P'"
    using that hex_facts(1) by (metis append_Cons_eq_iff)
  then show ?thesis by (auto simp: vendor_name_def hex_inj)
qed

lemma chip_names: "vendor_name 0x424 0xec00 = ''ven424-ec00''" "vendor_name 0x424 0x7800 = ''ven424-7800''"
proof -
  have "digit_char 0 False = CHR ''0''" "digit_char 2 False = CHR ''2''" "digit_char 4 False = CHR ''4''"
    "digit_char 7 False = CHR ''7''" "digit_char 8 False = CHR ''8''" "digit_char 12 False = CHR ''c''"
    "digit_char 14 False = CHR ''e''" by code_simp+
  then show "vendor_name 0x424 0xec00 = ''ven424-ec00''" "vendor_name 0x424 0x7800 = ''ven424-7800''"
    by (simp_all add: vendor_name_def hex_def number_text.simps)
qed

lemma printf_vendor: "printf_text ''ven%x-%x'' [VInt (ucast V), VInt (ucast P)] = Some (vendor_name V P)"
proof -
  have p: "parse_spec (CHR ''x'' # f) = (\<lparr>bLeft = False, bNull = False, nWidth = 0, bLong = False\<rparr>, CHR ''x'' # f)" for f
    by (simp add: parse_spec_def is_digit_def digit_val_def)
  have u: "unat (ucast (ucast v :: u32) :: u64) = unat v" for v :: u16 by (simp only: unat_ucast_up)
  have c: "conversion_text \<lparr>bLeft = False, bNull = False, nWidth = 0, bLong = False\<rparr> CHR ''x'' (VInt (ucast v) # vs) =
      Some (hex v, vs)" for v :: u16 and vs
    using hex_facts(3) [of v]
    by (simp add: u conversion_text_def arg_unsigned_def number_field_def field_def hex_def MAX_NUMBER_LEN_def)
  show ?thesis
    by (simp add: vendor_name_def printf_text_steps(1,3) printf_text_steps(5) [OF _ p] c)
qed

lemma strcmp_eq: "strcmp s t = 0 \<longleftrightarrow> s = t"
  by (induction s t rule: strcmp.induct) auto

text \<open>The text of the string object at an address.\<close>

definition named :: "'b usb_tree_scheme \<Rightarrow> u64 \<Rightarrow> string \<Rightarrow> bool" where
  "named s p txt \<longleftrightarrow> (\<exists>b. TString.m_pBuffer (strings s p) = Some b \<and> cstr b = Some txt)"

lemma wp_name_is:
  assumes "named s p txt"
  shows "wp (name_is p x) Q E s = Q (txt = x) s"
proof -
  have "s\<lparr>strings := (strings s)(p := strings s p)\<rparr> = s" by simp
  with assms show ?thesis
    by (auto simp: named_def name_is_def StringCompare_def the_buffer_def wp_simps strcmp_eq)
qed

lemma wp_vendor_name:
  fixes s :: "'b usb_tree_scheme"
  assumes "mallocs s = n # ms" and "n \<noteq> 0" and "m_pDeviceDesc (devs s d) = a" and "a \<noteq> 0"
    and "\<And>x. named (s\<lparr>mallocs := ms, strings := (strings s)(n := x)\<rparr>) n
        (vendor_name (le16 (mem s (a + 8)) (mem s (a + 9))) (le16 (mem s (a + 10)) (mem s (a + 11)))) \<Longrightarrow>
      Q n (s\<lparr>mallocs := ms, strings := (strings s)(n := x)\<rparr>)"
  shows "wp (USBDeviceGetName d DeviceNameVendor) Q E s"
proof -
  let ?V = "le16 (mem s (a + 8)) (mem s (a + 9))" and ?P = "le16 (mem s (a + 10)) (mem s (a + 11))"
  have nul: "NUL \<notin> set (vendor_name ?V ?P)" and len: "length (vendor_name ?V ?P) + 66 < 2 ^ 32"
    using hex_facts(2,3) [of ?V] hex_facts(2,3) [of ?P] by (auto simp: vendor_name_def NUL_def)
  have fmt: "wp (StringFormat ''ven%x-%x'' [VInt (ucast ?V), VInt (ucast ?P)])
      (\<lambda>_ x. \<exists>b. TString.m_pBuffer x = Some (map Some (vendor_name ?V ?P) @ Some NUL # b)) (\<lambda>_ _. False) t" for t
    unfolding StringFormat_def by (rule wp_mono [OF StringFormatV_holds [OF printf_vendor nul len]]) auto
  show ?thesis
    using assms(1-4)
    apply (simp add: USBDeviceGetName_def wp_simps add.assoc)
    apply (rule wp_mono [OF fmt])
     apply (use nul in \<open>auto intro!: assms(5) simp: named_def cstr_map\<close>)
    done
qed

section \<open>The factory\<close>

text \<open>A function whose parser stands at an interface descriptor: what the constructors of the classes copy.\<close>

definition parent_ok :: "'b usb_tree_scheme \<Rightarrow> u64 \<Rightarrow> bool" where
  "parent_ok s f \<longleftrightarrow> f \<noteq> 0 \<and> fn_pDevice (funcs s f) \<noteq> None \<and>
     (let q = fn_pConfigParser (funcs s f) in q \<noteq> 0 \<and> TUSBConfigurationParser.m_bValid (parsers s q) \<and>
       (\<exists>off. TUSBConfigurationParser.m_pCurrentDescriptor (parsers s q) = Some off \<and> parser_buffer s q + of_nat off \<noteq> 0))"

definition chip_of :: "u16 \<Rightarrow> u16 \<Rightarrow> configure option" where
  "chip_of V P = (if V = 0x424 \<and> P = 0xec00 then Some Configure_smsc951x
     else if V = 0x424 \<and> P = 0x7800 then Some Configure_lan7800 else None)"

text \<open>A network chip made from the function at \<open>f\<close>: its class, its device, and its own copy of the parser.\<close>

definition chip_made :: "configure \<Rightarrow> 'b usb_tree_scheme \<Rightarrow> u64 \<Rightarrow> u64 \<Rightarrow> u64 \<Rightarrow> u64 \<Rightarrow> 'b usb_tree_scheme \<Rightarrow> bool" where
  "chip_made c s f p q b t \<longleftrightarrow> Configure (funcs t p) = c \<and> fn_pDevice (funcs t p) = fn_pDevice (funcs s f) \<and>
     fn_pConfigParser (funcs t p) = q \<and> parser_buffer t q = parser_buffer s (fn_pConfigParser (funcs s f)) \<and>
     parser_view t q = parser_view s (fn_pConfigParser (funcs s f)) \<and> m_pTxBuffer (eths t p) = b \<and>
     m_pEndpointBulkIn (eths t p) = 0 \<and> m_pEndpointBulkOut (eths t p) = 0"

lemma parser_view_upd [simp]:
  "parser_view (t\<lparr>strings := x\<rparr>) p = parser_view t p" "parser_view (t\<lparr>freed := y\<rparr>) p = parser_view t p"
  "parser_view (t\<lparr>rev_trace := z\<rparr>) p = parser_view t p" "parser_view (t\<lparr>mallocs := ms\<rparr>) p = parser_view t p"
  by (simp_all add: parser_view_def)

lemma wp_eth_device:
  fixes s :: "'b usb_tree_scheme"
  assumes "parent_ok s f" and "p \<noteq> f" and "q \<noteq> fn_pConfigParser (funcs s f)" and "mallocs s = q # b # ms" and "q \<noteq> 0" and "b \<noteq> 0"
  shows "wp (eth_device c p f) (\<lambda>_ t. chip_made c s f p q b t \<and> mallocs t = ms \<and> freed t = freed s \<and> log_level t = log_level s) (\<lambda>_ _. False) s"
  using assms by (auto intro!: TUSBConfigurationParser.equality simp: option.map_comp o_def Let_def parent_ok_def Let_def eth_device_def USBFunctionCopy_def copy_parser_def set_interface_desc_def upd_eth_def
    chip_made_def USBConfigurationParserCopy_def USBConfigurationParserGetCurrentDescriptor_def parser_view_def wp_simps)

text \<open>
  C14. The function made for a device.  The name of a device is made of its vendor and product
  identifiers, so that the factory makes a network chip of it exactly for the identifiers
  0424:EC00 (SMSC951x) and 0424:7800 (LAN7800): a new function of that class for the same device,
  with a parser of its own that stands where the parent's parser stands, and a transmit buffer.  For
  any other identifiers the result is null and no object is made.  The name is given back in all cases.
\<close>

theorem vendor_device_class:
  fixes s :: "'b usb_tree_scheme"
  assumes "a = m_pDeviceDesc (devs s d)" and "a \<noteq> 0" and "parent_ok s f" and "log_level s \<noteq> None"
    and "mallocs s = n # p # q # b # ms" and "0 \<notin> {n, p, q, b}" and "p \<noteq> f" and "q \<noteq> fn_pConfigParser (funcs s f)"
    and "V = le16 (mem s (a + 8)) (mem s (a + 9))" and "P = le16 (mem s (a + 10)) (mem s (a + 11))"
  shows "\<exists>r t. bind (USBDeviceGetName d DeviceNameVendor) (USBDeviceFactoryGetDevice f) s = Done r t \<and> freed t = n # freed s \<and>
    (case chip_of V P of
      Some c \<Rightarrow> r = p \<and> chip_made c s f p q b t \<and> mallocs t = ms
    | None \<Rightarrow> r = 0 \<and> funcs t = funcs s \<and> eths t = eths s \<and> mallocs t = p # q # b # ms)"
proof -
  let ?Q = "\<lambda>r t. freed t = n # freed s \<and> (case chip_of V P of
      Some c \<Rightarrow> r = p \<and> chip_made c s f p q b t \<and> mallocs t = ms
    | None \<Rightarrow> r = 0 \<and> funcs t = funcs s \<and> eths t = eths s \<and> mallocs t = p # q # b # ms)"
  have n: "n \<noteq> 0" "p \<noteq> 0" "q \<noteq> 0" "b \<noteq> 0" "f \<noteq> 0" using assms(3,6) by (auto simp: parent_ok_def)
  have "wp (USBDeviceFactoryGetDevice f n) ?Q (\<lambda>_ _. False) (s\<lparr>mallocs := p # q # b # ms, strings := (strings s)(n := x)\<rparr>)"
    if nm: "named (s\<lparr>mallocs := p # q # b # ms, strings := (strings s)(n := x)\<rparr>) n (vendor_name V P)" for x
  proof -
    let ?s = "s\<lparr>mallocs := p # q # b # ms, strings := (strings s)(n := x)\<rparr>"
    have names: "vendor_name V P \<noteq> CHR ''i'' # xs" for xs by (simp add: vendor_name_def)
    have chips: "vendor_name V P = ''ven424-ec00'' \<longleftrightarrow> V = 0x424 \<and> P = 0xec00"
      "vendor_name V P = ''ven424-7800'' \<longleftrightarrow> V = 0x424 \<and> P = 0x7800"
      by (simp_all add: chip_names [symmetric] vendor_name_inj)
    have made: "wp (eth_device c p f) (\<lambda>_ t. chip_made c s f p q b t \<and> mallocs t = ms \<and> freed t = freed s \<and> log_level t = log_level s)
        (\<lambda>_ _. False) (s\<lparr>strings := (strings s)(n := x), mallocs := q # b # ms\<rparr>)" for c
      by (rule wp_mono [OF wp_eth_device [where f = f and p = p and q = q and b = b and ms = ms]])
        (use assms n in \<open>auto simp: parent_ok_def Let_def chip_made_def parser_view_def\<close>)
    show ?thesis
      using n assms(4)
      apply (auto simp: USBDeviceFactoryGetDevice_def factory_table_def wp_name_is [OF nm] names chips wp_simps chip_of_def
        make_device_def SMSC951xDevice_def LAN7800Device_def String_destroy_def LOG_NOTICE_def LogPanic_def)
       apply (rule wp_mono [OF made], auto simp: wp_simps chip_made_def LogPanic_def)+
      done
  qed
  then have "wp (bind (USBDeviceGetName d DeviceNameVendor) (USBDeviceFactoryGetDevice f)) ?Q (\<lambda>_ _. False) s"
    unfolding wp_bind by (intro wp_vendor_name [OF assms(5) n(1) assms(1) [symmetric] assms(2)]) (simp add: assms(9,10))
  from wp_total [OF this] show ?thesis by blast
qed

text \<open>The device descriptor of a LAN7800 at 0x2000, and its function at 0x5000 with a parser at 0x5100.\<close>

definition names_state :: usb_tree where
  "names_state = (tree_of (usb0\<lparr>devs := \<lambda>_. device1\<lparr>m_pDeviceDesc := 0x2000\<rparr>,
       mem := store_bytes 0x2000 [18, 1, 0x10, 2, 0, 0, 0, 64, 0x24, 4, 0, 0x78] (\<lambda>_. 0)\<rparr>) [0x100, 0x200, 0x300, 0x400])\<lparr>
     funcs := \<lambda>_. \<lparr>Configure = Configure_null, fn_pDevice = Some 1, fn_pConfigParser = 0x5100, m_pInterfaceDesc = 0\<rparr>,
     parsers := \<lambda>_. \<lparr>TUSBConfigurationParser.m_pBuffer = Some [], m_nBufLen = 39, m_bValid = True, m_pEndPosition = 39,
       m_pNextPosition = 18, m_pCurrentDescriptor = Some 9, m_pErrorPosition = 0\<rparr>,
     parser_buffer := \<lambda>_. 0x3000\<rparr>"

theorem vendor_device_class_witness:
  "\<exists>t. bind (USBDeviceGetName 1 DeviceNameVendor) (USBDeviceFactoryGetDevice 0x5000) names_state = Done 0x200 t \<and>
     Configure (funcs t 0x200) = Configure_lan7800 \<and> m_pTxBuffer (eths t 0x200) = 0x400 \<and> freed t = [0x100]"
proof -
  have m: "mem names_state (0x2000 + 8) = 0x24" "mem names_state (0x2000 + 9) = 4" "mem names_state (0x2000 + 10) = 0"
    "mem names_state (0x2000 + 11) = 0x78"
    by (simp_all add: names_state_def tree_of_def usb.defs usb_tree.defs store_bytes_def)
  have "le16 0x24 4 = 0x424" "le16 0 0x78 = 0x7800" by (simp_all add: le16_def)
  with m show ?thesis
    using vendor_device_class [where s = names_state and a = "0x2000" and d = 1 and f = "0x5000" and n = "0x100" and p = "0x200"
      and q = "0x300" and b = "0x400" and ms = "[]"]
    by (auto simp: names_state_def tree_of_def usb.defs usb_tree.defs usb0_def device1_def parent_ok_def chip_of_def chip_made_def)
qed

end
