(* ===== verification/BusAddresses.thy ===== *)
theory BusAddresses
  imports UsbHub DeviceNames
begin

text \<open>
  How the devices on the bus are addressed: the translator a device behind hubs is reached through
  (\<^verbatim>\<open>USBStandardHubEnumeratePorts\<close>) and the address a new device gets
  (\<^verbatim>\<open>USBDeviceInitialize\<close>).
\<close>

section \<open>Translators\<close>

text \<open>
  The way from the root device to a device: for every hub on it the port that is left by, the speed
  of the device behind that port, and the address that device gets later.  \<open>below\<close> is the object the
  hub constructs for that device, and \<open>way\<close> the object at the end.
\<close>

definition below :: "TUSBDevice \<Rightarrow> nat \<times> TUSBSpeed \<times> u8 \<Rightarrow> TUSBDevice" where
  "below hub link = (case link of (nPort, Speed, ucAddress) \<Rightarrow>
     (case split_of hub Speed nPort of (bSplit, ucHubAddress, ucHubPortNumber) \<Rightarrow>
       hub\<lparr>m_ucAddress := ucAddress, TUSBDevice.m_Speed := Speed, m_bSplitTransfer := bSplit,
         m_ucHubAddress := ucHubAddress, m_ucHubPortNumber := ucHubPortNumber\<rparr>))"

fun way :: "TUSBDevice \<Rightarrow> (nat \<times> TUSBSpeed \<times> u8) list \<Rightarrow> TUSBDevice" where
  "way v [] = v"
| "way v (link # links) = way (below v link) links"

text \<open>The links of the way, each with the speed and the address of its hub, and the first one where
  high speed ends: its hub is the translator.\<close>

fun hops :: "TUSBSpeed \<Rightarrow> u8 \<Rightarrow> (nat \<times> TUSBSpeed \<times> u8) list \<Rightarrow> (TUSBSpeed \<times> u8 \<times> nat \<times> TUSBSpeed) list" where
  "hops hubspeed hub [] = []"
| "hops hubspeed hub ((nPort, Speed, ucAddress) # links) = (hubspeed, hub, nPort, Speed) # hops Speed ucAddress links"

definition translator :: "(TUSBSpeed \<times> u8 \<times> nat \<times> TUSBSpeed) list \<Rightarrow> (u8 \<times> u8) option" where
  "translator hs = map_option (\<lambda>(_, hub, nPort, _). (hub, of_nat (nPort + 1)))
     (find (\<lambda>(hubspeed, _, _, Speed). hubspeed = USBSpeedHigh \<and> Speed \<in> {USBSpeedLow, USBSpeedFull}) hs)"

lemma way_split: "m_bSplitTransfer v \<Longrightarrow> m_bSplitTransfer (way v links) \<and> m_ucHubAddress (way v links) = m_ucHubAddress v \<and>
    m_ucHubPortNumber (way v links) = m_ucHubPortNumber v"
  by (induction v links rule: way.induct) (auto simp: below_def split_of_def split: prod.splits)

text \<open>
  C20. The translator of a device.  When hubs attach devices behind one another, starting at a root device
  that is reached without split transactions, the device at the end is reached by split
  transactions exactly when there is a link on the way where a high-speed hub has a full- or low-speed
  device behind its port, and then through the first such hub, by its address and the number of that port.
  Otherwise hub address and port number are those of the root device.
\<close>

theorem translator_of_device:
  assumes "\<not> m_bSplitTransfer v"
  shows "(m_bSplitTransfer (way v links), m_ucHubAddress (way v links), m_ucHubPortNumber (way v links)) =
    (case translator (hops (TUSBDevice.m_Speed v) (m_ucAddress v) links) of
      Some (hub, port) \<Rightarrow> (True, hub, port)
    | None \<Rightarrow> (False, m_ucHubAddress v, m_ucHubPortNumber v))"
  using assms
proof (induction v links rule: way.induct)
  case (1 v)
  then show ?case by (simp add: translator_def)
next
  case (2 v link links)
  obtain nPort Speed a where link: "link = (nPort, Speed, a)" by (cases link)
  show ?case
  proof (cases "TUSBDevice.m_Speed v = USBSpeedHigh \<and> Speed \<in> {USBSpeedLow, USBSpeedFull}")
    case True
    with 2(2) have "split_of v Speed nPort = (True, m_ucAddress v, of_nat (nPort + 1))" by (simp add: split_of_def)
    with True show ?thesis
      using way_split [of "below v link" links] by (auto simp: below_def link translator_def)
  next
    case False
    then have b: "split_of v Speed nPort = (False, m_ucHubAddress v, m_ucHubPortNumber v)"
      using 2(2) by (auto simp: split_of_def)
    have "translator (hops (TUSBDevice.m_Speed v) (m_ucAddress v) (link # links)) = translator (hops Speed a links)"
      using False by (auto simp: translator_def link)
    moreover have "below v link = v\<lparr>m_ucAddress := a, TUSBDevice.m_Speed := Speed\<rparr>"
      using 2(2) by (simp add: below_def link b)
    ultimately show ?thesis using 2 by (simp cong: option.case_cong)
  qed
qed

text \<open>A high-speed hub at address 2 behind the root hub has a full-speed hub at its port 3 with a mouse.\<close>

theorem translator_of_device_witness:
  "let v = way (device1\<lparr>m_ucHubAddress := 0, m_ucHubPortNumber := 1\<rparr>)
       [(0, USBSpeedHigh, 2), (2, USBSpeedFull, 3), (1, USBSpeedLow, 4)]
   in m_bSplitTransfer v \<and> m_ucHubAddress v = 2 \<and> m_ucHubPortNumber v = 3"
  using translator_of_device [of "device1\<lparr>m_ucHubAddress := 0, m_ucHubPortNumber := 1\<rparr>"
      "[(0, USBSpeedHigh, 2), (2, USBSpeedFull, 3), (1, USBSpeedLow, 4)]"]
  by (simp add: device1_def translator_def del: way.simps)

section \<open>Messages of a device\<close>

text \<open>A message of a device is printed when its text and the name of the device can be formatted.\<close>

lemma conversion_u:
  fixes v :: u8
  shows "conversion_text \<lparr>bLeft = False, bNull = False, nWidth = 0, bLong = False\<rparr> CHR ''u'' (VInt (ucast v) # vs) =
    Some (number_text (unat v) 10 False, vs)"
    and "NUL \<notin> set (number_text (unat v) 10 False)" and "length (number_text (unat v) 10 False) \<le> 3"
proof -
  have len: "length (number_text (unat v) 10 False) \<le> 3"
    using length_number_text_le [of 10 "unat v" 3] unsigned_less [of v, where 'a = nat] by simp
  have u: "unat (ucast (ucast v :: u32) :: u64) = unat v" by (simp only: unat_ucast_up)
  show "length (number_text (unat v) 10 False) \<le> 3" by (rule len)
  show "NUL \<notin> set (number_text (unat v) 10 False)" using set_number_text [of 10 "unat v"] by (auto simp: NUL_def)
  show "conversion_text \<lparr>bLeft = False, bNull = False, nWidth = 0, bLong = False\<rparr> CHR ''u'' (VInt (ucast v) # vs) =
      Some (number_text (unat v) 10 False, vs)"
    using len by (simp add: u conversion_text_def arg_unsigned_def number_field_def field_def MAX_NUMBER_LEN_def)
qed

lemma conversion_s:
  "conversion_text \<lparr>bLeft = False, bNull = False, nWidth = 0, bLong = False\<rparr> CHR ''s'' (VStr s # vs) = Some (s, vs)"
  by (simp add: conversion_text_def field_def)

lemma parse_plain:
  "c \<in> {CHR ''s'', CHR ''u''} \<Longrightarrow>
    parse_spec (c # f) = (\<lparr>bLeft = False, bNull = False, nWidth = 0, bLong = False\<rparr>, c # f)"
  by (auto simp: parse_spec_def is_digit_def digit_val_def)

lemma wp_formatted:
  assumes "printf_text f as = Some txt" and "NUL \<notin> set txt" and "length txt < 1000" and "\<And>t. Q () s"
  shows "wp (local_string (StringFormat f as)) Q E s"
  using assms unfolding local_string_def wp_zoom StringFormat_def
  by (intro wp_mono [OF StringFormatV_holds [OF assms(1,2)]]) auto

lemma wp_DeviceLogWrite:
  fixes s :: "'b usb_scheme"
  assumes "printf_text f as = Some out" and "NUL \<notin> set out" and "length out < 1000"
    and "log_level s \<noteq> None" and "sev \<noteq> LogPanic" and "\<And>tr. Q () (s\<lparr>rev_trace := tr\<rparr>)"
  shows "wp (USBDeviceLogWrite d sev f as) Q E s"
proof -
  let ?h = "m_ucHubAddress (devs s d)" and ?p = "m_ucHubPortNumber (devs s d)"
  let ?name = "''usbdev'' @ number_text (unat ?h) 10 False @ ''-'' @ number_text (unat ?p) 10 False"
  have n: "printf_text ''%s%u-%u'' [VStr ''usbdev'', VInt (ucast ?h), VInt (ucast ?p)] = Some ?name"
    by (simp add: printf_text_steps(1,3) printf_text_steps(5) [OF _ parse_plain] conversion_u(1) conversion_s)
  have nn: "NUL \<notin> set ?name" "length ?name < 1000"
    using conversion_u(2,3) [of ?h] conversion_u(2,3) [of ?p] by (auto simp: NUL_def)
  have "wp (local_string (bind (StringFormatV f as) (\<lambda>_. StringGet))) (\<lambda>x t. x = out \<and> t = s) (\<lambda>_ _. False) s"
    unfolding local_string_def wp_zoom wp_bind
    by (rule wp_mono [OF StringFormatV_holds [OF assms(1,2)]])
      (use assms(2,3) in \<open>auto simp: StringGet_def wp_simps cstr_map\<close>)
  then have said: "wp (local_string (bind (StringFormatV f as) (\<lambda>_. StringGet))) (\<lambda>x. wp (LogWrite sev x) Q E) E s"
    by (rule wp_mono) (use assms(4-6) assms(6) [of "rev_trace s"] in \<open>auto simp: wp_LogWrite\<close>)
  show ?thesis
    unfolding USBDeviceLogWrite_def
    by (simp add: wp_bind wp_dev) (rule wp_formatted [OF n nn], unfold wp_bind, rule said)
qed

section \<open>Addresses\<close>

text \<open>
  C13. The address of a new device, with a ready controller, a device at high speed and sleeps that
  do not fail.  While the next address of the driver is at most 127, the request
  SET_ADDRESS with that address in its setup packet is made of the default endpoint; when the controller answers it,
  the device object has the address, no other object is changed, and the next address is one higher.
  Above 127 the device is refused: nothing is sent and no object is changed, but the next address is
  counted on, so that after 255 it is 0 again.
\<close>

theorem device_address:
  fixes s :: "'b usb_tree_scheme"
  assumes "m_pEndpoint0 (devs s d) = Some e" and "control_ready s e" and "maxp = m_nMaxPacketSize (endpoints s e)"
    and "irqs s = [IRQ_USB, IRQ_USB] @ ints" and "mmio_in s = as1 @ as2 @ rest"
    and "stage_answer 8 (packets_of maxp 8) siz1 as1" and "stage_answer 0 1 siz2 as2"
    and "sleep_ok s" and "log_level s \<noteq> None" and "c = s_ucNextAddress s"
  shows "\<exists>t. s_ucNextAddress t = c + 1 \<and>
    (if c \<le> 127
     then assign_address d s = Done True t \<and> devs t = (devs s)(d := (devs s d)\<lparr>m_ucAddress := c\<rparr>) \<and>
       ready t \<and> irqs t = ints \<and> mmio_in t = rest \<and>
       mem t = dma_all as2 (dma_all as1 (store_bytes (setup_addr s) (setup_packet 0 5 (ucast c) 0 0) (mem s)))
     else assign_address d s = Done False t \<and> devs t = devs s \<and> irqs t = irqs s \<and> mmio_in t = mmio_in s \<and> mem t = mem s)"
proof (cases "c \<le> 127")
  case True
  let ?s = "s\<lparr>s_ucNextAddress := c + 1\<rparr>"
  have cr: "control_ready ?s e" using assms(2) by (simp add: control_ready_def ready_def idle_def plain_endpoint_def)
  have run: "wp (DWHCIDeviceControlMessage (Some e) 0 5 (ucast c) 0 0 0) (\<lambda>r t. r = 8 - (siz1 AND 0x7FFFF) \<and>
      ready t \<and> calm1 ?s t \<and> m_NextPID (endpoints t e) = USBPIDSetup \<and> irqs t = ints \<and> mmio_in t = rest \<and> sleeps t = sleeps ?s \<and>
      mem t = dma_all as2 (dma_all as1 (store_bytes (setup_addr ?s) (setup_packet 0 5 (ucast c) 0 0) (mem ?s)))) (\<lambda>_ _. False) ?s"
    by (rule wp_control_no_data [OF cr]) (use assms in simp_all)
  have pos: "\<not> 8 - (siz1 AND 0x7FFFF) <s 0"
  proof -
    have "siz1 AND 0x7FFFF \<le> 8" using assms(6) by (simp add: stage_answer_def)
    then have "8 - (siz1 AND 0x7FFFF) \<le> 8" by (simp add: word_sub_le)
    then have "8 - (siz1 AND 0x7FFFF) < 2 ^ 31" by (simp add: word_le_nat_alt word_less_nat_alt)
    then show ?thesis by (simp add: word_sless_alt sint_small)
  qed
  have "wp (assign_address d) (\<lambda>ok t. ok \<and> s_ucNextAddress t = c + 1 \<and> devs t = (devs s)(d := (devs s d)\<lparr>m_ucAddress := c\<rparr>) \<and>
      ready t \<and> irqs t = ints \<and> mmio_in t = rest \<and>
      mem t = dma_all as2 (dma_all as1 (store_bytes (setup_addr s) (setup_packet 0 5 (ucast c) 0 0) (mem s)))) (\<lambda>_ _. False) s"
    unfolding assign_address_def DWHCIDeviceSetAddress_def USBDeviceSetAddress_def
    using True assms(1)
    apply (simp add: wp_simps assms(10) [symmetric] USB_MAX_ADDRESS_def not_le [symmetric])
    apply (rule wp_mono [OF run])
     apply (simp_all add: pos wp_simps)
    apply (rule wp_MsDelay)
    using assms(8) apply (simp add: sleep_ok_def)
    apply (auto simp: wp_simps calm1_def same_host_def ready_def idle_def assms(10) [symmetric] USB_MAX_ADDRESS_def)
    done
  from wp_total [OF this] True show ?thesis by auto
next
  case False
  have "wp (assign_address d) (\<lambda>ok t. \<not> ok \<and> s_ucNextAddress t = c + 1 \<and> devs t = devs s \<and> irqs t = irqs s \<and>
      mmio_in t = mmio_in s \<and> mem t = mem s) (\<lambda>_ _. False) s"
    unfolding assign_address_def give_up_def
    using False assms(9)
    apply (simp add: wp_simps assms(10) [symmetric] USB_MAX_ADDRESS_def not_le)
    apply (rule wp_DeviceLogWrite [where out = "''Too many devices''"])
         apply (simp_all add: printf_text_steps(1) NUL_def LOG_ERROR_def LogPanic_def wp_simps)
    done
  from wp_total [OF this] False show ?thesis by auto
qed

theorem device_address_witness:
  "\<exists>t. assign_address 1 (tree_of control1 []) = Done True t \<and> m_ucAddress (devs t 1) = 1 \<and> s_ucNextAddress t = 2 \<and>
     load_bytes 0x9000 8 (mem t) = [0, 5, 1, 0, 0, 0, 0, 0]"
proof -
  let ?s = "tree_of control1 []"
  have s: "m_pEndpoint0 (devs ?s 1) = Some 2" "control_ready ?s 2" "8 = m_nMaxPacketSize (endpoints ?s 2)"
    "irqs ?s = [IRQ_USB, IRQ_USB] @ []" "mmio_in ?s = dma_answer 0 [] @ dma_answer 0 [] @ []" "sleep_ok ?s"
    "log_level ?s \<noteq> None" "1 = s_ucNextAddress ?s"
    by (simp_all add: control1_def control_ready_def control0_def run_values tree_of_def usb.defs usb_tree.defs sleep_ok_def)
  have a: "stage_answer 8 (packets_of 8 8) 0 (dma_answer 0 [])" "stage_answer 0 1 0 (dma_answer 0 [])"
    by (simp_all add: dma_answer_stage DWHCI_HOST_CHAN_XFER_SIZ_PACKETS_def packets_of_def)
  have b: "load_bytes 0x9000 8 (store_bytes 0x9000 (setup_packet 0 5 1 0 0) m) = [0, 5, 1, 0, 0, 0, 0, 0]" for m
    by (simp add: setup_packet_def bytes16_def load_bytes_def store_bytes_def upt_conv_Cons)
  have ad: "setup_addr control1 = 0x9000" by (simp add: control1_def control0_def usb0_def)
  show ?thesis
    using device_address [OF s(1-5) a s(6-8)] by (auto simp: b ad dma_all_answer)
qed

end
