(* ===== verification/HeapObjects.thy ===== *)
theory HeapObjects
  imports BusAddresses
begin

text \<open>
  The blocks of memory behind the objects of the USB stack.  The locale \<open>heap_object\<close> is the contract
  of a constructor and a destructor: what the one takes from the allocator the other gives back, each
  block once.  String, function, network chip and device objects keep it; the base class destructor
  that the device calls for all of its functions does not keep it for a network chip.
\<close>

section \<open>The contract\<close>

text \<open>
  \<open>alive ps x s\<close>: the object \<open>x\<close> is constructed in \<open>s\<close> and has the blocks \<open>ps\<close>; \<open>good ps s\<close>: it can be
  constructed from the blocks \<open>ps\<close>.
\<close>

locale heap_object =
  fixes create :: "('b usb_tree_scheme, 'a) prog"
    and destroy :: "'a \<Rightarrow> ('b usb_tree_scheme, 'c) prog"
    and cost :: nat
    and good :: "u64 list \<Rightarrow> 'b usb_tree_scheme \<Rightarrow> bool"
    and alive :: "u64 list \<Rightarrow> 'a \<Rightarrow> 'b usb_tree_scheme \<Rightarrow> bool"
  assumes creates: "good ps s \<Longrightarrow> mallocs s = ps @ ms \<Longrightarrow> length ps = cost \<Longrightarrow> 0 \<notin> set ps \<Longrightarrow>
      wp create (\<lambda>x t. alive ps x t \<and> mallocs t = ms \<and> freed t = freed s) (\<lambda>_ _. False) s"
    and destroys: "alive ps x s \<Longrightarrow>
      wp (destroy x) (\<lambda>_ t. mallocs t = mallocs s \<and> mset (freed t) = mset (freed s) + mset ps) (\<lambda>_ _. False) s"
begin

lemma released:
  assumes "alive ps x s"
  shows "\<exists>y t. destroy x s = Done y t \<and> mallocs t = mallocs s \<and> heap_total t [] = heap_total s ps"
  using wp_total [OF destroys [OF assms]] by (auto simp: heap_total_def)

lemma balanced:
  assumes "good ps s" and "mallocs s = ps @ ms" and "length ps = cost" and "0 \<notin> set ps"
  shows "\<exists>y t. bind create destroy s = Done y t \<and> mallocs t = ms \<and> heap_total t [] = heap_total s []"
proof -
  have "wp (bind create destroy) (\<lambda>_ t. mallocs t = ms \<and> mset (freed t) = mset (freed s) + mset ps) (\<lambda>_ _. False) s"
    by (rule wp_seq [OF creates [OF assms]]) (auto intro: wp_mono [OF destroys])
  from wp_total [OF this] show ?thesis by (auto simp: heap_total_def assms(2))
qed

end

section \<open>Strings and functions\<close>

definition string_alive :: "u64 list \<Rightarrow> TUSBString \<Rightarrow> 'b usb_tree_scheme \<Rightarrow> bool" where
  "string_alive ps str s \<longleftrightarrow> m_pString str \<noteq> 0 \<and> mset ps = mset (string_blocks str)"

interpretation usb_string: heap_object "USBString (Some d)" USBString_destroy 1 "\<lambda>_ _. True" string_alive
  for d
  by unfold_locales
    (auto simp: USBString_def USBString_destroy_def String_destroy_def string_alive_def string_blocks_def wp_simps
      length_Suc_conv)

definition function_alive :: "u64 \<Rightarrow> u64 list \<Rightarrow> unit \<Rightarrow> 'b usb_tree_scheme \<Rightarrow> bool" where
  "function_alive this ps x s \<longleftrightarrow> ps = [fn_pConfigParser (funcs s this)] \<and> fn_pConfigParser (funcs s this) \<noteq> 0"

text \<open>A parser that stands at a descriptor, and is none of the blocks \<open>ps\<close>.\<close>

definition parser_ok :: "u64 \<Rightarrow> u64 list \<Rightarrow> 'b usb_tree_scheme \<Rightarrow> bool" where
  "parser_ok q ps s \<longleftrightarrow> q \<noteq> 0 \<and> q \<notin> set ps \<and> TUSBConfigurationParser.m_bValid (parsers s q) \<and>
     (\<exists>off. TUSBConfigurationParser.m_pCurrentDescriptor (parsers s q) = Some off \<and> parser_buffer s q + of_nat off \<noteq> 0)"

lemma wp_function_destroy:
  assumes "fn_pConfigParser (funcs s this) \<noteq> 0"
    and "\<And>P. Q () (s\<lparr>parsers := P, freed := fn_pConfigParser (funcs s this) # freed s,
        funcs := (funcs s)(this := \<lparr>Configure = Configure_null, fn_pDevice = None, fn_pConfigParser = 0, m_pInterfaceDesc = 0\<rparr>)\<rparr>)"
  shows "wp (USBFunction_destroy this) Q E s"
  using assms by (cases "funcs s this") (simp add: USBFunction_destroy_def USBConfigurationParser_destroy_def wp_simps)

interpretation usb_function: heap_object "USBFunction this (Some d) q" "\<lambda>_. USBFunction_destroy this" 1 "parser_ok q"
    "function_alive this" for this d q
proof (unfold_locales, goal_cases)
  case (1 ps s ms)
  then show ?case
    by (auto simp: USBFunction_def copy_parser_def set_interface_desc_def parser_ok_def function_alive_def wp_simps
      USBConfigurationParserCopy_def USBConfigurationParserGetCurrentDescriptor_def parser_view_def length_Suc_conv Let_def)
next
  case (2 ps x s)
  then show ?case by (auto intro!: wp_function_destroy simp: function_alive_def)
qed


section \<open>Network chips\<close>

text \<open>The blocks of a chip: its parser and, where it has them, its transmit buffer and endpoints.\<close>

definition chip_parts :: "'b usb_tree_scheme \<Rightarrow> u64 \<Rightarrow> u64 list" where
  "chip_parts s this = filter (\<lambda>p. p \<noteq> 0)
     [m_pTxBuffer (eths s this), m_pEndpointBulkOut (eths s this), m_pEndpointBulkIn (eths s this)]"

definition chip_alive :: "u64 \<Rightarrow> u64 list \<Rightarrow> unit \<Rightarrow> 'b usb_tree_scheme \<Rightarrow> bool" where
  "chip_alive this ps x s \<longleftrightarrow> fn_pConfigParser (funcs s this) \<noteq> 0 \<and>
     mset ps = mset (chip_parts s this @ [fn_pConfigParser (funcs s this)])"

definition chip_good :: "u64 \<Rightarrow> u64 \<Rightarrow> u64 list \<Rightarrow> 'b usb_tree_scheme \<Rightarrow> bool" where
  "chip_good this f ps s \<longleftrightarrow> this \<noteq> f \<and> parent_ok s f \<and> fn_pConfigParser (funcs s f) \<notin> set ps"

interpretation usb_chip: heap_object "eth_device c this f" "\<lambda>_. eth_destroy this" 2 "chip_good this f" "chip_alive this"
  for c this f
proof (unfold_locales, goal_cases)
  case (1 ps s ms)
  then obtain q b where ps: "ps = [q, b]" by (auto simp: length_Suc_conv eval_nat_numeral)
  with 1 have "wp (eth_device c this f) (\<lambda>_ t. chip_made c s f this q b t \<and> mallocs t = ms \<and> freed t = freed s \<and>
      log_level t = log_level s) (\<lambda>_ _. False) s"
    by (intro wp_eth_device) (auto simp: chip_good_def)
  then show ?case
    by (rule wp_mono) (use 1 ps in \<open>auto simp: chip_alive_def chip_parts_def chip_made_def\<close>)
next
  case (2 ps x s)
  then show ?case
    by (auto intro!: wp_function_destroy simp: chip_alive_def chip_parts_def eth_destroy_def eth_endpoint_destroy_def
      get_eth_def upd_eth_def USBEndpoint_destroy_def wp_simps)
qed


section \<open>Devices\<close>

text \<open>The blocks of a function of a device: the object and its parser.\<close>

definition fn_parts :: "'b usb_tree_scheme \<Rightarrow> nat \<Rightarrow> nat \<Rightarrow> u64 list" where
  "fn_parts s d n = (let f = m_pFunction (devs s d) ! n in if f = 0 then [] else [f, fn_pConfigParser (funcs s f)])"

text \<open>The functions of a device are objects of their own, each with a parser.\<close>

definition fns_ok :: "'b usb_tree_scheme \<Rightarrow> nat \<Rightarrow> nat list \<Rightarrow> bool" where
  "fns_ok s d ns \<longleftrightarrow> distinct ns \<and> (\<forall>n \<in> set ns. let f = m_pFunction (devs s d) ! n in
     n < length (m_pFunction (devs s d)) \<and> (f \<noteq> 0 \<longrightarrow> fn_pConfigParser (funcs s f) \<noteq> 0 \<and>
       (\<forall>m \<in> set ns. m \<noteq> n \<longrightarrow> m_pFunction (devs s d) ! m \<noteq> f)))"

lemma destroy_no_function:
  assumes "m_pFunction (devs s d) ! n = 0" and "n < length (m_pFunction (devs s d))"
  shows "wp (destroy_function d n) Q E s = Q () s" and "fn_parts s d n = []"
  using assms by (simp_all add: destroy_function_def get_function_def fn_parts_def wp_simps)

lemma wp_destroy_function:
  fixes s :: "'b usb_tree_scheme"
  assumes "f = m_pFunction (devs s d) ! n" and "f \<noteq> 0" and "fn_pConfigParser (funcs s f) \<noteq> 0"
    and len: "n < length (m_pFunction (devs s d))"
    and "\<And>P. Q () (s\<lparr>parsers := P,
        funcs := (funcs s)(f := \<lparr>Configure = Configure_null, fn_pDevice = None, fn_pConfigParser = 0, m_pInterfaceDesc = 0\<rparr>),
        freed := f # fn_pConfigParser (funcs s f) # freed s,
        devs := (devs s)(d := (devs s d)\<lparr>m_pFunction := (m_pFunction (devs s d))[n := 0]\<rparr>)\<rparr>)"
  shows "wp (destroy_function d n) Q E s"
  using assms(2) unfolding destroy_function_def get_function_def drop_function_def set_function_def
  apply (simp add: wp_simps len assms(1) [symmetric])
  apply (rule wp_function_destroy [OF assms(3)])
  using assms(5) len by (simp add: wp_simps)

lemma wp_destroy_functions:
  fixes s :: "'b usb_tree_scheme"
  assumes "fns_ok s d ns"
  shows "wp (for_each ns (destroy_function d)) (\<lambda>_ t. mallocs t = mallocs s \<and>
      (\<exists>fs. devs t = (devs s)(d := (devs s d)\<lparr>m_pFunction := fs\<rparr>)) \<and>
      mset (freed t) = mset (freed s) + mset (concat (map (fn_parts s d) ns))) (\<lambda>_ _. False) s"
  using assms
proof (induction ns arbitrary: s)
  case Nil
  then show ?case by (simp add: wp_simps) (rule exI [of _ "m_pFunction (devs s d)"], auto simp: fun_eq_iff)
next
  case (Cons n ns)
  let ?f = "m_pFunction (devs s d) ! n"
  show ?case
  proof (cases "?f = 0")
    case True
    have ok: "fns_ok s d ns" and n: "n < length (m_pFunction (devs s d))"
      using Cons.prems by (simp_all add: fns_ok_def Let_def)
    show ?thesis
      using Cons.IH [OF ok] by (simp add: wp_bind destroy_no_function [OF True n])
  next
    case False
    have parser: "fn_pConfigParser (funcs s ?f) \<noteq> 0" and n: "n < length (m_pFunction (devs s d))"
      using Cons.prems False by (auto simp: fns_ok_def Let_def)
    let ?t = "\<lambda>P. s\<lparr>parsers := P,
        funcs := (funcs s)(?f := \<lparr>Configure = Configure_null, fn_pDevice = None, fn_pConfigParser = 0, m_pInterfaceDesc = 0\<rparr>),
        freed := ?f # fn_pConfigParser (funcs s ?f) # freed s,
        devs := (devs s)(d := (devs s d)\<lparr>m_pFunction := (m_pFunction (devs s d))[n := 0]\<rparr>)\<rparr>"
    have others: "m_pFunction (devs s d) ! m \<noteq> ?f" "m \<noteq> n" if "m \<in> set ns" for m
      using Cons.prems that False by (auto simp: fns_ok_def Let_def)
    have upd: "(m_pFunction (devs s d))[n := 0] ! m = m_pFunction (devs s d) ! m" if "m \<in> set ns" for m
      using others(2) [OF that] by simp
    have "fns_ok s d ns" using Cons.prems by (simp add: fns_ok_def Let_def)
    then have ok: "fns_ok (?t P) d ns" for P
      by (simp add: fns_ok_def Let_def upd others)
    have parts: "map (fn_parts (?t P) d) ns = map (fn_parts s d) ns" for P
      by (simp add: fn_parts_def Let_def upd others)
    show ?thesis
      unfolding for_each.simps wp_bind
      apply (rule wp_destroy_function [OF refl False parser n])
      apply (rule wp_mono [OF Cons.IH [OF ok]])
       apply (use False in \<open>auto simp: parts fn_parts_def [of s d n] Let_def\<close>)
      subgoal for t fs by (rule exI [of _ fs]) (simp add: fun_eq_iff)
      done
  qed
qed


definition device_blocks :: "'b usb_tree_scheme \<Rightarrow> nat \<Rightarrow> u64 list" where
  "device_blocks s d = (let v = devs s d in
     concat (map (fn_parts s d) [0..<USBDEV_MAX_FUNCTIONS]) @
     filter (\<lambda>p. p \<noteq> 0) [m_pConfigParser v, m_pConfigDesc v, m_pDeviceDesc v] @
     (case m_pEndpoint0 v of None \<Rightarrow> [] | Some e \<Rightarrow> [of_nat e]) @
     string_blocks (m_ProductString v) @ string_blocks (m_ManufacturerString v))"

definition device_alive :: "nat \<Rightarrow> u64 list \<Rightarrow> unit \<Rightarrow> 'b usb_tree_scheme \<Rightarrow> bool" where
  "device_alive d ps x s \<longleftrightarrow> mset ps = mset (device_blocks s d) \<and> fns_ok s d [0..<USBDEV_MAX_FUNCTIONS] \<and>
     m_pString (m_ProductString (devs s d)) \<noteq> 0 \<and> m_pString (m_ManufacturerString (devs s d)) \<noteq> 0"

lemma wp_drop_parts:
  fixes s :: "'b usb_tree_scheme"
  shows "wp (bind (get_dev d m_pConfigParser) (\<lambda>p.
     bind (cond (p \<noteq> 0) (drop_parser d)) (\<lambda>_.
     bind (get_dev d m_pConfigDesc) (\<lambda>p.
     bind (cond (p \<noteq> 0) (drop_config_desc d)) (\<lambda>_.
     bind (get_dev d m_pDeviceDesc) (\<lambda>p.
     bind (cond (p \<noteq> 0) (drop_device_desc d)) (\<lambda>_. drop_endpoint0 d)))))))
   (\<lambda>_ t. mallocs t = mallocs s \<and> mset (freed t) = mset (freed s) + mset (filter (\<lambda>p. p \<noteq> 0)
       [m_pConfigParser (devs s d), m_pConfigDesc (devs s d), m_pDeviceDesc (devs s d)] @
     (case m_pEndpoint0 (devs s d) of None \<Rightarrow> [] | Some e \<Rightarrow> [of_nat e])) \<and>
     m_ProductString (devs t d) = m_ProductString (devs s d) \<and>
     m_ManufacturerString (devs t d) = m_ManufacturerString (devs s d)) (\<lambda>_ _. False) s"
  by (auto simp: wp_simps drop_parser_def drop_config_desc_def drop_device_desc_def drop_endpoint0_def
    USBConfigurationParser_destroy_def USBEndpoint_destroy_def split: option.split)

lemma wp_drop_strings:
  fixes s :: "'b usb_tree_scheme"
  assumes "m_pString (m_ProductString (devs s d)) \<noteq> 0" and "m_pString (m_ManufacturerString (devs s d)) \<noteq> 0"
  shows "wp (bind (upd_dev d (\<lambda>v. v\<lparr>m_pHost := False\<rparr>)) (\<lambda>_.
     bind (destroy_string d m_ProductString (\<lambda>x v. v\<lparr>m_ProductString := x\<rparr>)) (\<lambda>_.
     destroy_string d m_ManufacturerString (\<lambda>x v. v\<lparr>m_ManufacturerString := x\<rparr>))))
   (\<lambda>_ t. mallocs t = mallocs s \<and> mset (freed t) = mset (freed s) +
      mset (string_blocks (m_ProductString (devs s d)) @ string_blocks (m_ManufacturerString (devs s d)))) (\<lambda>_ _. False) s"
  using assms by (auto simp: wp_simps destroy_string_def USBString_destroy_def String_destroy_def string_blocks_def)

lemma wp_device_destroy:
  fixes s :: "'b usb_tree_scheme"
  assumes "device_alive d ps x s"
  shows "wp (USBDevice_destroy d) (\<lambda>_ t. mallocs t = mallocs s \<and> mset (freed t) = mset (freed s) + mset ps) (\<lambda>_ _. False) s"
proof -
  note a = assms [unfolded device_alive_def]
  have shape: "USBDevice_destroy d = bind (for_each [0..<USBDEV_MAX_FUNCTIONS] (destroy_function d)) (\<lambda>_.
     bind (bind (get_dev d m_pConfigParser) (\<lambda>p.
     bind (cond (p \<noteq> 0) (drop_parser d)) (\<lambda>_.
     bind (get_dev d m_pConfigDesc) (\<lambda>p.
     bind (cond (p \<noteq> 0) (drop_config_desc d)) (\<lambda>_.
     bind (get_dev d m_pDeviceDesc) (\<lambda>p.
     bind (cond (p \<noteq> 0) (drop_device_desc d)) (\<lambda>_. drop_endpoint0 d))))))) (\<lambda>_.
     bind (upd_dev d (\<lambda>v. v\<lparr>m_pHost := False\<rparr>)) (\<lambda>_.
     bind (destroy_string d m_ProductString (\<lambda>x v. v\<lparr>m_ProductString := x\<rparr>)) (\<lambda>_.
     destroy_string d m_ManufacturerString (\<lambda>x v. v\<lparr>m_ManufacturerString := x\<rparr>)))))"
    by (simp only: USBDevice_destroy_def bind_assoc)
  show ?thesis
    unfolding shape
    apply (rule wp_seq [OF wp_destroy_functions], use a in blast)
    apply (rule wp_seq [OF wp_drop_parts])
    apply (rule wp_mono [OF wp_drop_strings])
    using a by (auto simp: device_blocks_def Let_def)
qed

interpretation usb_device: heap_object "USBDevice d True sp bs ha hp" "\<lambda>_. USBDevice_destroy d" 3 "\<lambda>_ _. 1 \<le> hp" "device_alive d"
  for d sp bs ha hp
proof (unfold_locales, goal_cases)
  case (1 ps s ms)
  have fns: "fns_ok t d [0..<USBDEV_MAX_FUNCTIONS]" "concat (map (fn_parts t d) [0..<USBDEV_MAX_FUNCTIONS]) = []"
    if "m_pFunction (devs t d) = replicate USBDEV_MAX_FUNCTIONS 0" for t :: "'b usb_tree_scheme"
    using that by (auto simp: fns_ok_def fn_parts_def)
  from 1 show ?case
    by (auto simp: USBDevice_def USBString_def USBEndpoint_def wp_simps length_Suc_conv eval_nat_numeral device_alive_def
      device_blocks_def string_blocks_def fns)
qed (rule wp_device_destroy)


section \<open>What is given back\<close>

text \<open>
  C10. The destructor of a device.  Whatever a device has got so far on its way through initialisation and
  configuration (functions with their parsers, the parser, the two descriptors, endpoint 0 and the
  strings), its destructor returns and gives each of these blocks back exactly once; the number of blocks
  that are free, freed or in use is unchanged.  The two string objects exist from the construction on
  and no function is entered twice.  The buffers that string objects take for their texts are not among these blocks.
\<close>

theorem device_gives_back:
  fixes s :: "'b usb_tree_scheme"
  assumes "fns_ok s d [0..<USBDEV_MAX_FUNCTIONS]" and "m_pString (m_ProductString (devs s d)) \<noteq> 0"
    and "m_pString (m_ManufacturerString (devs s d)) \<noteq> 0"
  shows "\<exists>y t. USBDevice_destroy d s = Done y t \<and> mallocs t = mallocs s \<and>
    heap_total t [] = heap_total s (device_blocks s d)"
  by (rule usb_device.released) (use assms in \<open>simp add: device_alive_def\<close>)

text \<open>A device with a function at 0x5000 and its parser, a parser of its own, descriptors and strings.\<close>

definition heap_state :: usb_tree where
  "heap_state = (tree_of (usb0\<lparr>devs := \<lambda>_. device1\<lparr>m_pFunction := [0x5000, 0, 0, 0, 0, 0, 0, 0, 0, 0], m_pConfigParser := 0x5200,
       m_pConfigDesc := 0x5300, m_pDeviceDesc := 0x5400,
       m_ManufacturerString := \<lparr>us_pDevice = Some 1, m_pUSBString = 0, m_pString = 0x5500\<rparr>,
       m_ProductString := \<lparr>us_pDevice = Some 1, m_pUSBString = 0x5600, m_pString = 0x5700\<rparr>\<rparr>\<rparr>) [])\<lparr>
     funcs := \<lambda>_. \<lparr>Configure = Configure_lan7800, fn_pDevice = Some 1, fn_pConfigParser = 0x5100, m_pInterfaceDesc = 0\<rparr>,
     eths := \<lambda>_. \<lparr>m_pEndpointBulkIn = 0, m_pEndpointBulkOut = 0x5900, m_MACAddress = \<lparr>m_bValid = False, m_Address = []\<rparr>,
       m_pTxBuffer = 0x5800\<rparr>\<rparr>"

lemma heap_state_simps:
  "devs heap_state d = device1\<lparr>m_pFunction := [0x5000, 0, 0, 0, 0, 0, 0, 0, 0, 0], m_pConfigParser := 0x5200,
       m_pConfigDesc := 0x5300, m_pDeviceDesc := 0x5400,
       m_ManufacturerString := \<lparr>us_pDevice = Some 1, m_pUSBString = 0, m_pString = 0x5500\<rparr>,
       m_ProductString := \<lparr>us_pDevice = Some 1, m_pUSBString = 0x5600, m_pString = 0x5700\<rparr>\<rparr>"
  "fn_pConfigParser (funcs heap_state f) = 0x5100" "freed heap_state = []" "mallocs heap_state = []"
  "chip_parts heap_state this = [0x5800, 0x5900]"
  by (simp_all add: heap_state_def tree_of_def usb.defs usb_tree.defs usb0_def chip_parts_def)

theorem device_gives_back_witness:
  "\<exists>y t. USBDevice_destroy 1 heap_state = Done y t \<and>
     mset (freed t) = {#0x5000, 0x5100, 0x5200, 0x5300, 0x5400, 2, 0x5700, 0x5600, 0x5500#}"
proof -
  have n: "[0..<USBDEV_MAX_FUNCTIONS] = [0, 1, 2, 3, 4, 5, 6, 7, 8, 9]" by (simp add: USBDEV_MAX_FUNCTIONS_def upt_conv_Cons)
  have ok: "fns_ok heap_state 1 [0..<USBDEV_MAX_FUNCTIONS]"
    unfolding n by (simp add: fns_ok_def heap_state_simps Let_def)
  have b: "device_blocks heap_state 1 = [0x5000, 0x5100, 0x5200, 0x5300, 0x5400, 2, 0x5700, 0x5600, 0x5500]"
    by (simp add: device_blocks_def n fn_parts_def heap_state_simps device1_def string_blocks_def Let_def)
  show ?thesis
    using device_gives_back [OF ok] by (auto simp: heap_state_simps b [unfolded One_nat_def] heap_total_def)
qed

text \<open>
  C31. The destructors of a network chip.  The chip's own destructors give back its transmit buffer, its
  endpoints and its parser.  The destructor of the base class, which a device calls for a function
  that fails or when the device is destroyed, gives back the parser only: the
  transmit buffer and the endpoints are lost.
\<close>

theorem chip_destructors:
  fixes s :: "'b usb_tree_scheme"
  assumes "fn_pConfigParser (funcs s this) \<noteq> 0"
  shows "(\<forall>destroy \<in> {LAN7800Device_destroy this, SMSC951xDevice_destroy this}.
      \<exists>t. destroy s = Done () t \<and> mallocs t = mallocs s \<and>
        heap_total t [] = heap_total s (fn_pConfigParser (funcs s this) # chip_parts s this)) \<and>
    (\<exists>t. USBFunction_destroy this s = Done () t \<and> mallocs t = mallocs s \<and>
        heap_total t [] + mset (chip_parts s this) = heap_total s (fn_pConfigParser (funcs s this) # chip_parts s this))"
proof -
  have "chip_alive this (fn_pConfigParser (funcs s this) # chip_parts s this) () s"
    using assms by (simp add: chip_alive_def)
  from usb_chip.released [OF this]
  have own: "\<exists>t. eth_destroy this s = Done () t \<and> mallocs t = mallocs s \<and>
      heap_total t [] = heap_total s (fn_pConfigParser (funcs s this) # chip_parts s this)" by simp
  have "function_alive this [fn_pConfigParser (funcs s this)] () s"
    using assms by (simp add: function_alive_def)
  from usb_function.released [OF this]
  have base: "\<exists>t. USBFunction_destroy this s = Done () t \<and> mallocs t = mallocs s \<and>
      heap_total t [] = heap_total s [fn_pConfigParser (funcs s this)]" by simp
  show ?thesis
    using own base by (auto simp: LAN7800Device_destroy_def SMSC951xDevice_destroy_def heap_total_def)
qed

theorem chip_destructors_witness:
  "(\<exists>t. LAN7800Device_destroy 0x5000 heap_state = Done () t \<and> mset (freed t) = {#0x5100, 0x5800, 0x5900#}) \<and>
   (\<exists>t. USBFunction_destroy 0x5000 heap_state = Done () t \<and> mset (freed t) = {#0x5100#})"
  using chip_destructors [where s = heap_state and this = "0x5000"] by (auto simp: heap_state_simps heap_total_def)

end
