(* ===== verification/Crc32.thy ===== *)
theory Crc32
  imports Prelude
begin

text \<open>
  The check sum of the network measurement (the client \<open>measurements/smp/network-app/client/main.c\<close>
  and the server \<open>measurements/smp/network-app/server/tcp-server-b1.c\<close> hold the same two
  functions): the table that \<open>crc32_init\<close> fills, and \<open>compute_crc\<close>, which takes one table entry
  per byte.  The lemmas show that a step with the table is eight steps of the bit-serial register, that
  these steps lose no information, and so that a change within four successive bytes is always seen.
\<close>

section \<open>The code\<close>

definition CRC_POLY :: u32 where "CRC_POLY = 0xEDB88320"

definition crc_bit :: "u32 \<Rightarrow> u32" where
  "crc_bit c = (if c AND 1 \<noteq> 0 then CRC_POLY XOR drop_bit 1 c else drop_bit 1 c)"

definition crc32_init :: "u32 list \<Rightarrow> u32 list" where
  "crc32_init crc32_table = foldl (\<lambda>t i. t[i := (crc_bit ^^ 8) (of_nat i)]) crc32_table [0..<256]"

definition crc_byte :: "u32 list \<Rightarrow> u32 \<Rightarrow> u8 \<Rightarrow> u32" where
  "crc_byte crc32_table crc b = crc32_table ! unat ((crc XOR ucast b) AND 0xFF) XOR drop_bit 8 crc"

definition compute_crc :: "u32 list \<Rightarrow> u8 list \<Rightarrow> u32" where
  "compute_crc crc32_table bytes = NOT (foldl (crc_byte crc32_table) (NOT 0) bytes)"

section \<open>The table and the bit-serial register\<close>

definition crc_serial :: "u32 \<Rightarrow> u8 \<Rightarrow> u32" where
  "crc_serial crc b = (crc_bit ^^ 8) (crc XOR ucast b)"

lemma crc_bit_alt: "crc_bit c = (if bit c 0 then CRC_POLY XOR drop_bit 1 c else drop_bit 1 c)"
  by (simp add: crc_bit_def and_one_eq bit_0 mod2_eq_if)

lemma crc_bit_xor: "crc_bit (x XOR y) = crc_bit x XOR crc_bit y"
  by (simp add: crc_bit_alt bit_xor_iff ac_simps)

lemma crc_bits_xor: "(crc_bit ^^ n) (x XOR y) = (crc_bit ^^ n) x XOR (crc_bit ^^ n) y"
  by (induction n) (simp_all add: crc_bit_xor)

lemma crc_bits_zeros: "n + m \<le> 32 \<Longrightarrow> (crc_bit ^^ n) (push_bit n (take_bit m y)) = take_bit m y"
proof (induction n)
  case (Suc n)
  have "crc_bit (push_bit (Suc n) (take_bit m y)) = push_bit n (take_bit m y)"
  proof -
    have "\<not> bit (push_bit (Suc n) (take_bit m y)) 0" by (simp only: bit_push_bit_iff) simp
    moreover have "drop_bit 1 (push_bit (Suc n) (take_bit m y)) = push_bit n (take_bit m y)"
      using Suc.prems by (intro bit_word_eqI) (auto simp: bit_simps simp del: push_bit_Suc)
    ultimately show ?thesis by (simp only: crc_bit_alt if_False)
  qed
  with Suc show ?case by (simp add: funpow_swap1)
qed simp

lemma crc_bit_inj: "crc_bit x = crc_bit y \<Longrightarrow> x = y"
proof -
  assume "crc_bit x = crc_bit y"
  then have "crc_bit (x XOR y) = 0" by (simp add: crc_bit_xor)
  moreover have "z = 0" if "crc_bit z = 0" for z
  proof -
    have "bit (crc_bit z) 31 = bit z 0"
      by (auto simp: crc_bit_alt bit_simps CRC_POLY_def dest: bit_imp_le_length)
    with that have even: "\<not> bit z 0" by simp
    with that have "drop_bit 1 z = 0" by (simp add: crc_bit_alt)
    then have "bit (drop_bit 1 z) n = False" for n by simp
    then have "\<not> bit z (Suc n)" for n by (simp only: bit_drop_bit_eq comp_apply plus_1_eq_Suc) simp
    with even have "\<not> bit z n" for n by (cases n) auto
    then show "z = 0" by (intro bit_word_eqI) simp
  qed
  ultimately have "x XOR y = 0" by blast
  then have "x XOR (x XOR y) = x" by simp
  then show ?thesis by (simp flip: xor.assoc)
qed

lemma crc_bits_inj: "(crc_bit ^^ n) x = (crc_bit ^^ n) y \<Longrightarrow> x = y"
  by (induction n) (auto dest: crc_bit_inj)

lemma init_length: "length (crc32_init t) = length t"
proof -
  have "length (foldl (\<lambda>t i. t[i := f i]) t is) = length t" for f and "is" :: "nat list"
    by (induction "is" arbitrary: t) auto
  then show ?thesis by (simp add: crc32_init_def)
qed

lemma init_nth: "length t = 256 \<Longrightarrow> i < 256 \<Longrightarrow> crc32_init t ! i = (crc_bit ^^ 8) (of_nat i)"
proof -
  have len: "length (foldl (\<lambda>t i. t[i := f i]) t is) = length t" for f :: "nat \<Rightarrow> u32" and t "is"
    by (induction "is" arbitrary: t) auto
  have "foldl (\<lambda>t i. t[i := f i]) t [0..<n] ! i = (if i < n then f i else t ! i)"
    if "i < length t" for f :: "nat \<Rightarrow> u32" and n
    using that by (induction n) (auto simp: nth_list_update len less_Suc_eq)
  then show "length t = 256 \<Longrightarrow> i < 256 \<Longrightarrow> crc32_init t ! i = (crc_bit ^^ 8) (of_nat i)"
    by (simp add: crc32_init_def)
qed

lemma crc_byte_serial: "length t = 256 \<Longrightarrow> crc_byte (crc32_init t) crc b = crc_serial crc b"
proof -
  assume t: "length t = 256"
  let ?x = "crc XOR ucast b"
  have low: "(0xFF :: u32) = mask 8" by (simp add: mask_eq_exp_minus_1)
  have "unat (take_bit 8 ?x) < 256"
    using unsigned_take_bit_eq [of 8 ?x, where 'a = nat] take_bit_nat_less_exp [of 8 "unat ?x"] by simp
  then have "unat (?x AND 0xFF) < 256" by (simp only: low take_bit_eq_mask)
  then have T: "crc32_init t ! unat (?x AND 0xFF) = (crc_bit ^^ 8) (?x AND 0xFF)"
    using t by (simp add: init_nth)
  have split: "?x = (?x AND 0xFF) XOR push_bit 8 (take_bit 24 (drop_bit 8 crc))"
    unfolding low by (rule bit_word_eqI) (auto simp: bit_simps dest: bit_imp_le_length)
  have "(crc_bit ^^ 8) ?x = (crc_bit ^^ 8) (?x AND 0xFF) XOR take_bit 24 (drop_bit 8 crc)"
    by (subst split) (simp only: crc_bits_xor crc_bits_zeros)
  moreover have "take_bit 24 (drop_bit 8 crc) = drop_bit 8 crc"
    by (rule bit_word_eqI) (auto simp: bit_simps dest: bit_imp_le_length)
  ultimately show ?thesis by (simp add: crc_byte_def crc_serial_def T)
qed

lemma compute_crc_serial: "length t = 256 \<Longrightarrow> compute_crc (crc32_init t) bs = NOT (foldl crc_serial (NOT 0) bs)"
  by (simp add: compute_crc_def crc_byte_serial [THEN ext, THEN ext])

section \<open>Changes that are seen\<close>

text \<open>Up to four bytes as the number that they put into the register.\<close>

fun le_value :: "u8 list \<Rightarrow> u32" where
  "le_value [] = 0"
| "le_value (b # bs) = ucast b XOR push_bit 8 (le_value bs)"

lemma le_value_bit: "bit (le_value bs) n \<longleftrightarrow> n < 32 \<and> n div 8 < length bs \<and> bit (bs ! (n div 8)) (n mod 8)"
proof (induction bs arbitrary: n)
  case (Cons b bs)
  show ?case
  proof (cases "n < 8")
    case True
    then show ?thesis by (simp add: bit_simps)
  next
    case False
    then obtain m where "n = m + 8" by (metis le_Suc_ex not_less add.commute)
    moreover have "(m + 8) div 8 = Suc (m div 8)" by simp
    ultimately show ?thesis by (auto simp: bit_simps Cons.IH simp del: div_add_self2 dest: bit_imp_le_length)
  qed
qed simp

lemma le_value_inj: "length bs \<le> 4 \<Longrightarrow> length cs = length bs \<Longrightarrow> le_value bs = le_value cs \<Longrightarrow> bs = cs"
proof (rule nth_equalityI)
  fix i assume *: "length bs \<le> 4" "length cs = length bs" "le_value bs = le_value cs" "i < length bs"
  show "bs ! i = cs ! i"
  proof (rule bit_word_eqI)
    fix n assume "n < LENGTH(8)"
    with * have "8 * i + n < 32" "(8 * i + n) div 8 = i" "(8 * i + n) mod 8 = n" by simp_all
    with * le_value_bit [of bs "8 * i + n"] le_value_bit [of cs "8 * i + n"]
    show "bit (bs ! i) n = bit (cs ! i) n" by (simp only: simp_thms)
  qed
qed simp

lemma crc_bits_byte: "(crc_bit ^^ n) (push_bit n (ucast (b :: u8))) = ucast b" if "n + 8 \<le> 32"
proof -
  have "(ucast b :: u32) = take_bit 8 (ucast b)" by (rule bit_word_eqI) (auto simp: bit_simps dest: bit_imp_le_length)
  with crc_bits_zeros [OF that, of "ucast b"] show ?thesis by simp
qed

lemma serial_value: "length bs \<le> 4 \<Longrightarrow> foldl crc_serial s bs = (crc_bit ^^ (8 * length bs)) (s XOR le_value bs)"
proof (induction bs arbitrary: s)
  case (Cons b bs)
  let ?n = "8 * length bs"
  have "(crc_bit ^^ ?n) ((crc_bit ^^ 8) (push_bit 8 (le_value bs))) = (crc_bit ^^ ?n) (le_value bs)"
  proof -
    have "le_value bs = take_bit 24 (le_value bs)"
    proof (rule bit_word_eqI)
      fix n assume "n < LENGTH(32)"
      have "n div 8 < 3 \<Longrightarrow> n < 24" by (simp add: div_less_iff_less_mult)
      with Cons.prems show "bit (le_value bs) n = bit (take_bit 24 (le_value bs)) n"
        by (auto simp: bit_take_bit_iff le_value_bit)
    qed
    with crc_bits_zeros [of 8 24 "le_value bs"] show ?thesis by simp
  qed
  then have "(crc_bit ^^ (?n + 8)) (s XOR ucast b XOR push_bit 8 (le_value bs)) =
      (crc_bit ^^ ?n) ((crc_bit ^^ 8) (s XOR ucast b) XOR le_value bs)"
    by (simp only: funpow_add comp_apply crc_bits_xor xor.assoc)
  with Cons show ?case by (simp add: crc_serial_def xor.assoc add.commute del: funpow.simps)
qed simp

lemma serial_inj: "foldl crc_serial s bs = foldl crc_serial t bs \<Longrightarrow> s = t"
proof (induction bs arbitrary: s t)
  case (Cons b bs)
  from Cons.IH [of "crc_serial s b" "crc_serial t b"] Cons.prems have "crc_serial s b = crc_serial t b" by simp
  then have "s XOR ucast b = t XOR ucast b" by (simp only: crc_serial_def) (rule crc_bits_inj)
  then have "(s XOR ucast b) XOR ucast b = (t XOR ucast b) XOR ucast b" by simp
  then show ?case by (simp add: xor.assoc)
qed simp

lemma crc_burst:
  assumes "length t = 256" and w: "length w \<le> 4" "length w' = length w" "w \<noteq> w'"
  shows "compute_crc (crc32_init t) (xs @ w @ ys) \<noteq> compute_crc (crc32_init t) (xs @ w' @ ys)"
proof
  let ?s = "foldl crc_serial (NOT 0) xs"
  assume "compute_crc (crc32_init t) (xs @ w @ ys) = compute_crc (crc32_init t) (xs @ w' @ ys)"
  then have "foldl crc_serial ?s w = foldl crc_serial ?s w'"
    by (simp add: compute_crc_serial assms(1)) (rule serial_inj)
  with w have "?s XOR le_value w = ?s XOR le_value w'"
    by (simp add: serial_value) (rule crc_bits_inj)
  then have "?s XOR (?s XOR le_value w) = ?s XOR (?s XOR le_value w')" by simp
  then have "le_value w = le_value w'" by (simp flip: xor.assoc)
  with w show False using le_value_inj by metis
qed

text \<open>
  C35. The check sum of a packet.  With the table that \<open>crc32_init\<close> makes, \<open>compute_crc\<close> is the
  bit-serial CRC of the polynomial EDB88320, and two packets that differ in one stretch of at most four
  bytes never have the same check sum: the server refuses every packet that was changed in such a stretch.
\<close>

theorem crc_sees_bursts:
  assumes "length t = 256"
  shows "compute_crc (crc32_init t) bytes = NOT (foldl crc_serial (NOT 0) bytes) \<and>
    (\<forall>xs w w' ys. length w \<le> 4 \<longrightarrow> length w' = length w \<longrightarrow> w \<noteq> w' \<longrightarrow>
      compute_crc (crc32_init t) (xs @ w @ ys) \<noteq> compute_crc (crc32_init t) (xs @ w' @ ys))"
  using compute_crc_serial [OF assms] crc_burst [OF assms] by blast

theorem crc_sees_bursts_witness:
  "length (replicate 256 (0 :: u32)) = 256 \<and>
   compute_crc (crc32_init (replicate 256 0)) ([1, 2] @ [0x31, 0x32, 0x33, 0x34] @ [5]) \<noteq>
   compute_crc (crc32_init (replicate 256 0)) ([1, 2] @ [0x31, 0x32, 0x33, 0x35] @ [5])"
proof -
  have "length (replicate 256 (0 :: u32)) = 256" by simp
  with crc_sees_bursts [OF this, THEN conjunct2, rule_format, of "[0x31, 0x32, 0x33, 0x34]" "[0x31, 0x32, 0x33, 0x35]" "[1, 2]" "[5]"]
  show ?thesis by simp
qed

end
