(* ===== verification/ByteBuffer.thy ===== *)
theory ByteBuffer
  imports Prelude
begin

text \<open>
  The byte arrays of the network measurement: the state of a program is one array, reads and writes
  outside it stop at \<open>Out_of_bounds\<close>, and a \<open>memcpy\<close> between overlapping parts of it, which the C
  standard leaves undefined, stops as the use of an undefined value does.
\<close>

definition buf_read :: "nat \<Rightarrow> nat \<Rightarrow> (u8 list, u8 list) prog" where
  "buf_read i n = (\<lambda>b. if i + n \<le> length b then Done (slice i n b) b else Halt Out_of_bounds b)"

definition buf_write :: "nat \<Rightarrow> u8 list \<Rightarrow> (u8 list, unit) prog" where
  "buf_write i bs = (\<lambda>b. if i + length bs \<le> length b then Done () (splice i bs b) else Halt Out_of_bounds b)"

definition overlapping :: "nat \<Rightarrow> nat \<Rightarrow> nat \<Rightarrow> bool" where
  "overlapping dst src n \<longleftrightarrow> 0 < n \<and> dst < src + n \<and> src < dst + n"

definition buf_memcpy :: "nat \<Rightarrow> nat \<Rightarrow> nat \<Rightarrow> (u8 list, unit) prog" where
  "buf_memcpy dst src n =
     (if overlapping dst src n then halt Null_deref else bind (buf_read src n) (buf_write dst))"

lemma wp_buf_read [wp_simps]:
  "wp (buf_read i n) Q E b = (if i + n \<le> length b then Q (slice i n b) b else E Out_of_bounds b)"
  by (simp add: wp_def buf_read_def)

lemma wp_buf_write [wp_simps]:
  "wp (buf_write i bs) Q E b = (if i + length bs \<le> length b then Q () (splice i bs b) else E Out_of_bounds b)"
  by (simp add: wp_def buf_write_def)

lemma buf_write_run [simp]: "i + length bs \<le> length b \<Longrightarrow> buf_write i bs b = Done () (splice i bs b)"
  by (simp add: buf_write_def)

lemma buf_read_run [simp]: "i + n \<le> length b \<Longrightarrow> buf_read i n b = Done (slice i n b) b"
  by (simp add: buf_read_def)

lemma splice_Nil [simp]: "splice i [] b = b"
  by (simp add: splice_def)

lemma splice_splice_after:
  "i + length xs + length ys \<le> length b \<Longrightarrow> splice (i + length xs) ys (splice i xs b) = splice i (xs @ ys) b"
  by (simp add: splice_def ac_simps)

lemma splice_append:
  "length xs + length ys \<le> length b \<Longrightarrow> splice (length xs) ys (xs @ drop (length xs) b) = (xs @ ys) @ drop (length (xs @ ys)) b"
  by (simp add: splice_def add.commute)

lemma take_splice: "i + length xs \<le> length b \<Longrightarrow> take (i + length xs) (splice i xs b) = take i b @ xs"
  by (simp add: splice_def)

end
