(* ===== verification/Lz77.thy ===== *)
theory Lz77
  imports ByteBuffer
begin

text \<open>
  The compression of the network measurement: \<open>compress_lz77\<close> of
  \<open>measurements/smp/network-app/client/main.c\<close> and \<open>decompress_lz77\<close> of
  \<open>measurements/smp/network-app/server/tcp-server-b1.c\<close>.  The output array is the state; the input
  is a list.  The specification between the two is a list of tokens.
\<close>

definition WINDOW_SIZE :: nat where "WINDOW_SIZE = 128"
definition LOOKAHEAD :: nat where "LOOKAHEAD = 4"
definition MIN_MATCH :: nat where "MIN_MATCH = 4"

section \<open>The client: searching and writing tokens\<close>

function match_len :: "u8 list \<Rightarrow> nat \<Rightarrow> nat \<Rightarrow> nat \<Rightarrow> nat" where
  "match_len inp j wpos len =
     (if len < LOOKAHEAD \<and> wpos + len < length inp \<and> inp ! (j + len) = inp ! (wpos + len)
      then match_len inp j wpos (len + 1) else len)"
  by auto

termination
  by (relation "measure (\<lambda>(_, _, _, len). LOOKAHEAD - len)") auto

function search_match :: "u8 list \<Rightarrow> nat \<Rightarrow> nat \<Rightarrow> nat \<Rightarrow> nat \<Rightarrow> nat \<times> nat" where
  "search_match inp wpos j best_off best_len =
     (if j < wpos then
        let len = match_len inp j wpos 0 in
        if len > best_len then
          if len = LOOKAHEAD then (wpos - j, len) else search_match inp wpos (j + 1) (wpos - j) len
        else search_match inp wpos (j + 1) best_off best_len
      else (best_off, best_len))"
  by auto

termination
  by (relation "measure (\<lambda>(_, wpos, j, _, _). wpos - j)") auto

definition find_match :: "u8 list \<Rightarrow> nat \<Rightarrow> nat \<times> nat" where
  "find_match inp wpos = search_match inp wpos (if wpos > WINDOW_SIZE then wpos - WINDOW_SIZE else 0) 0 0"

declare match_len.simps [simp del] search_match.simps [simp del]

function compress_loop :: "u8 list \<Rightarrow> nat \<Rightarrow> nat \<Rightarrow> nat \<Rightarrow> (u8 list, nat option) prog" where
  "compress_loop inp out_len wpos opos =
     (if wpos < length inp then
        let (best_off, best_len) = find_match inp wpos in
        if best_len \<ge> MIN_MATCH then
          if opos + 4 > out_len then return None else
          bind (buf_write opos [1, of_nat (best_off div 256), of_nat best_off, of_nat best_len]) (\<lambda>_.
          compress_loop inp out_len (wpos + best_len) (opos + 4))
        else
          if opos + 2 > out_len then return None else
          bind (buf_write opos [0, inp ! wpos]) (\<lambda>_. compress_loop inp out_len (wpos + 1) (opos + 2))
      else return (Some opos))"
  by auto

termination
  by (relation "measure (\<lambda>(inp, _, wpos, _). length inp - wpos)") (auto simp: MIN_MATCH_def)

definition compress_lz77 :: "u8 list \<Rightarrow> nat \<Rightarrow> (u8 list, nat option) prog" where
  "compress_lz77 inp out_len = compress_loop inp out_len 0 0"

declare compress_loop.simps [simp del]

section \<open>The server: reading tokens\<close>

function decompress_loop :: "u8 list \<Rightarrow> nat \<Rightarrow> nat \<Rightarrow> nat \<Rightarrow> (u8 list, nat option) prog" where
  "decompress_loop inp out_len r w =
     (if r < length inp then
        if inp ! r = 1 then
          if r + 4 > length inp then return None else
          let offset = unat (push_bit 8 (ucast (inp ! (r + 1))) OR ucast (inp ! (r + 2)) :: u32);
              len = unat (inp ! (r + 3)) in
          if w < offset \<or> w + len > out_len then return None else
          bind (buf_memcpy w (w - offset) len) (\<lambda>_. decompress_loop inp out_len (r + 4) (w + len))
        else
          if r + 2 > length inp \<or> w + 1 > out_len then return None else
          bind (buf_write w [inp ! (r + 1)]) (\<lambda>_. decompress_loop inp out_len (r + 2) (w + 1))
      else return (Some w))"
  by auto

termination
  by (relation "measure (\<lambda>(inp, _, r, _). length inp - r)") auto

definition decompress_lz77 :: "u8 list \<Rightarrow> nat \<Rightarrow> (u8 list, nat option) prog" where
  "decompress_lz77 inp out_len = decompress_loop inp out_len 0 0"

declare decompress_loop.simps [simp del]

section \<open>Tokens\<close>

datatype token = Lit u8 | Match nat nat

fun bytes_of :: "token \<Rightarrow> u8 list" where
  "bytes_of (Lit b) = [0, b]"
| "bytes_of (Match off len) = [1, of_nat (off div 256), of_nat off, of_nat len]"

declare bytes_of.simps [simp del]

definition encode :: "token list \<Rightarrow> u8 list" where "encode ts = concat (map bytes_of ts)"

fun expand :: "u8 list \<Rightarrow> token list \<Rightarrow> u8 list" where
  "expand out [] = out"
| "expand out (Lit b # ts) = expand (out @ [b]) ts"
| "expand out (Match off len # ts) = expand (out @ slice (length out - off) len out) ts"

text \<open>The tokens that the decoder can follow without a copy between overlapping parts.\<close>

fun decodable :: "nat \<Rightarrow> token list \<Rightarrow> bool" where
  "decodable w [] = True"
| "decodable w (Lit b # ts) = decodable (w + 1) ts"
| "decodable w (Match off len # ts) = (len \<le> off \<and> off \<le> w \<and> off < 65536 \<and> len < 256 \<and> decodable (w + len) ts)"

text \<open>The tokens of an input, and those that fit into the room of the output.\<close>

function tokens :: "u8 list \<Rightarrow> nat \<Rightarrow> token list" where
  "tokens inp wpos =
     (if wpos < length inp then
        let (off, len) = find_match inp wpos in
        if len \<ge> MIN_MATCH then Match off len # tokens inp (wpos + len) else Lit (inp ! wpos) # tokens inp (wpos + 1)
      else [])"
  by auto

termination
  by (relation "measure (\<lambda>(inp, wpos). length inp - wpos)") (auto simp: MIN_MATCH_def)

declare tokens.simps [simp del]

fun fitting :: "nat \<Rightarrow> token list \<Rightarrow> token list" where
  "fitting room [] = []"
| "fitting room (t # ts) = (if length (bytes_of t) \<le> room then t # fitting (room - length (bytes_of t)) ts else [])"

lemma encode_simps [simp]: "encode [] = []" "encode (t # ts) = bytes_of t @ encode ts" "encode (ts @ us) = encode ts @ encode us"
  by (simp_all add: encode_def)

lemma expand_append: "expand out (ts @ us) = expand (expand out ts) us"
  by (induction out ts rule: expand.induct) auto

lemma fitting_all: "fitting room ts = ts \<longleftrightarrow> length (encode ts) \<le> room"
  by (induction room ts rule: fitting.induct) auto

lemma fitting_length: "length (encode (fitting room ts)) \<le> room"
  by (induction room ts rule: fitting.induct) auto

lemma fitting_prefix: "\<exists>us. ts = fitting room ts @ us"
  by (induction room ts rule: fitting.induct) auto

section \<open>The client writes the tokens that fit\<close>

lemma length_bytes_of [simp]: "length (bytes_of (Lit b)) = 2" "length (bytes_of (Match off len)) = 4"
  by (simp_all add: bytes_of.simps)

fun covers :: "token \<Rightarrow> nat" where
  "covers (Lit b) = 1"
| "covers (Match off len) = len"

lemma tokens_Cons:
  "tokens inp wpos = t # ts \<Longrightarrow> wpos < length inp \<and> ts = tokens inp (wpos + covers t) \<and>
     (t = Lit (inp ! wpos) \<or> (\<exists>off len. t = Match off len \<and> find_match inp wpos = (off, len) \<and> MIN_MATCH \<le> len))"
  by (auto simp: tokens.simps [of inp wpos] split: if_splits prod.splits)

lemma tokens_Nil: "tokens inp wpos = [] \<longleftrightarrow> length inp \<le> wpos"
  by (simp add: tokens.simps [of inp wpos] split: prod.split)

lemma compress_loop_token:
  "compress_loop inp out_len wpos opos = (case tokens inp wpos of [] \<Rightarrow> return (Some opos)
     | t # _ \<Rightarrow> if opos + length (bytes_of t) > out_len then return None else
         bind (buf_write opos (bytes_of t)) (\<lambda>_. compress_loop inp out_len (wpos + covers t) (opos + length (bytes_of t))))"
  by (simp add: compress_loop.simps [of inp out_len wpos] tokens.simps [of inp wpos] flip: bytes_of.simps split: prod.split)

lemma compress_loop_tokens:
  "out_len \<le> length out \<Longrightarrow> opos \<le> out_len \<Longrightarrow> tokens inp wpos = ts \<Longrightarrow>
   compress_loop inp out_len wpos opos out =
     Done (if fitting (out_len - opos) ts = ts then Some (opos + length (encode ts)) else None)
       (splice opos (encode (fitting (out_len - opos) ts)) out)"
proof (induction ts arbitrary: wpos opos out)
  case Nil
  then show ?case by (simp add: compress_loop_token)
next
  case (Cons t ts)
  let ?n = "opos + length (bytes_of t)" and ?out = "splice opos (bytes_of t) out"
  show ?case
  proof (cases "?n \<le> out_len")
    case True
    with Cons.prems tokens_Cons [OF Cons.prems(3)]
    have "compress_loop inp out_len (wpos + covers t) ?n ?out =
        Done (if fitting (out_len - ?n) ts = ts then Some (?n + length (encode ts)) else None)
          (splice ?n (encode (fitting (out_len - ?n) ts)) ?out)"
      by (intro Cons.IH) simp_all
    moreover have "splice ?n (encode (fitting (out_len - ?n) ts)) ?out =
        splice opos (bytes_of t @ encode (fitting (out_len - ?n) ts)) out"
      using Cons.prems True fitting_length [of "out_len - ?n" ts] by (intro splice_splice_after) linarith
    ultimately show ?thesis using Cons.prems True
      by (auto simp: compress_loop_token [of inp out_len wpos] bind_run)
  next
    case False
    with Cons.prems show ?thesis by (auto simp: compress_loop_token [of inp out_len wpos])
  qed
qed

lemma compress_lz77_tokens:
  "out_len \<le> length out \<Longrightarrow> compress_lz77 inp out_len out =
     Done (if length (encode (tokens inp 0)) \<le> out_len then Some (length (encode (tokens inp 0))) else None)
       (splice 0 (encode (fitting out_len (tokens inp 0))) out)"
  by (simp add: compress_lz77_def compress_loop_tokens fitting_all)

section \<open>What the tokens say\<close>

lemma match_len_bound: "len \<le> LOOKAHEAD \<Longrightarrow> match_len inp j wpos len \<le> LOOKAHEAD"
  by (induction inp j wpos len rule: match_len.induct)
     (simp add: match_len.simps [of _ _ _ len] match_len.simps)

lemma match_len_same:
  "\<forall>k < len. wpos + k < length inp \<and> inp ! (j + k) = inp ! (wpos + k) \<Longrightarrow>
   \<forall>k < match_len inp j wpos len. wpos + k < length inp \<and> inp ! (j + k) = inp ! (wpos + k)"
proof (induction inp j wpos len rule: match_len.induct)
  case (1 inp j wpos len)
  then show ?case
    by (subst match_len.simps) (auto simp: less_Suc_eq)
qed

definition match_at :: "u8 list \<Rightarrow> nat \<Rightarrow> nat \<Rightarrow> nat \<Rightarrow> bool" where
  "match_at inp wpos off len \<longleftrightarrow> len \<le> LOOKAHEAD \<and>
     (0 < len \<longrightarrow> 0 < off \<and> off \<le> wpos \<and> off \<le> WINDOW_SIZE \<and>
       (\<forall>k < len. wpos + k < length inp \<and> inp ! (wpos - off + k) = inp ! (wpos + k)))"

lemma match_at_len: "j < wpos \<Longrightarrow> wpos - WINDOW_SIZE \<le> j \<Longrightarrow> match_at inp wpos (wpos - j) (match_len inp j wpos 0)"
  using match_len_bound [of 0 inp j wpos] match_len_same [of 0 wpos inp j] by (auto simp: match_at_def)

lemma search_match_at:
  "match_at inp wpos best_off best_len \<Longrightarrow> wpos - WINDOW_SIZE \<le> j \<Longrightarrow>
   search_match inp wpos j best_off best_len = (off, len) \<Longrightarrow> match_at inp wpos off len"
proof (induction inp wpos j best_off best_len rule: search_match.induct)
  case (1 inp wpos j best_off best_len)
  then show ?case
    using match_at_len [of j wpos inp]
    by (auto simp: search_match.simps [of inp wpos j best_off best_len] Let_def split: if_splits)
qed

lemma find_match_at: "find_match inp wpos = (off, len) \<Longrightarrow> match_at inp wpos off len"
  unfolding find_match_def by (erule search_match_at [rotated 2]) (auto simp: match_at_def)

section \<open>The server expands the tokens\<close>

text \<open>No four bytes occur again one, two or three places later.\<close>

definition no_short_repeat :: "u8 list \<Rightarrow> bool" where
  "no_short_repeat inp \<longleftrightarrow> (\<forall>p < length inp. \<forall>d \<in> {1, 2, 3}. d \<le> p \<longrightarrow> p + 4 \<le> length inp \<longrightarrow> slice (p - d) 4 inp \<noteq> slice p 4 inp)"

lemma match_slice:
  "match_at inp wpos off 4 \<Longrightarrow> slice (wpos - off) 4 inp = slice wpos 4 inp \<and> 0 < off \<and> off \<le> wpos \<and> wpos + 4 \<le> length inp"
proof -
  assume m: "match_at inp wpos off 4"
  then have "wpos + 3 < length inp" "0 < off" "off \<le> wpos" by (auto simp: match_at_def)
  moreover from m this have "slice (wpos - off) 4 inp = slice wpos 4 inp"
    by (intro nth_equalityI) (auto simp: match_at_def slice_def)
  ultimately show ?thesis by simp
qed

lemma found_match:
  assumes "find_match inp wpos = (off, len)" and "MIN_MATCH \<le> len"
  shows "len = 4 \<and> slice (wpos - off) 4 inp = slice wpos 4 inp \<and> 0 < off \<and> off \<le> wpos \<and> off \<le> 128 \<and> wpos + 4 \<le> length inp"
proof -
  have m: "match_at inp wpos off len" using assms(1) by (rule find_match_at)
  with assms(2) have "len = 4" by (simp add: match_at_def MIN_MATCH_def LOOKAHEAD_def)
  with m match_slice [of inp wpos off] have "slice (wpos - off) 4 inp = slice wpos 4 inp \<and> 0 < off \<and> off \<le> wpos \<and> wpos + 4 \<le> length inp"
    by blast
  moreover have "off \<le> 128" using m \<open>len = 4\<close> by (simp add: match_at_def WINDOW_SIZE_def)
  ultimately show ?thesis using \<open>len = 4\<close> by blast
qed

lemma tokens_expand:
  "no_short_repeat inp \<Longrightarrow> wpos \<le> length inp \<Longrightarrow> tokens inp wpos = ts \<Longrightarrow>
   decodable (length pre + wpos) ts \<and> expand (pre @ take wpos inp) ts = pre @ inp"
proof (induction ts arbitrary: wpos)
  case Nil
  then show ?case by (simp add: tokens_Nil)
next
  case (Cons t ts)
  note c = tokens_Cons [OF Cons.prems(3)]
  show ?case
  proof (cases t)
    case (Lit b)
    with c have "b = inp ! wpos" by auto
    with Lit c Cons.IH [of "wpos + 1"] Cons.prems show ?thesis by (simp add: take_Suc_conv_app_nth)
  next
    case (Match off len)
    with c found_match have s: "len = 4" "slice (wpos - off) 4 inp = slice wpos 4 inp" "0 < off" "off \<le> wpos" "off \<le> 128"
      "wpos + 4 \<le> length inp" by auto
    with Cons.prems(1) c have "off \<notin> {1, 2, 3}" by (auto simp: no_short_repeat_def)
    with s have off: "4 \<le> off" by auto
    have "slice (length pre + wpos - off) 4 (pre @ take wpos inp) = slice (wpos - off) 4 inp"
      using s off by (simp add: slice_def drop_take min_def)
    then have "pre @ take wpos inp @ slice (length pre + wpos - off) 4 (pre @ take wpos inp) = pre @ take (wpos + 4) inp"
      using s by (simp add: slice_def take_add)
    with Match c off s Cons.IH [of "wpos + 4"] Cons.prems show ?thesis by (simp add: min_def add.assoc)
  qed
qed

lemma big_endian16:
  assumes "off < 65536"
  shows "unat (push_bit 8 (ucast (of_nat (off div 256) :: u8)) OR ucast (of_nat off :: u8) :: u32) = off"
proof -
  have "take_bit 16 off = off" using assms by (simp add: take_bit_nat_eq_self)
  then have "bit off n \<Longrightarrow> n < 16" for n by (metis bit_take_bit_iff)
  then have "bit off n \<Longrightarrow> n - 8 < 8" for n by fastforce
  moreover have "off div 256 = drop_bit 8 off" by (simp add: drop_bit_eq_div)
  ultimately have "push_bit 8 (ucast (of_nat (off div 256) :: u8)) OR ucast (of_nat off :: u8) = (of_nat off :: u32)"
    by (intro bit_word_eqI) (auto simp: bit_simps)
  then show ?thesis using assms by (simp add: unat_of_nat)
qed

lemma decompress_loop_token:
  assumes at: "\<And>k. k < length (bytes_of t) \<Longrightarrow> r + k < length inp \<and> inp ! (r + k) = bytes_of t ! k"
    and "length out = w" and "decodable w [t]"
    and "length (expand out [t]) \<le> out_len" and "out_len \<le> length out + length rest"
  shows "decompress_loop inp out_len r w (out @ rest) =
    decompress_loop inp out_len (r + length (bytes_of t)) (length (expand out [t])) (expand out [t] @ drop (length (expand out [t]) - w) rest)"
proof (cases t)
  case (Lit b)
  from Lit assms at [of 0] at [of 1] show ?thesis
    by (simp add: decompress_loop.simps [of inp out_len r] bind_run splice_def bytes_of.simps numeral_2_eq_2)
next
  case (Match off len)
  from assms have b: "len \<le> off" "off \<le> w" "off < 65536" "len < 256" by (simp_all add: Match)
  have off: "unat (push_bit 8 (ucast (of_nat (off div 256) :: u8)) OR ucast (of_nat off :: u8) :: u32) = off" by (rule big_endian16) (use b in simp)
  have r: "r + 4 \<le> length inp" "inp ! r = 1" "inp ! (r + 1) = of_nat (off div 256)" "inp ! (r + 2) = of_nat off" "inp ! (r + 3) = of_nat len"
    using at [of 0] at [of 1] at [of 2] at [of 3] by (simp_all add: Match bytes_of.simps)
  have len: "unat (of_nat len :: u8) = len" using b by (simp add: unat_of_nat)
  have "\<not> overlapping w (w - off) len" using b by (auto simp: overlapping_def)
  with r b assms(2-) show ?thesis
    by (simp add: decompress_loop.simps [of inp out_len r] bind_run splice_def buf_memcpy_def Match Let_def off len slice_def del: One_nat_def)
qed

lemma encode_length: "length (encode ts) = sum_list (map (length \<circ> bytes_of) ts)"
  by (induction ts) simp_all

lemma expand_length: "length out \<le> length (expand out ts)"
  by (induction out ts rule: expand.induct) (auto intro: order_trans [rotated])

lemma decompress_tokens:
  "(\<And>k. k < length (encode ts) \<Longrightarrow> r + k < length inp \<and> inp ! (r + k) = encode ts ! k) \<Longrightarrow> length out = w \<Longrightarrow>
   decodable w ts \<Longrightarrow> length (expand out ts) \<le> out_len \<Longrightarrow> out_len \<le> length out + length rest \<Longrightarrow>
   decompress_loop inp out_len r w (out @ rest) =
     decompress_loop inp out_len (r + length (encode ts)) (length (expand out ts)) (expand out ts @ drop (length (expand out ts) - w) rest)"
proof (induction ts arbitrary: r out w rest)
  case (Cons t ts)
  let ?o = "expand out [t]" and ?r = "r + length (bytes_of t)"
  have o: "expand out (t # ts) = expand ?o ts" using expand_append [of out "[t]" ts] by simp
  have w: "decodable w [t]" "decodable (length ?o) ts" using Cons.prems(2,3) by (cases t; auto simp: slice_def min_def)+
  have le: "length ?o \<le> out_len" "w \<le> length ?o" "length ?o \<le> length (expand ?o ts)"
    using Cons.prems(2,4) expand_length [of ?o ts] expand_length [of out "[t]"] by (auto simp: o)
  have "decompress_loop inp out_len r w (out @ rest) =
      decompress_loop inp out_len ?r (length ?o) (?o @ drop (length ?o - w) rest)"
  proof (rule decompress_loop_token)
    fix k assume "k < length (bytes_of t)"
    with Cons.prems(1) [of k] show "r + k < length inp \<and> inp ! (r + k) = bytes_of t ! k" by (simp add: nth_append)
  qed (use w le Cons.prems in simp_all)
  also have "\<dots> = decompress_loop inp out_len (?r + length (encode ts)) (length (expand ?o ts))
      (expand ?o ts @ drop (length (expand ?o ts) - length ?o) (drop (length ?o - w) rest))"
  proof (rule Cons.IH)
    fix k assume "k < length (encode ts)"
    with Cons.prems(1) [of "length (bytes_of t) + k"] show "?r + k < length inp \<and> inp ! (?r + k) = encode ts ! k"
      by (simp add: nth_append add.assoc)
  qed (use w le Cons.prems in \<open>auto simp: o\<close>)
  also have "drop (length (expand ?o ts) - length ?o) (drop (length ?o - w) rest) = drop (length (expand ?o ts) - w) rest"
    using le by simp
  finally show ?case by (simp add: o add.assoc)
qed simp

lemma decompress_encoded:
  "decodable 0 ts \<Longrightarrow> length (expand [] ts) \<le> raw_len \<Longrightarrow> raw_len \<le> length raw \<Longrightarrow>
   decompress_lz77 (encode ts) raw_len raw = Done (Some (length (expand [] ts))) (expand [] ts @ drop (length (expand [] ts)) raw)"
  using decompress_tokens [of ts 0 "encode ts" "[]" 0 raw_len raw]
  by (simp add: decompress_lz77_def decompress_loop.simps [of "encode ts" raw_len "length (encode ts)"])

lemma encode_tokens_bound: "length (encode (tokens inp wpos)) \<le> 2 * (length inp - wpos)"
proof (induction "length inp - wpos" arbitrary: wpos rule: less_induct)
  case less
  show ?case
  proof (cases "tokens inp wpos")
    case (Cons t ts)
    note c = tokens_Cons [OF this]
    have t: "length (bytes_of t) \<le> 2 * covers t" "0 < covers t" "wpos + covers t \<le> length inp"
      using c by (auto dest: found_match)
    have "length (encode ts) \<le> 2 * (length inp - (wpos + covers t))"
      using less [of "wpos + covers t"] c t(2) by fastforce
    with t Cons show ?thesis by simp
  qed simp
qed

text \<open>
  C33. Compression and its inverse.  Into a buffer with room for \<open>out_len\<close> bytes the client writes at most
  \<open>out_len\<close> bytes.  When it succeeds, the server gets back the input from them; it always succeeds when the room
  is twice the length of the input.  This holds for inputs in which no four bytes occur again one, two
  or three places later; for others the server may copy between overlapping parts of its buffer.
\<close>

theorem lz77_roundtrip:
  assumes "no_short_repeat inp" and "out_len \<le> length out" and "length inp \<le> raw_len" and "raw_len \<le> length raw"
  shows "\<exists>r out'. compress_lz77 inp out_len out = Done r out' \<and> length out' = length out \<and>
    drop out_len out' = drop out_len out \<and>
    (case r of Some n \<Rightarrow> n \<le> out_len \<and>
        decompress_lz77 (take n out') raw_len raw = Done (Some (length inp)) (inp @ drop (length inp) raw)
      | None \<Rightarrow> out_len < 2 * length inp)"
proof -
  let ?ts = "tokens inp 0"
  have fits: "length (encode (fitting out_len ?ts)) \<le> out_len" by (rule fitting_length)
  have "decodable 0 ?ts" "expand [] ?ts = inp" using tokens_expand [OF assms(1), of 0 ?ts "[]"] by simp_all
  then have "decompress_lz77 (encode ?ts) raw_len raw = Done (Some (length inp)) (inp @ drop (length inp) raw)"
    using decompress_encoded [of ?ts raw_len raw] assms(3,4) by simp
  with fits encode_tokens_bound [of inp 0] fitting_all [of out_len ?ts] assms(2) show ?thesis
    by (auto simp: compress_lz77_tokens splice_def)
qed

text \<open>The round trip of nine bytes, the last four of which repeat the first.\<close>

definition sample :: "u8 list" where "sample = [1, 2, 3, 4, 5, 1, 2, 3, 4]"

theorem lz77_roundtrip_witness:
  "no_short_repeat sample \<and> (\<exists>r out'. compress_lz77 sample 20 (replicate 20 0) = Done r out' \<and>
    (case r of Some n \<Rightarrow> decompress_lz77 (take n out') 9 (replicate 9 0) = Done (Some 9) sample | None \<Rightarrow> False))"
proof -
  have s: "no_short_repeat sample" by (auto simp: no_short_repeat_def sample_def slice_def less_Suc_eq)
  with lz77_roundtrip [of sample 20 "replicate 20 0" 9 "replicate 9 0"] show ?thesis
    by (fastforce simp: sample_def split: option.splits)
qed

text \<open>Five equal bytes in a row are sent as a copy from one place before, which the server makes with \<open>memcpy\<close>.\<close>

lemma lz77_run_undefined:
  assumes "6 \<le> out_len" and "out_len \<le> length out" and "5 \<le> raw_len" and "raw_len \<le> length raw"
  shows "\<exists>out'. compress_lz77 [b, b, b, b, b] out_len out = Done (Some 6) out' \<and>
    (\<exists>raw'. decompress_lz77 (take 6 out') raw_len raw = Halt Null_deref raw')"
proof -
  have "find_match [b, b, b, b, b] 0 = (0, 0)" "find_match [b, b, b, b, b] (Suc 0) = (1, 4)"
    by (simp_all add: find_match_def WINDOW_SIZE_def LOOKAHEAD_def search_match.simps match_len.simps)
  then have ts: "tokens [b, b, b, b, b] 0 = [Lit b, Match 1 4]"
    by (simp add: tokens.simps MIN_MATCH_def)
  have "decompress_loop [0, b, 1, 0, 1, 4] raw_len 0 0 raw = Halt Null_deref (splice 0 [b] raw)"
    using assms(3,4) by (simp add: decompress_loop.simps buf_memcpy_def overlapping_def bind_run Let_def)
  moreover have "fitting out_len [Lit b, Match 1 4] = [Lit b, Match 1 4]"
    by (simp only: fitting_all) (use assms in simp)
  ultimately show ?thesis using assms
    by (simp add: compress_lz77_tokens ts bytes_of.simps splice_def decompress_lz77_def)
qed

section \<open>What fits\<close>

lemma tokens_covers:
  "wpos \<le> length inp \<Longrightarrow> tokens inp wpos = ts \<Longrightarrow> sum_list (map covers ts) = length inp - wpos \<and>
     (\<forall>t \<in> set ts. 0 < covers t \<and> covers t \<le> length (bytes_of t) \<and> length (bytes_of t) \<le> 2 * covers t)"
proof (induction ts arbitrary: wpos)
  case Nil
  then show ?case by (simp add: tokens_Nil)
next
  case (Cons t ts)
  note c = tokens_Cons [OF Cons.prems(2)]
  then have t: "0 < covers t" "covers t \<le> length (bytes_of t)" "length (bytes_of t) \<le> 2 * covers t" "wpos + covers t \<le> length inp"
    by (auto dest: found_match)
  with Cons.IH [of "wpos + covers t"] c show ?case by auto
qed

lemma first_token: "inp \<noteq> [] \<Longrightarrow> \<exists>ts. tokens inp 0 = Lit (inp ! 0) # ts"
proof -
  assume "inp \<noteq> []"
  then obtain t ts where t: "tokens inp 0 = t # ts" by (cases "tokens inp 0") (auto simp: tokens_Nil)
  with tokens_Cons [OF t] show ?thesis by (auto dest: found_match)
qed

text \<open>The tokens take more bytes than the input has, so they never fit into as many.\<close>

lemma tokens_too_long:
  assumes "inp \<noteq> []"
  shows "length inp < length (encode (tokens inp 0))"
proof -
  obtain ts where ts: "tokens inp 0 = Lit (inp ! 0) # ts" using first_token [OF assms] by blast
  have "sum_list (map covers us) \<le> length (encode us)" if "\<forall>t \<in> set us. covers t \<le> length (bytes_of t)" for us
    using that by (induction us) auto
  from this [of ts] tokens_covers [of 0 inp "tokens inp 0"] show ?thesis by (auto simp: ts)
qed

lemma compress_never_fits:
  "inp \<noteq> [] \<Longrightarrow> length inp \<le> length out \<Longrightarrow>
   compress_lz77 inp (length inp) out = Done None (splice 0 (encode (fitting (length inp) (tokens inp 0))) out)"
  using tokens_too_long [of inp] by (simp add: compress_lz77_tokens)

lemma expand_prefix: "\<exists>xs. expand out ts = out @ xs"
  by (induction out ts rule: expand.induct) auto

lemma expand_covers: "decodable (length out) ts \<Longrightarrow> length (expand out ts) = length out + sum_list (map covers ts)"
proof (induction out ts rule: expand.induct)
  case (3 out off len ts)
  then have "len \<le> off" "off \<le> length out" by simp_all
  then have "length (slice (length out - off) len out) = len" by (intro length_slice) linarith
  with 3 show ?case by simp
qed simp_all

lemma decodable_prefix: "decodable w (ts @ us) \<Longrightarrow> decodable w ts"
  by (induction w ts rule: decodable.induct) auto

lemma fitting_room: "fitting room ts \<noteq> ts \<Longrightarrow> room < length (encode (fitting room ts)) + 4"
proof (induction room ts rule: fitting.induct)
  case (2 room t ts)
  then show ?case by (cases t) (auto split: if_splits)
qed simp

lemma even_encode: "even (length (encode ts))"
proof (induction ts)
  case (Cons t ts)
  then show ?case by (cases t) simp_all
qed simp

text \<open>The bytes of an input that the tokens that fit stand for.\<close>

definition sent_tokens :: "u8 list \<Rightarrow> token list" where
  "sent_tokens inp = fitting (length inp) (tokens inp 0)"

definition sent_length :: "u8 list \<Rightarrow> nat" where
  "sent_length inp = sum_list (map covers (sent_tokens inp))"

lemma sent_tokens_expand:
  assumes "no_short_repeat inp"
  shows "decodable 0 (sent_tokens inp) \<and> expand [] (sent_tokens inp) = take (sent_length inp) inp"
proof -
  obtain us where us: "tokens inp 0 = sent_tokens inp @ us" using fitting_prefix [of "tokens inp 0" "length inp"] by (auto simp: sent_tokens_def)
  have full: "decodable 0 (tokens inp 0)" "expand [] (tokens inp 0) = inp"
    using tokens_expand [OF assms, of 0 "tokens inp 0" "[]"] by simp_all
  then have d: "decodable 0 (sent_tokens inp)" by (simp add: us decodable_prefix)
  obtain xs where "inp = expand [] (sent_tokens inp) @ xs"
    using full(2) expand_prefix [of "expand [] (sent_tokens inp)" us] by (auto simp: us expand_append)
  moreover have "length (expand [] (sent_tokens inp)) = sent_length inp"
    using expand_covers [of "[]" "sent_tokens inp"] d by (simp add: sent_length_def)
  ultimately show ?thesis using d by (metis append_eq_conv_conj)
qed

lemma sent_length_bounds:
  assumes "inp \<noteq> []" and "even (length inp)"
  shows "sent_length inp < length inp \<and> length inp \<le> 2 * sent_length inp + 2 \<and>
    length (encode (sent_tokens inp)) \<le> length inp \<and> length inp \<le> length (encode (sent_tokens inp)) + 2"
proof -
  let ?ts = "tokens inp 0"
  obtain us where us: "?ts = sent_tokens inp @ us" using fitting_prefix [of ?ts "length inp"] by (auto simp: sent_tokens_def)
  have neq: "sent_tokens inp \<noteq> ?ts" using tokens_too_long [OF assms(1)] by (simp add: sent_tokens_def fitting_all)
  note c = tokens_covers [OF le0 refl, of inp]
  have sum: "sent_length inp + sum_list (map covers us) = length inp" using c by (simp add: us sent_length_def)
  obtain u us' where "us = u # us'" using neq us by (cases us) auto
  with c have "0 < sum_list (map covers us)" by (auto simp: us)
  moreover have "length (encode vs) \<le> 2 * sum_list (map covers vs)" if "\<forall>t \<in> set vs. length (bytes_of t) \<le> 2 * covers t" for vs
    using that by (induction vs) auto
  from this [of "sent_tokens inp"] c have "length (encode (sent_tokens inp)) \<le> 2 * sent_length inp" by (simp add: us sent_length_def)
  moreover have "length inp < length (encode (sent_tokens inp)) + 4"
    using fitting_room neq by (simp add: sent_tokens_def)
  moreover have "even (length (encode (sent_tokens inp)))" by (rule even_encode)
  moreover have "length (encode (sent_tokens inp)) \<le> length inp" by (simp add: sent_tokens_def fitting_length)
  ultimately show ?thesis using sum assms(2) by presburger
qed

section \<open>Data that cannot be compressed\<close>

definition no_repeat :: "u8 list \<Rightarrow> bool" where
  "no_repeat inp \<longleftrightarrow> (\<forall>p < length inp. \<forall>d \<in> {1..WINDOW_SIZE}. d \<le> p \<longrightarrow> p + 4 \<le> length inp \<longrightarrow> slice (p - d) 4 inp \<noteq> slice p 4 inp)"

lemma tokens_no_repeat: "no_repeat inp \<Longrightarrow> wpos \<le> length inp \<Longrightarrow> tokens inp wpos = map Lit (drop wpos inp)"
proof (induction "length inp - wpos" arbitrary: wpos rule: less_induct)
  case less
  show ?case
  proof (cases "tokens inp wpos")
    case Nil
    with less(2,3) show ?thesis by (simp add: tokens_Nil)
  next
    case (Cons t ts)
    note c = tokens_Cons [OF this]
    have "t = Lit (inp ! wpos)"
    proof (rule ccontr)
      assume "t \<noteq> Lit (inp ! wpos)"
      with c obtain off len where "find_match inp wpos = (off, len)" "MIN_MATCH \<le> len" by auto
      from found_match [OF this] c less(2) show False by (auto simp: no_repeat_def WINDOW_SIZE_def)
    qed
    moreover have "tokens inp (Suc wpos) = map Lit (drop (Suc wpos) inp)"
      using less(1) [of "Suc wpos"] less(2) c by fastforce
    ultimately show ?thesis using c Cons by (simp add: Cons_nth_drop_Suc [symmetric])
  qed
qed

lemma fitting_Lits: "fitting room (map Lit xs) = map Lit (take (room div 2) xs)"
proof (induction xs arbitrary: room)
  case (Cons x xs)
  show ?case
  proof (cases "2 \<le> room")
    case True
    then obtain k where "room = k + 2" by (metis le_add_diff_inverse2)
    with Cons show ?thesis by simp
  qed simp
qed simp

lemma decodable_Lits: "decodable w (map Lit xs)"
  by (induction xs arbitrary: w) simp_all

lemma expand_Lits: "expand out (map Lit xs) = out @ xs"
  by (induction xs arbitrary: out) simp_all

lemma encode_Lits: "length (encode (map Lit xs)) = 2 * length xs"
  by (induction xs) simp_all

text \<open>
  C39. Data without repetitions.  In an input in which no four bytes repeat within the window of 128
  bytes, every byte takes two.  With as much room as the input has bytes, which is what the client gives the
  function, it reports failure; the client does not look at the result and sends what was written.  This
  stands for the first half of the input and nothing of the second.
\<close>

theorem incompressible_half:
  assumes "no_repeat inp" and "inp \<noteq> []" and "even (length inp)" and "length inp \<le> length out"
    and "length inp \<le> raw_len" and "raw_len \<le> length raw"
  shows "\<exists>out'. compress_lz77 inp (length inp) out = Done None out' \<and>
    decompress_lz77 (take (length inp) out') raw_len raw =
      Done (Some (length inp div 2)) (take (length inp div 2) inp @ drop (length inp div 2) raw)"
proof -
  let ?h = "take (length inp div 2) inp"
  have n: "length (encode (map Lit ?h)) = length inp" using assms(3) by (simp add: encode_Lits)
  have "decompress_lz77 (encode (map Lit ?h)) raw_len raw = Done (Some (length inp div 2)) (?h @ drop (length inp div 2) raw)"
    using decompress_encoded [of "map Lit ?h" raw_len raw] assms by (simp add: decodable_Lits expand_Lits)
  with assms n show ?thesis
    by (simp add: compress_lz77_tokens tokens_no_repeat fitting_Lits encode_Lits splice_def)
qed

theorem incompressible_half_witness:
  "no_repeat [1, 2, 3, 4, 5, 6] \<and> (\<exists>out'. compress_lz77 [1, 2, 3, 4, 5, 6] 6 (replicate 6 0) = Done None out' \<and>
    decompress_lz77 (take 6 out') 6 (replicate 6 0) = Done (Some 3) [1, 2, 3, 0, 0, 0])"
proof -
  have "no_repeat [1, 2, 3, 4, 5, 6]" by (auto simp: no_repeat_def slice_def less_Suc_eq le_Suc_eq)
  moreover have "length [1, 2, 3, 4, 5, 6 :: u8] = 6" "length (replicate 6 (0 :: u8)) = 6" "(6 :: nat) div 2 = 3" by simp_all
  moreover have "take 3 [1, 2, 3, 4, 5, 6] @ drop 3 (replicate 6 0) = [1, 2, 3, 0, 0, 0 :: u8]"
    by (simp add: numeral_eq_Suc)
  moreover note incompressible_half [of "[1, 2, 3, 4, 5, 6]" "replicate 6 0" 6 "replicate 6 0"]
  ultimately show ?thesis by (simp only:) simp
qed

end
