(* ===== verification/Tea.thy ===== *)
theory Tea
  imports ByteBuffer
begin

text \<open>
  The encryption of the network measurement: TEA with four rounds, a thousand passes over a buffer, in
  the client (\<open>measurements/smp/network-app/client/main.c\<close>) by one core per slice, in the server
  (\<open>measurements/smp/network-app/server/tcp-server-b1.c\<close>) by one core or by threads that share the
  buffer.  The threads are a step relation: a step loads a block into the thread's private copy and
  decrypts it there, or stores that copy.
\<close>

section \<open>Blocks\<close>

definition TEA_DELTA :: u32 where "TEA_DELTA = 0x9e3779b9"
definition TEA_NUM_ROUNDS :: nat where "TEA_NUM_ROUNDS = 4"
definition TEA_HEAVY_LOOPS :: nat where "TEA_HEAVY_LOOPS = 1000"

definition tea_mix :: "u32 \<Rightarrow> u32 \<Rightarrow> u32 \<Rightarrow> u32 \<Rightarrow> u32" where
  "tea_mix v sm ka kb = (push_bit 4 v + ka) XOR (v + sm) XOR (drop_bit 5 v + kb)"

definition encrypt_round :: "u32 list \<Rightarrow> u32 \<times> u32 \<times> u32 \<Rightarrow> u32 \<times> u32 \<times> u32" where
  "encrypt_round k = (\<lambda>(v0, v1, sm).
     let sm = sm + TEA_DELTA; v0 = v0 + tea_mix v1 sm (k ! 0) (k ! 1); v1 = v1 + tea_mix v0 sm (k ! 2) (k ! 3)
     in (v0, v1, sm))"

definition tea_encrypt_block :: "u32 list \<Rightarrow> u32 \<times> u32 \<Rightarrow> u32 \<times> u32" where
  "tea_encrypt_block k = (\<lambda>(v0, v1). case (encrypt_round k ^^ TEA_NUM_ROUNDS) (v0, v1, 0) of (v0, v1, sm) \<Rightarrow> (v0, v1))"

definition decrypt_round :: "u32 list \<Rightarrow> u32 \<times> u32 \<times> u32 \<Rightarrow> u32 \<times> u32 \<times> u32" where
  "decrypt_round k = (\<lambda>(v0, v1, sm).
     let v1 = v1 - tea_mix v0 sm (k ! 2) (k ! 3); v0 = v0 - tea_mix v1 sm (k ! 0) (k ! 1)
     in (v0, v1, sm - TEA_DELTA))"

definition tea_decrypt_block :: "u32 list \<Rightarrow> u32 \<times> u32 \<Rightarrow> u32 \<times> u32" where
  "tea_decrypt_block k = (\<lambda>(v0, v1).
     case (decrypt_round k ^^ TEA_NUM_ROUNDS) (v0, v1, TEA_DELTA * of_nat TEA_NUM_ROUNDS) of (v0, v1, sm) \<Rightarrow> (v0, v1))"

text \<open>Eight bytes as the two words of a block, on little-endian machines.\<close>

definition load_block :: "u8 list \<Rightarrow> u32 \<times> u32" where
  "load_block bs = (read_le32 bs, read_le32 (drop 4 bs))"

definition block_bytes :: "u32 \<times> u32 \<Rightarrow> u8 list" where
  "block_bytes v = bytes32 (fst v) @ bytes32 (snd v)"

section \<open>Passes over a buffer\<close>

text \<open>The indices of \<open>for (i = s; i < e; i += 8)\<close>.\<close>

function steps8 :: "nat \<Rightarrow> nat \<Rightarrow> nat list" where
  "steps8 s e = (if s < e then s # steps8 (s + 8) e else [])"
  by auto

termination
  by (relation "measure (\<lambda>(s, e). e - s)") auto

declare steps8.simps [simp del]

definition crypt_at :: "(u32 \<times> u32 \<Rightarrow> u32 \<times> u32) \<Rightarrow> nat \<Rightarrow> (u8 list, unit) prog" where
  "crypt_at f i = bind (buf_read i 8) (\<lambda>bs. buf_write i (block_bytes (f (load_block bs))))"

definition crypt_passes :: "(u32 \<times> u32 \<Rightarrow> u32 \<times> u32) \<Rightarrow> nat \<Rightarrow> nat \<Rightarrow> (u8 list, unit) prog" where
  "crypt_passes f s e = for_each [0..<TEA_HEAVY_LOOPS] (\<lambda>_. for_each (steps8 s e) (crypt_at f))"

definition encrypt_slice :: "u32 list \<Rightarrow> nat \<Rightarrow> (u8 list, unit) prog" where
  "encrypt_slice k padded = crypt_passes (tea_encrypt_block k) 0 padded"

record decrypt_args =
  arg_start :: nat
  arg_end :: nat
  arg_key :: "u32 list"

definition decrypt_worker :: "decrypt_args \<Rightarrow> (u8 list, unit) prog" where
  "decrypt_worker arg = crypt_passes (tea_decrypt_block (arg_key arg)) (arg_start arg) (arg_end arg)"

section \<open>Threads that share the buffer\<close>

definition worker_args :: "u32 list \<Rightarrow> nat \<Rightarrow> nat \<Rightarrow> nat \<Rightarrow> decrypt_args" where
  "worker_args k payload_n workers w =
     (let slice = payload_n div workers in
      \<lparr>arg_start = w * slice, arg_end = (if w + 1 = workers then payload_n else (w + 1) * slice), arg_key = k\<rparr>)"

record thread =
  todo :: "nat list"
  held :: "(nat \<times> (u32 \<times> u32)) option"

definition worker_thread :: "decrypt_args \<Rightarrow> thread" where
  "worker_thread arg = \<lparr>todo = concat (replicate TEA_HEAVY_LOOPS (steps8 (arg_start arg) (arg_end arg))), held = None\<rparr>"

definition worker_threads :: "u32 list \<Rightarrow> nat \<Rightarrow> nat \<Rightarrow> thread list" where
  "worker_threads k payload_n workers = map (\<lambda>w. worker_thread (worker_args k payload_n workers w)) [0..<workers]"

inductive thread_step :: "u32 list \<Rightarrow> thread list \<times> u8 list \<Rightarrow> thread list \<times> u8 list \<Rightarrow> bool" for k where
  fetch: "w < length ts \<Longrightarrow> ts ! w = \<lparr>todo = i # is, held = None\<rparr> \<Longrightarrow> i + 8 \<le> length b \<Longrightarrow>
    thread_step k (ts, b) (ts[w := \<lparr>todo = is, held = Some (i, tea_decrypt_block k (load_block (slice i 8 b)))\<rparr>], b)"
| put: "w < length ts \<Longrightarrow> ts ! w = \<lparr>todo = is, held = Some (i, v)\<rparr> \<Longrightarrow> i + 8 \<le> length b \<Longrightarrow>
    thread_step k (ts, b) (ts[w := \<lparr>todo = is, held = None\<rparr>], splice i (block_bytes v) b)"

inductive_cases thread_stepE: "thread_step k (ts, b) st"

section \<open>Blocks come back\<close>

lemma decrypt_encrypt_round: "decrypt_round k (encrypt_round k x) = x"
  by (cases x) (simp add: decrypt_round_def encrypt_round_def Let_def)

lemma decrypt_encrypt_rounds: "(decrypt_round k ^^ n) ((encrypt_round k ^^ n) x) = x"
  by (induction n arbitrary: x) (simp_all add: funpow_swap1 decrypt_encrypt_round)

lemma encrypt_rounds_sum: "snd (snd ((encrypt_round k ^^ n) (v0, v1, sm))) = sm + TEA_DELTA * of_nat n"
  by (induction n) (auto simp: encrypt_round_def Let_def case_prod_beta algebra_simps)

lemma tea_decrypt_encrypt: "tea_decrypt_block k (tea_encrypt_block k v) = v"
proof -
  obtain v0 v1 where v: "v = (v0, v1)" by (cases v)
  obtain w0 w1 sm where e: "(encrypt_round k ^^ TEA_NUM_ROUNDS) (v0, v1, 0) = (w0, w1, sm)" by (cases "(encrypt_round k ^^ TEA_NUM_ROUNDS) (v0, v1, 0)")
  have "sm = TEA_DELTA * of_nat TEA_NUM_ROUNDS" using encrypt_rounds_sum [of TEA_NUM_ROUNDS k v0 v1 0] e by simp
  moreover have "(decrypt_round k ^^ TEA_NUM_ROUNDS) (w0, w1, sm) = (v0, v1, 0)"
    using decrypt_encrypt_rounds [of TEA_NUM_ROUNDS k "(v0, v1, 0)"] e by simp
  ultimately show ?thesis by (simp add: tea_decrypt_block_def tea_encrypt_block_def v e)
qed

lemma length_block_bytes [simp]: "length (block_bytes v) = 8"
  by (simp add: block_bytes_def)

lemma load_block_bytes [simp]: "load_block (block_bytes v) = v"
  using read_le32_bytes32 [of "snd v" "[]"] by (simp add: load_block_def block_bytes_def)

lemma bytes32_le32: "bytes32 (le32 a b c d) = [a, b, c, d]"
proof -
  have "ucast (le32 a b c d) = a" by (rule bit_word_eqI) (auto simp: le32_def bit_simps)
  moreover have "ucast (drop_bit 8 (le32 a b c d)) = b" by (rule bit_word_eqI) (auto simp: le32_def bit_simps dest: bit_imp_le_length)
  moreover have "ucast (drop_bit 16 (le32 a b c d)) = c" by (rule bit_word_eqI) (auto simp: le32_def bit_simps dest: bit_imp_le_length)
  moreover have "ucast (drop_bit 24 (le32 a b c d)) = d" by (rule bit_word_eqI) (auto simp: le32_def bit_simps dest: bit_imp_le_length)
  ultimately show ?thesis by (simp add: bytes32_def)
qed

lemma block_bytes_load: "length bs = 8 \<Longrightarrow> block_bytes (load_block bs) = bs"
proof -
  assume "length bs = 8"
  then obtain a b c d e f g h where "bs = [a, b, c, d, e, f, g, h]" by (auto simp: numeral_eq_Suc length_Suc_conv)
  then show ?thesis by (simp add: block_bytes_def load_block_def bytes32_le32)
qed

section \<open>Sequential passes\<close>

lemma apart8: "8 dvd i \<Longrightarrow> 8 dvd j \<Longrightarrow> i \<noteq> j \<Longrightarrow> i + 8 \<le> j \<or> j + 8 \<le> (i :: nat)"
  by (elim dvdE) auto

lemma nth_splice:
  "j + length v \<le> length b \<Longrightarrow> p < length b \<Longrightarrow> splice j v b ! p = (if j \<le> p \<and> p < j + length v then v ! (p - j) else b ! p)"
  by (auto simp: splice_def nth_append)

lemma slice_splice_apart:
  assumes "i + n \<le> j \<or> j + length v \<le> i" and "i + n \<le> length b" and "j + length v \<le> length b"
  shows "slice i n (splice j v b) = slice i n b"
proof (rule nth_equalityI)
  fix p assume "p < length (slice i n (splice j v b))"
  then have "p < n" using assms by (simp add: slice_def)
  then show "slice i n (splice j v b) ! p = slice i n b ! p"
    using assms nth_splice [of j v b "i + p"] by (auto simp: slice_def)
qed (use assms in simp)

lemma slice_splice_block:
  "8 dvd i \<Longrightarrow> 8 dvd j \<Longrightarrow> i + 8 \<le> length b \<Longrightarrow> j + 8 \<le> length b \<Longrightarrow>
   slice i 8 (splice j (block_bytes v) b) = (if i = j then block_bytes v else slice i 8 b)"
  using apart8 [of i j] by (auto intro!: slice_splice_apart)

lemma drop_splice: "i + length v \<le> n \<Longrightarrow> i + length v \<le> length b \<Longrightarrow> drop n (splice i v b) = drop n b"
  by (simp add: splice_def)

lemma buffer_eqI:
  assumes "length b' = length b" and "drop n b' = drop n b" and "8 dvd n" and "n \<le> length b"
    and "\<And>i. 8 dvd i \<Longrightarrow> i + 8 \<le> n \<Longrightarrow> slice i 8 b' = slice i 8 b"
  shows "b' = b"
proof (rule nth_equalityI)
  fix p assume p: "p < length b'"
  show "b' ! p = b ! p"
  proof (cases "p < n")
    case True
    let ?i = "8 * (p div 8)"
    have "p div 8 < n div 8" using True assms(3) by (auto elim!: dvdE simp: div_less_iff_less_mult mult.commute)
    then have "?i + 8 \<le> n" using assms(3) by (auto elim!: dvdE)
    then have "slice ?i 8 b' ! (p mod 8) = slice ?i 8 b ! (p mod 8)" using assms(5) [of ?i] by simp
    then show ?thesis using \<open>?i + 8 \<le> n\<close> assms(1,4) by (simp add: slice_def)
  next
    case False
    then have "drop n b' ! (p - n) = drop n b ! (p - n)" using assms(2) by simp
    then show ?thesis using False p assms(1) by simp
  qed
qed (rule assms(1))

lemma for_each_append: "for_each (xs @ ys) f = bind (for_each xs f) (\<lambda>_. for_each ys f)"
  by (induction xs) (auto simp: fun_eq_iff bind_run split: outcome.split)

lemma for_each_repeat: "for_each [0..<n] (\<lambda>_. for_each xs f) = for_each (concat (replicate n xs)) f"
proof (induction n)
  case (Suc n)
  have "concat (replicate (Suc n) xs) = concat (replicate n xs) @ xs"
    by (simp only: replicate_append_same [symmetric] replicate_Suc concat_append) simp
  with Suc show ?case by (simp add: for_each_append fun_eq_iff bind_run split: outcome.split)
qed simp

definition crypt_bytes :: "(u32 \<times> u32 \<Rightarrow> u32 \<times> u32) \<Rightarrow> u8 list \<Rightarrow> u8 list" where
  "crypt_bytes f bs = block_bytes (f (load_block bs))"

definition blockwise :: "nat \<Rightarrow> (nat \<Rightarrow> u8 list \<Rightarrow> u8 list) \<Rightarrow> u8 list \<Rightarrow> u8 list \<Rightarrow> bool" where
  "blockwise n h b b' \<longleftrightarrow> length b' = length b \<and> drop n b' = drop n b \<and>
     (\<forall>i. 8 dvd i \<longrightarrow> i + 8 \<le> n \<longrightarrow> slice i 8 b' = h i (slice i 8 b))"

lemma blockwise_id:
  assumes "8 dvd n" and "blockwise n (\<lambda>i. id) b b'" and "n \<le> length b"
  shows "b' = b"
  by (rule buffer_eqI [where n = n]) (use assms in \<open>simp_all add: blockwise_def\<close>)

lemma blockwise_step:
  assumes "8 dvd j" and "j + 8 \<le> n" and "n \<le> length b" and "blockwise n h (splice j (block_bytes v) b) b'"
    and "\<And>i. i \<noteq> j \<Longrightarrow> h' i = h i" and "h' j (slice j 8 b) = h j (block_bytes v)"
  shows "blockwise n h' b b'"
  using assms by (auto simp: blockwise_def drop_splice slice_splice_block split: if_splits)

lemma crypt_for_each:
  "(\<And>i. i \<in> set is \<Longrightarrow> 8 dvd i \<and> i + 8 \<le> n) \<Longrightarrow> n \<le> length b \<Longrightarrow>
   \<exists>b'. for_each is (crypt_at f) b = Done () b' \<and> blockwise n (\<lambda>i. crypt_bytes f ^^ count_list is i) b b'"
proof (induction "is" arbitrary: b)
  case Nil
  then show ?case by (simp add: blockwise_def)
next
  case (Cons j "is")
  let ?v = "f (load_block (slice j 8 b))"
  have j: "8 dvd j" "j + 8 \<le> n" using Cons.prems(1) by auto
  then have "n \<le> length (splice j (block_bytes ?v) b)" using Cons.prems(2) by simp
  then obtain b' where b': "for_each is (crypt_at f) (splice j (block_bytes ?v) b) = Done () b'"
      "blockwise n (\<lambda>i. crypt_bytes f ^^ count_list is i) (splice j (block_bytes ?v) b) b'"
    using Cons.IH [of "splice j (block_bytes ?v) b"] Cons.prems(1) by auto
  have "crypt_at f j b = Done () (splice j (block_bytes ?v) b)" using j Cons.prems(2) by (simp add: crypt_at_def bind_run)
  then have "for_each (j # is) (crypt_at f) b = Done () b'" using b'(1) by (simp add: bind_run)
  moreover have "blockwise n (\<lambda>i. crypt_bytes f ^^ count_list (j # is) i) b b'"
    by (rule blockwise_step [OF j Cons.prems(2) b'(2)]) (simp_all add: crypt_bytes_def funpow_swap1)
  ultimately show ?case by blast
qed

lemma steps8_set: "8 dvd s \<Longrightarrow> set (steps8 s e) = {i. 8 dvd i \<and> s \<le> i \<and> i < e}"
proof (induction s e rule: steps8.induct)
  case (1 s e)
  show ?case
  proof (cases "s < e")
    case True
    have "{i. 8 dvd i \<and> s \<le> i \<and> i < e} = insert s {i. 8 dvd i \<and> s + 8 \<le> i \<and> i < e}"
      using True 1(2) apart8 [of s] by fastforce
    moreover have "set (steps8 (s + 8) e) = {i. 8 dvd i \<and> s + 8 \<le> i \<and> i < e}" using True 1 by simp
    ultimately show ?thesis using True by (simp only: steps8.simps [of s e] if_True list.set)
  qed (simp add: steps8.simps [of s e])
qed

lemma steps8_first: "s < e \<Longrightarrow> s \<in> set (steps8 s e)"
  by (simp add: steps8.simps [of s e])

lemma steps8_from: "i \<in> set (steps8 s e) \<Longrightarrow> s \<le> i"
proof (induction s e rule: steps8.induct)
  case (1 s e)
  then show ?case by (cases "s < e"; simp add: steps8.simps [of s e]; auto)
qed

lemma steps8_distinct: "distinct (steps8 s e)"
proof (induction s e rule: steps8.induct)
  case (1 s e)
  then show ?case using steps8_from [of s "s + 8" e] by (auto simp: steps8.simps [of s e])
qed

lemma count_distinct: "distinct xs \<Longrightarrow> count_list xs x = (if x \<in> set xs then 1 else 0)"
  by (induction xs) auto

lemma count_steps8: "8 dvd s \<Longrightarrow> count_list (steps8 s e) i = (if 8 dvd i \<and> s \<le> i \<and> i < e then 1 else 0)"
  by (simp add: count_distinct [OF steps8_distinct] steps8_set)

lemma count_replicate: "count_list (concat (replicate n xs)) i = n * count_list xs i"
  by (induction n) simp_all

lemma blocks_inside: "8 dvd n \<Longrightarrow> 8 dvd i \<Longrightarrow> i < n \<Longrightarrow> i + 8 \<le> (n :: nat)"
  using apart8 [of i n] by auto

lemma crypt_passes_result:
  assumes "8 dvd s" and "8 dvd n" and "e \<le> n" and "n \<le> length b"
  shows "\<exists>b'. crypt_passes f s e b = Done () b' \<and>
     blockwise n (\<lambda>i. crypt_bytes f ^^ (TEA_HEAVY_LOOPS * count_list (steps8 s e) i)) b b'"
proof -
  have "8 dvd i \<and> i + 8 \<le> n" if "i \<in> set (concat (replicate TEA_HEAVY_LOOPS (steps8 s e)))" for i
  proof -
    from that have "i \<in> set (steps8 s e)" by auto
    then show ?thesis using assms(2,3) blocks_inside [of n i] by (simp add: steps8_set [OF assms(1)])
  qed
  from crypt_for_each [of "concat (replicate TEA_HEAVY_LOOPS (steps8 s e))" n b f, OF this assms(4)] show ?thesis
    by (simp only: crypt_passes_def for_each_repeat count_replicate)
qed

section \<open>Threads: what is still to be done\<close>

definition pending :: "thread \<Rightarrow> nat list" where
  "pending t = (case held t of None \<Rightarrow> [] | Some (i, v) \<Rightarrow> [i]) @ todo t"

definition remaining :: "thread list \<Rightarrow> nat \<Rightarrow> nat" where
  "remaining ts i = sum_list (map (\<lambda>t. count_list (pending t) i) ts)"

text \<open>
  The threads own different blocks of the first \<open>n\<close> bytes, a private copy is the decryption of what
  the buffer still has, and decrypting every block as often as is still to be done gives the buffer \<open>b0\<close>.
\<close>

definition threads_inv :: "u32 list \<Rightarrow> nat \<Rightarrow> u8 list \<Rightarrow> thread list \<times> u8 list \<Rightarrow> bool" where
  "threads_inv k n b0 = (\<lambda>(ts, b).
     n \<le> length b \<and> blockwise n (\<lambda>i. crypt_bytes (tea_decrypt_block k) ^^ remaining ts i) b b0 \<and>
     (\<forall>w < length ts. \<forall>i \<in> set (pending (ts ! w)). 8 dvd i \<and> i + 8 \<le> n) \<and>
     (\<forall>w < length ts. \<forall>w' < length ts. w \<noteq> w' \<longrightarrow> set (pending (ts ! w)) \<inter> set (pending (ts ! w')) = {}) \<and>
     (\<forall>w < length ts. \<forall>i v. held (ts ! w) = Some (i, v) \<longrightarrow> v = tea_decrypt_block k (load_block (slice i 8 b))))"

lemma remaining_update:
  "w < length ts \<Longrightarrow> remaining (ts[w := t]) i + count_list (pending (ts ! w)) i = remaining ts i + count_list (pending t) i"
proof (induction ts arbitrary: w)
  case (Cons u ts)
  then show ?case by (cases w) (auto simp: remaining_def)
qed simp

lemma inv_fetch:
  assumes "threads_inv k n b0 (ts, b)" and "w < length ts" and "ts ! w = \<lparr>todo = i # is, held = None\<rparr>"
  shows "threads_inv k n b0 (ts[w := \<lparr>todo = is, held = Some (i, tea_decrypt_block k (load_block (slice i 8 b)))\<rparr>], b)"
proof -
  let ?t = "\<lparr>todo = is, held = Some (i, tea_decrypt_block k (load_block (slice i 8 b)))\<rparr>"
  have p: "pending ?t = pending (ts ! w)" using assms(3) by (simp add: pending_def)
  then have r: "remaining (ts[w := ?t]) = remaining ts" using remaining_update [OF assms(2), of ?t] by (intro ext) simp
  have q: "pending (ts[w := ?t] ! u) = pending (ts ! u)" if "u < length ts" for u
    using that p by (cases "u = w") auto
  have h: "v = tea_decrypt_block k (load_block (slice j 8 b))" if u: "u < length ts" "held (ts[w := ?t] ! u) = Some (j, v)" for u j v
  proof (cases "u = w")
    case False
    with u have "held (ts ! u) = Some (j, v)" by simp
    with assms(1) u(1) show ?thesis unfolding threads_inv_def by blast
  qed (use u assms(2) in auto)
  show ?thesis unfolding threads_inv_def prod.case length_list_update
  proof (intro conjI)
    show "\<forall>u < length ts. \<forall>j v. held (ts[w := ?t] ! u) = Some (j, v) \<longrightarrow> v = tea_decrypt_block k (load_block (slice j 8 b))"
      using h by blast
  qed (use assms(1) in \<open>simp_all add: threads_inv_def r q\<close>)
qed

lemma inv_put:
  assumes "threads_inv k n b0 (ts, b)" and "w < length ts" and "ts ! w = \<lparr>todo = is, held = Some (i, v)\<rparr>"
  shows "threads_inv k n b0 (ts[w := \<lparr>todo = is, held = None\<rparr>], splice i (block_bytes v) b)"
proof -
  let ?t = "\<lparr>todo = is, held = None\<rparr>" and ?b = "splice i (block_bytes v) b"
  have inv: "n \<le> length b" "blockwise n (\<lambda>i. crypt_bytes (tea_decrypt_block k) ^^ remaining ts i) b b0"
      "\<And>u j. u < length ts \<Longrightarrow> j \<in> set (pending (ts ! u)) \<Longrightarrow> 8 dvd j \<and> j + 8 \<le> n"
      "\<And>u u'. u < length ts \<Longrightarrow> u' < length ts \<Longrightarrow> u \<noteq> u' \<Longrightarrow> set (pending (ts ! u)) \<inter> set (pending (ts ! u')) = {}"
      "\<And>u j x. u < length ts \<Longrightarrow> held (ts ! u) = Some (j, x) \<Longrightarrow> x = tea_decrypt_block k (load_block (slice j 8 b))"
    using assms(1) by (auto simp: threads_inv_def)
  have p: "pending (ts ! w) = i # pending ?t" using assms(3) by (simp add: pending_def)
  have i: "8 dvd i" "i + 8 \<le> n" using inv(3) [OF assms(2)] p by auto
  have v: "v = tea_decrypt_block k (load_block (slice i 8 b))" using inv(5) [OF assms(2)] assms(3) by simp
  have r: "remaining ts j = (if j = i then Suc (remaining (ts[w := ?t]) j) else remaining (ts[w := ?t]) j)" for j
    using remaining_update [OF assms(2), of ?t j] p by auto
  have q: "set (pending (ts[w := ?t] ! u)) \<subseteq> set (pending (ts ! u))" if "u < length ts" for u
    using that p by (cases "u = w") auto
  have "blockwise n (\<lambda>j. crypt_bytes (tea_decrypt_block k) ^^ remaining (ts[w := ?t]) j) ?b b0"
    unfolding blockwise_def
  proof (intro conjI allI impI)
    fix j :: nat assume j: "8 dvd j" "j + 8 \<le> n"
    with inv(2) have "slice j 8 b0 = (crypt_bytes (tea_decrypt_block k) ^^ remaining ts j) (slice j 8 b)"
      by (simp add: blockwise_def)
    moreover have "slice j 8 ?b = (if j = i then block_bytes v else slice j 8 b)"
      using j i inv(1) by (simp add: slice_splice_block)
    ultimately show "slice j 8 b0 = (crypt_bytes (tea_decrypt_block k) ^^ remaining (ts[w := ?t]) j) (slice j 8 ?b)"
      by (simp add: r funpow_swap1 v crypt_bytes_def)
  qed (use inv(1,2) i in \<open>simp_all add: blockwise_def drop_splice\<close>)
  moreover have "x = tea_decrypt_block k (load_block (slice j 8 ?b))" if u: "u < length ts" "held (ts[w := ?t] ! u) = Some (j, x)" for u j x
  proof -
    have uw: "u \<noteq> w" using u by (auto simp: nth_list_update split: if_splits)
    then have h: "held (ts ! u) = Some (j, x)" using u by simp
    then have "j \<in> set (pending (ts ! u))" by (simp add: pending_def)
    then have "j \<noteq> i" "8 dvd j" "j + 8 \<le> n" using inv(3) [OF u(1)] inv(4) [OF u(1) assms(2) uw] p by auto
    then have "slice j 8 ?b = slice j 8 b" using i inv(1) by (simp add: slice_splice_block)
    then show ?thesis using inv(5) [OF u(1) h] by simp
  qed
  ultimately show ?thesis using inv(1,3,4) q i
    by (simp add: threads_inv_def) blast
qed

lemma inv_step: "thread_step k st st' \<Longrightarrow> threads_inv k n b0 st \<Longrightarrow> threads_inv k n b0 st'"
  by (induction rule: thread_step.induct) (auto intro: inv_fetch inv_put)

section \<open>Threads: progress\<close>

definition thread_weight :: "thread \<Rightarrow> nat" where
  "thread_weight t = 2 * length (todo t) + (case held t of None \<Rightarrow> 0 | Some _ \<Rightarrow> 1)"

definition thread_size :: "thread list \<Rightarrow> nat" where
  "thread_size ts = sum_list (map thread_weight ts)"

lemma thread_size_update:
  "w < length ts \<Longrightarrow> thread_size (ts[w := t]) + thread_weight (ts ! w) = thread_size ts + thread_weight t"
proof (induction ts arbitrary: w)
  case (Cons u ts)
  then show ?case by (cases w) (auto simp: thread_size_def)
qed simp

lemma size_step: "thread_step k st st' \<Longrightarrow> thread_size (fst st) = Suc (thread_size (fst st'))"
proof (induction rule: thread_step.induct)
  case (fetch w ts i "is" b)
  then show ?case using thread_size_update [of w ts "\<lparr>todo = is, held = Some (i, tea_decrypt_block k (load_block (slice i 8 b)))\<rparr>"] by (simp add: thread_weight_def)
next
  case (put w ts "is" i v b)
  then show ?case using thread_size_update [of w ts "\<lparr>todo = is, held = None\<rparr>"] by (simp add: thread_weight_def)
qed

lemma size_steps: "(thread_step k ^^ m) st st' \<Longrightarrow> thread_size (fst st) = m + thread_size (fst st')"
  by (induction m arbitrary: st') (auto dest: size_step)

lemma inv_steps: "(thread_step k ^^ m) st st' \<Longrightarrow> threads_inv k n b0 st \<Longrightarrow> threads_inv k n b0 st'"
  by (induction m arbitrary: st') (auto dest: inv_step)

lemma thread_size_0: "thread_size ts = 0 \<Longrightarrow> remaining ts i = 0"
  by (auto simp: thread_size_def thread_weight_def remaining_def pending_def split: option.splits)

lemma thread_can_step:
  assumes "threads_inv k n b0 (ts, b)" and "0 < thread_size ts"
  shows "\<exists>st. thread_step k (ts, b) st"
proof -
  obtain t where "t \<in> set ts" "thread_weight t \<noteq> 0" using assms(2) by (auto simp: thread_size_def simp flip: neq0_conv)
  then obtain w where w: "w < length ts" "thread_weight (ts ! w) \<noteq> 0" by (metis in_set_conv_nth)
  from assms(1) w(1) have i: "n \<le> length b" "\<And>i. i \<in> set (pending (ts ! w)) \<Longrightarrow> i + 8 \<le> n" by (auto simp: threads_inv_def)
  show ?thesis
  proof (cases "held (ts ! w)")
    case None
    with w obtain j "is" where "todo (ts ! w) = j # is" by (cases "todo (ts ! w)") (auto simp: thread_weight_def)
    with None i have "ts ! w = \<lparr>todo = j # is, held = None\<rparr>" "j + 8 \<le> length b" by (force simp: pending_def)+
    with w(1) show ?thesis by (blast intro: fetch)
  next
    case (Some p)
    obtain j v where "p = (j, v)" by (cases p)
    with Some i have "ts ! w = \<lparr>todo = todo (ts ! w), held = Some (j, v)\<rparr>" "j + 8 \<le> length b" by (force simp: pending_def)+
    with w(1) show ?thesis by (blast intro: put)
  qed
qed

section \<open>The workers of the server\<close>

lemma steps8_append: "8 dvd a \<Longrightarrow> 8 dvd b \<Longrightarrow> a \<le> b \<Longrightarrow> b \<le> c \<Longrightarrow> steps8 a b @ steps8 b c = steps8 a c"
proof (induction a b rule: steps8.induct)
  case (1 a b)
  show ?case
  proof (cases "a < b")
    case True
    with 1 apart8 [of a b] have "steps8 (a + 8) b @ steps8 b c = steps8 (a + 8) c" by auto
    with True 1(5) show ?thesis by (simp add: steps8.simps [of a b] steps8.simps [of a c])
  next
    case False
    with 1(4) have "a = b" by simp
    with False show ?thesis by (simp add: steps8.simps [of b b])
  qed
qed

lemma length_steps8: "8 dvd s \<Longrightarrow> 8 dvd e \<Longrightarrow> length (steps8 s e) = (e - s) div 8"
proof (induction s e rule: steps8.induct)
  case (1 s e)
  show ?case
  proof (cases "s < e")
    case True
    then have "s + 8 \<le> e" using 1(2,3) blocks_inside [of e s] by simp
    then obtain d where "e = s + 8 + d" using le_Suc_ex by blast
    moreover have "length (steps8 (s + 8) e) = (e - (s + 8)) div 8" using True 1 by simp
    moreover have "steps8 s e = s # steps8 (s + 8) e" using True by (simp add: steps8.simps [of s e])
    ultimately show ?thesis by simp
  qed (simp add: steps8.simps [of s e])
qed

definition worker_steps :: "nat \<Rightarrow> nat \<Rightarrow> nat \<Rightarrow> nat list" where
  "worker_steps payload_n workers w =
     steps8 (arg_start (worker_args [] payload_n workers w)) (arg_end (worker_args [] payload_n workers w))"

lemma workers_cover:
  assumes "8 dvd n" and "8 dvd n div workers" and "0 < workers"
  shows "concat (map (worker_steps n workers) [0..<workers]) = steps8 0 n"
proof -
  obtain m where m: "workers = Suc m" using assms(3) by (cases workers) auto
  let ?sl = "n div workers"
  have "concat (map (worker_steps n workers) [0..<j]) = steps8 0 (j * ?sl)" if "j \<le> m" for j
    using that
  proof (induction j)
    case 0
    show ?case by (simp add: steps8.simps)
  next
    case (Suc j)
    then have "steps8 0 (j * ?sl) @ steps8 (j * ?sl) (Suc j * ?sl) = steps8 0 (Suc j * ?sl)"
      using assms(2) by (intro steps8_append) auto
    with Suc m show ?case by (simp add: worker_steps_def worker_args_def Let_def add.commute)
  qed
  moreover have "m * ?sl \<le> n"
    by (rule order_trans [OF mult_right_mono times_div_less_eq_dividend [of workers n]]) (simp_all add: m)
  then have "steps8 0 (m * ?sl) @ steps8 (m * ?sl) n = steps8 0 n"
    using assms(2) by (intro steps8_append) auto
  ultimately show ?thesis by (simp add: m worker_steps_def worker_args_def Let_def)
qed

lemma worker_thread_pending:
  "w < workers \<Longrightarrow> pending (worker_threads k n workers ! w) = concat (replicate TEA_HEAVY_LOOPS (worker_steps n workers w))"
  by (simp add: worker_threads_def worker_thread_def worker_steps_def pending_def worker_args_def Let_def)

lemma count_concat: "sum_list (map (\<lambda>w. count_list (f w) i) ws) = count_list (concat (map f ws)) i"
  by (induction ws) simp_all

lemma workers_remaining:
  "remaining (worker_threads k n workers) i = TEA_HEAVY_LOOPS * count_list (concat (map (worker_steps n workers) [0..<workers])) i"
proof -
  have "remaining (worker_threads k n workers) i =
      sum_list (map (\<lambda>w. TEA_HEAVY_LOOPS * count_list (worker_steps n workers w) i) [0..<workers])"
    by (simp add: remaining_def worker_threads_def worker_thread_def worker_steps_def pending_def worker_args_def
        Let_def count_replicate o_def)
  then show ?thesis by (simp add: sum_list_const_mult count_concat)
qed

lemma workers_size:
  "thread_size (worker_threads k n workers) = 2 * TEA_HEAVY_LOOPS * length (concat (map (worker_steps n workers) [0..<workers]))"
proof -
  have "thread_size (worker_threads k n workers) =
      sum_list (map (\<lambda>w. 2 * TEA_HEAVY_LOOPS * length (worker_steps n workers w)) [0..<workers])"
    by (simp add: thread_size_def thread_weight_def mult.assoc worker_threads_def worker_thread_def worker_steps_def worker_args_def
        Let_def length_concat sum_list_replicate o_def)
  then show ?thesis by (simp add: sum_list_const_mult length_concat o_def)
qed

lemma distinct_concat_map:
  "distinct (concat (map f ws)) \<Longrightarrow> distinct ws \<Longrightarrow> w \<in> set ws \<Longrightarrow> w' \<in> set ws \<Longrightarrow> w \<noteq> w' \<Longrightarrow> set (f w) \<inter> set (f w') = {}"
  by (induction ws) fastforce+

lemma workers_inv:
  assumes "8 dvd n" and "8 dvd n div workers" and "0 < workers" and "n \<le> length b"
    and "blockwise n (\<lambda>i. crypt_bytes (tea_encrypt_block k) ^^ (TEA_HEAVY_LOOPS * count_list (steps8 0 n) i)) b e"
  shows "threads_inv k n b (worker_threads k n workers, e)"
proof -
  let ?ts = "worker_threads k n workers"
  have len: "length ?ts = workers" by (simp add: worker_threads_def)
  have cover: "concat (map (worker_steps n workers) [0..<workers]) = steps8 0 n"
    by (rule workers_cover [OF assms(1-3)])
  have "(crypt_bytes (tea_decrypt_block k) ^^ m) ((crypt_bytes (tea_encrypt_block k) ^^ m) bs) = bs" if "length bs = 8" for m bs
  proof (induction m)
    case (Suc m)
    have "crypt_bytes (tea_decrypt_block k) (crypt_bytes (tea_encrypt_block k) xs) = block_bytes (load_block xs)" for xs
      by (simp add: crypt_bytes_def tea_decrypt_encrypt)
    moreover have "length ((crypt_bytes (tea_encrypt_block k) ^^ m) bs) = 8"
      using that by (cases m) (simp_all add: crypt_bytes_def)
    moreover have "(crypt_bytes (tea_decrypt_block k) ^^ Suc m) xs = (crypt_bytes (tea_decrypt_block k) ^^ m) (crypt_bytes (tea_decrypt_block k) xs)" for xs
      by (simp add: funpow_swap1)
    ultimately show ?case using Suc by (simp add: block_bytes_load del: funpow.simps(2) add: funpow.simps(2) [of m "crypt_bytes (tea_encrypt_block k)"])
  qed simp
  then have "blockwise n (\<lambda>i. crypt_bytes (tea_decrypt_block k) ^^ remaining ?ts i) e b"
    using assms(4,5) by (simp add: blockwise_def workers_remaining cover)
  moreover have own: "8 dvd i \<and> i + 8 \<le> n" if "w < workers" "i \<in> set (pending (?ts ! w))" for w i
  proof -
    have "i \<in> set (concat (map (worker_steps n workers) [0..<workers]))"
      using that by (auto simp: worker_thread_pending)
    then show ?thesis using assms(1) blocks_inside [of n i] by (simp add: cover steps8_set)
  qed
  moreover have "set (pending (?ts ! w)) \<inter> set (pending (?ts ! w')) = {}" if w: "w < workers" "w' < workers" "w \<noteq> w'" for w w'
  proof -
    have "distinct (concat (map (worker_steps n workers) [0..<workers]))" by (simp only: cover steps8_distinct)
    then have "set (worker_steps n workers w) \<inter> set (worker_steps n workers w') = {}"
      using w by (intro distinct_concat_map [of _ "[0..<workers]"]) simp_all
    then show ?thesis using w by (auto simp: worker_thread_pending)
  qed
  moreover have "held (?ts ! w) = None" if "w < workers" for w
    using that by (simp add: worker_threads_def worker_thread_def)
  ultimately show ?thesis using assms(4,5)
    unfolding threads_inv_def prod.case by (simp add: len blockwise_def)
qed

section \<open>Decryption by threads\<close>

lemma threads_run:
  assumes "8 dvd n" and "8 dvd n div workers" and "0 < workers" and "n \<le> length b" and "encrypt_slice k n b = Done () e"
    and run: "(thread_step k ^^ m) (worker_threads k n workers, e) (ts, e')"
  shows "m \<le> 2 * 1000 * (n div 8) \<and> (m < 2 * 1000 * (n div 8) \<longrightarrow> (\<exists>st. thread_step k (ts, e') st)) \<and>
    (m = 2 * 1000 * (n div 8) \<longrightarrow> e' = b)"
proof -
  let ?ts = "worker_threads k n workers"
  have e: "blockwise n (\<lambda>i. crypt_bytes (tea_encrypt_block k) ^^ (TEA_HEAVY_LOOPS * count_list (steps8 0 n) i)) b e"
    using crypt_passes_result [OF dvd_0_right assms(1) order_refl assms(4), of "tea_encrypt_block k"] assms(5)
    unfolding encrypt_slice_def by auto
  have size: "thread_size ?ts = 2 * 1000 * (n div 8)"
    by (simp only: workers_size workers_cover [OF assms(1-3)] length_steps8 [OF dvd_0_right assms(1)] TEA_HEAVY_LOOPS_def diff_zero)
  have sz: "2 * 1000 * (n div 8) = m + thread_size ts" using size_steps [OF run] size by simp
  have inv: "threads_inv k n b (ts, e')" by (rule inv_steps [OF run workers_inv [OF assms(1-4) e]])
  have "e' = b" if "thread_size ts = 0"
  proof -
    have "blockwise n (\<lambda>i. id) e' b" using inv thread_size_0 [OF that] by (simp add: threads_inv_def blockwise_def)
    moreover have "n \<le> length e'" using inv by (simp add: threads_inv_def)
    ultimately have "b = e'" by (rule blockwise_id [OF assms(1)])
    then show ?thesis ..
  qed
  moreover have "\<exists>st. thread_step k (ts, e') st" if "0 < thread_size ts" by (rule thread_can_step [OF inv that])
  ultimately show ?thesis using sz by (cases "thread_size ts = 0") simp_all
qed

lemma encrypt_slice_returns:
  assumes "8 dvd n" and "n \<le> length b"
  shows "\<exists>e. encrypt_slice k n b = Done () e \<and> length e = length b"
  using crypt_passes_result [OF dvd_0_right assms(1) order_refl assms(2)] by (auto simp: encrypt_slice_def blockwise_def)

text \<open>
  C34. Decryption by threads.  When the client's passes have encrypted the first \<open>n\<close> bytes of a buffer, \<open>n\<close>
  a multiple of eight, and the share of a worker of the server is a multiple of eight, the threads
  of the server take exactly \<open>2 * 1000 * (n div 8)\<close> steps in whatever order they run: before that some
  thread can take a step, and after it the buffer is what it was before it was encrypted.
\<close>

theorem threads_decrypt:
  assumes "8 dvd n" and "8 dvd n div workers" and "0 < workers" and "n \<le> length b"
  shows "\<exists>e. encrypt_slice k n b = Done () e \<and> length e = length b \<and>
    (\<forall>m ts e'. (thread_step k ^^ m) (worker_threads k n workers, e) (ts, e') \<longrightarrow>
      m \<le> 2 * 1000 * (n div 8) \<and>
      (m < 2 * 1000 * (n div 8) \<longrightarrow> (\<exists>st. thread_step k (ts, e') st)) \<and>
      (m = 2 * 1000 * (n div 8) \<longrightarrow> e' = b))"
  using encrypt_slice_returns [OF assms(1,4), of k] threads_run [OF assms] by blast

text \<open>Sixteen bytes and two workers.\<close>

theorem threads_decrypt_witness:
  "\<exists>e. encrypt_slice [1, 2, 3, 4] 16 [0, 1, 2, 3, 4, 5, 6, 7, 8, 9, 10, 11, 12, 13, 14, 15] = Done () e \<and>
    {e'. \<exists>ts. (thread_step [1, 2, 3, 4] ^^ 4000) (worker_threads [1, 2, 3, 4] 16 2, e) (ts, e')} \<subseteq>
      {[0, 1, 2, 3, 4, 5, 6, 7, 8, 9, 10, 11, 12, 13, 14, 15]}"
  using threads_decrypt [of 16 2 "[0, 1, 2, 3, 4, 5, 6, 7, 8, 9, 10, 11, 12, 13, 14, 15]" "[1, 2, 3, 4]"] by simp blast

section \<open>Which bytes a worker touches\<close>

definition touched :: "nat \<Rightarrow> nat \<Rightarrow> nat \<Rightarrow> nat set" where
  "touched payload_n workers w = (\<Union>i \<in> set (worker_steps payload_n workers w). {i..<i + 8})"

lemma touched_shares:
  assumes "8 dvd n" and "0 < workers" and "workers = 1 \<or> 8 dvd n div workers" and w: "w < workers"
  shows "touched n workers w \<subseteq> {..<n}" and "w' < workers \<Longrightarrow> w \<noteq> w' \<Longrightarrow> touched n workers w \<inter> touched n workers w' = {}"
proof -
  have cover: "concat (map (worker_steps n workers) [0..<workers]) = steps8 0 n"
    using assms(1-3) workers_cover by (auto simp: worker_steps_def worker_args_def Let_def)
  have al: "8 dvd i \<and> i + 8 \<le> n" if "v < workers" "i \<in> set (worker_steps n workers v)" for v i
  proof -
    have "i \<in> set (concat (map (worker_steps n workers) [0..<workers]))" using that by auto
    then show ?thesis using assms(1) blocks_inside [of n i] by (simp add: cover steps8_set)
  qed
  show "touched n workers w \<subseteq> {..<n}" using al [OF w] by (fastforce simp: touched_def)
  assume w': "w' < workers" "w \<noteq> w'"
  have "distinct (concat (map (worker_steps n workers) [0..<workers]))" by (simp only: cover steps8_distinct)
  then have "set (worker_steps n workers w) \<inter> set (worker_steps n workers w') = {}"
    using w w' by (intro distinct_concat_map [of _ "[0..<workers]"]) simp_all
  then have d: "i + 8 \<le> j \<or> j + 8 \<le> i" if "i \<in> set (worker_steps n workers w)" "j \<in> set (worker_steps n workers w')" for i j
    using that al [OF w, of i] al [OF w'(1), of j] apart8 [of i j] by fastforce
  have False if "x \<in> touched n workers w" "x \<in> touched n workers w'" for x
  proof -
    from that obtain i j where "i \<in> set (worker_steps n workers w)" "i \<le> x" "x < i + 8"
        "j \<in> set (worker_steps n workers w')" "j \<le> x" "x < j + 8" by (auto simp: touched_def)
    with d [of i j] show False by linarith
  qed
  then show "touched n workers w \<inter> touched n workers w' = {}" by blast
qed

lemma touched_boundary:
  assumes "1 < workers" and "\<not> 8 dvd n div workers"
  shows "n div workers \<in> touched n workers 0 \<inter> touched n workers 1"
proof -
  let ?sl = "n div workers"
  have sl: "0 < ?sl" using assms(2) by (cases ?sl) auto
  let ?i = "8 * (?sl div 8)"
  have i: "?i < ?sl" "?sl < ?i + 8" using assms(2) by (auto simp: dvd_eq_mod_eq_0 simp flip: minus_mod_eq_mult_div intro: diff_less)
  have "?i \<in> set (worker_steps n workers 0)"
    using i assms(1) by (simp add: worker_steps_def worker_args_def Let_def steps8_set)
  then have "?sl \<in> touched n workers 0" unfolding touched_def using i by (intro UN_I [of ?i]) simp_all
  moreover have "?sl < arg_end (worker_args [] n workers 1)"
  proof (cases "workers = 2")
    case True
    then show ?thesis using sl by (simp add: worker_args_def Let_def)
  qed (use sl in \<open>simp add: worker_args_def Let_def\<close>)
  then have "?sl \<in> set (worker_steps n workers 1)"
    using steps8_first [of ?sl] by (simp add: worker_steps_def worker_args_def Let_def split: if_splits)
  then have "?sl \<in> touched n workers 1" by (force simp: touched_def)
  ultimately show ?thesis ..
qed

text \<open>
  C36. The shares of the workers.  For a payload of a multiple of eight bytes the server's workers
  touch different bytes, all of them in the payload, exactly when there is one worker or the share \<open>n div workers\<close> is
  a multiple of eight.  A byte is touched when it is in a block of eight that the loop of the
  worker takes from the start of its share.
\<close>

theorem worker_shares:
  assumes "8 dvd n" and "0 < workers"
  shows "(\<forall>w < workers. \<forall>w' < workers. w \<noteq> w' \<longrightarrow> touched n workers w \<inter> touched n workers w' = {}) \<and>
      (\<forall>w < workers. touched n workers w \<subseteq> {..<n}) \<longleftrightarrow> workers = 1 \<or> 8 dvd n div workers"
proof
  assume "workers = 1 \<or> 8 dvd n div workers"
  then show "(\<forall>w < workers. \<forall>w' < workers. w \<noteq> w' \<longrightarrow> touched n workers w \<inter> touched n workers w' = {}) \<and>
      (\<forall>w < workers. touched n workers w \<subseteq> {..<n})"
    using touched_shares [OF assms] by blast
next
  assume apart: "(\<forall>w < workers. \<forall>w' < workers. w \<noteq> w' \<longrightarrow> touched n workers w \<inter> touched n workers w' = {}) \<and>
      (\<forall>w < workers. touched n workers w \<subseteq> {..<n})"
  have "touched n workers 0 \<inter> touched n workers 1 = {}" if "1 < workers"
    using apart that by (metis One_nat_def less_trans zero_less_one zero_neq_one)
  then show "workers = 1 \<or> 8 dvd n div workers"
    using touched_boundary [of workers n] assms(2) by (cases "1 < workers") auto
qed

theorem worker_shares_witness:
  "touched 48 3 0 \<inter> touched 48 3 1 = {} \<and> touched 48 3 1 \<inter> touched 48 3 2 = {} \<and> touched 48 3 2 \<subseteq> {..<48}"
  using worker_shares [of 48 3] by simp

end
