(* ===== verification/NetApp.thy ===== *)
theory NetApp
  imports Crc32 Lz77 Tea
begin

text \<open>
  The network measurement as a whole: what a core of the client does with its slice
  (\<open>do_slice\<close>), the packet the client sends, and the server from reading the packet to expanding it.
  The sizes of the buffers (\<open>BUFFER_SIZE\<close>, \<open>ENC_MAX\<close>, \<open>BUF_MAX\<close>) and the
  number of cores are arguments.  What a call of \<open>read\<close> delivers at most is a list in the state of the server.
\<close>

section \<open>The client\<close>

record client =
  raw_buf :: "u8 list"
  comp_slice :: "u8 list list"
  enc_slice :: "u8 list list"
  slice_enc_len :: "nat list"

definition raw_key :: "u8 list" where
  "raw_key = [0x30, 0x31, 0x32, 0x33, 0x34, 0x35, 0x36, 0x37, 0x38, 0x39, 0x30, 0x31, 0x32, 0x33, 0x34, 0x35]"

definition tea_key :: "u32 list" where
  "tea_key = [read_le32 raw_key, read_le32 (drop 4 raw_key), read_le32 (drop 8 raw_key), read_le32 (drop 12 raw_key)]"

definition slice_start :: "nat \<Rightarrow> nat \<Rightarrow> nat \<Rightarrow> nat" where
  "slice_start bufsize ncores core = core * (bufsize div ncores)"

definition slice_len :: "nat \<Rightarrow> nat \<Rightarrow> nat \<Rightarrow> nat" where
  "slice_len bufsize ncores core = (if core + 1 = ncores then bufsize - slice_start bufsize ncores core else bufsize div ncores)"

definition on_comp :: "nat \<Rightarrow> (u8 list, 'a) prog \<Rightarrow> (client, 'a) prog" where
  "on_comp core = zoom (\<lambda>s. comp_slice s ! core) (\<lambda>b s. s\<lparr>comp_slice := (comp_slice s)[core := b]\<rparr>)"

definition on_enc :: "nat \<Rightarrow> (u8 list, 'a) prog \<Rightarrow> (client, 'a) prog" where
  "on_enc core = zoom (\<lambda>s. enc_slice s ! core) (\<lambda>b s. s\<lparr>enc_slice := (enc_slice s)[core := b]\<rparr>)"

definition do_slice :: "nat \<Rightarrow> nat \<Rightarrow> nat \<Rightarrow> (client, unit) prog" where
  "do_slice bufsize ncores core =
     (let len = slice_len bufsize ncores core in
      bind (gets (\<lambda>s. slice (slice_start bufsize ncores core) len (raw_buf s))) (\<lambda>inp.
      bind (on_comp core (compress_lz77 inp len)) (\<lambda>r.
      let comp_len = (case r of Some n \<Rightarrow> n | None \<Rightarrow> len);
          padded = (comp_len + 7) div 8 * 8 in
      bind (on_comp core (buf_read 0 comp_len)) (\<lambda>bs.
      bind (on_enc core (buf_write 0 bs)) (\<lambda>_.
      bind (on_enc core (buf_write comp_len (replicate (padded - comp_len) 0))) (\<lambda>_.
      bind (on_enc core (encrypt_slice tea_key padded)) (\<lambda>_.
      modify (\<lambda>s. s\<lparr>slice_enc_len := (slice_enc_len s)[core := padded]\<rparr>))))))))"

definition crc_table :: "u32 list" where "crc_table = crc32_init (replicate 256 0)"

text \<open>\<open>htonl\<close> and the write of the word.\<close>

definition net_bytes :: "u32 \<Rightarrow> u8 list" where "net_bytes v = rev (bytes32 v)"

definition make_packet :: "nat \<Rightarrow> client \<Rightarrow> u8 list" where
  "make_packet ncores s = concat (map (\<lambda>c. take (slice_enc_len s ! c) (enc_slice s ! c)) [0..<ncores])"

text \<open>One test: the slices in the order in which the cores finish them, and what is written to the socket.\<close>

definition send_test :: "nat \<Rightarrow> nat \<Rightarrow> nat list \<Rightarrow> (client, u8 list) prog" where
  "send_test bufsize ncores order =
     bind (for_each order (do_slice bufsize ncores)) (\<lambda>_.
     bind (gets (make_packet ncores)) (\<lambda>packet.
     return (net_bytes (compute_crc crc_table packet) @ net_bytes (of_nat (length packet)) @ packet)))"

section \<open>The server\<close>

record server =
  stream :: "u8 list"
  reads :: "nat list"
  enc_buf :: "u8 list"
  mid :: "u8 list"
  raw :: "u8 list"

definition sock_read :: "nat \<Rightarrow> (server, u8 list) prog" where
  "sock_read n = bind (gets reads) (\<lambda>rs. case rs of [] \<Rightarrow> halt Starved
     | r # rs' \<Rightarrow> bind (gets (\<lambda>s. take (min n r) (stream s))) (\<lambda>bs.
         bind (modify (\<lambda>s. s\<lparr>stream := drop (length bs) (stream s), reads := rs'\<rparr>)) (\<lambda>_. return bs)))"

definition on_enc_buf :: "(u8 list, 'a) prog \<Rightarrow> (server, 'a) prog" where
  "on_enc_buf = zoom enc_buf (\<lambda>b s. s\<lparr>enc_buf := b\<rparr>)"

definition on_mid :: "(u8 list, 'a) prog \<Rightarrow> (server, 'a) prog" where
  "on_mid = zoom mid (\<lambda>b s. s\<lparr>mid := b\<rparr>)"

definition on_raw :: "(u8 list, 'a) prog \<Rightarrow> (server, 'a) prog" where
  "on_raw = zoom raw (\<lambda>b s. s\<lparr>raw := b\<rparr>)"

definition net_word :: "u8 list \<Rightarrow> u32" where "net_word bs = read_le32 (rev bs)"

definition read_header :: "(server, (u32 \<times> u32) option) prog" where
  "read_header =
     bind (sock_read 4) (\<lambda>a. if length a \<noteq> 4 then return None else
     bind (sock_read 4) (\<lambda>b. if length b \<noteq> 4 then return None else
     return (Some (net_word a, net_word b))))"

function read_payload :: "nat \<Rightarrow> nat \<Rightarrow> (server, bool) prog" where
  "read_payload payload_n got =
     (if got < payload_n then
        bind (sock_read (payload_n - got)) (\<lambda>bs.
        if bs = [] then return False else
        bind (on_enc_buf (buf_write got bs)) (\<lambda>_. read_payload payload_n (got + length bs)))
      else return True)"
  by auto

termination
  by (relation "measure (\<lambda>(payload_n, got). payload_n - got)")
     (auto simp flip: length_greater_0_conv)

declare read_payload.simps [simp del]

text \<open>
  From the header to the copy that the threads work on; \<open>None\<close> is an exit with an error.  A length
  that is negative as an \<open>int\<close> skips the loop, and the check sum is then taken far beyond the buffer.
\<close>

definition server_receive :: "(server, nat option) prog" where
  "server_receive = bind read_header (\<lambda>h. case h of None \<Rightarrow> return None | Some (expected_crc, len_n) \<Rightarrow>
     if 2 ^ 31 \<le> unat len_n then halt Out_of_bounds else
     let payload_n = unat len_n in
     bind (read_payload payload_n 0) (\<lambda>ok. if \<not> ok then return None else
     bind (on_enc_buf (buf_read 0 payload_n)) (\<lambda>payload.
     if compute_crc crc_table payload \<noteq> expected_crc then return None else
     bind (on_mid (buf_write 0 payload)) (\<lambda>_. return (Some payload_n)))))"

definition server_expand :: "nat \<Rightarrow> nat \<Rightarrow> (server, nat option) prog" where
  "server_expand raw_max payload_n =
     bind (on_mid (buf_read 0 payload_n)) (\<lambda>inp. on_raw (decompress_lz77 inp raw_max))"

text \<open>The variant of the server that uses no threads.\<close>

definition run_single_core :: "nat \<Rightarrow> nat \<Rightarrow> (server, nat option) prog" where
  "run_single_core raw_max payload_n =
     bind (on_enc_buf (buf_read 0 payload_n)) (\<lambda>payload.
     bind (on_mid (buf_write 0 payload)) (\<lambda>_.
     bind (on_mid (crypt_passes (tea_decrypt_block tea_key) 0 payload_n)) (\<lambda>_.
     server_expand raw_max payload_n)))"

section \<open>The encryption of whole buffers\<close>

definition cipher :: "u32 list \<Rightarrow> u8 list \<Rightarrow> u8 list" where
  "cipher k bs = (case encrypt_slice k (length bs) bs of Done _ e \<Rightarrow> e | Halt _ e \<Rightarrow> e)"

definition cipher_block :: "u32 list \<Rightarrow> u8 list \<Rightarrow> u8 list" where
  "cipher_block k = crypt_bytes (tea_encrypt_block k) ^^ TEA_HEAVY_LOOPS"

lemma encrypt_slice_blocks:
  assumes "8 dvd n" and "n \<le> length b"
  shows "\<exists>e. encrypt_slice k n b = Done () e \<and> blockwise n (\<lambda>_. cipher_block k) b e"
proof -
  obtain e where e: "encrypt_slice k n b = Done () e"
      "blockwise n (\<lambda>i. crypt_bytes (tea_encrypt_block k) ^^ (TEA_HEAVY_LOOPS * count_list (steps8 0 n) i)) b e"
    using crypt_passes_result [OF dvd_0_right assms(1) order_refl assms(2)] unfolding encrypt_slice_def by blast
  then have "blockwise n (\<lambda>_. cipher_block k) b e"
    by (simp add: blockwise_def count_steps8 cipher_block_def)
  with e(1) show ?thesis by blast
qed

lemma blockwise_unique:
  "blockwise n h b c \<Longrightarrow> blockwise n h b d \<Longrightarrow> 8 dvd n \<Longrightarrow> n \<le> length b \<Longrightarrow> c = d"
  by (rule buffer_eqI [where n = n]) (simp_all add: blockwise_def)

lemma cipher_blocks: "8 dvd length bs \<Longrightarrow> blockwise (length bs) (\<lambda>_. cipher_block k) bs (cipher k bs)"
  using encrypt_slice_blocks [of "length bs" bs k] by (auto simp: cipher_def)

lemma length_cipher [simp]: "8 dvd length bs \<Longrightarrow> length (cipher k bs) = length bs"
  using cipher_blocks [of bs k] by (simp add: blockwise_def)

lemma slice_append_left: "i + n \<le> length xs \<Longrightarrow> slice i n (xs @ ys) = slice i n xs"
  by (simp add: slice_def)

lemma slice_append_right: "length xs \<le> i \<Longrightarrow> slice i n (xs @ ys) = slice (i - length xs) n ys"
  by (simp add: slice_def)

lemma encrypt_slice_cipher:
  assumes "8 dvd length xs"
  shows "encrypt_slice k (length xs) (xs @ ys) = Done () (cipher k xs @ ys)"
proof -
  obtain e where e: "encrypt_slice k (length xs) (xs @ ys) = Done () e" "blockwise (length xs) (\<lambda>_. cipher_block k) (xs @ ys) e"
    using encrypt_slice_blocks [of "length xs" "xs @ ys" k] assms by auto
  have "blockwise (length xs) (\<lambda>_. cipher_block k) (xs @ ys) (cipher k xs @ ys)"
    using cipher_blocks [OF assms, of k] assms by (simp add: blockwise_def slice_append_left)
  with e assms have "e = cipher k xs @ ys" by (intro blockwise_unique) auto
  with e(1) show ?thesis by simp
qed

lemma cipher_append:
  assumes "8 dvd length xs" and "8 dvd length ys"
  shows "cipher k (xs @ ys) = cipher k xs @ cipher k ys"
proof (rule blockwise_unique [OF cipher_blocks])
  let ?n = "length (xs @ ys)"
  show "blockwise ?n (\<lambda>_. cipher_block k) (xs @ ys) (cipher k xs @ cipher k ys)"
    unfolding blockwise_def
  proof (intro conjI allI impI)
    fix i :: nat assume i: "8 dvd i" "i + 8 \<le> ?n"
    show "slice i 8 (cipher k xs @ cipher k ys) = cipher_block k (slice i 8 (xs @ ys))"
    proof (cases "i < length xs")
      case True
      then have "i + 8 \<le> length xs" using assms(1) i(1) blocks_inside by blast
      then show ?thesis using cipher_blocks [OF assms(1), of k] assms(1) i(1)
        by (simp add: slice_append_left blockwise_def)
    next
      case False
      then have "8 dvd i - length xs" "i - length xs + 8 \<le> length ys" using assms(1) i by auto
      then show ?thesis using cipher_blocks [OF assms(2), of k] assms(1) False
        by (simp add: slice_append_right blockwise_def)
    qed
  qed (use assms in simp_all)
qed (use assms in simp_all)

lemma cipher_concat:
  "(\<And>x. x \<in> set xss \<Longrightarrow> 8 dvd length x) \<Longrightarrow> concat (map (cipher k) xss) = cipher k (concat xss) \<and> 8 dvd length (concat xss)"
proof (induction xss)
  case Nil
  have "length (cipher k []) = 0" by (subst length_cipher) simp_all
  then have "cipher k [] = []" by (simp only: length_0_conv)
  then show ?case by simp
next
  case (Cons x xss)
  then show ?case by (simp add: cipher_append)
qed

section \<open>What a core does with its slice\<close>

definition part :: "u8 list \<Rightarrow> u8 list" where
  "part inp = encode (sent_tokens inp) @ replicate (length inp - length (encode (sent_tokens inp))) 0"

lemma length_part [simp]: "length (part inp) = length inp"
  using fitting_length [of "length inp" "tokens inp 0"] by (simp add: part_def sent_tokens_def)

definition inp_of :: "nat \<Rightarrow> nat \<Rightarrow> client \<Rightarrow> nat \<Rightarrow> u8 list" where
  "inp_of bufsize ncores s c = slice (slice_start bufsize ncores c) (slice_len bufsize ncores c) (raw_buf s)"

text \<open>The buffers of a client, and a slice that has been done.\<close>

definition buffers_ok :: "nat \<Rightarrow> nat \<Rightarrow> client \<Rightarrow> bool" where
  "buffers_ok bufsize ncores s \<longleftrightarrow> length (raw_buf s) = bufsize \<and> length (comp_slice s) = ncores \<and> length (enc_slice s) = ncores \<and>
     length (slice_enc_len s) = ncores \<and> (\<forall>c < ncores. length (comp_slice s ! c) = bufsize \<and> length (enc_slice s ! c) = bufsize)"

definition slice_done :: "nat \<Rightarrow> nat \<Rightarrow> client \<Rightarrow> nat \<Rightarrow> bool" where
  "slice_done bufsize ncores s c \<longleftrightarrow> take (slice_enc_len s ! c) (enc_slice s ! c) = cipher tea_key (part (inp_of bufsize ncores s c))"

lemma buffers_ok_update:
  "buffers_ok bufsize ncores s \<Longrightarrow> c < ncores \<Longrightarrow> length x = bufsize \<Longrightarrow> length y = bufsize \<Longrightarrow>
   buffers_ok bufsize ncores (s\<lparr>comp_slice := (comp_slice s)[c := x], enc_slice := (enc_slice s)[c := y], slice_enc_len := (slice_enc_len s)[c := z]\<rparr>)"
  by (auto simp: buffers_ok_def nth_list_update)

lemma slice_lens: "0 < ncores \<Longrightarrow> ncores dvd bufsize \<Longrightarrow> c < ncores \<Longrightarrow>
    slice_len bufsize ncores c = bufsize div ncores \<and> slice_start bufsize ncores c + bufsize div ncores \<le> bufsize"
proof (elim dvdE)
  fix l assume "bufsize = ncores * l" "0 < ncores" "c < ncores"
  moreover from this have "Suc c * l \<le> ncores * l" by (intro mult_right_mono) auto
  ultimately show ?thesis by (auto simp: slice_len_def slice_start_def algebra_simps)
qed

text \<open>The buffer for the compressed slice of a core as it is before the first test.\<close>

definition fresh :: "nat \<Rightarrow> client \<Rightarrow> nat \<Rightarrow> bool" where
  "fresh bufsize s c \<longleftrightarrow> comp_slice s ! c = replicate bufsize 0"

lemma compress_fresh:
  assumes "inp \<noteq> []" and "length inp \<le> n"
  shows "\<exists>comp. compress_lz77 inp (length inp) (replicate n 0) = Done None comp \<and> length comp = n \<and> slice 0 (length inp) comp = part inp"
proof -
  let ?enc = "encode (sent_tokens inp)" and ?comp = "splice 0 (encode (sent_tokens inp)) (replicate n (0 :: u8))"
  have le: "length ?enc \<le> length inp" by (simp add: sent_tokens_def fitting_length)
  have "slice 0 (length inp) ?comp = part inp"
    using le assms(2) by (simp add: slice_def splice_def part_def take_replicate min_def)
  then show ?thesis
    using compress_never_fits [of inp "replicate n 0"] assms le by (simp add: sent_tokens_def)
qed

lemma round8: "8 dvd n \<Longrightarrow> (n + 7) div 8 * 8 = (n :: nat)"
  by presburger

lemma do_slice_run:
  assumes ok: "buffers_ok bufsize ncores s" and c: "c < ncores" and div: "ncores dvd bufsize" "8 dvd bufsize div ncores"
    and pos: "0 < bufsize" and fresh: "fresh bufsize s c"
  shows "\<exists>s'. do_slice bufsize ncores c s = Done () s' \<and> buffers_ok bufsize ncores s' \<and> raw_buf s' = raw_buf s \<and>
    slice_done bufsize ncores s' c \<and>
    (\<forall>d < ncores. d \<noteq> c \<longrightarrow> (slice_done bufsize ncores s d \<longrightarrow> slice_done bufsize ncores s' d) \<and> (fresh bufsize s d \<longrightarrow> fresh bufsize s' d))"
proof -
  let ?inp = "inp_of bufsize ncores s c" and ?len = "bufsize div ncores"
  let ?p = "part ?inp"
  have len: "slice_len bufsize ncores c = ?len" "?len \<le> bufsize"
    using slice_lens [OF _ div(1) c] c by auto
  have inp: "length ?inp = ?len" using ok c slice_lens [OF _ div(1) c] len by (simp add: inp_of_def buffers_ok_def)
  have "0 < ?len" using pos div(1) c by (simp add: dvd_imp_le div_greater_zero_iff)
  then have ne: "?inp \<noteq> []" using inp by auto
  have b: "length (enc_slice s ! c) = bufsize" "c < length (comp_slice s)" "c < length (enc_slice s)"
      "c < length (slice_enc_len s)" using ok c by (auto simp: buffers_ok_def)
  have p: "8 dvd length ?p" "length ?p = ?len" using div(2) inp by simp_all
  let ?rest = "drop (length ?p) (enc_slice s ! c)"
  obtain comp where comp: "compress_lz77 ?inp ?len (comp_slice s ! c) = Done None comp" "length comp = bufsize" "slice 0 ?len comp = ?p"
    using compress_fresh [OF ne, of bufsize] inp len(2) fresh by (auto simp: fresh_def)
  have w: "splice 0 ?p (enc_slice s ! c) = ?p @ ?rest" by (simp add: splice_def)
  have padded: "(?len + 7) div 8 * 8 = ?len" by (rule round8 [OF div(2)])
  let ?s = "s\<lparr>comp_slice := (comp_slice s)[c := comp], enc_slice := (enc_slice s)[c := cipher tea_key ?p @ ?rest],
      slice_enc_len := (slice_enc_len s)[c := length ?p]\<rparr>"
  have "length (cipher tea_key ?p @ ?rest) = bufsize" using p b(1) len(2) by simp
  then have ok': "buffers_ok bufsize ncores ?s" by (intro buffers_ok_update [OF ok c comp(2)])
  have "do_slice bufsize ncores c s = Done () ?s"
    using comp w encrypt_slice_cipher [OF p(1), of tea_key ?rest] b p len padded
    by (simp add: do_slice_def Let_def on_comp_def on_enc_def zoom_def bind_run inp_of_def)
  moreover have "slice_done bufsize ncores ?s c" using b p by (simp add: slice_done_def inp_of_def)
  moreover have "(slice_done bufsize ncores s d \<longrightarrow> slice_done bufsize ncores ?s d) \<and> (fresh bufsize s d \<longrightarrow> fresh bufsize ?s d)" if "d \<noteq> c" for d
    using that by (simp add: slice_done_def inp_of_def fresh_def)
  ultimately show ?thesis using ok' by (intro exI [of _ ?s]) simp
qed

lemma do_slices_run:
  assumes "buffers_ok bufsize ncores s" and "ncores dvd bufsize" and "8 dvd bufsize div ncores" and "0 < bufsize"
    and "set order \<subseteq> {..<ncores}" and "distinct order" and "\<And>c. c \<in> set order \<Longrightarrow> fresh bufsize s c"
  shows "\<exists>s'. for_each order (do_slice bufsize ncores) s = Done () s' \<and> buffers_ok bufsize ncores s' \<and> raw_buf s' = raw_buf s \<and>
    (\<forall>d < ncores. d \<in> set order \<or> slice_done bufsize ncores s d \<longrightarrow> slice_done bufsize ncores s' d)"
  using assms
proof (induction order arbitrary: s)
  case (Cons c order)
  have c: "c < ncores" "fresh bufsize s c" using Cons.prems(5,7) by auto
  obtain s1 where s1: "do_slice bufsize ncores c s = Done () s1" "buffers_ok bufsize ncores s1" "raw_buf s1 = raw_buf s"
      "slice_done bufsize ncores s1 c" "\<And>d. d < ncores \<Longrightarrow> d \<noteq> c \<Longrightarrow> slice_done bufsize ncores s d \<Longrightarrow> slice_done bufsize ncores s1 d"
      "\<And>d. d < ncores \<Longrightarrow> d \<noteq> c \<Longrightarrow> fresh bufsize s d \<Longrightarrow> fresh bufsize s1 d"
    using do_slice_run [OF Cons.prems(1) c(1) Cons.prems(2-4) c(2)] by blast
  have "fresh bufsize s1 d" if "d \<in> set order" for d
    using that s1(6) [of d] Cons.prems(5-7) by auto
  then obtain s2 where s2: "for_each order (do_slice bufsize ncores) s1 = Done () s2" "buffers_ok bufsize ncores s2" "raw_buf s2 = raw_buf s1"
      "\<And>d. d < ncores \<Longrightarrow> d \<in> set order \<or> slice_done bufsize ncores s1 d \<Longrightarrow> slice_done bufsize ncores s2 d"
    using Cons.IH [OF s1(2) Cons.prems(2-4)] Cons.prems(5,6) by auto
  have "slice_done bufsize ncores s2 d" if "d < ncores" "d \<in> set (c # order) \<or> slice_done bufsize ncores s d" for d
    using that s1(4) s1(5) [of d] s2(4) [of d] by (cases "d = c") auto
  with s1(1,3) s2(1-3) show ?case by (simp add: bind_run)
qed simp

lemma inp_of_length:
  "buffers_ok bufsize ncores s \<Longrightarrow> ncores dvd bufsize \<Longrightarrow> c < ncores \<Longrightarrow> length (inp_of bufsize ncores s c) = bufsize div ncores"
  using slice_lens [of ncores bufsize c] by (simp add: inp_of_def buffers_ok_def)

lemma send_test_run:
  assumes "buffers_ok bufsize ncores s" and "ncores dvd bufsize" and "8 dvd bufsize div ncores" and "0 < bufsize"
    and "set order = {..<ncores}" and "distinct order" and "\<And>c. c < ncores \<Longrightarrow> fresh bufsize s c"
    and "plain = concat (map (\<lambda>c. part (inp_of bufsize ncores s c)) [0..<ncores])"
  shows "\<exists>s'. send_test bufsize ncores order s =
      Done (net_bytes (compute_crc crc_table (cipher tea_key plain)) @ net_bytes (of_nat (length plain)) @ cipher tea_key plain) s' \<and>
    8 dvd length plain \<and> length plain = bufsize"
proof -
  obtain s' where s': "for_each order (do_slice bufsize ncores) s = Done () s'" "raw_buf s' = raw_buf s"
      "\<And>d. d < ncores \<Longrightarrow> slice_done bufsize ncores s' d"
    using do_slices_run [OF assms(1-4), of order] assms(5-7) by auto
  have "inp_of bufsize ncores s' = inp_of bufsize ncores s" by (rule ext) (simp add: inp_of_def s'(2))
  then have "make_packet ncores s' = concat (map (cipher tea_key) (map (\<lambda>c. part (inp_of bufsize ncores s c)) [0..<ncores]))"
    using s'(3) unfolding make_packet_def map_map
    by (intro arg_cong [where f = concat] map_cong) (simp_all add: slice_done_def)
  moreover have parts: "length (part (inp_of bufsize ncores s c)) = bufsize div ncores" if "c < ncores" for c
    using that inp_of_length [OF assms(1,2)] by simp
  then have "8 dvd length x" if "x \<in> set (map (\<lambda>c. part (inp_of bufsize ncores s c)) [0..<ncores])" for x
    using that assms(3) by auto
  from cipher_concat [OF this, of "map (\<lambda>c. part (inp_of bufsize ncores s c)) [0..<ncores]" tea_key]
  have "concat (map (cipher tea_key) (map (\<lambda>c. part (inp_of bufsize ncores s c)) [0..<ncores])) = cipher tea_key plain"
      "8 dvd length plain" unfolding assms(8) by blast+
  ultimately have "make_packet ncores s' = cipher tea_key plain" "8 dvd length plain" by simp_all
  moreover have "map (\<lambda>c. length (part (inp_of bufsize ncores s c))) [0..<ncores] = map (\<lambda>_. bufsize div ncores) [0..<ncores]"
    by (intro map_cong refl parts) simp
  then have "length plain = sum_list (map (\<lambda>_. bufsize div ncores) [0..<ncores])"
    by (simp only: assms(8) length_concat map_map o_def)
  then have "length plain = bufsize" using assms(2) by (simp add: sum_list_triv)
  ultimately show ?thesis using s'(1) by (simp add: send_test_def bind_run)
qed

section \<open>What the server receives\<close>

lemma sock_read_run:
  "reads v = r # rs \<Longrightarrow> sock_read n v = Done (take (min n r) (stream v)) (v\<lparr>stream := drop (min n r) (stream v), reads := rs\<rparr>)"
  by (simp add: sock_read_def bind_run min_def)

lemma read_payload_run:
  "reads v = rs \<Longrightarrow> (\<And>r. r \<in> set rs \<Longrightarrow> 0 < r) \<Longrightarrow> length xs \<le> sum_list rs \<Longrightarrow> stream v = xs @ rest \<Longrightarrow>
   got + length xs \<le> length (enc_buf v) \<Longrightarrow>
   \<exists>rs'. read_payload (got + length xs) got v = Done True (v\<lparr>stream := rest, reads := rs', enc_buf := splice got xs (enc_buf v)\<rparr>)"
proof (induction rs arbitrary: v xs got)
  case Nil
  then show ?case by (intro exI [of _ "[]"]) (simp add: read_payload.simps)
next
  case (Cons r rs)
  show ?case
  proof (cases "xs = []")
    case True
    with Cons.prems show ?thesis by (intro exI [of _ "r # rs"]) (simp add: read_payload.simps)
  next
    case False
    let ?ys = "take r xs" and ?zs = "drop r xs"
    let ?v = "v\<lparr>stream := ?zs @ rest, reads := rs, enc_buf := splice got ?ys (enc_buf v)\<rparr>"
    have r: "0 < r" "?ys \<noteq> []" using Cons.prems(2) [of r] False by auto
    have cut: "take (min (length xs) r) (xs @ rest) = ?ys" "drop (min (length xs) r) (xs @ rest) = ?zs @ rest"
      by (simp_all add: min_def)
    have "sock_read (length xs) v = Done ?ys (v\<lparr>stream := ?zs @ rest, reads := rs\<rparr>)"
      using sock_read_run [OF Cons.prems(1), of "length xs"] Cons.prems(4) cut by simp
    moreover have fit: "got + length ?ys \<le> length (enc_buf v)" using Cons.prems(5) by simp
    ultimately have step: "read_payload (got + length xs) got v = read_payload (got + length xs) (got + length ?ys) ?v"
      using r False by (simp add: read_payload.simps [of "got + length xs" got] bind_run on_enc_buf_def zoom_def)
    have n: "got + length xs = (got + length ?ys) + length ?zs" by simp
    have "\<exists>rs'. read_payload (got + length ?ys + length ?zs) (got + length ?ys) ?v =
        Done True (?v\<lparr>stream := rest, reads := rs', enc_buf := splice (got + length ?ys) ?zs (enc_buf ?v)\<rparr>)"
    proof (rule Cons.IH)
      show "length ?zs \<le> sum_list rs" using Cons.prems(3) by simp
      show "got + length ?ys + length ?zs \<le> length (enc_buf ?v)"
        using Cons.prems(5) fit n by simp
    qed (use Cons.prems(2) in simp_all)
    then obtain rs' where "read_payload (got + length xs) (got + length ?ys) ?v =
        Done True (?v\<lparr>stream := rest, reads := rs', enc_buf := splice (got + length ?ys) ?zs (enc_buf ?v)\<rparr>)"
      unfolding n ..
    moreover have "splice (got + length ?ys) ?zs (splice got ?ys (enc_buf v)) = splice got xs (enc_buf v)"
      using splice_splice_after [of got ?ys ?zs "enc_buf v"] Cons.prems(5) by simp
    ultimately show ?thesis using step by (intro exI [of _ rs']) simp
  qed
qed

lemma net_word_bytes: "net_word (net_bytes x) = x"
  using read_le32_bytes32 [of x "[]"] by (simp add: net_word_def net_bytes_def)

lemma length_net_bytes [simp]: "length (net_bytes x) = 4"
  by (simp add: net_bytes_def)

lemma read_header_run:
  assumes "stream v = net_bytes c @ net_bytes n @ bs" and "reads v = r1 # r2 # rs" and "4 \<le> r1" and "4 \<le> r2"
  shows "read_header v = Done (Some (c, n)) (v\<lparr>stream := bs, reads := rs\<rparr>)"
proof -
  have "sock_read 4 v = Done (net_bytes c) (v\<lparr>stream := net_bytes n @ bs, reads := r2 # rs\<rparr>)"
    using sock_read_run [OF assms(2), of 4] assms(1,3) by (simp add: min_def)
  moreover have "sock_read 4 (v\<lparr>stream := net_bytes n @ bs, reads := r2 # rs\<rparr>) = Done (net_bytes n) (v\<lparr>stream := bs, reads := rs\<rparr>)"
    using sock_read_run [of "v\<lparr>stream := net_bytes n @ bs, reads := r2 # rs\<rparr>" r2 rs 4] assms(4) by (simp add: min_def)
  ultimately show ?thesis by (simp add: read_header_def bind_run net_word_bytes)
qed

text \<open>
  A connection over which a packet arrives, each word of the header whole and the payload in pieces, and
  buffers with room for it; and one on which a word of the header is split, or the connection ends before it.
\<close>

definition arriving :: "server \<Rightarrow> u8 list \<Rightarrow> nat \<Rightarrow> bool" where
  "arriving v bs n \<longleftrightarrow> (\<exists>rest r1 r2 rs. stream v = bs @ rest \<and> reads v = r1 # r2 # rs \<and> 4 \<le> r1 \<and> 4 \<le> r2 \<and>
       0 \<notin> set rs \<and> n \<le> sum_list rs) \<and>
     n \<le> length (enc_buf v) \<and> n \<le> length (mid v)"

definition header_split :: "server \<Rightarrow> bool" where
  "header_split v \<longleftrightarrow> (\<exists>r1 rs. reads v = r1 # rs \<and> (r1 < 4 \<or> (\<exists>r2 rs'. rs = r2 # rs' \<and> r2 < 4)))"

lemma header_split_exits:
  assumes "header_split v"
  shows "\<exists>v'. server_receive v = Done None v'"
proof -
  obtain r1 rs where r1: "reads v = r1 # rs" "r1 < 4 \<or> (\<exists>r2 rs'. rs = r2 # rs' \<and> r2 < 4)"
    using assms by (auto simp: header_split_def)
  show ?thesis
  proof (cases "length (take (min 4 r1) (stream v)) = 4")
    case True
    then have "min 4 r1 = 4" by auto
    then obtain r2 rs' where r2: "rs = r2 # rs'" "r2 < 4" using r1(2) by auto
    have "reads (v\<lparr>stream := drop (min 4 r1) (stream v), reads := rs\<rparr>) = r2 # rs'" by (simp add: r2)
    from sock_read_run [OF this, of 4] sock_read_run [OF r1(1), of 4] True r2(2)
    have "\<exists>v'. sock_read 4 v = Done (take 4 (stream v)) (v\<lparr>stream := drop 4 (stream v), reads := rs\<rparr>) \<and>
        sock_read 4 (v\<lparr>stream := drop 4 (stream v), reads := rs\<rparr>) = Done (take r2 (drop 4 (stream v))) v'"
      by simp
    moreover have "length (take 4 (stream v)) = 4" "length (take r2 (drop 4 (stream v))) \<noteq> 4" using True r2(2) by auto
    ultimately show ?thesis
      by (auto simp del: length_take simp: server_receive_def read_header_def bind_run)
  next
    case False
    with sock_read_run [OF r1(1), of 4] show ?thesis by (simp add: server_receive_def read_header_def bind_run)
  qed
qed

lemma server_receive_run:
  assumes "arriving v (net_bytes c @ net_bytes (of_nat (length e)) @ e) (length e)" and "length e < 2 ^ 31"
  shows "if compute_crc crc_table e = c
    then \<exists>v'. server_receive v = Done (Some (length e)) v' \<and> mid v' = e @ drop (length e) (mid v) \<and> raw v' = raw v
    else \<exists>v'. server_receive v = Done None v'"
proof -
  obtain rest r1 r2 rs where a: "stream v = net_bytes c @ net_bytes (of_nat (length e)) @ e @ rest" "reads v = r1 # r2 # rs"
      "0 \<notin> set rs" "length e \<le> sum_list rs" "length e \<le> length (enc_buf v)" "length e \<le> length (mid v)"
    and r: "4 \<le> r1" "4 \<le> r2"
    using assms(1) by (auto simp: arriving_def)
  have n: "unat (of_nat (length e) :: u32) = length e" using assms(2) by (simp add: unat_of_nat)
  let ?v = "v\<lparr>stream := e @ rest, reads := rs\<rparr>"
  obtain rs' where p: "read_payload (length e) 0 ?v = Done True (?v\<lparr>stream := rest, reads := rs', enc_buf := splice 0 e (enc_buf ?v)\<rparr>)"
    using read_payload_run [of ?v rs e rest 0] a by (auto intro: gr0I)
  have "slice 0 (length e) (splice 0 e (enc_buf v)) = e" using a(5) by (intro slice_splice) simp_all
  moreover have "length e \<le> length (splice 0 e (enc_buf v))" using a(5) by simp
  moreover have "splice 0 e (mid v) = e @ drop (length e) (mid v)" by (simp add: splice_def)
  ultimately show ?thesis
    using read_header_run [OF a(1,2) r] p n assms(2) a(6)
    by (simp add: server_receive_def bind_run on_enc_buf_def on_mid_def zoom_def Let_def)
qed

section \<open>What the server expands\<close>

definition zeros :: "u8 list \<Rightarrow> nat" where
  "zeros inp = (length inp - length (encode (sent_tokens inp))) div 2"

definition part_tokens :: "u8 list \<Rightarrow> token list" where
  "part_tokens inp = sent_tokens inp @ replicate (zeros inp) (Lit 0)"

lemma encode_zero_Lits: "encode (replicate n (Lit 0)) = replicate (2 * n) 0"
  by (induction n) (simp_all add: bytes_of.simps)

lemma expand_zeros: "expand out (replicate n (Lit 0)) = out @ replicate n 0"
  using expand_Lits [of out "replicate n 0"] by simp

lemma decodable_zeros: "decodable w (replicate n (Lit 0))"
  using decodable_Lits [of w "replicate n 0"] by simp

lemma encode_part: "even (length inp) \<Longrightarrow> encode (part_tokens inp) = part inp"
  using even_encode [of "sent_tokens inp"] by (simp add: part_tokens_def part_def encode_zero_Lits zeros_def)

lemma decodable_append:
  "decodable (length out) ts \<Longrightarrow> decodable (length (expand out ts)) us \<Longrightarrow> decodable (length out) (ts @ us)"
proof (induction out ts rule: expand.induct)
  case (3 out off len ts)
  then have "len \<le> off" "off \<le> length out" by simp_all
  then have "length (slice (length out - off) len out) = len" by (intro length_slice) linarith
  with 3 show ?case by simp
qed simp_all

lemma decodable_shift: "decodable w ts \<Longrightarrow> decodable (v + w) ts"
proof (induction w ts rule: decodable.induct)
  case (2 w b ts)
  then show ?case using add.assoc [of v w 1] by simp
next
  case (3 w off len ts)
  then show ?case by (simp add: add.assoc)
qed simp

lemma expand_shift: "decodable (length out) ts \<Longrightarrow> expand (pre @ out) ts = pre @ expand out ts"
proof (induction out ts rule: expand.induct)
  case (3 out off len ts)
  then have "len \<le> off" "off \<le> length out" by simp_all
  then have "slice (length (pre @ out) - off) len (pre @ out) = slice (length out - off) len out"
      "length (slice (length out - off) len out) = len" by (simp_all add: slice_append_right)
  with 3 show ?case by simp
qed simp_all

text \<open>What the server gets of a slice: the bytes that were sent, and zeros for the room that was left.\<close>

definition received_slice :: "u8 list \<Rightarrow> u8 list" where
  "received_slice inp = take (sent_length inp) inp @ replicate (zeros inp) 0"

lemma parts_expand:
  "(\<And>x. x \<in> set xs \<Longrightarrow> no_short_repeat x) \<Longrightarrow>
   decodable (length pre) (concat (map part_tokens xs)) \<and>
   expand pre (concat (map part_tokens xs)) = pre @ concat (map received_slice xs)"
proof (induction xs arbitrary: pre)
  case (Cons x xs)
  have t: "decodable 0 (sent_tokens x)" "expand [] (sent_tokens x) = take (sent_length x) x"
    using sent_tokens_expand [of x] Cons.prems by simp_all
  then have u: "decodable (length pre) (sent_tokens x)" "expand pre (sent_tokens x) = pre @ take (sent_length x) x"
    using decodable_shift [of 0 "sent_tokens x" "length pre"] expand_shift [of "[]" "sent_tokens x" pre] by simp_all
  then have p: "expand pre (part_tokens x) = pre @ received_slice x"
    by (simp add: part_tokens_def expand_append expand_zeros received_slice_def)
  have "decodable (length pre) (part_tokens x)"
    unfolding part_tokens_def by (rule decodable_append) (use u in \<open>simp_all add: decodable_zeros\<close>)
  then show ?case
    using Cons.IH [of "pre @ received_slice x"] Cons.prems p
    by (auto simp: expand_append intro!: decodable_append)
qed simp

section \<open>From the client to the server\<close>

text \<open>The threads of the server have run from \<open>v\<close> until none of them can take a step.\<close>

definition threads_end :: "nat \<Rightarrow> nat \<Rightarrow> server \<Rightarrow> server \<Rightarrow> bool" where
  "threads_end payload_n workers v v' \<longleftrightarrow> (\<exists>m ts b.
     (thread_step tea_key ^^ m) (worker_threads tea_key payload_n workers, mid v) (ts, b) \<and>
     \<not> (\<exists>st. thread_step tea_key (ts, b) st) \<and> v' = v\<lparr>mid := b\<rparr>)"

lemma received_bounds:
  assumes "inp \<noteq> []" and "even (length inp)"
  shows "sent_length inp < length inp \<and> length inp \<le> 2 * sent_length inp + 2 \<and> zeros inp \<le> 1"
  using sent_length_bounds [OF assms] by (auto simp: zeros_def)

lemma received_length: "inp \<noteq> [] \<Longrightarrow> even (length inp) \<Longrightarrow> length (received_slice inp) \<le> length inp"
  using received_bounds [of inp] by (auto simp: received_slice_def)

lemma server_expand_run:
  assumes "\<And>x. x \<in> set xs \<Longrightarrow> no_short_repeat x \<and> even (length x)" and "plain = concat (map part xs)" and "mid v = plain @ junk"
    and "raw_max \<le> length (raw v)" and "out = concat (map received_slice xs)" and "length out \<le> raw_max"
  shows "server_expand raw_max (length plain) v = Done (Some (length out)) (v\<lparr>raw := out @ drop (length out) (raw v)\<rparr>)"
proof -
  let ?ts = "concat (map part_tokens xs)"
  have "encode (concat tss) = concat (map encode tss)" for tss by (induction tss) simp_all
  moreover have "map (encode \<circ> part_tokens) xs = map part xs" using assms(1) by (simp add: encode_part)
  ultimately have enc: "encode ?ts = plain" by (simp only: assms(2) map_map)
  have d: "decodable 0 ?ts" "expand [] ?ts = out"
    using parts_expand [of xs "[]"] assms(1,5) by simp_all
  show ?thesis
    using decompress_encoded [OF d(1), of raw_max "raw v"] d(2) enc assms(3,4,6)
    by (simp add: server_expand_def on_mid_def on_raw_def zoom_def bind_run slice_def)
qed

lemma received_total:
  assumes "\<And>x. x \<in> set xs \<Longrightarrow> length x = n" and "even n" and "0 < n"
  shows "length (concat (map received_slice xs)) \<le> length xs * n"
  using assms(1)
proof (induction xs)
  case (Cons x xs)
  have x: "length x = n" by (rule Cons.prems) simp
  then have "x \<noteq> []" using assms(3) by auto
  with received_length [of x] x assms(2) have "length (received_slice x) \<le> n" by simp
  with Cons show ?case by simp
qed simp

lemma expand_after_threads:
  assumes "plain = concat (map part xs)" and "8 dvd length plain" and "\<And>x. x \<in> set xs \<Longrightarrow> no_short_repeat x \<and> even (length x)"
    and "out = concat (map received_slice xs)" and "length out \<le> length plain" and "length plain \<le> length (raw v')"
    and "mid v' = cipher tea_key plain @ rest"
    and "0 < workers" and "8 dvd length plain div workers" and "threads_end (length plain) workers v' v''"
  shows "server_expand (length plain) (length plain) v'' = Done (Some (length out)) (v''\<lparr>raw := out @ drop (length out) (raw v')\<rparr>)"
proof -
  obtain m ts b where r: "(thread_step tea_key ^^ m) (worker_threads tea_key (length plain) workers, mid v') (ts, b)"
      "\<not> (\<exists>st. thread_step tea_key (ts, b) st)" "v'' = v'\<lparr>mid := b\<rparr>"
    using assms(10) unfolding threads_end_def by blast
  have e: "encrypt_slice tea_key (length plain) (plain @ rest) = Done () (mid v')"
    using encrypt_slice_cipher [OF assms(2), of tea_key rest] assms(7) by simp
  have "length plain \<le> length (plain @ rest)" by simp
  from threads_run [OF assms(2,9,8) this e r(1)] r(2) have b: "b = plain @ rest" by fastforce
  have "server_expand (length plain) (length plain) v'' = Done (Some (length out)) (v''\<lparr>raw := out @ drop (length out) (raw v'')\<rparr>)"
  proof (rule server_expand_run [OF _ refl, of xs, folded assms(1)])
    show "mid v'' = plain @ rest" using r(3) b by simp
  qed (use assms(3-6) r(3) in auto)
  then show ?thesis using r(3) by simp
qed

lemma server_refuses:
  assumes "length w \<le> 4" and "length w' = length w" and "w' \<noteq> w" and "length (xs @ w @ ys) < 2 ^ 31"
    and "arriving v (net_bytes (compute_crc crc_table (xs @ w @ ys)) @ net_bytes (of_nat (length (xs @ w @ ys))) @ xs @ w' @ ys)
      (length (xs @ w @ ys))"
  shows "\<exists>v'. server_receive v = Done None v'"
proof -
  have len: "length (xs @ w' @ ys) = length (xs @ w @ ys)" using assms(2) by simp
  have "length w' \<le> 4" "length w = length w'" using assms(1,2) by simp_all
  then have "compute_crc crc_table (xs @ w' @ ys) \<noteq> compute_crc crc_table (xs @ w @ ys)"
    unfolding crc_table_def using assms(3) by (intro crc_burst length_replicate)
  then show ?thesis
    using server_receive_run [of v "compute_crc crc_table (xs @ w @ ys)" "xs @ w' @ ys", unfolded len] assms(4,5) by simp
qed

lemma slice_cut_off:
  assumes "even (length x)" and "x \<noteq> []"
  shows "\<exists>m z. received_slice x = take m x @ replicate z 0 \<and> m < length x \<and> length x \<le> 2 * m + 2 \<and> z \<le> 1"
  using received_bounds [of x] assms unfolding received_slice_def by auto

text \<open>
  C32. A transmission from end to end, in the first test.  Let no slice hold four bytes that occur again one
  to three places later.  In whatever order the cores finish, the client sends a packet that the server
  accepts when each of the two words of the header arrives whole and the payload in whatever pieces, unless up
  to four successive bytes of the payload were changed: then the server refuses it.  If a read
  gets only a part of a word of the header, the server exits, whatever was sent.  When the share of a worker is whole blocks and the threads have
  run to their end, in whatever order, expanding succeeds.  But the compression never succeeds, and what
  the server gets of a slice is a proper prefix, at least half of it but for one byte, with at most
  one zero byte behind.
\<close>

theorem transmission:
  assumes "buffers_ok bufsize ncores s" and "ncores dvd bufsize" and "8 dvd bufsize div ncores" and "0 < bufsize"
    and "bufsize < 2 ^ 31" and "set order = {..<ncores}" and "distinct order"
    and "\<And>c. c < ncores \<Longrightarrow> fresh bufsize s c \<and> no_short_repeat (inp_of bufsize ncores s c)"
    and "out = concat (map (\<lambda>c. received_slice (inp_of bufsize ncores s c)) [0..<ncores])"
  shows "\<exists>s' header payload. send_test bufsize ncores order s = Done (header @ payload) s' \<and> length payload = bufsize \<and>
    (\<forall>v. arriving v (header @ payload) bufsize \<longrightarrow>
      (\<exists>v'. server_receive v = Done (Some bufsize) v' \<and>
        (\<forall>workers v''. 0 < workers \<longrightarrow> 8 dvd bufsize div workers \<longrightarrow> threads_end bufsize workers v' v'' \<longrightarrow> bufsize \<le> length (raw v) \<longrightarrow>
          server_expand bufsize bufsize v'' = Done (Some (length out)) (v''\<lparr>raw := out @ drop (length out) (raw v)\<rparr>)))) \<and>
    (\<forall>v xs w w' ys. payload = xs @ w @ ys \<longrightarrow> length w \<le> 4 \<longrightarrow> length w' = length w \<longrightarrow> w' \<noteq> w \<longrightarrow>
      arriving v (header @ xs @ w' @ ys) bufsize \<longrightarrow> (\<exists>v'. server_receive v = Done None v')) \<and>
    (\<forall>v. header_split v \<longrightarrow> (\<exists>v'. server_receive v = Done None v')) \<and>
    (\<forall>c < ncores. \<exists>m z. received_slice (inp_of bufsize ncores s c) = take m (inp_of bufsize ncores s c) @ replicate z 0 \<and>
      m < bufsize div ncores \<and> bufsize div ncores \<le> 2 * m + 2 \<and> z \<le> 1)"
proof -
  let ?xs = "map (inp_of bufsize ncores s) [0..<ncores]"
  let ?plain = "concat (map part ?xs)"
  define pay where "pay = cipher tea_key ?plain"
  define head where "head = net_bytes (compute_crc crc_table pay) @ net_bytes (of_nat (length pay))"
  have plain: "?plain = concat (map (\<lambda>c. part (inp_of bufsize ncores s c)) [0..<ncores])" by (simp add: o_def)
  have fr: "fresh bufsize s c" if "c < ncores" for c using assms(8) that by blast
  obtain s' where s': "send_test bufsize ncores order s = Done (net_bytes (compute_crc crc_table pay) @ net_bytes (of_nat (length ?plain)) @ pay) s'"
      "8 dvd length ?plain" "length ?plain = bufsize"
    using send_test_run [OF assms(1-4,6,7) fr plain] unfolding pay_def by blast
  have n: "length pay = bufsize" using s'(2,3) by (simp add: pay_def)
  have pos: "0 < bufsize div ncores" "0 < ncores" using assms(2,4) by (auto elim!: dvdE)
  have ev: "even (bufsize div ncores)" by (rule dvd_trans [OF _ assms(3)]) simp
  have ins: "length x = bufsize div ncores" if "x \<in> set ?xs" for x using that inp_of_length [OF assms(1,2)] by auto
  have xs: "no_short_repeat x \<and> even (length x)" if "x \<in> set ?xs" for x using that assms(8) ins ev by auto
  have outs: "out = concat (map received_slice ?xs)" using assms(9) by (simp add: o_def)
  have outlen: "length out \<le> length ?plain"
    using received_total [of ?xs, OF ins ev pos(1)] assms(2) by (simp only: outs s'(3)) simp
  have accept: "\<exists>v'. server_receive v = Done (Some bufsize) v' \<and>
        (\<forall>workers v''. 0 < workers \<longrightarrow> 8 dvd bufsize div workers \<longrightarrow> threads_end bufsize workers v' v'' \<longrightarrow> bufsize \<le> length (raw v) \<longrightarrow>
          server_expand bufsize bufsize v'' = Done (Some (length out)) (v''\<lparr>raw := out @ drop (length out) (raw v)\<rparr>))"
    if v: "arriving v (head @ pay) bufsize" for v
  proof -
    obtain v' where v': "server_receive v = Done (Some bufsize) v'" "mid v' = pay @ drop bufsize (mid v)" "raw v' = raw v"
      using server_receive_run [of v "compute_crc crc_table pay" pay] v assms(5) n by (auto simp: head_def)
    with expand_after_threads [OF refl s'(2) xs outs outlen, of v'] show ?thesis unfolding s'(3) pay_def by auto
  qed
  have refuse: "\<exists>v'. server_receive v = Done None v'"
    if "pay = xs @ w @ ys" "length w \<le> 4" "length w' = length w" "w' \<noteq> w" "arriving v (head @ xs @ w' @ ys) bufsize" for v xs w w' ys
  proof -
    have l: "length (xs @ w @ ys) = bufsize" using n that(1) by simp
    show ?thesis
      using that(5) assms(5) unfolding head_def that(1) append_assoc l by (intro server_refuses [OF that(2-4), of xs ys, unfolded l])
  qed
  have lost: "\<exists>m z. received_slice (inp_of bufsize ncores s c) = take m (inp_of bufsize ncores s c) @ replicate z 0 \<and>
      m < bufsize div ncores \<and> bufsize div ncores \<le> 2 * m + 2 \<and> z \<le> 1" if "c < ncores" for c
    using slice_cut_off [of "inp_of bufsize ncores s c"] ev pos(1) inp_of_length [OF assms(1,2) that] by fastforce
  have run: "send_test bufsize ncores order s = Done (head @ pay) s'" using s'(1,3) n by (simp add: head_def)
  show ?thesis
  proof (rule exI [of _ s'], rule exI [of _ head], rule exI [of _ pay], intro conjI)
    show "send_test bufsize ncores order s = Done (head @ pay) s'" by (rule run)
    show "length pay = bufsize" by (rule n)
    show "\<forall>v. arriving v (head @ pay) bufsize \<longrightarrow>
      (\<exists>v'. server_receive v = Done (Some bufsize) v' \<and>
        (\<forall>workers v''. 0 < workers \<longrightarrow> 8 dvd bufsize div workers \<longrightarrow> threads_end bufsize workers v' v'' \<longrightarrow> bufsize \<le> length (raw v) \<longrightarrow>
          server_expand bufsize bufsize v'' = Done (Some (length out)) (v''\<lparr>raw := out @ drop (length out) (raw v)\<rparr>)))"
      by (intro allI impI accept)
    show "\<forall>v xs w w' ys. pay = xs @ w @ ys \<longrightarrow> length w \<le> 4 \<longrightarrow> length w' = length w \<longrightarrow> w' \<noteq> w \<longrightarrow>
      arriving v (head @ xs @ w' @ ys) bufsize \<longrightarrow> (\<exists>v'. server_receive v = Done None v')"
      by (intro allI impI) (rule refuse)
    show "\<forall>v. header_split v \<longrightarrow> (\<exists>v'. server_receive v = Done None v')"
      by (intro allI impI) (rule header_split_exits)
  qed (use lost in blast)
qed

text \<open>
  Two cores with eight bytes each, a connection that delivers the payload in two pieces, and one that
  delivers the second word of the header in two.
\<close>

definition client0 :: client where
  "client0 = \<lparr>raw_buf = [1, 2, 3, 4, 5, 6, 7, 8, 9, 10, 11, 12, 13, 14, 15, 16],
     comp_slice = [replicate 16 0, replicate 16 0], enc_slice = [replicate 16 0, replicate 16 0], slice_enc_len = [0, 0]\<rparr>"

definition server0 :: "nat list \<Rightarrow> u8 list \<Rightarrow> server" where
  "server0 rs bs = \<lparr>stream = bs, reads = rs, enc_buf = replicate 16 0, mid = replicate 16 0, raw = replicate 16 0\<rparr>"

theorem transmission_witness:
  "\<exists>s' header payload. send_test 16 2 [1, 0] client0 = Done (header @ payload) s' \<and> length payload = 16 \<and>
    (\<exists>v'. server_receive (server0 [4, 4, 5, 100] (header @ payload)) = Done (Some 16) v') \<and>
    (\<exists>v'. server_receive (server0 [4, 2, 2, 100] (header @ payload)) = Done None v')"
proof -
  have ok: "buffers_ok 16 2 client0" by (simp add: buffers_ok_def client0_def less_2_cases_iff All_less_Suc numeral_2_eq_2)
  have i: "inp_of 16 2 client0 0 = [1, 2, 3, 4, 5, 6, 7, 8]" "inp_of 16 2 client0 1 = [9, 10, 11, 12, 13, 14, 15, 16]"
    by (simp_all add: inp_of_def slice_start_def slice_len_def slice_def client0_def)
  have rep: "no_short_repeat [1, 2, 3, 4, 5, 6, 7, 8]" "no_short_repeat [9, 10, 11, 12, 13, 14, 15, 16]"
    by (auto simp: no_short_repeat_def slice_def less_Suc_eq)
  have f: "fresh 16 client0 c \<and> no_short_repeat (inp_of 16 2 client0 c)" if "c < 2" for c
  proof -
    from that have "c = 0 \<or> c = 1" by auto
    then show ?thesis using i rep by (auto simp: fresh_def client0_def)
  qed
  have o: "set [1, 0] = {..<2 :: nat}" by auto
  have d: "(2 :: nat) dvd 16" "8 dvd (16 :: nat) div 2" "0 < (16 :: nat)" "(16 :: nat) < 2 ^ 31" "distinct [1, 0 :: nat]" by simp_all
  have arr: "arriving (server0 [4, 4, 5, 100] bs) bs 16" "header_split (server0 [4, 2, 2, 100] bs)" for bs
    by (simp_all add: arriving_def server0_def header_split_def)
  show ?thesis
    using transmission [OF ok d(1-4) o d(5) f refl]
    apply -
    apply (drule meta_mp, assumption)
    apply (elim exE conjE)
    apply (rule exI, rule exI, rule exI, intro conjI, assumption, assumption)
     apply (drule spec, drule mp, rule arr(1), elim exE conjE, rule exI, assumption)
    apply (drule spec [where P = "\<lambda>v. header_split v \<longrightarrow> Q v" for Q], drule mp, rule arr(2), assumption)
    done
qed

end
