(* ===== verification/MatrixSmp.thy ===== *)
theory MatrixSmp
  imports Prelude
begin

text \<open>
  The multiplication of matrices on four cores (\<open>measurements/smp/matrix-multiplication/main.c\<close>).  The
  cores are a step relation over the shared matrices: a step stores one entry of the product, or adds
  one entry to the check sum of its core, or stores that check sum.  The two factors are never written
  while the cores run, so that the sum for an entry is one step.  A double is the natural number it
  denotes, because every value of the program is a non-negative whole number below \<open>2 ^ 85\<close>; sums and
  products are rounded to 53 significant bits, to the nearest and then to even, each for itself: a
  compiler that fuses the multiplication and the addition rounds once less.  A conversion of a double of \<open>2 ^ 64\<close> or
  more to an integer is undefined in C; its result is a parameter.
\<close>

section \<open>Doubles\<close>

type_synonym real64 = nat

fun sig_shift :: "nat \<Rightarrow> nat" where
  "sig_shift x = (if x < 2 ^ 53 then 0 else Suc (sig_shift (x div 2)))"

declare sig_shift.simps [simp del]

definition round_double :: "nat \<Rightarrow> real64" where
  "round_double x =
     (let e = 2 ^ sig_shift x; q = x div e; r = x mod e
      in (if e < 2 * r \<or> e = 2 * r \<and> odd q then q + 1 else q) * e)"

definition fadd :: "real64 \<Rightarrow> real64 \<Rightarrow> real64" where "fadd x y = round_double (x + y)"
definition fmul :: "real64 \<Rightarrow> real64 \<Rightarrow> real64" where "fmul x y = round_double (x * y)"
definition of_u64 :: "u64 \<Rightarrow> real64" where "of_u64 x = round_double (unat x)"

definition to_u64 :: "(real64 \<Rightarrow> u64) \<Rightarrow> real64 \<Rightarrow> u64" where
  "to_u64 beyond x = (if x < 2 ^ 64 then of_nat x else beyond x)"

section \<open>The program\<close>

definition NR_SECONDARY_CORES :: nat where "NR_SECONDARY_CORES = 3"
definition N :: nat where "N = 512"

type_synonym matrix = "nat \<Rightarrow> nat \<Rightarrow> real64"

record mem =
  mat_A :: matrix
  mat_B :: matrix
  mat_C :: matrix
  results :: "nat \<Rightarrow> u64"

definition init_matrices :: "(nat \<Rightarrow> u64) \<Rightarrow> mem" where
  "init_matrices res = \<lparr>mat_A = \<lambda>i j. of_u64 (of_nat i + of_nat j), mat_B = \<lambda>i j. of_u64 (of_nat i - of_nat j),
     mat_C = \<lambda>i j. 0, results = res\<rparr>"

definition dot :: "matrix \<Rightarrow> matrix \<Rightarrow> nat \<Rightarrow> nat \<Rightarrow> real64" where
  "dot A B i j = foldl (\<lambda>s k. fadd s (fmul (A i k) (B k j))) 0 [0..<N]"

definition store_entry :: "mem \<Rightarrow> nat \<times> nat \<Rightarrow> mem" where
  "store_entry m = (\<lambda>(i, j). m\<lparr>mat_C := (mat_C m)(i := (mat_C m i)(j := dot (mat_A m) (mat_B m) i j))\<rparr>)"

definition cells :: "nat \<Rightarrow> nat \<Rightarrow> (nat \<times> nat) list" where
  "cells s e = concat (map (\<lambda>i. map (Pair i) [0..<N]) [s..<e])"

definition multiply_rows :: "nat \<Rightarrow> nat \<Rightarrow> mem \<Rightarrow> mem" where
  "multiply_rows s e m = foldl store_entry m (cells s e)"

definition add_entry :: "(real64 \<Rightarrow> u64) \<Rightarrow> matrix \<Rightarrow> u64 \<Rightarrow> nat \<times> nat \<Rightarrow> u64" where
  "add_entry beyond C cs = (\<lambda>(i, j). cs XOR to_u64 beyond (C i j))"

definition run_on_this_cpu :: "(real64 \<Rightarrow> u64) \<Rightarrow> mem \<Rightarrow> mem" where
  "run_on_this_cpu beyond m =
     (let m = multiply_rows 0 N m
      in m\<lparr>results := (results m)(0 := foldl (add_entry beyond (mat_C m)) 0 (cells 0 N))\<rparr>)"

definition global_checksum :: "nat \<Rightarrow> (nat \<Rightarrow> u64) \<Rightarrow> u64" where
  "global_checksum lcpu_count res = foldl (\<lambda>g i. g XOR res i) 0 [0..<lcpu_count]"

section \<open>The cores\<close>

record core =
  mul_todo :: "(nat \<times> nat) list"
  sum_todo :: "(nat \<times> nat) list"
  cs_of :: u64
  stored :: bool

definition share :: "nat \<Rightarrow> nat \<Rightarrow> core" where
  "share s e = \<lparr>mul_todo = cells s e, sum_todo = cells s e, cs_of = 0, stored = False\<rparr>"

definition remote_bounds :: "nat \<Rightarrow> nat \<times> nat" where
  "remote_bounds core =
     (let count = NR_SECONDARY_CORES + 1; chunk = N div count; start = core * chunk
      in (start, if core + 1 = count then N else start + chunk))"

definition remote_fn :: "nat \<Rightarrow> core" where
  "remote_fn core = (case remote_bounds core of (start, e) \<Rightarrow> share start e)"

definition run_core_zero_share :: core where
  "run_core_zero_share = (let count = NR_SECONDARY_CORES + 1; chunk = N div count in share 0 chunk)"

definition all_cores :: "core list" where
  "all_cores = run_core_zero_share # map (\<lambda>i. remote_fn (i + 1)) [0..<NR_SECONDARY_CORES]"

inductive core_step :: "(real64 \<Rightarrow> u64) \<Rightarrow> core list \<times> mem \<Rightarrow> core list \<times> mem \<Rightarrow> bool" for beyond where
  entry: "w < length cs \<Longrightarrow> cs ! w = \<lparr>mul_todo = (i, j) # ps, sum_todo = qs, cs_of = x, stored = False\<rparr> \<Longrightarrow> i < N \<Longrightarrow> j < N \<Longrightarrow>
    core_step beyond (cs, m) (cs[w := \<lparr>mul_todo = ps, sum_todo = qs, cs_of = x, stored = False\<rparr>], store_entry m (i, j))"
| add: "w < length cs \<Longrightarrow> cs ! w = \<lparr>mul_todo = [], sum_todo = (i, j) # qs, cs_of = x, stored = False\<rparr> \<Longrightarrow> i < N \<Longrightarrow> j < N \<Longrightarrow>
    core_step beyond (cs, m) (cs[w := \<lparr>mul_todo = [], sum_todo = qs, cs_of = add_entry beyond (mat_C m) x (i, j), stored = False\<rparr>], m)"
| finish: "w < length cs \<Longrightarrow> cs ! w = \<lparr>mul_todo = [], sum_todo = [], cs_of = x, stored = False\<rparr> \<Longrightarrow>
    core_step beyond (cs, m) (cs[w := \<lparr>mul_todo = [], sum_todo = [], cs_of = x, stored = True\<rparr>], m\<lparr>results := (results m)(w := x)\<rparr>)"

section \<open>Rounding\<close>

lemma sig_shift_small: "x < 2 ^ 53 \<Longrightarrow> sig_shift x = 0"
  by (subst sig_shift.simps) simp

lemma sig_shift_large: "2 ^ 53 \<le> x \<Longrightarrow> sig_shift x = Suc (sig_shift (x div 2))"
  by (subst sig_shift.simps) simp

lemma sig_shift_range: "2 ^ 53 \<le> x \<Longrightarrow> 2 ^ 52 \<le> x div 2 ^ sig_shift x"
proof (induction x rule: sig_shift.induct)
  case (1 x)
  show ?case
  proof (cases "x div 2 < 2 ^ 53")
    case True
    have "2 ^ 52 \<le> x div 2" using div_le_mono [OF 1(2), of 2] by simp
    with True 1(2) show ?thesis by (simp add: sig_shift_large [of x] sig_shift_small [of "x div 2"])
  next
    case False
    with 1 show ?thesis by (simp add: sig_shift_large [of x] div_mult2_eq)
  qed
qed

lemma sig_shift_unique: "2 ^ 52 \<le> x div 2 ^ e \<Longrightarrow> x div 2 ^ e < 2 ^ 53 \<Longrightarrow> 2 ^ 53 \<le> x \<Longrightarrow> sig_shift x = e"
proof (induction e arbitrary: x)
  case (Suc e)
  show ?case
  proof (cases "x div 2 < 2 ^ 53")
    case True
    have "e = 0"
    proof (cases e)
      case (Suc n)
      have "x div 2 div 2 div 2 ^ n \<le> x div 2 div 2" by (rule div_le_dividend)
      moreover have "2 ^ 52 \<le> x div 2 div 2 div 2 ^ n" using Suc.prems(1) by (simp only: Suc power_Suc div_mult2_eq)
      moreover have "x div 2 div 2 < 2 ^ 52" using True by simp
      ultimately show ?thesis by linarith
    qed
    with True Suc(4) show ?thesis by (simp add: sig_shift_large [of x] sig_shift_small [of "x div 2"])
  next
    case False
    with Suc show ?thesis by (simp add: sig_shift_large [of x] div_mult2_eq)
  qed
qed simp

lemma round_small: "x < 2 ^ 53 \<Longrightarrow> round_double x = x"
  by (simp add: round_double_def sig_shift_small)

lemma round_lower: "2 ^ m \<le> x \<Longrightarrow> 2 ^ m \<le> round_double x"
proof (cases "x < 2 ^ 53")
  case False
  assume m: "2 ^ m \<le> x"
  let ?e = "sig_shift x"
  have "2 ^ m \<le> x div 2 ^ ?e * 2 ^ ?e"
  proof (cases "?e \<le> m")
    case True
    then have "2 ^ (m - ?e) \<le> x div 2 ^ ?e" using div_le_mono [OF m, of "2 ^ ?e"] by (simp add: power_diff)
    then have "2 ^ (m - ?e) * 2 ^ ?e \<le> x div 2 ^ ?e * 2 ^ ?e" by (rule mult_right_mono) simp
    with True show ?thesis by (simp flip: power_add)
  next
    case f: False
    have "1 \<le> x div 2 ^ ?e" using sig_shift_range [of x] False by simp
    then have "1 * 2 ^ ?e \<le> x div 2 ^ ?e * 2 ^ ?e" by (rule mult_right_mono) simp
    moreover have "(2 :: nat) ^ m \<le> 2 ^ ?e" using f by (intro power_increasing) simp_all
    ultimately show ?thesis by linarith
  qed
  then show ?thesis by (simp add: round_double_def Let_def)
qed (simp add: round_small)

lemma round_upper:
  assumes "x \<le> c * 2 ^ 75" and "x < 2 ^ 128"
  shows "round_double x \<le> c * 2 ^ 75"
proof (cases "x < 2 ^ 53")
  case False
  let ?e = "sig_shift x"
  have "2 ^ 52 * 2 ^ ?e \<le> x div 2 ^ ?e * 2 ^ ?e" using sig_shift_range [of x] False by (intro mult_right_mono) simp_all
  then have "2 ^ 52 * 2 ^ ?e \<le> x" by (rule order_trans) simp
  with assms(2) have "(2 :: nat) ^ (52 + ?e) < 2 ^ 128" unfolding power_add by simp
  then have "52 + ?e < 128" by (rule power_less_imp_less_exp [rotated]) simp
  then have e: "c * 2 ^ 75 = c * 2 ^ (75 - ?e) * 2 ^ ?e" by (simp add: mult.assoc flip: power_add)
  let ?q = "x div 2 ^ ?e" let ?r = "x mod 2 ^ ?e" let ?y = "c * 2 ^ (75 - ?e)"
  have x: "?q * 2 ^ ?e + ?r \<le> ?y * 2 ^ ?e" using assms(1) unfolding e by (simp only: div_mult_mod_eq)
  then have "?q * 2 ^ ?e \<le> ?y * 2 ^ ?e" by linarith
  then have q: "?q \<le> ?y" by simp
  have "(if 2 ^ ?e < 2 * ?r \<or> 2 ^ ?e = 2 * ?r \<and> odd ?q then ?q + 1 else ?q) \<le> ?y"
  proof (cases "?q = ?y")
    case True
    with x have "?r = 0" by simp
    with q show ?thesis by simp
  qed (use q in auto)
  then have "(if 2 ^ ?e < 2 * ?r \<or> 2 ^ ?e = 2 * ?r \<and> odd ?q then ?q + 1 else ?q) * 2 ^ ?e \<le> ?y * 2 ^ ?e"
    by (rule mult_right_mono) simp
  then show ?thesis unfolding e round_double_def Let_def .
qed (use assms in \<open>simp add: round_small\<close>)

lemma round_near_2_64:
  assumes "0 < d" and "d < 1024"
  shows "round_double (2 ^ 64 - d) = 2 ^ 64"
proof -
  define x where "x = (2 ^ 64 - d :: nat)"
  have x: "x + d = 2 ^ 64" using assms by (simp add: x_def)
  have q: "x div 2 ^ 11 = 2 ^ 53 - 1" using x assms by simp
  have r: "x mod 2 ^ 11 = 2 ^ 11 - d"
    using x q assms minus_div_mult_eq_mod [of x "2 ^ 11"] by simp
  have e: "sig_shift x = 11" using x assms by (intro sig_shift_unique) (simp_all only: q, simp_all)
  have "2 ^ 11 < 2 * (2 ^ 11 - d)" using assms by simp
  then show ?thesis unfolding x_def [symmetric] round_double_def Let_def e q r by simp
qed

section \<open>Rows and their check sums\<close>

definition sum_of :: "(nat \<times> nat \<Rightarrow> u64) \<Rightarrow> (nat \<times> nat) list \<Rightarrow> u64" where
  "sum_of f ps = foldr (\<lambda>p x. f p XOR x) ps 0"

lemma sum_of_simps [simp]: "sum_of f [] = 0" "sum_of f (p # ps) = f p XOR sum_of f ps"
  by (simp_all add: sum_of_def)

lemma sum_of_append: "sum_of f (ps @ qs) = sum_of f ps XOR sum_of f qs"
  by (induction ps) (simp_all add: xor.assoc)

lemma sum_of_cong: "(\<And>p. p \<in> set ps \<Longrightarrow> f p = g p) \<Longrightarrow> sum_of f ps = sum_of g ps"
  by (induction ps) simp_all

lemma foldl_add_entry: "foldl (add_entry beyond C) x ps = x XOR sum_of (\<lambda>(i, j). to_u64 beyond (C i j)) ps"
  by (induction ps arbitrary: x) (simp_all add: add_entry_def case_prod_beta xor.assoc)

lemma set_cells: "(i, j) \<in> set (cells s e) \<longleftrightarrow> s \<le> i \<and> i < e \<and> j < N"
  by (force simp: cells_def)

lemma cells_append: "s \<le> m \<Longrightarrow> m \<le> e \<Longrightarrow> cells s m @ cells m e = cells s e"
  using upt_add_eq_append [of s m "e - m"] by (simp add: cells_def)

lemma length_cells: "length (cells s e) = (e - s) * N"
  by (induction e) (auto simp: cells_def Suc_diff_le)

lemma store_entry_sel [simp]:
  "mat_A (store_entry m p) = mat_A m" "mat_B (store_entry m p) = mat_B m" "results (store_entry m p) = results m"
  "mat_C (store_entry m p) i j = (if p = (i, j) then dot (mat_A m) (mat_B m) i j else mat_C m i j)"
  by (auto simp: store_entry_def split: prod.splits)

lemma foldl_store_entry:
  "mat_A (foldl store_entry m ps) = mat_A m \<and> mat_B (foldl store_entry m ps) = mat_B m \<and> results (foldl store_entry m ps) = results m \<and>
   mat_C (foldl store_entry m ps) i j = (if (i, j) \<in> set ps then dot (mat_A m) (mat_B m) i j else mat_C m i j)"
  by (induction ps arbitrary: m) auto

lemma run_on_this_cpu_result:
  "results (run_on_this_cpu beyond m) 0 = sum_of (\<lambda>(i, j). to_u64 beyond (dot (mat_A m) (mat_B m) i j)) (cells 0 N)"
proof -
  have "mat_C (multiply_rows 0 N m) i j = dot (mat_A m) (mat_B m) i j" if "(i, j) \<in> set (cells 0 N)" for i j
    using that foldl_store_entry [of m "cells 0 N" i j] by (simp add: multiply_rows_def)
  then show ?thesis
    by (auto simp: run_on_this_cpu_def Let_def foldl_add_entry intro!: sum_of_cong)
qed

section \<open>What every step keeps\<close>

definition core_weight :: "core \<Rightarrow> nat" where
  "core_weight t = length (mul_todo t) + length (sum_todo t) + (if stored t then 0 else 1)"

definition cores_weight :: "core list \<Rightarrow> nat" where
  "cores_weight cs = sum_list (map core_weight cs)"

lemma cores_weight_update:
  "w < length cs \<Longrightarrow> cores_weight (cs[w := t]) + core_weight (cs ! w) = cores_weight cs + core_weight t"
proof (induction cs arbitrary: w)
  case (Cons u cs)
  then show ?case by (cases w) (auto simp: cores_weight_def)
qed simp

lemma weight_step: "core_step beyond st st' \<Longrightarrow> cores_weight (fst st) = Suc (cores_weight (fst st'))"
proof (induction rule: core_step.induct)
  case (entry w cs i j ps qs x m)
  then show ?case using cores_weight_update [of w cs "\<lparr>mul_todo = ps, sum_todo = qs, cs_of = x, stored = False\<rparr>"] by (simp add: core_weight_def)
next
  case (add w cs i j qs x m)
  then show ?case
    using cores_weight_update [of w cs "\<lparr>mul_todo = [], sum_todo = qs, cs_of = add_entry beyond (mat_C m) x (i, j), stored = False\<rparr>"]
    by (simp add: core_weight_def)
next
  case (finish w cs x m)
  then show ?case using cores_weight_update [of w cs "\<lparr>mul_todo = [], sum_todo = [], cs_of = x, stored = True\<rparr>"] by (simp add: core_weight_def)
qed

lemma weight_steps: "(core_step beyond ^^ n) st st' \<Longrightarrow> cores_weight (fst st) = n + cores_weight (fst st')"
  by (induction n arbitrary: st') (auto dest: weight_step)

text \<open>
  A core with the share \<open>ps\<close>: what it has left is part of its share, what it no longer has to store is
  in the product, and its check sum so far together with that of the rest is the check sum of its share.
\<close>

definition core_ok :: "(nat \<times> nat \<Rightarrow> u64) \<Rightarrow> (nat \<times> nat \<Rightarrow> bool) \<Rightarrow> (nat \<times> nat) list \<Rightarrow> core \<Rightarrow> u64 \<Rightarrow> bool" where
  "core_ok f have ps t res \<longleftrightarrow>
     set (mul_todo t) \<subseteq> set ps \<and> set (sum_todo t) \<subseteq> set ps \<and> (\<forall>p \<in> set ps - set (mul_todo t). have p) \<and>
     cs_of t XOR sum_of f (sum_todo t) = sum_of f ps \<and>
     (stored t \<longrightarrow> mul_todo t = [] \<and> sum_todo t = [] \<and> res = sum_of f ps)"

definition cores_inv :: "(real64 \<Rightarrow> u64) \<Rightarrow> matrix \<Rightarrow> matrix \<Rightarrow> (nat \<times> nat) list list \<Rightarrow> core list \<times> mem \<Rightarrow> bool" where
  "cores_inv beyond A B shares = (\<lambda>(cs, m).
     mat_A m = A \<and> mat_B m = B \<and> length cs = length shares \<and> (\<forall>w \<ge> length shares. results m w = 0) \<and>
     (\<forall>w < length shares. core_ok (\<lambda>(i, j). to_u64 beyond (dot A B i j)) (\<lambda>(i, j). mat_C m i j = dot A B i j)
        (shares ! w) (cs ! w) (results m w)))"

lemma core_ok_mono: "core_ok f have ps t res \<Longrightarrow> (\<And>p. have p \<Longrightarrow> have' p) \<Longrightarrow> core_ok f have' ps t res"
  by (auto simp: core_ok_def)

lemma cores_inv_update:
  assumes "cores_inv beyond A B shares (cs, m)" and "w < length cs"
    and "mat_A m' = mat_A m" and "mat_B m' = mat_B m" and "results m' = (results m)(w := r)"
    and "\<And>i j. mat_C m i j = dot A B i j \<Longrightarrow> mat_C m' i j = dot A B i j"
    and "core_ok (\<lambda>(i, j). to_u64 beyond (dot A B i j)) (\<lambda>(i, j). mat_C m i j = dot A B i j) (shares ! w) (cs ! w) (results m w) \<Longrightarrow>
      core_ok (\<lambda>(i, j). to_u64 beyond (dot A B i j)) (\<lambda>(i, j). mat_C m' i j = dot A B i j) (shares ! w) t r"
  shows "cores_inv beyond A B shares (cs[w := t], m')"
proof -
  have "core_ok (\<lambda>(i, j). to_u64 beyond (dot A B i j)) (\<lambda>(i, j). mat_C m' i j = dot A B i j)
      (shares ! v) (cs[w := t] ! v) (results m' v)" if "v < length shares" for v
  proof (cases "v = w")
    case False
    with that assms show ?thesis by (auto simp: cores_inv_def intro: core_ok_mono)
  qed (use that assms in \<open>auto simp: cores_inv_def\<close>)
  with assms show ?thesis by (auto simp: cores_inv_def)
qed

lemma cores_inv_step: "core_step beyond st st' \<Longrightarrow> cores_inv beyond A B shares st \<Longrightarrow> cores_inv beyond A B shares st'"
proof (induction rule: core_step.induct)
  case (entry w cs i j ps qs x m)
  then have "mat_A m = A" "mat_B m = B" by (auto simp: cores_inv_def)
  with entry(1,2) show ?case
    by (intro cores_inv_update [OF entry(5,1), where r = "results m w"]) (auto simp: core_ok_def)
next
  case (add w cs i j qs x m)
  have "add_entry beyond (mat_C m) x (i, j) XOR sum_of f qs = x XOR (f (i, j) XOR sum_of f qs)" if "f (i, j) = to_u64 beyond (mat_C m i j)" for f
    using that by (simp add: add_entry_def xor.assoc)
  with add(1,2) show ?case
    by (intro cores_inv_update [OF add(5,1), where r = "results m w"]) (auto simp: core_ok_def)
next
  case (finish w cs x m)
  then show ?case by (intro cores_inv_update [OF finish(3,1), where r = x]) (auto simp: core_ok_def)
qed

lemma cores_inv_steps: "(core_step beyond ^^ n) st st' \<Longrightarrow> cores_inv beyond A B shares st \<Longrightarrow> cores_inv beyond A B shares st'"
  by (induction n arbitrary: st') (auto dest: cores_inv_step)

section \<open>All cores together\<close>

definition shares :: "(nat \<times> nat) list list" where
  "shares = [cells 0 128, cells 128 256, cells 256 384, cells 384 512]"

lemma all_cores_shares: "all_cores = map (\<lambda>ps. \<lparr>mul_todo = ps, sum_todo = ps, cs_of = 0, stored = False\<rparr>) shares"
proof -
  have "[0..<NR_SECONDARY_CORES] = [0, 1, 2]" by (simp add: NR_SECONDARY_CORES_def upt_rec)
  moreover have "remote_bounds 1 = (128, 256)" "remote_bounds (Suc (Suc 0)) = (256, 384)" "remote_bounds 3 = (384, 512)"
    by (simp_all add: remote_bounds_def NR_SECONDARY_CORES_def N_def)
  moreover have "run_core_zero_share = share 0 128" by (simp add: run_core_zero_share_def NR_SECONDARY_CORES_def N_def)
  ultimately show ?thesis by (simp add: all_cores_def remote_fn_def shares_def share_def)
qed

lemma concat_shares: "concat shares = cells 0 N"
  by (simp add: shares_def N_def cells_append [of 256 384 512, simplified] cells_append [of 128 256 512, simplified]
      cells_append [of 0 128 512, simplified])

lemma shares_inside: "w < length shares \<Longrightarrow> (i, j) \<in> set (shares ! w) \<Longrightarrow> i < N \<and> j < N"
  using concat_shares set_cells [of i j 0 N] by (metis UN_I nth_mem set_concat)

lemma all_cores_weight: "cores_weight all_cores = 524292"
  by (simp add: all_cores_shares cores_weight_def core_weight_def shares_def length_cells N_def)

lemma all_cores_inv: "results m = (\<lambda>_. 0) \<Longrightarrow> cores_inv beyond (mat_A m) (mat_B m) shares (all_cores, m)"
  by (simp add: cores_inv_def core_ok_def all_cores_shares)

lemma cores_can_step:
  assumes inv: "cores_inv beyond A B shares (cs, m)" and "0 < cores_weight cs"
  shows "\<exists>st. core_step beyond (cs, m) st"
proof -
  obtain t where "t \<in> set cs" "core_weight t \<noteq> 0" using assms(2) by (auto simp: cores_weight_def simp flip: neq0_conv)
  then obtain w where w: "w < length cs" "core_weight (cs ! w) \<noteq> 0" by (metis in_set_conv_nth)
  obtain ps qs x b where t: "cs ! w = \<lparr>mul_todo = ps, sum_todo = qs, cs_of = x, stored = b\<rparr>" by (cases "cs ! w")
  have len: "w < length shares" using inv w(1) by (simp add: cores_inv_def)
  have b: "\<not> b" using inv w len t by (auto simp: cores_inv_def core_ok_def core_weight_def)
  have "set ps \<union> set qs \<subseteq> set (shares ! w)" using inv len t unfolding cores_inv_def core_ok_def by force
  then have left: "i < N \<and> j < N" if "(i, j) \<in> set ps \<union> set qs" for i j
    using that shares_inside [OF len, of i j] by blast
  consider "ps \<noteq> []" | "ps = []" "qs \<noteq> []" | "ps = []" "qs = []" by blast
  then show ?thesis
  proof cases
    case 1
    then obtain i j ps' where "ps = (i, j) # ps'" by (cases ps) auto
    with t b left [of i j] w(1) show ?thesis by (auto intro!: exI entry)
  next
    case 2
    then obtain i j qs' where "qs = (i, j) # qs'" by (cases qs) auto
    with 2 t b left [of i j] w(1) show ?thesis by (auto intro!: exI add)
  next
    case 3
    with t b w(1) show ?thesis by (auto intro!: exI finish)
  qed
qed

lemma foldl_xor: "foldl (\<lambda>g i. g XOR f i) x is = x XOR foldl (\<lambda>g i. g XOR f i) (0 :: u64) is"
proof (induction "is" arbitrary: x)
  case (Cons i "is")
  show ?case by (simp add: Cons [of "x XOR f i"] Cons [of "f i"] xor.assoc)
qed simp

lemma global_checksum_tail: "a \<le> n \<Longrightarrow> (\<And>i. a \<le> i \<Longrightarrow> res i = 0) \<Longrightarrow> global_checksum n res = global_checksum a res"
  by (induction n rule: dec_induct) (simp_all add: global_checksum_def)

lemma cores_end:
  assumes inv: "cores_inv beyond A B shares (cs, m)" and "cores_weight cs = 0" and "4 \<le> n"
  shows "(\<forall>i < N. \<forall>j < N. mat_C m i j = dot A B i j) \<and>
    global_checksum n (results m) = sum_of (\<lambda>(i, j). to_u64 beyond (dot A B i j)) (cells 0 N)"
proof -
  let ?f = "\<lambda>(i, j). to_u64 beyond (dot A B i j)"
  have len: "length cs = 4" "length shares = 4" using inv by (simp_all add: cores_inv_def shares_def)
  have fin: "mul_todo (cs ! w) = [] \<and> stored (cs ! w)" if "w < 4" for w
    using that assms(2) len(1) nth_mem [of w cs] by (auto simp: cores_weight_def core_weight_def split: if_split_asm)
  then have ok: "results m w = sum_of ?f (shares ! w)" "\<And>i j. (i, j) \<in> set (shares ! w) \<Longrightarrow> mat_C m i j = dot A B i j" if "w < 4" for w
    using that inv len fin [OF that] by (auto simp: cores_inv_def core_ok_def core_weight_def split: if_split_asm)
  have "mat_C m i j = dot A B i j" if "i < N" "j < N" for i j
  proof -
    have "(i, j) \<in> set (concat shares)" using that by (simp only: concat_shares set_cells) simp
    then obtain w where "w < 4" "(i, j) \<in> set (shares ! w)" using len(2) unfolding set_concat UN_iff by (metis in_set_conv_nth)
    then show ?thesis by (rule ok(2))
  qed
  moreover have "global_checksum n (results m) = global_checksum 4 (results m)"
    using inv assms(3) len by (intro global_checksum_tail) (auto simp: cores_inv_def)
  moreover have "global_checksum 4 (results m) = sum_of ?f (concat shares)"
    by (simp add: global_checksum_def numeral_eq_Suc ok) (simp add: shares_def sum_of_append xor.assoc)
  ultimately show ?thesis by (simp add: concat_shares)
qed

text \<open>
  C37. The multiplication on four cores.  Let the matrices be any and the stored check sums zero.  In
  whatever order the cores run, they take exactly 524292 steps: before that some core can take a
  step, and after it the product is that of the two matrices in every entry, and the global check
  sum over at least four cores is the check sum that one core computes alone, whatever a conversion
  out of range gives.
\<close>

theorem matrix_cores:
  assumes "results m0 = (\<lambda>_. 0)" and "4 \<le> lcpu_count"
  shows "\<forall>n cs m. (core_step beyond ^^ n) (all_cores, m0) (cs, m) \<longrightarrow>
    n \<le> 524292 \<and>
    (n < 524292 \<longrightarrow> (\<exists>st. core_step beyond (cs, m) st)) \<and>
    (n = 524292 \<longrightarrow> (\<forall>i < N. \<forall>j < N. mat_C m i j = dot (mat_A m0) (mat_B m0) i j) \<and>
      global_checksum lcpu_count (results m) = results (run_on_this_cpu beyond m0) 0)"
proof (intro allI impI)
  fix n cs m assume run: "(core_step beyond ^^ n) (all_cores, m0) (cs, m)"
  have w: "524292 = n + cores_weight cs" using weight_steps [OF run] by (simp add: all_cores_weight)
  have inv: "cores_inv beyond (mat_A m0) (mat_B m0) shares (cs, m)" by (rule cores_inv_steps [OF run all_cores_inv [OF assms(1)]])
  show "n \<le> 524292 \<and> (n < 524292 \<longrightarrow> (\<exists>st. core_step beyond (cs, m) st)) \<and>
    (n = 524292 \<longrightarrow> (\<forall>i < N. \<forall>j < N. mat_C m i j = dot (mat_A m0) (mat_B m0) i j) \<and>
      global_checksum lcpu_count (results m) = results (run_on_this_cpu beyond m0) 0)"
    using w cores_can_step [OF inv] cores_end [OF inv _ assms(2)] by (auto simp: run_on_this_cpu_result)
qed

text \<open>The matrices of \<open>main\<close>.\<close>

theorem matrix_cores_witness:
  "{global_checksum 4 (results m) | cs m. (core_step (\<lambda>_. - 1) ^^ 524292) (all_cores, init_matrices (\<lambda>_. 0)) (cs, m)}
    \<subseteq> {results (run_on_this_cpu (\<lambda>_. - 1) (init_matrices (\<lambda>_. 0))) 0}"
  using matrix_cores [of "init_matrices (\<lambda>_. 0)" 4 "\<lambda>_. - 1"] by (auto simp: init_matrices_def)

section \<open>The entries of the product\<close>

definition entry_term :: "nat \<Rightarrow> nat \<Rightarrow> nat \<Rightarrow> real64" where
  "entry_term i j k = fmul (mat_A (init_matrices (\<lambda>_. 0)) i k) (mat_B (init_matrices (\<lambda>_. 0)) k j)"

definition partial_sum :: "nat \<Rightarrow> nat \<Rightarrow> nat \<Rightarrow> real64" where
  "partial_sum i j n = foldl (\<lambda>s k. fadd s (entry_term i j k)) 0 [0..<n]"

lemma partial_sum_simps [simp]:
  "partial_sum i j 0 = 0" "partial_sum i j (Suc n) = fadd (partial_sum i j n) (entry_term i j n)"
  by (simp_all add: partial_sum_def)

lemma dot_partial_sum: "dot (mat_A (init_matrices res)) (mat_B (init_matrices res)) i j = partial_sum i j N"
  by (simp add: dot_def partial_sum_def entry_term_def init_matrices_def)

lemma init_A: "i < N \<Longrightarrow> k < N \<Longrightarrow> mat_A (init_matrices res) i k = i + k"
proof -
  assume "i < N" "k < N"
  then have "i + k < 2 ^ 53" by (simp add: N_def)
  moreover from this have "unat (of_nat i + of_nat k :: u64) = i + k"
    by (simp flip: of_nat_add add: unat_of_nat)
  ultimately show ?thesis by (simp add: init_matrices_def of_u64_def round_small)
qed

lemma init_B: "k < N \<Longrightarrow> j < N \<Longrightarrow> mat_B (init_matrices res) k j = (if k < j then 2 ^ 64 else k - j)"
proof (cases "k < j")
  case True
  assume "k < N" "j < N"
  with True have d: "0 < j - k" "j - k < 1024" by (simp_all add: N_def)
  have "(of_nat (2 ^ 64 - (j - k)) :: u64) = of_nat (2 ^ 64) - of_nat (j - k)" using d by (intro of_nat_diff) simp
  then have "(of_nat k - of_nat j :: u64) = of_nat (2 ^ 64 - (j - k))" using True by (simp add: of_nat_diff)
  then have "unat (of_nat k - of_nat j :: u64) = 2 ^ 64 - (j - k)" using d by (simp only: unat_of_nat) simp
  with True show ?thesis using round_near_2_64 [OF d] by (simp add: init_matrices_def of_u64_def)
next
  case False
  assume "k < N" "j < N"
  with False have diff: "(of_nat k - of_nat j :: u64) = of_nat (k - j)" by (simp add: of_nat_diff)
  have "k - j < 2 ^ 53" using \<open>k < N\<close> by (simp add: N_def)
  then have "unat (of_nat k - of_nat j :: u64) = k - j" unfolding diff by (simp only: unat_of_nat) simp
  with \<open>k - j < 2 ^ 53\<close> show ?thesis using False by (simp add: init_matrices_def of_u64_def round_small del: of_nat_diff)
qed

lemma entry_term_value:
  "i < N \<Longrightarrow> j < N \<Longrightarrow> k < N \<Longrightarrow> entry_term i j k = round_double ((i + k) * (if k < j then 2 ^ 64 else k - j))"
  by (simp add: entry_term_def fmul_def init_A init_B)

lemma entry_term_upper:
  assumes "i < N" "j < N" "k < N"
  shows "entry_term i j k \<le> 2 ^ 75"
proof -
  have "(i + k) * (if k < j then 2 ^ 64 else k - j) \<le> 2 ^ 11 * 2 ^ 64"
    using assms by (intro mult_le_mono) (auto simp: N_def)
  then show ?thesis using round_upper [of _ 1] by (simp add: entry_term_value assms)
qed

lemma partial_sum_upper: "i < N \<Longrightarrow> j < N \<Longrightarrow> n \<le> N \<Longrightarrow> partial_sum i j n \<le> n * 2 ^ 75"
proof (induction n)
  case (Suc n)
  then have "partial_sum i j n + entry_term i j n \<le> Suc n * 2 ^ 75"
    using entry_term_upper [of i j n] by simp
  moreover from this have "partial_sum i j n + entry_term i j n < 2 ^ 128" using Suc(4) by (simp add: N_def)
  ultimately show ?case unfolding partial_sum_simps fadd_def by (rule round_upper)
qed simp

lemma partial_sum_grows: "2 ^ m \<le> partial_sum i j k \<Longrightarrow> k \<le> n \<Longrightarrow> 2 ^ m \<le> partial_sum i j n"
  by (induction n) (auto simp: fadd_def le_Suc_eq intro: round_lower)

lemma partial_sum_term: "2 ^ m \<le> entry_term i j k \<Longrightarrow> k < n \<Longrightarrow> 2 ^ m \<le> partial_sum i j n"
  by (rule partial_sum_grows [of _ _ _ "Suc k"]) (auto simp: fadd_def intro: round_lower)

lemma partial_sum_small:
  assumes "\<And>k. k < n \<Longrightarrow> entry_term i j k \<le> 2 ^ 20" and "n \<le> N"
  shows "partial_sum i j n \<le> n * 2 ^ 20"
  using assms
proof (induction n)
  case (Suc n)
  then have "partial_sum i j n + entry_term i j n \<le> Suc n * 2 ^ 20" using Suc(2) [of n] by force
  with Suc(3) show ?case by (simp add: fadd_def round_small N_def)
qed simp

text \<open>
  C38. The check sums of the matrix program rest on undefined conversions.  Every entry of the product of
  the two matrices of \<open>main\<close> is at most \<open>2 ^ 84\<close>, and it is \<open>2 ^ 64\<close> or more, so that its conversion to a 64-bit integer is undefined,
  exactly in the columns from 2 on and in column 1 below the first row: the
  difference \<open>i - j\<close> of unsigned numbers wraps where \<open>i < j\<close>, and as a double it is \<open>2 ^ 64\<close>.
\<close>

theorem checksum_conversions:
  assumes "i < N" and "j < N"
  shows "dot (mat_A (init_matrices res)) (mat_B (init_matrices res)) i j \<le> 2 ^ 84 \<and>
    (2 ^ 64 \<le> dot (mat_A (init_matrices res)) (mat_B (init_matrices res)) i j \<longleftrightarrow> 2 \<le> j \<or> j = 1 \<and> 0 < i)"
proof -
  have "2 ^ 64 \<le> partial_sum i j N" if "k < j" "0 < i + k" for k
  proof (rule partial_sum_term)
    have "1 * 2 ^ 64 \<le> (i + k) * 2 ^ 64" using that(2) by (intro mult_right_mono) auto
    then show "2 ^ 64 \<le> entry_term i j k" using that(1) assms by (simp add: entry_term_value round_lower [of 64, simplified])
  qed (use that assms in simp)
  from this [of 0] this [of 1] have "2 ^ 64 \<le> partial_sum i j N" if "2 \<le> j \<or> j = 1 \<and> 0 < i" using that by auto
  moreover have "partial_sum i j N < 2 ^ 64" if no: "\<not> (2 \<le> j \<or> j = 1 \<and> 0 < i)"
  proof -
    have "entry_term i j k \<le> 2 ^ 20" if "k < N" for k
    proof -
      have "i + k \<le> 2 ^ 10" "k - j \<le> 2 ^ 10" using that assms by (simp_all add: N_def)
      then have "(i + k) * (k - j) \<le> 2 ^ 10 * 2 ^ 10" by (rule mult_le_mono)
      moreover have "i + k = 0" if "k < j" using that no by auto
      ultimately have "(i + k) * (if k < j then 2 ^ 64 else k - j) \<le> 2 ^ 10 * 2 ^ 10" by (cases "k < j") simp_all
      then show ?thesis using that assms by (simp add: entry_term_value round_small)
    qed
    then show ?thesis using partial_sum_small [of N i j] by (simp add: N_def)
  qed
  moreover have "partial_sum i j N \<le> 2 ^ 84" using partial_sum_upper [OF assms order_refl] by (simp add: N_def)
  ultimately show ?thesis unfolding dot_partial_sum by (meson not_le)
qed

text \<open>The entry in the first row and the third column.\<close>

theorem checksum_conversions_witness:
  "2 ^ 64 \<le> dot (mat_A (init_matrices (\<lambda>_. 0))) (mat_B (init_matrices (\<lambda>_. 0))) 0 2"
  using checksum_conversions [of 0 2 "\<lambda>_. 0"] by (simp add: N_def)

end
