(* ===== verification/Spec2Isabelle.thy ===== *)
theory Spec2Isabelle
  imports NameService MacAddress UsbHub StackUse Setup Lcpu RaspiNet LanFrames HeapObjects NetApp MatrixSmp
begin

text \<open>
  A verification development for the Raspberry Pi 3B platform of Unikraft: the platform code at the top
  of the repository, the network driver in \<^verbatim>\<open>drivers\<close> and the USB host stack in
  \<^verbatim>\<open>eth\<close> with which that driver reaches the network chip of the board.

  The program.  \<^verbatim>\<open>setup.c\<close> is entered from the assembly code: it sets up the console, the list of
  memory regions and the interrupt controller, starts the other cores and enters the kernel.
  \<^verbatim>\<open>irq.c\<close> dispatches interrupts, \<^verbatim>\<open>time.c\<close> reads the timers,
  \<^verbatim>\<open>lcpu_arch_rpi.c\<close> hands a function and its argument to a core through the local mailboxes.
  \<^verbatim>\<open>drivers/raspi_net.c\<close> is a network device of Unikraft over the interface in
  \<^verbatim>\<open>eth/lib/uspilibrary.c\<close>.  Behind the interface there is the host controller driver
  (\<^verbatim>\<open>dwhcidevice.c\<close>, with register objects, transfer stages and frame schedulers), above it the
  devices and their functions (\<^verbatim>\<open>usbdevice.c\<close>, \<^verbatim>\<open>usbfunction.c\<close>), of which there are three
  kinds with code: hubs and the two network chips LAN7800 and SMSC951x.  A device is found by
  the root port or a hub, gets an address, is asked for its descriptors (which
  \<^verbatim>\<open>usbconfigparser.c\<close> divides), and a factory makes its functions by name; a hub function
  enumerates the devices behind it in the same way.  The drivers of the chips register
  themselves with the device name service, where the interface finds them.

  How C is modelled.  A function of the source is a \<open>prog\<close> of the theory Prelude: from a state to a
  value and a new state, or to a reason to stop (a failed assertion, a crash, a null pointer, a
  division by zero, an access outside a buffer, an endless loop, or an answer of the hardware that
  does not come).  Integers are words of their width.  Structures are records; objects on the heap
  live in stores indexed by their address, \<open>malloc\<close> takes the next block of a list of free ones and
  \<open>free\<close> puts the block on a list of freed ones, so leaks and double frees can be stated.  The buffer
  of a string object is part of the object, which counts the buffers taken and not given back.  An index outside
  an array of an object (functions of a device, ports of a hub) stops the model and is noted in its state
  (\<open>array_overrun\<close>), so that the absence of such accesses can be stated.  Registers
  of the hardware are reads from a list of answers and writes to a log; the memory for DMA is
  a function from addresses to bytes.  The class pointers of the C objects (the configure
  operation of a function) are a datatype of the operations there are.

  Theories, from the ground up.
  \<^item> Prelude, Machine, Services: outcomes and their weakest preconditions; registers, memory,
    sleeping; log, delays, critical sections, caches, interrupt enable (\<^verbatim>\<open>memio.c\<close>,
    \<^verbatim>\<open>logger.c\<close>, \<^verbatim>\<open>uspibind.c\<close>, \<^verbatim>\<open>synchronize.c\<close>, \<^verbatim>\<open>interrupt.c\<close>).
  \<^item> CString, NameService, MacAddress, ConfigParser: string formatter, name service, MAC address,
    parser of configuration descriptors; independent objects with their own state.
  \<^item> Mailbox, Timer: the mailbox with the firmware (\<^verbatim>\<open>bcmmailbox.c\<close>,
    \<^verbatim>\<open>bcmpropertytags.c\<close>, \<^verbatim>\<open>mbox.c\<close>), kernel timers (\<^verbatim>\<open>timer2.c\<close>).
  \<^item> Endpoint, DwcRegister, FrameSched, StageData, UsbWorld: endpoints and requests, register
    objects, the three frame schedulers, the data of a transfer stage, and the state of the host.
  \<^item> DwhciInit, DwhciChannel: \<^verbatim>\<open>dwhcidevice.c\<close>, from its initialisation to channels, the
    interrupt handler and blocking requests.  DwhciHost, DwhciTransfer, DwhciRequest, HostFrame:
    what a request leaves behind, what it returns, and what it does not touch.
  \<^item> UsbTree, UsbString, UsbFunction, UsbClasses, UsbDevice, UsbHub: the objects above the host and
    their operations.  UsbFrame, DeviceNames, BusAddresses, HeapObjects: typing of the objects, the
    class made for a device, addresses and translators, and the blocks of memory given back.
  \<^item> LanChips, Lan7800, Smsc951x, LanFrames: the drivers of the chips, and a frame from buffer to
    buffer.  UspiLibrary, RaspiNet: the interface and the network device.
  \<^item> Irq, Console, SysTime, StackUse, Lcpu, Setup: the platform without the USB stack.
  \<^item> ByteBuffer, Crc32, Lz77, Tea, NetApp: the parts and the whole of the network measurement under
    \<^verbatim>\<open>measurements/smp/network-app\<close>, a client that compresses and encrypts data on all cores and a
    server that checks, decrypts (by threads over one buffer) and expands it.
  \<^item> MatrixSmp: the multiplication of matrices on four cores
    (\<^verbatim>\<open>measurements/smp/matrix-multiplication\<close>), with doubles rounded as the processor does.

  What the lemmas show.
  \<^item> A request of the host controller ends in a state that is ready for the next one, whatever the
    hardware answers; when the hardware answers as documented, requests return, with the length
    that was transferred, and memory holds the setup packet and the data.  The results on control and bulk transfers
    are used for what is above: addresses, and frames sent and received.
  \<^item> Through the enumeration of devices no index leaves the array it is for, whatever counts the devices
    report, and no address beyond those of the bus is given.  The destructors of the objects return every
    block once, with the exceptions stated; reading a string keeps the balance of blocks and of text buffers.
  \<^item> The exchange with the firmware: what a property tag call returns, and when, in terms of the
    words and the memory the firmware has written.
  \<^item> Parsers and formatters agree with abstract specifications (a list of descriptors, a text), stay in
    their buffers and end; where the code does not end or leaves its buffer the inputs are
    characterised.
  \<^item> The network measurement: the check sum sees every change within four bytes, expanding undoes
    compressing where the code does not copy between overlapping bytes, threads in any order undo the
    encryption; two properties show where it fails (data that cannot be compressed, shares that are not
    whole blocks).  A transmission from end to end delivers only a first part of
    every slice, because the compression never gets the room it needs; it is refused when the connection splits
    a word of the header.
  \<^item> The matrix program: in any order the four cores compute the product and the check sum that one core
    computes; which entries are beyond the integers they are converted to.
  \<^item> The platform: memory regions do not overlap, a pending line is dispatched once, the timer value is
    one the counter had, a core receives the function and argument it was given.

  Locales.  \<open>registry\<close> (a store of names with the law of what is found after an addition),
  \<open>object_types\<close> (an invariant that every operation of the host and of the objects keeps) and
  \<open>heap_object\<close> (a constructor and a destructor that take and give back the same blocks) are the
  interfaces; each is interpreted on the definitions of the components that provide it.

  Loops and bounds.  Loops over bounded ranges are structural recursions; loops that poll the hardware
  are recursions over the answers, or count down as the code does.  Loops that may not end (the
  parser, the searching of descriptors) are partial functions, and properties say when they
  return: a property of ConfigParser names the inputs on which the constructor of the parser loops, exactly.
  The recursion of devices through hubs is cut off at a depth, the number of interrupts that
  are to come; every level uses an interrupt before it goes down, and
  the lemma \<open>device_configure_recursion\<close> shows that the cut is never reached: the equation of the source holds
  without it.  That the recursion ends is thus a consequence of a finite list of interrupts, not of the code.

  Not modelled.  The assembly files (\<^verbatim>\<open>entry.S\<close>, \<^verbatim>\<open>start.S\<close>, \<^verbatim>\<open>irq_asm.S\<close>,
  \<^verbatim>\<open>mm.S\<close>, \<^verbatim>\<open>raspi_info_asm.S\<close>, the linker script), whose effect on the C code is
  a parameter where the C code calls it.  Libraries of Unikraft (network device, rings, allocators,
  scheduler, generic timer) are parameters.  Classes of USB devices that have headers but no code
  (keyboards, mice, mass storage, game pads, MIDI) are parameters.  Interrupts arrive where the code
  waits for them, as a list; preemption at other places and the weak memory order of the processor
  are not modelled.  The trees under \<^verbatim>\<open>measurements/build\<close> are copies of Unikraft and of kconfig
  that are kept to repeat measurements, and are not the code of this platform.
  Of the other programs under \<^verbatim>\<open>measurements\<close> the download programs are not modelled: they are socket
  input and output without logic of their own.
\<close>

end
